(* ===== verification/Prelude.thy ===== *)
theory Prelude
  imports Main "HOL-Library.Word" "HOL-Library.AList"
begin

text \<open>
  Shared vocabulary of the development: instants and durations, the result type of a
  fallible Go function, the \<open>int32\<close> conversion of the Postgres adapters, and the
  generic lemmas on maps and lists that several components use.
\<close>

named_theorems go_simps \<open>evaluation of the modelled Go primitives\<close>

section \<open>Time\<close>

text \<open>
  \<open>time.Time\<close> is an instant in nanoseconds since the Unix epoch and
  \<open>time.Duration\<close> a number of nanoseconds. The zero \<open>time.Time\<close> is the first
  of January of year 1, so \<open>IsZero\<close> compares with that instant.
\<close>

type_synonym time = int
type_synonym duration = int

definition second :: duration where
  "second = 1000000000"

definition minute :: duration where
  "minute = 60 * second"

definition hour :: duration where
  "hour = 60 * minute"

definition zero_time :: time where
  "zero_time = - 62135596800 * second"

text \<open>\<open>time.Unix(sec, 0)\<close> and \<open>t.Unix()\<close> (the floor of the instant in seconds).\<close>

definition unix :: "int \<Rightarrow> time" where
  "unix sec = sec * second"

definition to_unix :: "time \<Rightarrow> int" where
  "to_unix t = t div second"

lemma second_pos [simp]: "0 < second"
  by (simp add: second_def)

lemma to_unix_unix [simp]: "to_unix (unix s) = s"
  by (simp add: to_unix_def unix_def second_def)

lemma unix_to_unix_le: "unix (to_unix t) \<le> t"
  by (simp add: to_unix_def unix_def second_def)

lemma unix_to_unix_gt: "t < unix (to_unix t) + second"
  by (simp add: to_unix_def unix_def second_def)

section \<open>Machine integers\<close>

text \<open>
  Go's \<open>int\<close> is 64 bits wide on the platforms this server targets, and the adapters
  narrow it to \<open>int32\<close> for Postgres columns: \<open>int32(x)\<close> keeps the low 32 bits
  and reads them in two's complement.
\<close>

definition int32 :: "int \<Rightarrow> int" where
  "int32 x = sint (word_of_int x :: 32 word)"

lemma int32_id: "- (2 ^ 31) \<le> x \<Longrightarrow> x < 2 ^ 31 \<Longrightarrow> int32 x = x"
  by (simp add: int32_def int_word_sint)

definition int64 :: "int \<Rightarrow> int" where
  "int64 x = sint (word_of_int x :: 64 word)"

lemma int64_bounds: "- (2 ^ 63) \<le> int64 x \<and> int64 x < 2 ^ 63"
  using sint_range_size [of "word_of_int x :: 64 word"] by (simp add: int64_def word_size)

lemma int64_id: "- (2 ^ 63) \<le> x \<Longrightarrow> x < 2 ^ 63 \<Longrightarrow> int64 x = x"
  by (simp add: int64_def int_word_sint)

definition int64_range :: "int \<Rightarrow> bool" where
  "int64_range x \<longleftrightarrow> - (2 ^ 63) \<le> x \<and> x < 2 ^ 63"

lemma int64_range_int64 [simp]: "int64_range (int64 x)"
  using int64_bounds [of x] by (simp add: int64_range_def)

section \<open>Maps and lists\<close>

lemma map_upd_Some_iff:
  "(m(k \<mapsto> v)) k' = Some v' \<longleftrightarrow> (if k' = k then v' = v else m k' = Some v')"
  by auto

lemma map_del_Some_iff [simp]:
  "(m(k := None)) k' = Some v' \<longleftrightarrow> k' \<noteq> k \<and> m k' = Some v'"
  by auto

text \<open>
  A Go map that the code ranges over is an association list with distinct keys; ranging
  visits it in list order. Go leaves that order unspecified, so the statements about a
  traversal speak of sets only. A map the code only indexes is a partial function.
\<close>

type_synonym ('k, 'v) gomap = "('k \<times> 'v) list"

definition gm_wf :: "('k, 'v) gomap \<Rightarrow> bool" where
  "gm_wf m \<longleftrightarrow> distinct (map fst m)"

definition gm_get :: "('k, 'v) gomap \<Rightarrow> 'k \<Rightarrow> 'v option" where
  "gm_get m k = map_of m k"

definition gm_set :: "'k \<Rightarrow> 'v \<Rightarrow> ('k, 'v) gomap \<Rightarrow> ('k, 'v) gomap" where
  "gm_set k v m = AList.update k v m"

definition gm_del :: "'k \<Rightarrow> ('k, 'v) gomap \<Rightarrow> ('k, 'v) gomap" where
  "gm_del k m = AList.delete k m"

lemma gm_get_empty [simp]: "gm_get [] k = None"
  by (simp add: gm_get_def)

lemma gm_get_set [simp]: "gm_get (gm_set k v m) k' = (if k' = k then Some v else gm_get m k')"
  by (simp add: gm_get_def gm_set_def update_conv)

lemma gm_get_del [simp]: "gm_get (gm_del k m) k' = (if k' = k then None else gm_get m k')"
  by (simp add: gm_get_def gm_del_def delete_conv)

lemma gm_wf_empty [simp]: "gm_wf []"
  by (simp add: gm_wf_def)

lemma gm_wf_set [simp]: "gm_wf m \<Longrightarrow> gm_wf (gm_set k v m)"
  by (simp add: gm_wf_def gm_set_def distinct_update)

lemma gm_wf_del [simp]: "gm_wf m \<Longrightarrow> gm_wf (gm_del k m)"
  by (simp add: gm_wf_def gm_del_def distinct_delete)

lemma gm_in_set: "gm_wf m \<Longrightarrow> (k, v) \<in> set m \<longleftrightarrow> gm_get m k = Some v"
  by (simp add: gm_wf_def gm_get_def)

lemma gm_values: "gm_wf m \<Longrightarrow> v \<in> snd ` set m \<longleftrightarrow> (\<exists>k. gm_get m k = Some v)"
  by (force simp: gm_in_set [symmetric])

lemma gm_length_set:
  "length (gm_set k v m) = (if gm_get m k = None then Suc (length m) else length m)"
  by (induction m) (auto simp: gm_get_def gm_set_def)

lemma gm_length_del:
  "gm_wf m \<Longrightarrow> length (gm_del k m) = (if gm_get m k = None then length m else length m - 1)"
proof (induction m)
  case (Cons p m)
  then show ?case
    by (cases p) (auto simp: gm_get_def gm_del_def gm_wf_def delete_id map_of_eq_None_iff
        image_iff dest: map_of_SomeD intro!: Suc_pred)
qed (simp add: gm_get_def gm_del_def)

lemma find_member: "find P xs = Some x \<Longrightarrow> x \<in> set xs \<and> P x"
  by (induction xs) (auto split: if_splits)

end
