(* ===== verification/GoStrings.thy ===== *)
theory GoStrings
  imports Prelude
begin

text \<open>
  The part of Go's \<open>strings\<close>, \<open>strconv\<close>, \<open>unicode/utf8\<close> and \<open>encoding/hex\<close> packages that
  the repository calls, on Go strings read as byte strings: a \<open>string\<close> is a list of
  \<open>char\<close>, one per byte, and \<open>length\<close> is Go's \<open>len\<close>. The case mapping of
  non-ASCII runes is the Unicode table of the Go runtime; it is a parameter (a function on
  code points) of the definitions that change case.
\<close>

section \<open>Bytes\<close>

definition byte :: "char \<Rightarrow> nat" where
  "byte c = of_char c"

definition chr :: "nat \<Rightarrow> char" where
  "chr n = char_of n"

lemma byte_less [simp]: "byte c < 256"
  unfolding byte_def by (rule nat_of_char_less_256)

lemma chr_byte [simp]: "chr (byte c) = c"
  by (simp add: chr_def byte_def)

lemma byte_chr [simp]: "n < 256 \<Longrightarrow> byte (chr n) = n"
  by (simp add: chr_def byte_def)

lemma byte_inject [simp]: "byte c = byte d \<longleftrightarrow> c = d"
  by (metis chr_byte)

definition is_digit :: "char \<Rightarrow> bool" where
  "is_digit c \<longleftrightarrow> 48 \<le> byte c \<and> byte c \<le> 57"

definition is_upper_letter :: "char \<Rightarrow> bool" where
  "is_upper_letter c \<longleftrightarrow> 65 \<le> byte c \<and> byte c \<le> 90"

definition is_lower_letter :: "char \<Rightarrow> bool" where
  "is_lower_letter c \<longleftrightarrow> 97 \<le> byte c \<and> byte c \<le> 122"

section \<open>UTF-8\<close>

text \<open>
  \<open>utf8.DecodeRuneInString\<close>: the first rune and its width in bytes; an invalid or truncated
  encoding is the replacement character U+FFFD with width 1.
\<close>

type_synonym rune = nat

definition rune_error :: rune where
  "rune_error = 0xFFFD"

definition cont :: "nat \<Rightarrow> nat \<Rightarrow> char \<Rightarrow> bool" where
  "cont lo hi c \<longleftrightarrow> lo \<le> byte c \<and> byte c \<le> hi"

fun second_range :: "nat \<Rightarrow> nat \<times> nat" where
  "second_range b0 =
     (if b0 = 0xE0 then (0xA0, 0xBF)
      else if b0 = 0xED then (0x80, 0x9F)
      else if b0 = 0xF0 then (0x90, 0xBF)
      else if b0 = 0xF4 then (0x80, 0x8F)
      else (0x80, 0xBF))"

text \<open>The code points of two-, three- and four-byte encodings, from their bytes.\<close>

definition rune2 :: "nat \<Rightarrow> nat \<Rightarrow> rune" where
  "rune2 b0 b1 = (b0 - 0xC0) * 64 + (b1 - 0x80)"

definition rune3 :: "nat \<Rightarrow> nat \<Rightarrow> nat \<Rightarrow> rune" where
  "rune3 b0 b1 b2 = (b0 - 0xE0) * 4096 + (b1 - 0x80) * 64 + (b2 - 0x80)"

definition rune4 :: "nat \<Rightarrow> nat \<Rightarrow> nat \<Rightarrow> nat \<Rightarrow> rune" where
  "rune4 b0 b1 b2 b3 =
     (b0 - 0xF0) * 262144 + (b1 - 0x80) * 4096 + (b2 - 0x80) * 64 + (b3 - 0x80)"

definition decode_rune :: "char \<Rightarrow> string \<Rightarrow> rune \<times> nat" where
  "decode_rune c rest =
     (let b0 = byte c; (lo, hi) = second_range b0 in
      if b0 < 0x80 then (b0, 1)
      else if b0 < 0xC2 then (rune_error, 1)
      else if b0 < 0xE0 then
        (case rest of
           c1 # _ \<Rightarrow> if cont lo hi c1 then (rune2 b0 (byte c1), 2) else (rune_error, 1)
         | _ \<Rightarrow> (rune_error, 1))
      else if b0 < 0xF0 then
        (case rest of
           c1 # c2 # _ \<Rightarrow>
             if cont lo hi c1 \<and> cont 0x80 0xBF c2
             then (rune3 b0 (byte c1) (byte c2), 3)
             else (rune_error, 1)
         | _ \<Rightarrow> (rune_error, 1))
      else if b0 < 0xF5 then
        (case rest of
           c1 # c2 # c3 # _ \<Rightarrow>
             if cont lo hi c1 \<and> cont 0x80 0xBF c2 \<and> cont 0x80 0xBF c3
             then (rune4 b0 (byte c1) (byte c2) (byte c3), 4)
             else (rune_error, 1)
         | _ \<Rightarrow> (rune_error, 1))
      else (rune_error, 1))"

text \<open>\<open>for _, r := range s\<close>: the runes of a string, front to back.\<close>

function runes :: "string \<Rightarrow> rune list" where
  "runes [] = []"
| "runes (c # rest) = (case decode_rune c rest of (r, w) \<Rightarrow> r # runes (drop (w - 1) rest))"
  by pat_completeness auto
termination
  by (relation "measure length") auto

definition rune_count :: "string \<Rightarrow> nat" where
  "rune_count s = length (runes s)"

text \<open>\<open>utf8.AppendRune\<close>: surrogates and values past U+10FFFF become U+FFFD.\<close>

definition encode_rune :: "rune \<Rightarrow> string" where
  "encode_rune r0 =
     (let r = (if (0xD800 \<le> r0 \<and> r0 \<le> 0xDFFF) \<or> 0x10FFFF < r0 then rune_error else r0) in
      if r < 0x80 then [chr r]
      else if r < 0x800 then [chr (0xC0 + r div 64), chr (0x80 + r mod 64)]
      else if r < 0x10000 then
        [chr (0xE0 + r div 4096), chr (0x80 + r div 64 mod 64), chr (0x80 + r mod 64)]
      else
        [chr (0xF0 + r div 262144), chr (0x80 + r div 4096 mod 64),
         chr (0x80 + r div 64 mod 64), chr (0x80 + r mod 64)])"

definition ascii :: "string \<Rightarrow> bool" where
  "ascii s \<longleftrightarrow> list_all (\<lambda>c. byte c < 128) s"

lemma ascii_simps [simp]:
  "ascii []" "ascii (c # s) \<longleftrightarrow> byte c < 128 \<and> ascii s"
  by (simp_all add: ascii_def)

lemma decode_rune_ascii [simp]: "byte c < 128 \<Longrightarrow> decode_rune c rest = (byte c, 1)"
  by (simp add: decode_rune_def Let_def)

lemma rune2_ge: "194 \<le> b0 \<Longrightarrow> 128 \<le> rune2 b0 b1"
  by (simp add: rune2_def)

lemma rune3_ge: "224 \<le> b0 \<Longrightarrow> (b0 = 224 \<longrightarrow> 160 \<le> b1) \<Longrightarrow> 128 \<le> rune3 b0 b1 b2"
  unfolding rune3_def by (cases "b0 = 224") linarith+

lemma rune4_ge: "240 \<le> b0 \<Longrightarrow> (b0 = 240 \<longrightarrow> 144 \<le> b1) \<Longrightarrow> 128 \<le> rune4 b0 b1 b2 b3"
  unfolding rune4_def by (cases "b0 = 240") linarith+

lemma decode_rune_high:
  assumes "128 \<le> byte c"
  shows "128 \<le> fst (decode_rune c rest)"
proof -
  obtain lo hi where lh: "second_range (byte c) = (lo, hi)" by force
  have "byte c = 224 \<longrightarrow> lo = 160" and "byte c = 240 \<longrightarrow> lo = 144"
    using lh by auto
  with assms show ?thesis
    unfolding decode_rune_def Let_def lh prod.case
    by (auto simp: rune_error_def cont_def rune2_ge rune3_ge rune4_ge
        simp del: second_range.simps split: list.split)
qed

lemma runes_ascii: "ascii s \<Longrightarrow> runes s = map byte s"
  by (induction s) auto

lemma encode_rune_ascii: "r < 128 \<Longrightarrow> encode_rune r = [chr r]"
  by (simp add: encode_rune_def Let_def)

section \<open>Case mapping and trimming\<close>

text \<open>
  \<open>unicode.ToUpper\<close>/\<open>unicode.ToLower\<close> on one rune: exact on ASCII, the parameter elsewhere;
  \<open>strings.ToUpper\<close>/\<open>strings.ToLower\<close> map every rune and re-encode, so an invalid byte
  comes out as U+FFFD.
\<close>

record unicode =
  ut_upper :: "rune \<Rightarrow> rune"
  ut_lower :: "rune \<Rightarrow> rune"

definition rune_upper :: "unicode \<Rightarrow> rune \<Rightarrow> rune" where
  "rune_upper ut r = (if r < 128 then (if 97 \<le> r \<and> r \<le> 122 then r - 32 else r) else ut_upper ut r)"

definition rune_lower :: "unicode \<Rightarrow> rune \<Rightarrow> rune" where
  "rune_lower ut r = (if r < 128 then (if 65 \<le> r \<and> r \<le> 90 then r + 32 else r) else ut_lower ut r)"

definition to_upper :: "unicode \<Rightarrow> string \<Rightarrow> string" where
  "to_upper ut s = concat (map (\<lambda>r. encode_rune (rune_upper ut r)) (runes s))"

definition to_lower :: "unicode \<Rightarrow> string \<Rightarrow> string" where
  "to_lower ut s = concat (map (\<lambda>r. encode_rune (rune_lower ut r)) (runes s))"

lemma to_lower_plain:
  assumes "ascii s" "list_all (\<lambda>c. \<not> is_upper_letter c) s"
  shows "to_lower ut s = s"
proof -
  have "encode_rune (rune_lower ut (byte c)) = [c]" if "c \<in> set s" for c
    using that assms by (auto simp: ascii_def list_all_iff rune_lower_def is_upper_letter_def encode_rune_ascii)
  then have "concat (map (\<lambda>c. encode_rune (rune_lower ut (byte c))) s) = concat (map (\<lambda>c. [c]) s)"
    by (metis (no_types, lifting) map_eq_conv)
  then show ?thesis using assms(1) by (simp add: to_lower_def runes_ascii comp_def)
qed

text \<open>
  \<open>strings.TrimSpace\<close> strips the runes with the Unicode property White_Space at both ends.
  UTF-8 is self-synchronising, so a string starts (ends) with such a rune exactly when it
  has the rune's encoding as a prefix (suffix).
\<close>

definition space_runes :: "rune list" where
  "space_runes = [9, 10, 11, 12, 13, 32, 0x85, 0xA0, 0x1680, 0x2000, 0x2001, 0x2002, 0x2003,
     0x2004, 0x2005, 0x2006, 0x2007, 0x2008, 0x2009, 0x200A, 0x2028, 0x2029, 0x202F, 0x205F, 0x3000]"

fun strip_prefix :: "string \<Rightarrow> string \<Rightarrow> string option" where
  "strip_prefix [] s = Some s"
| "strip_prefix (p # ps) [] = None"
| "strip_prefix (p # ps) (c # s) = (if p = c then strip_prefix ps s else None)"

fun strip_any :: "string list \<Rightarrow> string \<Rightarrow> string option" where
  "strip_any [] s = None"
| "strip_any (p # ps) s = (case strip_prefix p s of Some s' \<Rightarrow> Some s' | None \<Rightarrow> strip_any ps s)"

lemma strip_prefix_Some: "strip_prefix p s = Some s' \<longleftrightarrow> s = p @ s'"
  by (induction p s rule: strip_prefix.induct) auto

lemma strip_any_Some: "strip_any ps s = Some s' \<Longrightarrow> \<exists>p \<in> set ps. s = p @ s'"
  by (induction ps s rule: strip_any.induct) (auto simp: strip_prefix_Some split: option.splits)

lemma strip_any_None: "strip_any ps s = None \<longleftrightarrow> (\<forall>p \<in> set ps. strip_prefix p s = None)"
  by (induction ps s rule: strip_any.induct) (auto split: option.splits)

text \<open>Each round strips one encoding, so as many rounds as the string has bytes are enough.\<close>

fun trim_front :: "string list \<Rightarrow> nat \<Rightarrow> string \<Rightarrow> string" where
  "trim_front ps 0 s = s"
| "trim_front ps (Suc n) s = (case strip_any ps s of Some s' \<Rightarrow> trim_front ps n s' | None \<Rightarrow> s)"

definition space_encodings :: "string list" where
  "space_encodings = map encode_rune space_runes"

definition trim_left_space :: "string \<Rightarrow> string" where
  "trim_left_space s = trim_front space_encodings (length s) s"

definition trim_right_space :: "string \<Rightarrow> string" where
  "trim_right_space s = rev (trim_front (map rev space_encodings) (length s) (rev s))"

definition trim_space :: "string \<Rightarrow> string" where
  "trim_space s = trim_right_space (trim_left_space s)"

text \<open>A string whose first and last bytes are visible ASCII is its own trimming.\<close>

definition visible :: "char \<Rightarrow> bool" where
  "visible c \<longleftrightarrow> 32 < byte c \<and> byte c < 127"

lemma space_ends:
  "list_all (\<lambda>p. p \<noteq> [] \<and> \<not> visible (hd p) \<and> \<not> visible (last p)) space_encodings"
  by (simp add: space_encodings_def space_runes_def encode_rune_def visible_def)

lemma trim_front_id: "list_all (\<lambda>p. p \<noteq> [] \<and> hd p \<noteq> c) ps \<Longrightarrow> trim_front ps n (c # s) = c # s"
proof -
  assume "list_all (\<lambda>p. p \<noteq> [] \<and> hd p \<noteq> c) ps"
  then have "strip_any ps (c # s) = None"
    by (induction ps) (auto simp: neq_Nil_conv)
  then show ?thesis by (cases n) simp_all
qed

lemma trim_space_id:
  assumes "s \<noteq> []" "visible (hd s)" "visible (last s)"
  shows "trim_space s = s"
proof -
  obtain c t where s: "s = c # t" using assms(1) by (cases s) auto
  have f: "list_all (\<lambda>p. p \<noteq> [] \<and> hd p \<noteq> c) space_encodings" if "visible c" for c
    using space_ends that by (auto simp: list_all_iff)
  have r: "list_all (\<lambda>p. p \<noteq> [] \<and> hd p \<noteq> c) (map rev space_encodings)" if "visible c" for c
    using space_ends that by (auto simp: list_all_iff hd_rev)
  obtain d u where d: "rev s = d # u" "d = last s" using assms(1) by (metis hd_rev list.exhaust_sel rev_is_Nil_conv)
  have "trim_left_space s = s"
    using trim_front_id [OF f, of c "length s" t] assms(2) s by (simp only: trim_left_space_def list.sel)
  moreover have "trim_right_space s = s"
    using trim_front_id [OF r [OF assms(3)], of "length s" u] d
    by (metis trim_right_space_def rev_rev_ident)
  ultimately show ?thesis by (simp add: trim_space_def)
qed

section \<open>Searching and cutting\<close>

definition has_prefix :: "string \<Rightarrow> string \<Rightarrow> bool" where
  "has_prefix s p \<longleftrightarrow> strip_prefix p s \<noteq> None"

definition trim_prefix :: "string \<Rightarrow> string \<Rightarrow> string" where
  "trim_prefix s p = (case strip_prefix p s of Some s' \<Rightarrow> s' | None \<Rightarrow> s)"

text \<open>\<open>strings.Cut(s, sep)\<close> and \<open>strings.Split(s, sep)\<close> for a one-byte separator.\<close>

fun cut :: "char \<Rightarrow> string \<Rightarrow> (string \<times> string) option" where
  "cut sep [] = None"
| "cut sep (c # s) =
     (if c = sep then Some ([], s)
      else case cut sep s of None \<Rightarrow> None | Some (a, b) \<Rightarrow> Some (c # a, b))"

fun split_on :: "char \<Rightarrow> string \<Rightarrow> string list" where
  "split_on sep [] = [[]]"
| "split_on sep (c # s) =
     (if c = sep then [] # split_on sep s
      else case split_on sep s of [] \<Rightarrow> [[c]] | p # ps \<Rightarrow> (c # p) # ps)"

lemma cut_append: "sep \<notin> set a \<Longrightarrow> cut sep (a @ sep # b) = Some (a, b)"
  by (induction a) auto

lemma cut_None: "cut sep s = None \<longleftrightarrow> sep \<notin> set s"
  by (induction s) (auto split: option.splits)

lemma cut_SomeD: "cut sep s = Some (a, b) \<Longrightarrow> s = a @ sep # b \<and> sep \<notin> set a"
  by (induction s arbitrary: a) (auto split: if_splits option.splits)

lemma split_on_none: "sep \<notin> set s \<Longrightarrow> split_on sep s = [s]"
  by (induction s) auto

lemma split_on_append: "sep \<notin> set a \<Longrightarrow> split_on sep (a @ sep # b) = a # split_on sep b"
  by (induction a) auto

section \<open>Decimal integers\<close>

text \<open>\<open>strconv.Itoa\<close> / \<open>strconv.FormatInt(n, 10)\<close>.\<close>

fun digits_of :: "nat \<Rightarrow> string" where
  "digits_of n = (if n < 10 then [chr (48 + n)] else digits_of (n div 10) @ [chr (48 + n mod 10)])"

declare digits_of.simps [simp del]

definition itoa :: "int \<Rightarrow> string" where
  "itoa i = (if i < 0 then CHR ''-'' # digits_of (nat (- i)) else digits_of (nat i))"

text \<open>
  \<open>strconv.Atoi(s)\<close> and \<open>strconv.ParseInt(s, 10, 64)\<close>: an optional sign, at least one digit,
  nothing else, and a value that fits 64 bits.
\<close>

fun digits_value :: "nat \<Rightarrow> string \<Rightarrow> nat option" where
  "digits_value acc [] = Some acc"
| "digits_value acc (c # s) =
     (if is_digit c then digits_value (acc * 10 + (byte c - 48)) s else None)"

definition parse_unsigned :: "string \<Rightarrow> nat option" where
  "parse_unsigned s = (if s = [] then None else digits_value 0 s)"

definition parse_int :: "string \<Rightarrow> int option" where
  "parse_int s =
     (let (neg, body) =
        (case s of c # r \<Rightarrow> if c = CHR ''-'' then (True, r) else if c = CHR ''+'' then (False, r) else (False, s)
         | [] \<Rightarrow> (False, s))
      in case parse_unsigned body of
           None \<Rightarrow> None
         | Some n \<Rightarrow>
             let v = (if neg then - int n else int n)
             in if int64_range v then Some v else None)"

lemma digits_of_nonempty [simp]: "digits_of n \<noteq> []"
  by (subst digits_of.simps) simp

lemma digits_of_digits: "\<forall>c \<in> set (digits_of n). is_digit c"
proof (induction n rule: digits_of.induct)
  case (1 n)
  then show ?case
    by (subst digits_of.simps) (auto simp: is_digit_def)
qed

lemma digits_value_append:
  "digits_value acc (s @ t) =
     (case digits_value acc s of None \<Rightarrow> None | Some a \<Rightarrow> digits_value a t)"
  by (induction s arbitrary: acc) auto

lemma digits_value_digits_of: "digits_value 0 (digits_of n) = Some n"
proof (induction n rule: digits_of.induct)
  case (1 n)
  show ?case
  proof (cases "n < 10")
    case True
    then show ?thesis by (simp add: digits_of.simps [of n] is_digit_def)
  next
    case False
    with 1 show ?thesis
      by (simp add: digits_of.simps [of n] digits_value_append is_digit_def)
  qed
qed

lemma digits_of_hd: "digits_of n = c # r \<Longrightarrow> c \<noteq> CHR ''-'' \<and> c \<noteq> CHR ''+''"
  using digits_of_digits [of n] by (auto simp: is_digit_def byte_def)

lemma parse_int_digits:
  "int n < 2 ^ 63 \<Longrightarrow> parse_int (digits_of n) = Some (int n)"
  using digits_of_hd [of n] digits_value_digits_of [of n]
  by (cases "digits_of n")
     (auto simp: parse_int_def parse_unsigned_def int64_range_def)

lemma parse_int_itoa: "int64_range i \<Longrightarrow> parse_int (itoa i) = Some i"
proof (cases "i < 0")
  case True
  moreover assume "int64_range i"
  ultimately show ?thesis
    by (simp add: itoa_def parse_int_def parse_unsigned_def digits_value_digits_of)
next
  case False
  moreover assume "int64_range i"
  ultimately show ?thesis
    using parse_int_digits [of "nat i"] by (simp add: itoa_def int64_range_def)
qed

lemma itoa_no_colon [simp]: "CHR '':'' \<notin> set (itoa i)"
  using digits_of_digits [of "nat (- i)"] digits_of_digits [of "nat i"]
  by (auto simp: itoa_def is_digit_def byte_def)

lemma itoa_inject: "int64_range i \<Longrightarrow> int64_range j \<Longrightarrow> itoa i = itoa j \<longleftrightarrow> i = j"
  by (metis option.inject parse_int_itoa)

section \<open>Byte indices\<close>

text \<open>\<open>strings.IndexByte\<close> and \<open>strings.LastIndexByte\<close>, with Go's \<open>-1\<close> for an absent byte.\<close>

fun find_byte :: "char \<Rightarrow> string \<Rightarrow> nat option" where
  "find_byte c [] = None"
| "find_byte c (d # s) = (if d = c then Some 0 else map_option Suc (find_byte c s))"

definition index_byte :: "string \<Rightarrow> char \<Rightarrow> int" where
  "index_byte s c = (case find_byte c s of None \<Rightarrow> - 1 | Some i \<Rightarrow> int i)"

definition last_index_byte :: "string \<Rightarrow> char \<Rightarrow> int" where
  "last_index_byte s c =
     (case find_byte c (rev s) of None \<Rightarrow> - 1 | Some i \<Rightarrow> int (length s) - 1 - int i)"

lemma find_byte_None: "find_byte c s = None \<longleftrightarrow> c \<notin> set s"
  by (induction s) auto

lemma find_byte_SomeD: "find_byte c s = Some i \<Longrightarrow> s = take i s @ c # drop (Suc i) s \<and> c \<notin> set (take i s) \<and> i < length s"
  by (induction s arbitrary: i) (auto split: if_splits)

lemma find_byte_append: "c \<notin> set a \<Longrightarrow> find_byte c (a @ c # b) = Some (length a)"
  by (induction a) auto

end
