(* ===== verification/Errors.thy ===== *)
theory Errors
  imports GoStrings
begin

text \<open>
  Go error values. Every sentinel of the repository is a constructor (identity is what the
  callers branch on, through \<open>errors.Is\<close>); \<open>errors.New\<close> and \<open>fmt.Errorf\<close> keep their
  format, their arguments and the errors they wrap with \<open>%w\<close>. Errors of third-party
  drivers are \<open>PgError\<close> (a Postgres error with its SQLSTATE and constraint name),
  \<open>ErrNoRows\<close> (pgx) and \<open>Infra\<close> (everything else).
\<close>

datatype fmt_arg = ArgS string | ArgI int

datatype error =
    ErrSeatAlreadyHeld | ErrHoldLimitExceeded | ErrHoldNotFound | ErrNotHoldOwner
  | ErrSeatAlreadyBooked | ErrHoldExpired | ErrSessionAlreadyConfirmed | ErrBookingNotFound
  | ErrSeatOutOfRange
  | ErrMovieNotFound | ErrScreeningNotFound
  | ErrPaymentNotFound | ErrPaymentNotCaptured | ErrPaymentDeclined
  | ErrPaymentInvalidTransition | ErrPaymentIntentExists | ErrPaymentAmountMismatch
  | ErrWebhookInvalid
  | ErrValidation | ErrUserNotFound | ErrEmailTaken | ErrInvalidCredentials
  | ErrRefreshTokenUnknown | ErrRefreshTokenExpired | ErrRefreshTokenReused
  | ErrTokenInvalid
  | ErrorsNew string
  | Errorf string "fmt_arg list" "error list"
  | PgError string string
  | ErrNoRows
  | Infra string

text \<open>The result of a Go function with results \<open>(T, error)\<close>.\<close>

type_synonym 'a res = "error + 'a"

text \<open>\<open>errors.Is(err, target)\<close>: the error itself or anything it wraps.\<close>

fun errors_is :: "error \<Rightarrow> error \<Rightarrow> bool" where
  "errors_is (Errorf f as es) t \<longleftrightarrow> Errorf f as es = t \<or> list_ex (\<lambda>e. errors_is e t) es"
| "errors_is e t \<longleftrightarrow> e = t"

lemma errors_is_refl [simp]: "errors_is e e"
  by (cases e) auto

end
