(* ===== verification/DomainPayment.thy ===== *)
theory DomainPayment
  imports Errors
begin

text \<open>
  \<open>internal/domain/payment/payment.go\<close>: the payment row and its status machine.
\<close>

type_synonym payment_status = string

definition StatusIntent :: payment_status where
  "StatusIntent = ''intent''"

definition StatusAuthorized :: payment_status where
  "StatusAuthorized = ''authorized''"

definition StatusCaptured :: payment_status where
  "StatusCaptured = ''captured''"

definition StatusRefunding :: payment_status where
  "StatusRefunding = ''refunding''"

definition StatusRefunded :: payment_status where
  "StatusRefunded = ''refunded''"

definition StatusFailed :: payment_status where
  "StatusFailed = ''failed''"

lemmas payment_status_defs =
  StatusIntent_def StatusAuthorized_def StatusCaptured_def
  StatusRefunding_def StatusRefunded_def StatusFailed_def

lemma payment_status_distinct [simp]:
  "StatusIntent \<noteq> StatusAuthorized" "StatusIntent \<noteq> StatusCaptured" "StatusIntent \<noteq> StatusRefunding" "StatusIntent \<noteq> StatusRefunded" "StatusIntent \<noteq> StatusFailed"
  "StatusAuthorized \<noteq> StatusIntent" "StatusAuthorized \<noteq> StatusCaptured" "StatusAuthorized \<noteq> StatusRefunding" "StatusAuthorized \<noteq> StatusRefunded" "StatusAuthorized \<noteq> StatusFailed"
  "StatusCaptured \<noteq> StatusIntent" "StatusCaptured \<noteq> StatusAuthorized" "StatusCaptured \<noteq> StatusRefunding" "StatusCaptured \<noteq> StatusRefunded" "StatusCaptured \<noteq> StatusFailed"
  "StatusRefunding \<noteq> StatusIntent" "StatusRefunding \<noteq> StatusAuthorized" "StatusRefunding \<noteq> StatusCaptured" "StatusRefunding \<noteq> StatusRefunded" "StatusRefunding \<noteq> StatusFailed"
  "StatusRefunded \<noteq> StatusIntent" "StatusRefunded \<noteq> StatusAuthorized" "StatusRefunded \<noteq> StatusCaptured" "StatusRefunded \<noteq> StatusRefunding" "StatusRefunded \<noteq> StatusFailed"
  "StatusFailed \<noteq> StatusIntent" "StatusFailed \<noteq> StatusAuthorized" "StatusFailed \<noteq> StatusCaptured" "StatusFailed \<noteq> StatusRefunding" "StatusFailed \<noteq> StatusRefunded"
  by (simp_all add: payment_status_defs)

definition payment_status_valid :: "payment_status \<Rightarrow> bool" where
  "payment_status_valid s \<longleftrightarrow>
     s \<in> {StatusIntent, StatusAuthorized, StatusCaptured, StatusRefunding, StatusRefunded, StatusFailed}"

definition can_transition_to :: "payment_status \<Rightarrow> payment_status \<Rightarrow> bool" where
  "can_transition_to s next =
     (if s = StatusIntent then next = StatusAuthorized \<or> next = StatusCaptured \<or> next = StatusFailed
      else if s = StatusAuthorized then next = StatusCaptured \<or> next = StatusFailed
      else if s = StatusCaptured then next = StatusRefunding
      else if s = StatusRefunding then next = StatusRefunded
      else if s = StatusRefunded \<or> s = StatusFailed then False
      else False)"

definition DefaultCurrency :: string where
  "DefaultCurrency = ''usd''"

record payment =
  p_ID :: string
  p_BookingSessionID :: string
  p_Gateway :: string
  p_IntentID :: string
  p_Status :: payment_status
  p_AmountCents :: int
  p_Currency :: string
  p_CreatedAt :: time
  p_UpdatedAt :: time

definition is_captured :: "payment \<Rightarrow> bool" where
  "is_captured p \<longleftrightarrow> p_Status p = StatusCaptured"

section \<open>Lemmas\<close>

lemma can_transition_valid:
  "can_transition_to s t \<Longrightarrow> payment_status_valid s \<and> payment_status_valid t \<and> s \<noteq> t"
  by (auto simp: can_transition_to_def payment_status_valid_def split: if_splits)

lemma terminal_no_transition [simp]:
  "\<not> can_transition_to StatusFailed t" "\<not> can_transition_to StatusRefunded t"
  by (simp_all add: can_transition_to_def)

text \<open>Money that moved leaves only through the refund edges.\<close>

lemma captured_closed:
  "can_transition_to\<^sup>*\<^sup>* s t \<Longrightarrow> s \<in> {StatusCaptured, StatusRefunding, StatusRefunded} \<Longrightarrow>
     t \<in> {StatusCaptured, StatusRefunding, StatusRefunded}"
  by (induction rule: rtranclp_induct) (auto simp: can_transition_to_def split: if_splits)

end
