(* ===== verification/PaymentStore.thy ===== *)
theory PaymentStore
  imports DomainPayment
begin

text \<open>
  The \<open>PaymentStore\<close> and \<open>PaymentFinder\<close> ports (\<open>internal/application/payment/ports.go\<close>,
  \<open>internal/application/booking/paymentfinder.go\<close>) as a locale: the payments table by
  intent identifier, the active-intent arbiter and the two guarded edges.
\<close>

section \<open>Vocabulary\<close>

text \<open>\<open>status NOT IN ('failed', 'refunded')\<close>: the predicate of the active-intent index.\<close>

definition active_status :: "payment_status \<Rightarrow> bool" where
  "active_status st \<longleftrightarrow> st \<noteq> StatusFailed \<and> st \<noteq> StatusRefunded"

text \<open>\<open>status IN ('intent', 'authorized')\<close>: the statuses the guarded edges leave.\<close>

definition open_status :: "payment_status \<Rightarrow> bool" where
  "open_status st \<longleftrightarrow> st = StatusIntent \<or> st = StatusAuthorized"

definition active_row :: "(string \<rightharpoonup> payment) \<Rightarrow> string \<Rightarrow> payment \<Rightarrow> bool" where
  "active_row R sid p \<longleftrightarrow>
     (\<exists>i. R i = Some p) \<and> p_BookingSessionID p = sid \<and> active_status (p_Status p)"

definition paid :: "(string \<rightharpoonup> payment) \<Rightarrow> string \<Rightarrow> bool" where
  "paid R sid \<longleftrightarrow> (\<exists>i p. R i = Some p \<and> p_BookingSessionID p = sid \<and> p_Status p = StatusCaptured)"

text \<open>What a status change keeps: everything but the status and the update instant.\<close>

definition same_charge :: "payment \<Rightarrow> payment \<Rightarrow> bool" where
  "same_charge p q \<longleftrightarrow> p_ID p = p_ID q \<and> p_BookingSessionID p = p_BookingSessionID q \<and>
     p_Gateway p = p_Gateway q \<and> p_IntentID p = p_IntentID q \<and> p_AmountCents p = p_AmountCents q \<and>
     p_Currency p = p_Currency q \<and> p_CreatedAt p = p_CreatedAt q"

lemma same_charge_refl [simp]: "same_charge p p"
  by (simp add: same_charge_def)

lemma active_open: "open_status st \<Longrightarrow> active_status st"
  by (auto simp: open_status_def active_status_def)

definition payments_ok :: "(string \<rightharpoonup> payment) \<Rightarrow> bool" where
  "payments_ok R \<longleftrightarrow>
     (\<forall>i p. R i = Some p \<longrightarrow> p_IntentID p = i) \<and>
     (\<forall>sid p q. active_row R sid p \<longrightarrow> active_row R sid q \<longrightarrow> p = q)"

lemma paid_upd_captured:
  "p_Status row = StatusCaptured \<Longrightarrow> paid (R(i \<mapsto> row)) (p_BookingSessionID row)"
  unfolding paid_def by (metis fun_upd_same)

lemma paid_upd_open:
  assumes "R i = Some p" "p_Status p \<noteq> StatusCaptured" "p_Status row \<noteq> StatusCaptured"
  shows "paid (R(i \<mapsto> row)) = paid R"
proof
  fix sid
  show "paid (R(i \<mapsto> row)) sid = paid R sid"
    unfolding paid_def using assms by (metis fun_upd_apply option.inject)
qed

lemma open_not_captured: "open_status st \<Longrightarrow> st \<noteq> StatusCaptured"
  by (auto simp: open_status_def)

section \<open>The contract\<close>

locale payment_store =
  fixes invar :: "'s \<Rightarrow> bool"
    and rows :: "'s \<Rightarrow> string \<rightharpoonup> payment"
    and insertable :: "'s \<Rightarrow> payment \<Rightarrow> bool"
    and insert_op :: "string \<Rightarrow> time \<Rightarrow> payment \<Rightarrow> 's \<Rightarrow> payment res \<times> 's"
    and get_active_op :: "string \<Rightarrow> 's \<Rightarrow> payment res"
    and get_intent_op :: "string \<Rightarrow> 's \<Rightarrow> payment res"
    and capture_op :: "time \<Rightarrow> string \<Rightarrow> 's \<Rightarrow> (payment \<times> bool) res \<times> 's"
    and fail_op :: "time \<Rightarrow> string \<Rightarrow> 's \<Rightarrow> payment res \<times> 's"
    and has_captured_op :: "string \<Rightarrow> 's \<Rightarrow> bool res"
  assumes rows_ok: "invar s \<Longrightarrow> payments_ok (rows s)"
    and insert_invar: "invar s \<Longrightarrow> insert_op n now p s = (r, s') \<Longrightarrow> invar s'"
    and insert_rows: "invar s \<Longrightarrow> insert_op n now p s = (r, s') \<Longrightarrow> rows s' = rows s \<or>
        (\<exists>row. r = Inr row \<and> rows s (p_IntentID p) = None \<and> rows s' = (rows s)(p_IntentID p \<mapsto> row) \<and>
           p_Status row = StatusIntent)"
    and capture_invar: "invar s \<Longrightarrow> capture_op now i s = (cr, s') \<Longrightarrow> invar s'"
    and fail_invar: "invar s \<Longrightarrow> fail_op now i s = (r, s') \<Longrightarrow> invar s'"
    and insert_free: "invar s \<Longrightarrow> insertable s p \<Longrightarrow> rows s (p_IntentID p) = None \<Longrightarrow>
        \<forall>q. \<not> active_row (rows s) (p_BookingSessionID p) q \<Longrightarrow>
        \<exists>row s'. insert_op n now p s = (Inr row, s') \<and> rows s' = (rows s)(p_IntentID p \<mapsto> row) \<and>
          p_Status row = StatusIntent \<and> p_BookingSessionID row = p_BookingSessionID p \<and>
          p_IntentID row = p_IntentID p \<and> p_AmountCents row = p_AmountCents p"
    and insert_conflict: "invar s \<Longrightarrow> insertable s p \<Longrightarrow> rows s (p_IntentID p) = None \<Longrightarrow>
        active_row (rows s) (p_BookingSessionID p) q \<Longrightarrow>
        \<exists>s'. insert_op n now p s = (Inl ErrPaymentIntentExists, s') \<and> rows s' = rows s"
    and get_active_found: "invar s \<Longrightarrow> active_row (rows s) sid p \<Longrightarrow> get_active_op sid s = Inr p"
    and get_active_none: "invar s \<Longrightarrow> \<forall>p. \<not> active_row (rows s) sid p \<Longrightarrow>
        get_active_op sid s = Inl ErrPaymentNotFound"
    and get_intent: "invar s \<Longrightarrow> get_intent_op i s =
        (case rows s i of None \<Rightarrow> Inl ErrPaymentNotFound | Some p \<Rightarrow> Inr p)"
    and capture_unknown: "invar s \<Longrightarrow> rows s i = None \<Longrightarrow> capture_op now i s = (Inl ErrPaymentNotFound, s)"
    and capture_open: "invar s \<Longrightarrow> rows s i = Some p \<Longrightarrow> open_status (p_Status p) \<Longrightarrow>
        \<exists>row s'. capture_op now i s = (Inr (row, True), s') \<and> rows s' = (rows s)(i \<mapsto> row) \<and>
          same_charge row p \<and> p_Status row = StatusCaptured"
    and capture_replay: "invar s \<Longrightarrow> rows s i = Some p \<Longrightarrow> p_Status p = StatusCaptured \<Longrightarrow>
        capture_op now i s = (Inr (p, False), s)"
    and capture_closed: "invar s \<Longrightarrow> rows s i = Some p \<Longrightarrow> \<not> open_status (p_Status p) \<Longrightarrow>
        p_Status p \<noteq> StatusCaptured \<Longrightarrow>
        \<exists>e. capture_op now i s = (Inl e, s) \<and> errors_is e ErrPaymentInvalidTransition"
    and fail_unknown: "invar s \<Longrightarrow> rows s i = None \<Longrightarrow> fail_op now i s = (Inl ErrPaymentNotFound, s)"
    and fail_open: "invar s \<Longrightarrow> rows s i = Some p \<Longrightarrow> open_status (p_Status p) \<Longrightarrow>
        \<exists>row s'. fail_op now i s = (Inr row, s') \<and> rows s' = (rows s)(i \<mapsto> row) \<and>
          same_charge row p \<and> p_Status row = StatusFailed"
    and fail_replay: "invar s \<Longrightarrow> rows s i = Some p \<Longrightarrow> p_Status p = StatusFailed \<Longrightarrow>
        fail_op now i s = (Inr p, s)"
    and fail_closed: "invar s \<Longrightarrow> rows s i = Some p \<Longrightarrow> \<not> open_status (p_Status p) \<Longrightarrow>
        p_Status p \<noteq> StatusFailed \<Longrightarrow>
        \<exists>e. fail_op now i s = (Inl e, s) \<and> errors_is e ErrPaymentInvalidTransition"
    and has_captured: "invar s \<Longrightarrow> has_captured_op sid s = Inr (paid (rows s) sid)"
begin

text \<open>A capture or a failure either leaves the rows alone or moves one open row.\<close>

lemma capture_step:
  assumes "invar s" "capture_op now i s = (r, s')"
  obtains "rows s' = rows s"
  | p row where "rows s i = Some p" "open_status (p_Status p)" "rows s' = (rows s)(i \<mapsto> row)"
      "same_charge row p" "p_Status row = StatusCaptured" "r = Inr (row, True)"
proof (cases "rows s i")
  case None
  with assms capture_unknown that(1) show thesis by force
next
  case (Some p)
  show thesis
  proof (cases "open_status (p_Status p)")
    case True
    with capture_open [OF assms(1) Some True, of now] assms(2) that(2) [OF Some True] show thesis by auto
  next
    case False
    with capture_replay [OF assms(1) Some, of now] capture_closed [OF assms(1) Some, of now] assms(2) that(1)
    show thesis by (cases "p_Status p = StatusCaptured") auto
  qed
qed

lemma fail_step:
  assumes "invar s" "fail_op now i s = (r, s')"
  obtains "rows s' = rows s"
  | p row where "rows s i = Some p" "open_status (p_Status p)" "rows s' = (rows s)(i \<mapsto> row)"
      "same_charge row p" "p_Status row = StatusFailed" "r = Inr row"
proof (cases "rows s i")
  case None
  with assms fail_unknown that(1) show thesis by force
next
  case (Some p)
  show thesis
  proof (cases "open_status (p_Status p)")
    case True
    with fail_open [OF assms(1) Some True, of now] assms(2) that(2) [OF Some True] show thesis by auto
  next
    case False
    with fail_replay [OF assms(1) Some, of now] fail_closed [OF assms(1) Some, of now] assms(2) that(1)
    show thesis by (cases "p_Status p = StatusFailed") auto
  qed
qed

text \<open>Every status change is an edge of the domain's status machine, and keeps the charge.\<close>

lemma capture_edge:
  assumes "invar s" "capture_op now i s = (r, s')" "rows s j = Some p"
  obtains q where "rows s' j = Some q" "same_charge q p"
    "p_Status q = p_Status p \<or> can_transition_to (p_Status p) (p_Status q)"
  using assms(3)
  by (rule_tac capture_step [OF assms(1,2)]; cases "j = i")
     (auto intro: that simp: open_status_def can_transition_to_def)

lemma fail_edge:
  assumes "invar s" "fail_op now i s = (r, s')" "rows s j = Some p"
  obtains q where "rows s' j = Some q" "same_charge q p"
    "p_Status q = p_Status p \<or> can_transition_to (p_Status p) (p_Status q)"
  using assms(3)
  by (rule_tac fail_step [OF assms(1,2)]; cases "j = i")
     (auto intro: that simp: open_status_def can_transition_to_def)

text \<open>Money that moved stays moved: no operation un-captures a row.\<close>

lemma paid_upd:
  assumes "paid R sid" "\<And>p. R i = Some p \<Longrightarrow> p_Status p \<noteq> StatusCaptured"
  shows "paid (R(i \<mapsto> row)) sid"
  using assms unfolding paid_def by (metis fun_upd_apply)

lemma capture_keeps_paid:
  assumes "invar s" "capture_op now i s = (r, s')" "paid (rows s) sid"
  shows "paid (rows s') sid"
  by (rule capture_step [OF assms(1,2)]) (use assms(3) in \<open>auto intro!: paid_upd simp: open_status_def\<close>)

lemma fail_keeps_paid:
  assumes "invar s" "fail_op now i s = (r, s')" "paid (rows s) sid"
  shows "paid (rows s') sid"
  by (rule fail_step [OF assms(1,2)]) (use assms(3) in \<open>auto intro!: paid_upd simp: open_status_def\<close>)

lemma insert_keeps_paid:
  assumes "invar s" "insert_op n now p s = (r, s')" "paid (rows s) sid"
  shows "paid (rows s') sid"
  using insert_rows [OF assms(1,2)] assms(3) paid_upd [OF assms(3), of "p_IntentID p"] by auto

lemma insert_keeps_rows:
  assumes "invar s" "insert_op n now p s = (r, s')" "rows s j = Some q"
  shows "rows s' j = Some q"
  using insert_rows [OF assms(1,2)] assms(3) by auto

text \<open>Exactly one of two captures of an intent moves the row.\<close>

lemma capture_once:
  assumes i: "invar s" and c: "capture_op now i s = (Inr (p, True), s')"
  shows "capture_op later i s' = (Inr (p, False), s')"
proof (cases "rows s i")
  case None
  with c capture_unknown [OF i] show ?thesis by simp
next
  case (Some q)
  have "open_status (p_Status q)"
    using c capture_replay [OF i Some, of now] capture_closed [OF i Some, of now] by fastforce
  from capture_open [OF i Some this, of now] c have "rows s' i = Some p" "p_Status p = StatusCaptured"
    by auto
  with capture_replay [OF capture_invar [OF i c]] show ?thesis by blast
qed

text \<open>A captured intent cannot be failed afterwards, nor a failed one captured.\<close>

lemma capture_then_fail:
  assumes i: "invar s" and c: "capture_op now i s = (Inr (p, b), s')"
  shows "\<exists>e. fail_op later i s' = (Inl e, s') \<and> errors_is e ErrPaymentInvalidTransition"
proof -
  have "rows s' i = Some p \<and> p_Status p = StatusCaptured"
  proof (cases "rows s i")
    case None
    with c capture_unknown [OF i] show ?thesis by simp
  next
    case (Some q)
    show ?thesis
      using c Some capture_open [OF i Some, of now] capture_replay [OF i Some, of now]
        capture_closed [OF i Some, of now]
      by (cases "open_status (p_Status q)"; cases "p_Status q = StatusCaptured") auto
  qed
  with fail_closed [OF capture_invar [OF i c]] show ?thesis
    by (simp add: open_status_def)
qed

end

end
