(* ===== verification/DomainBooking.thy ===== *)
theory DomainBooking
  imports Errors
begin

text \<open>
  \<open>internal/domain/booking/booking.go\<close>: seats, holds, bookings and their pure rules.
  Record fields carry the Go field name behind a letter for the struct.
\<close>

section \<open>Statuses\<close>

text \<open>\<open>type Status string\<close> and \<open>type SeatStatus string\<close> stay strings: a row read back from
  the database is converted without a check, so an unknown value is representable.\<close>

type_synonym booking_status = string
type_synonym seat_status = string

definition StatusConfirmed :: booking_status where
  "StatusConfirmed = ''confirmed''"

definition StatusCancelled :: booking_status where
  "StatusCancelled = ''cancelled''"

definition booking_status_valid :: "booking_status \<Rightarrow> bool" where
  "booking_status_valid s \<longleftrightarrow> s = StatusConfirmed \<or> s = StatusCancelled"

definition SeatStatusAvailable :: seat_status where
  "SeatStatusAvailable = ''available''"

definition SeatStatusHeld :: seat_status where
  "SeatStatusHeld = ''held''"

definition SeatStatusBooked :: seat_status where
  "SeatStatusBooked = ''booked''"

definition seat_status_valid :: "seat_status \<Rightarrow> bool" where
  "seat_status_valid s \<longleftrightarrow> s = SeatStatusAvailable \<or> s = SeatStatusHeld \<or> s = SeatStatusBooked"

lemma booking_status_distinct [simp]:
  "StatusConfirmed \<noteq> StatusCancelled" "StatusCancelled \<noteq> StatusConfirmed"
  by (simp_all add: StatusConfirmed_def StatusCancelled_def)

lemma seat_status_distinct [simp]:
  "SeatStatusAvailable \<noteq> SeatStatusHeld" "SeatStatusHeld \<noteq> SeatStatusAvailable"
  "SeatStatusAvailable \<noteq> SeatStatusBooked" "SeatStatusBooked \<noteq> SeatStatusAvailable"
  "SeatStatusHeld \<noteq> SeatStatusBooked" "SeatStatusBooked \<noteq> SeatStatusHeld"
  by (simp_all add: SeatStatusAvailable_def SeatStatusHeld_def SeatStatusBooked_def)

section \<open>Seats\<close>

record seat =
  s_Row :: string
  s_Number :: int

text \<open>
  \<open>NewSeat\<close>: trim, upper-case, then the length, letter and number checks in the code's
  order. The letter loop runs over runes.
\<close>

definition new_seat :: "unicode \<Rightarrow> string \<Rightarrow> int \<Rightarrow> seat res" where
  "new_seat ut row0 number =
     (let row = to_upper ut (trim_space row0) in
      if row = [] \<or> length row > 3
      then Inl (Errorf ''booking: invalid seat row %q (1-3 letters)'' [ArgS row] [])
      else if list_ex (\<lambda>r. r < 65 \<or> r > 90) (runes row)
      then Inl (Errorf ''booking: invalid seat row %q (letters only)'' [ArgS row] [])
      else if number < 1
      then Inl (Errorf ''booking: invalid seat number %d (must be >= 1)'' [ArgI number] [])
      else Inr \<lparr>s_Row = row, s_Number = number\<rparr>)"

section \<open>Holds\<close>

record hold =
  h_SessionID :: string
  h_ScreeningID :: string
  h_Seat :: seat
  h_UserID :: string
  h_HoldToken :: string
  h_ExpiresAt :: time

definition hold_is_expired :: "hold \<Rightarrow> time \<Rightarrow> bool" where
  "hold_is_expired h now \<longleftrightarrow> \<not> now < h_ExpiresAt h"

definition hold_validate :: "hold \<Rightarrow> time \<Rightarrow> unit res" where
  "hold_validate h now =
     (if h_SessionID h = [] then Inl (ErrorsNew ''booking: hold requires a session ID'')
      else if h_ScreeningID h = [] then Inl (ErrorsNew ''booking: hold requires a screening ID'')
      else if h_UserID h = [] then Inl (ErrorsNew ''booking: hold requires a user ID'')
      else if h_HoldToken h = [] then Inl (ErrorsNew ''booking: hold requires a hold token'')
      else if s_Row (h_Seat h) = [] \<or> s_Number (h_Seat h) < 1
      then Inl (ErrorsNew ''booking: hold requires a valid seat'')
      else if h_ExpiresAt h = zero_time \<or> \<not> now < h_ExpiresAt h
      then Inl (ErrorsNew ''booking: hold expiry must be in the future'')
      else Inr ())"

definition can_be_confirmed :: "hold \<Rightarrow> time \<Rightarrow> bool" where
  "can_be_confirmed h now \<longleftrightarrow> \<not> hold_is_expired h now"

section \<open>Bookings\<close>

record booking =
  b_ID :: string
  b_SessionID :: string
  b_ScreeningID :: string
  b_Seat :: seat
  b_UserID :: string
  b_Status :: booking_status
  b_ConfirmedAt :: time

definition can_be_cancelled :: "booking \<Rightarrow> bool" where
  "can_be_cancelled b \<longleftrightarrow> b_Status b = StatusConfirmed"

section \<open>Lemmas\<close>

lemma can_be_confirmed_iff: "can_be_confirmed h now \<longleftrightarrow> now < h_ExpiresAt h"
  by (simp add: can_be_confirmed_def hold_is_expired_def)

text \<open>What \<open>hold_validate\<close> accepts, as one condition.\<close>

definition hold_well_formed :: "hold \<Rightarrow> bool" where
  "hold_well_formed h \<longleftrightarrow> h_SessionID h \<noteq> [] \<and> h_ScreeningID h \<noteq> [] \<and> h_UserID h \<noteq> [] \<and>
     h_HoldToken h \<noteq> [] \<and> s_Row (h_Seat h) \<noteq> [] \<and> 1 \<le> s_Number (h_Seat h)"

lemma hold_validate_ok:
  "hold_validate h now = Inr () \<longleftrightarrow>
     hold_well_formed h \<and> h_ExpiresAt h \<noteq> zero_time \<and> now < h_ExpiresAt h"
  by (auto simp: hold_validate_def hold_well_formed_def)

text \<open>A row label of the accepted shape: one to three capital ASCII letters.\<close>

definition row_label :: "string \<Rightarrow> bool" where
  "row_label r \<longleftrightarrow> r \<noteq> [] \<and> length r \<le> 3 \<and> list_all is_upper_letter r"

definition seat_well_formed :: "seat \<Rightarrow> bool" where
  "seat_well_formed s \<longleftrightarrow> row_label (s_Row s) \<and> 1 \<le> s_Number s"

text \<open>A byte of 128 or more never decodes to a rune below 128, so the rune check of the
  letter loop is a check of the bytes.\<close>

lemma runes_low_ascii:
  "list_all (\<lambda>r. r < 128) (runes s) \<Longrightarrow> ascii s"
proof (induction s rule: runes.induct)
  case 1
  then show ?case by simp
next
  case (2 c rest)
  then have "byte c < 128"
    using decode_rune_high [of c rest] by (fastforce split: prod.splits)
  with 2 show ?case by simp
qed

lemma letters_only_iff:
  "\<not> list_ex (\<lambda>r. r < 65 \<or> r > 90) (runes s) \<longleftrightarrow> list_all is_upper_letter s"
proof
  assume l: "\<not> list_ex (\<lambda>r. r < 65 \<or> r > 90) (runes s)"
  then have "list_all (\<lambda>r. r < 128) (runes s)"
    by (fastforce simp: list_ex_iff list_all_iff)
  then have "runes s = map byte s"
    by (rule runes_ascii [OF runes_low_ascii])
  with l show "list_all is_upper_letter s"
    by (auto simp: list_ex_iff list_all_iff is_upper_letter_def not_less)
next
  assume u: "list_all is_upper_letter s"
  then have "ascii s"
    by (auto simp: ascii_def list_all_iff is_upper_letter_def)
  with u show "\<not> list_ex (\<lambda>r. r < 65 \<or> r > 90) (runes s)"
    by (auto simp: runes_ascii list_ex_iff list_all_iff is_upper_letter_def)
qed

lemma new_seat_Inr:
  "new_seat ut row n = Inr s \<longleftrightarrow>
     s = \<lparr>s_Row = to_upper ut (trim_space row), s_Number = n\<rparr> \<and> seat_well_formed s"
  by (auto simp: new_seat_def Let_def seat_well_formed_def row_label_def letters_only_iff not_less
      simp flip: letters_only_iff)

text \<open>A well-formed row is already trimmed and in capitals, so building its seat again changes nothing.\<close>

lemma row_label_visible: "row_label r \<Longrightarrow> trim_space r = r"
proof -
  assume r: "row_label r"
  then have "visible c" if "c \<in> set r" for c
    using that by (fastforce simp: row_label_def list_all_iff is_upper_letter_def visible_def)
  with r show ?thesis by (simp add: trim_space_id row_label_def)
qed

lemma row_label_upper: "row_label r \<Longrightarrow> to_upper ut r = r"
proof -
  assume "row_label r"
  then have u: "list_all is_upper_letter r" by (simp add: row_label_def)
  then have "ascii r" by (auto simp: ascii_def list_all_iff is_upper_letter_def)
  moreover from u have "concat (map (\<lambda>c. encode_rune (rune_upper ut (byte c))) r) = r"
    by (induction r) (auto simp: is_upper_letter_def rune_upper_def encode_rune_ascii)
  ultimately show ?thesis by (simp add: to_upper_def runes_ascii comp_def)
qed

lemma new_seat_well_formed: "seat_well_formed s \<Longrightarrow> new_seat ut (s_Row s) (s_Number s) = Inr s"
  by (simp add: new_seat_Inr seat_well_formed_def row_label_visible row_label_upper)

end
