(* ===== verification/DomainMovie.thy ===== *)
theory DomainMovie
  imports DomainBooking
begin

text \<open>
  \<open>internal/domain/movie/movie.go\<close>: the catalog entities and the seat-grid geometry of a
  screening.
\<close>

record movie =
  m_ID :: string
  m_Title :: string
  m_Synopsis :: string
  m_DurationMinutes :: int
  m_CreatedAt :: time

record screening =
  sc_ID :: string
  sc_MovieID :: string
  sc_StartsAt :: time
  sc_Rows :: "string list"
  sc_SeatsPerRow :: int
  sc_PriceCents :: int
  sc_CreatedAt :: time

definition has_seat :: "screening \<Rightarrow> seat \<Rightarrow> bool" where
  "has_seat s seat =
     (if s_Number seat < 1 \<or> s_Number seat > sc_SeatsPerRow s then False
      else list_ex (\<lambda>row. row = s_Row seat) (sc_Rows s))"

text \<open>\<open>for n := 1; n <= s.SeatsPerRow; n++\<close> is the list \<open>[1..SeatsPerRow]\<close>.\<close>

definition all_seats :: "screening \<Rightarrow> seat list" where
  "all_seats s =
     concat (map (\<lambda>row. map (\<lambda>n. \<lparr>s_Row = row, s_Number = n\<rparr>) [1..sc_SeatsPerRow s]) (sc_Rows s))"

definition seat_count :: "screening \<Rightarrow> int" where
  "seat_count s = int (length (sc_Rows s)) * sc_SeatsPerRow s"

section \<open>Lemmas\<close>

lemma has_seat_iff:
  "has_seat sc seat \<longleftrightarrow>
     1 \<le> s_Number seat \<and> s_Number seat \<le> sc_SeatsPerRow sc \<and> s_Row seat \<in> set (sc_Rows sc)"
  by (auto simp: has_seat_def list_ex_iff)

lemma set_all_seats: "seat \<in> set (all_seats sc) \<longleftrightarrow> has_seat sc seat"
  by (cases seat) (auto simp: all_seats_def has_seat_iff image_iff)

lemma length_all_seats:
  "0 \<le> sc_SeatsPerRow sc \<Longrightarrow> int (length (all_seats sc)) = seat_count sc"
  by (simp add: all_seats_def seat_count_def length_concat o_def sum_list_triv)

lemma distinct_row_seats: "distinct (map (\<lambda>n. \<lparr>s_Row = row, s_Number = n\<rparr>) [1..k])"
  by (auto simp: distinct_map inj_on_def)

lemma distinct_all_seats:
  "distinct (sc_Rows sc) \<Longrightarrow> distinct (all_seats sc)"
  unfolding all_seats_def
proof (induction "sc_Rows sc" arbitrary: sc)
  case Nil
  then show ?case by simp
next
  case (Cons r rs)
  from Cons.hyps(1) [of "sc\<lparr>sc_Rows := rs\<rparr>"] Cons.prems Cons.hyps(2) [symmetric]
  show ?case by (auto simp: distinct_row_seats)
qed

end
