(* ===== verification/HoldStore.thy ===== *)
theory HoldStore
  imports DomainMovie
begin

text \<open>
  The \<open>HoldStore\<close> port (\<open>internal/application/booking/holdstore.go\<close>): the operations the
  booking and payment use cases call and the laws its documentation promises, as a locale
  over the implementation's state. \<open>live now s sid\<close> is the hold a session has at an
  instant; \<open>stored h\<close> is the form in which an implementation keeps \<open>h\<close> (Redis keeps the
  expiry in whole seconds). The operations read the clock, so they take the instant at
  which they run.
\<close>

section \<open>Seat keys\<close>

text \<open>Two seat keys built from well-formed seats agree only on the same screening and seat:
  the number and the row hold no colon, so the key splits at its last two colons.\<close>

lemma split_last_colon:
  assumes "CHR '':'' \<notin> set x" "CHR '':'' \<notin> set y"
    and "a @ CHR '':'' # x = b @ CHR '':'' # y"
  shows "a = b \<and> x = y"
proof -
  have "rev x @ CHR '':'' # rev a = rev y @ CHR '':'' # rev b"
    using arg_cong [OF assms(3), of rev] by simp
  then have "cut CHR '':'' (rev x @ CHR '':'' # rev a) = cut CHR '':'' (rev y @ CHR '':'' # rev b)"
    by simp
  with assms(1,2) show ?thesis
    by (simp add: cut_append)
qed

lemma seat_key_parts_inject:
  assumes "CHR '':'' \<notin> set r" "CHR '':'' \<notin> set r'" "int64_range n" "int64_range n'"
    and "scr @ CHR '':'' # r @ CHR '':'' # itoa n = scr' @ CHR '':'' # r' @ CHR '':'' # itoa n'"
  shows "scr = scr' \<and> r = r' \<and> n = n'"
proof -
  from assms(5) have "(scr @ CHR '':'' # r) @ CHR '':'' # itoa n = (scr' @ CHR '':'' # r') @ CHR '':'' # itoa n'"
    by simp
  then have "scr @ CHR '':'' # r = scr' @ CHR '':'' # r'" and "itoa n = itoa n'"
    using split_last_colon itoa_no_colon by blast+
  then show ?thesis
    using assms split_last_colon itoa_inject by blast
qed

text \<open>A seat whose key is unambiguous: Go's \<open>int\<close> number, a row without a colon.\<close>

definition keyable :: "seat \<Rightarrow> bool" where
  "keyable s \<longleftrightarrow> CHR '':'' \<notin> set (s_Row s) \<and> int64_range (s_Number s)"

lemma well_formed_keyable:
  "seat_well_formed s \<Longrightarrow> int64_range (s_Number s) \<Longrightarrow> keyable s"
  by (auto simp: keyable_def seat_well_formed_def row_label_def list_all_iff
      is_upper_letter_def byte_def)

section \<open>The contract\<close>

definition same_seat :: "hold \<Rightarrow> hold \<Rightarrow> bool" where
  "same_seat h h' \<longleftrightarrow> h_ScreeningID h = h_ScreeningID h' \<and> h_Seat h = h_Seat h'"

text \<open>
  What the store may rely on: the caller has a seat of the accepted shape, and minted the
  session and the token for this hold. \<open>used s\<close> are the identifiers in the store.
\<close>

definition fresh_hold :: "string set \<Rightarrow> hold \<Rightarrow> bool" where
  "fresh_hold U h \<longleftrightarrow> seat_well_formed (h_Seat h) \<and> int64_range (s_Number (h_Seat h)) \<and>
     h_SessionID h \<notin> U \<and> h_HoldToken h \<notin> U"

text \<open>
  A screening identifier without the metacharacters of a Redis glob: listing the held seats
  matches keys by a pattern built from it. Screening identifiers are UUIDs.
\<close>

definition plain_id :: "string \<Rightarrow> bool" where
  "plain_id scr \<longleftrightarrow> list_all (\<lambda>c. c \<notin> {CHR ''*'', CHR ''?'', CHR ''['', CHR 0x5C}) scr"

locale hold_store =
  fixes invar :: "time \<Rightarrow> 's \<Rightarrow> bool"
    and live :: "time \<Rightarrow> 's \<Rightarrow> string \<Rightarrow> hold option"
    and stored :: "hold \<Rightarrow> hold"
    and used :: "'s \<Rightarrow> string set"
    and hold_op :: "time \<Rightarrow> hold \<Rightarrow> 's \<Rightarrow> unit res \<times> 's"
    and release_op :: "time \<Rightarrow> string \<Rightarrow> string \<Rightarrow> 's \<Rightarrow> unit res \<times> 's"
    and get_op :: "time \<Rightarrow> string \<Rightarrow> 's \<Rightarrow> hold res"
    and held_op :: "time \<Rightarrow> string \<Rightarrow> 's \<Rightarrow> seat list"
  assumes invar_hold:
      "invar now s \<Longrightarrow> fresh_hold (used s) h \<Longrightarrow> hold_op now h s = (r, s') \<Longrightarrow> invar now s'"
    and invar_release: "invar now s \<Longrightarrow> release_op now sid uid s = (r, s') \<Longrightarrow> invar now s'"
    and invar_later: "invar now s \<Longrightarrow> now \<le> later \<Longrightarrow> invar later s"
    and used_hold: "invar now s \<Longrightarrow> fresh_hold (used s) h \<Longrightarrow> hold_op now h s = (r, s') \<Longrightarrow> used s' \<subseteq> insert (h_SessionID h) (insert (h_HoldToken h) (used s))"
    and used_release: "invar now s \<Longrightarrow> release_op now sid uid s = (r, s') \<Longrightarrow> used s' \<subseteq> used s"
    and live_later: "invar now s \<Longrightarrow> now \<le> later \<Longrightarrow> live later s sid = Some h \<Longrightarrow> live now s sid = Some h"
    and stored_seat: "same_seat (stored h) h \<and> h_UserID (stored h) = h_UserID h \<and> h_SessionID (stored h) = h_SessionID h"
    and live_session: "invar now s \<Longrightarrow> live now s sid = Some h \<Longrightarrow> h_SessionID h = sid \<and> keyable (h_Seat h)"
    and get_live: "invar now s \<Longrightarrow> get_op now sid s =
        (case live now s sid of None \<Rightarrow> Inl ErrHoldNotFound | Some h \<Rightarrow> Inr h)"
    and live_exclusive: "invar now s \<Longrightarrow> live now s a = Some h \<Longrightarrow> live now s b = Some h' \<Longrightarrow>
        same_seat h h' \<Longrightarrow> a = b"
    and hold_ok: "invar now s \<Longrightarrow> fresh_hold (used s) h \<Longrightarrow> now < h_ExpiresAt h \<Longrightarrow>
        hold_op now h s = (Inr (), s') \<Longrightarrow>
        (\<forall>sid. live now s' sid = (if sid = h_SessionID h then Some (stored h) else live now s sid))
        \<and> (\<forall>sid h'. live now s sid = Some h' \<longrightarrow> \<not> same_seat h' h)"
    and hold_late: "invar now s \<Longrightarrow> fresh_hold (used s) h \<Longrightarrow> \<not> now < h_ExpiresAt h \<Longrightarrow>
        hold_op now h s = (r, s') \<Longrightarrow> live now s' sid = Some h' \<Longrightarrow> live now s sid = Some h'"
    and hold_err: "invar now s \<Longrightarrow> fresh_hold (used s) h \<Longrightarrow> hold_op now h s = (Inl e, s') \<Longrightarrow> s' = s"
    and release_unknown: "invar now s \<Longrightarrow> live now s sid = None \<Longrightarrow>
        release_op now sid uid s = (Inl ErrHoldNotFound, s)"
    and release_foreign: "invar now s \<Longrightarrow> live now s sid = Some h \<Longrightarrow> h_UserID h \<noteq> uid \<Longrightarrow>
        release_op now sid uid s = (Inl ErrNotHoldOwner, s)"
    and release_owner: "invar now s \<Longrightarrow> live now s sid = Some h \<Longrightarrow> h_UserID h = uid \<Longrightarrow>
        \<exists>s'. release_op now sid uid s = (Inr (), s') \<and>
             (\<forall>sid'. live now s' sid' = (if sid' = sid then None else live now s sid'))"
    and held_live: "invar now s \<Longrightarrow> plain_id scr \<Longrightarrow> set (held_op now scr s) =
        {h_Seat h | sid h. live now s sid = Some h \<and> h_ScreeningID h = scr}"
begin

text \<open>Two holds of one seat are never both live.\<close>

lemma one_holder_per_seat:
  assumes "invar now s" "live now s a = Some h" "live now s b = Some h'" "a \<noteq> b"
  shows "\<not> same_seat h h'"
  using assms live_exclusive by blast

text \<open>After a successful hold, a second hold of the seat by another session fails.\<close>

lemma second_hold_fails:
  assumes i: "invar now s" and f: "fresh_hold (used s) h" and t: "now < h_ExpiresAt h"
    and ok: "hold_op now h s = (Inr (), s')"
    and f': "fresh_hold (used s') h'" and t': "now < h_ExpiresAt h'" and same: "same_seat h' h"
  shows "\<exists>e. fst (hold_op now h' s') = Inl e"
proof (cases "hold_op now h' s'")
  case (Pair r s'')
  show ?thesis
  proof (cases r)
    case (Inr u)
    with Pair have "hold_op now h' s' = (Inr (), s'')" by simp
    from hold_ok [OF invar_hold [OF i f ok] f' t' this]
    have "\<forall>sid k. live now s' sid = Some k \<longrightarrow> \<not> same_seat k h'" by blast
    moreover have "live now s' (h_SessionID h) = Some (stored h)"
      using hold_ok [OF i f t ok] by simp
    ultimately show ?thesis
      using stored_seat [of h] same by (auto simp: same_seat_def)
  qed (simp add: Pair)
qed

text \<open>Whatever a hold call does, a hold that is live afterwards was live before or is the new one.\<close>

lemma hold_live_origin:
  assumes i: "invar now s" and f: "fresh_hold (used s) h" and c: "hold_op now h s = (r, s')"
    and l: "live now s' sid = Some h'"
  shows "live now s sid = Some h' \<or> (sid = h_SessionID h \<and> h' = stored h)"
proof (cases r)
  case (Inl e)
  with hold_err [OF i f, of e s'] c l show ?thesis by simp
next
  case (Inr u)
  show ?thesis
  proof (cases "now < h_ExpiresAt h")
    case True
    with hold_ok [OF i f True, of s'] c Inr l show ?thesis by (auto split: if_splits)
  next
    case False
    with hold_late [OF i f False c l] show ?thesis by simp
  qed
qed

text \<open>A release, whatever its outcome, leaves every other session's hold in place.\<close>

lemma release_keeps_others:
  assumes i: "invar now s" and r: "release_op now sid uid s = (r, s')" and ne: "sid' \<noteq> sid"
  shows "live now s' sid' = live now s sid'"
proof (cases "live now s sid")
  case None
  with release_unknown [OF i None] r show ?thesis by simp
next
  case (Some h)
  show ?thesis
  proof (cases "h_UserID h = uid")
    case True
    with release_owner [OF i Some] r ne show ?thesis by fastforce
  next
    case False
    with release_foreign [OF i Some] r show ?thesis by simp
  qed
qed

lemma release_live_origin:
  assumes i: "invar now s" and r: "release_op now sid uid s = (r, s')" and l: "live now s' sid' = Some h"
  shows "live now s sid' = Some h"
proof (cases "sid' = sid")
  case True
  show ?thesis
  proof (cases "live now s sid")
    case None
    with release_unknown [OF i None] r l True show ?thesis by simp
  next
    case (Some h')
    with release_owner [OF i Some] release_foreign [OF i Some] r l True show ?thesis
      by (cases "h_UserID h' = uid") fastforce+
  qed
next
  case False
  with release_keeps_others [OF i r] l show ?thesis by simp
qed

text \<open>A successful hold can be read back, and given up by its owner, who leaves no trace of it.\<close>

lemma hold_then_get:
  assumes "invar now s" "fresh_hold (used s) h" "now < h_ExpiresAt h" "hold_op now h s = (Inr (), s')"
  shows "get_op now (h_SessionID h) s' = Inr (stored h)"
  using hold_ok [OF assms] get_live [OF invar_hold [OF assms(1,2,4)]] by simp

lemma hold_then_release:
  assumes "invar now s" "fresh_hold (used s) h" "now < h_ExpiresAt h" "hold_op now h s = (Inr (), s')"
  shows "\<exists>s''. release_op now (h_SessionID h) (h_UserID h) s' = (Inr (), s'') \<and>
           (\<forall>sid. live now s'' sid = (if sid = h_SessionID h then None else live now s sid))"
proof -
  have l: "live now s' (h_SessionID h) = Some (stored h)"
    using hold_ok [OF assms] by simp
  show ?thesis
    using release_owner [OF invar_hold [OF assms(1,2,4)] l] stored_seat [of h] hold_ok [OF assms]
    by fastforce
qed

text \<open>A held seat is listed for its screening.\<close>

lemma held_after_hold:
  assumes "invar now s" "fresh_hold (used s) h" "now < h_ExpiresAt h" "hold_op now h s = (Inr (), s')"
    and "plain_id (h_ScreeningID h)"
  shows "h_Seat h \<in> set (held_op now (h_ScreeningID h) s')"
  using hold_ok [OF assms(1-4)] held_live [OF invar_hold [OF assms(1,2,4)] assms(5)] stored_seat [of h]
  by (fastforce simp: same_seat_def)

end

end
