(* ===== verification/BookingStore.thy ===== *)
theory BookingStore
  imports HoldStore
begin

text \<open>
  The \<open>BookingStore\<close> port (\<open>internal/application/booking/bookingstore.go\<close>) as a locale: the
  durable sales record and its arbiter. \<open>rows\<close> is the set of booking rows a state holds;
  \<open>bookable\<close> is what an implementation needs of a row beyond the two uniqueness rules (a
  database checks its foreign keys). \<open>confirm_op\<close> takes the identity and the instant the
  store assigns. \<open>spell b\<close> is \<open>b\<close> as the store writes it down: a UUID column keeps one spelling
  of an identifier and an integer column 32 bits of a number; a bookable row is spelled so.
  \<open>fresh_id s i\<close> says that what the store makes of the identity \<open>i\<close> is new to it.
\<close>

definition same_booking_seat :: "booking \<Rightarrow> booking \<Rightarrow> bool" where
  "same_booking_seat b b' \<longleftrightarrow> b_ScreeningID b = b_ScreeningID b' \<and> b_Seat b = b_Seat b'"

definition session_taken :: "booking set \<Rightarrow> string \<Rightarrow> bool" where
  "session_taken R sid \<longleftrightarrow> (\<exists>r \<in> R. b_SessionID r = sid)"

definition seat_taken :: "booking set \<Rightarrow> string \<Rightarrow> seat \<Rightarrow> bool" where
  "seat_taken R scr seat \<longleftrightarrow>
     (\<exists>r \<in> R. b_ScreeningID r = scr \<and> b_Seat r = seat \<and> b_Status r = StatusConfirmed)"

text \<open>The arbiter: one row per session, one confirmed row per seat.\<close>

definition arbiter :: "booking set \<Rightarrow> bool" where
  "arbiter R \<longleftrightarrow>
     (\<forall>r \<in> R. \<forall>r' \<in> R. b_SessionID r = b_SessionID r' \<longrightarrow> r = r') \<and>
     (\<forall>r \<in> R. \<forall>r' \<in> R. b_Status r = StatusConfirmed \<longrightarrow> b_Status r' = StatusConfirmed \<longrightarrow>
        same_booking_seat r r' \<longrightarrow> r = r')"

lemma arbiter_empty [simp]: "arbiter {}"
  by (simp add: arbiter_def)

lemma arbiter_insert:
  "arbiter R \<Longrightarrow> \<not> session_taken R (b_SessionID b) \<Longrightarrow>
     \<not> seat_taken R (b_ScreeningID b) (b_Seat b) \<Longrightarrow> arbiter (insert b R)"
  unfolding arbiter_def session_taken_def seat_taken_def same_booking_seat_def
  by (metis insert_iff)

locale booking_store =
  fixes invar :: "'s \<Rightarrow> bool"
    and rows :: "'s \<Rightarrow> booking set"
    and bookable :: "'s \<Rightarrow> booking \<Rightarrow> bool"
    and spell :: "booking \<Rightarrow> booking"
    and fresh_id :: "'s \<Rightarrow> string \<Rightarrow> bool"
    and confirm_op :: "string \<Rightarrow> time \<Rightarrow> booking \<Rightarrow> 's \<Rightarrow> booking res \<times> 's"
    and by_session_op :: "string \<Rightarrow> 's \<Rightarrow> booking res"
    and seat_confirmed_op :: "string \<Rightarrow> seat \<Rightarrow> 's \<Rightarrow> bool res"
    and confirmed_seats_op :: "string \<Rightarrow> 's \<Rightarrow> seat list res"
  assumes rows_arbiter: "invar s \<Longrightarrow> arbiter (rows s)"
    and bookable_keyable: "bookable s b \<Longrightarrow> keyable (b_Seat b)"
    and bookable_spell: "bookable s b \<Longrightarrow> same_booking_seat (spell b) b \<and> b_UserID (spell b) = b_UserID b"
    and confirm_invar: "invar s \<Longrightarrow> keyable (b_Seat b) \<Longrightarrow> confirm_op i now b s = (r, s') \<Longrightarrow> invar s'"
    and confirm_row: "invar s \<Longrightarrow> keyable (b_Seat b) \<Longrightarrow> confirm_op i now b s = (Inr b', s') \<Longrightarrow>
        rows s' = insert b' (rows s) \<and> b_SessionID b' = b_SessionID b \<and> same_booking_seat b' (spell b) \<and>
        b_UserID b' = b_UserID (spell b) \<and> b_Status b' = StatusConfirmed"
    and confirm_err: "invar s \<Longrightarrow> confirm_op i now b s = (Inl e, s') \<Longrightarrow> rows s' = rows s"
    and confirm_free: "invar s \<Longrightarrow> bookable s b \<Longrightarrow> fresh_id s i \<Longrightarrow> \<not> session_taken (rows s) (b_SessionID b) \<Longrightarrow>
        \<not> seat_taken (rows s) (b_ScreeningID b) (b_Seat b) \<Longrightarrow>
        \<exists>b' s'. confirm_op i now b s = (Inr b', s')"
    and confirm_session: "invar s \<Longrightarrow> bookable s b \<Longrightarrow> session_taken (rows s) (b_SessionID b) \<Longrightarrow>
        \<not> seat_taken (rows s) (b_ScreeningID b) (b_Seat b) \<Longrightarrow>
        fst (confirm_op i now b s) = Inl ErrSessionAlreadyConfirmed"
    and confirm_seat: "invar s \<Longrightarrow> bookable s b \<Longrightarrow> \<not> session_taken (rows s) (b_SessionID b) \<Longrightarrow>
        seat_taken (rows s) (b_ScreeningID b) (b_Seat b) \<Longrightarrow>
        fst (confirm_op i now b s) = Inl ErrSeatAlreadyBooked"
    and confirm_both: "invar s \<Longrightarrow> bookable s b \<Longrightarrow> session_taken (rows s) (b_SessionID b) \<Longrightarrow>
        seat_taken (rows s) (b_ScreeningID b) (b_Seat b) \<Longrightarrow>
        fst (confirm_op i now b s) \<in> {Inl ErrSessionAlreadyConfirmed, Inl ErrSeatAlreadyBooked}"
    and by_session_found: "invar s \<Longrightarrow> b \<in> rows s \<Longrightarrow> by_session_op (b_SessionID b) s = Inr b"
    and by_session_unknown: "invar s \<Longrightarrow> \<not> session_taken (rows s) sid \<Longrightarrow>
        by_session_op sid s = Inl ErrBookingNotFound"
    and seat_confirmed: "invar s \<Longrightarrow> bookable s b \<Longrightarrow>
        seat_confirmed_op (b_ScreeningID b) (b_Seat b) s
          = Inr (seat_taken (rows s) (b_ScreeningID b) (b_Seat b))"
    and confirmed_seats: "invar s \<Longrightarrow> bookable s b \<Longrightarrow> confirmed_seats_op (b_ScreeningID b) s = Inr seats \<Longrightarrow>
        set seats = {seat. seat_taken (rows s) (b_ScreeningID b) seat}"
begin

text \<open>A confirm succeeds exactly when neither its session nor its seat is taken.\<close>

lemma confirm_iff_free:
  assumes "invar s" "bookable s b" "fresh_id s i"
  shows "(\<exists>b'. fst (confirm_op i now b s) = Inr b') \<longleftrightarrow>
     \<not> session_taken (rows s) (b_SessionID b) \<and> \<not> seat_taken (rows s) (b_ScreeningID b) (b_Seat b)"
  using confirm_free [OF assms, of now] confirm_session [OF assms(1,2), of i now]
    confirm_seat [OF assms(1,2), of i now] confirm_both [OF assms(1,2), of i now]
  by fastforce

text \<open>A refused confirm is one of the two conflicts, and each names a taken resource.\<close>

lemma confirm_conflict:
  assumes "invar s" "bookable s b" "fst (confirm_op i now b s) = Inl e" "fresh_id s i"
  shows "(e = ErrSeatAlreadyBooked \<and> seat_taken (rows s) (b_ScreeningID b) (b_Seat b)) \<or>
         (e = ErrSessionAlreadyConfirmed \<and> session_taken (rows s) (b_SessionID b))"
  using assms(3) confirm_free [OF assms(1,2,4), of now] confirm_session [OF assms(1,2), of i now]
    confirm_seat [OF assms(1,2), of i now] confirm_both [OF assms(1,2), of i now]
  by fastforce

text \<open>After a confirm, the row is found by its session and its seat is sold.\<close>

lemma confirm_then_lookup:
  assumes i: "invar s" and b: "bookable s b" and ok: "confirm_op i now b s = (Inr b', s')"
  shows "by_session_op (b_SessionID b) s' = Inr b'"
    and "seat_taken (rows s') (b_ScreeningID b) (b_Seat b)"
proof -
  note k = bookable_keyable [OF b]
  note row = confirm_row [OF i k ok] bookable_spell [OF b]
  show "by_session_op (b_SessionID b) s' = Inr b'"
    using by_session_found [OF confirm_invar [OF i k ok], of b'] row by simp
  show "seat_taken (rows s') (b_ScreeningID b) (b_Seat b)"
    using row by (auto simp: seat_taken_def same_booking_seat_def)
qed

text \<open>No second booking: of two confirms in sequence for one seat or one session, the second is refused.\<close>

lemma second_confirm_fails:
  assumes i: "invar s" and b: "bookable s b" and ok: "confirm_op i now b s = (Inr b', s')"
    and c: "bookable s' c" and clash: "b_SessionID c = b_SessionID b \<or> same_booking_seat c b"
  shows "\<exists>e. fst (confirm_op j later c s') = Inl e"
proof -
  have "session_taken (rows s') (b_SessionID c) \<or> seat_taken (rows s') (b_ScreeningID c) (b_Seat c)"
    using confirm_row [OF i bookable_keyable [OF b] ok] bookable_spell [OF b] confirm_then_lookup(2) [OF i b ok] clash
    by (auto simp: session_taken_def same_booking_seat_def)
  moreover note i' = confirm_invar [OF i bookable_keyable [OF b] ok]
  ultimately show ?thesis
    using confirm_session [OF i' c, of j later] confirm_seat [OF i' c, of j later] confirm_both [OF i' c, of j later]
    by fastforce
qed

end

end
