(* ===== verification/Ports.thy ===== *)
theory Ports
  imports PaymentStore HoldStore BookingStore
begin

text \<open>
  The use cases of \<open>internal/application/booking\<close> and \<open>internal/application/payment\<close> run in
  many goroutines at once and touch shared state only through their ports. A use case is
  therefore a tree of port calls: each node is one call with its arguments, and a child for
  every result. Running the tree against an implementation of the ports gives the
  sequential behaviour; stepping several trees by turns gives every interleaving.
\<close>

section \<open>Port calls\<close>

text \<open>\<open>payment.WebhookEvent\<close> with its \<open>EventKind\<close>, a string.\<close>

record webhook_event =
  ev_Kind :: string
  ev_IntentID :: string
  ev_AmountCents :: int

definition EventCaptured :: string where
  "EventCaptured = ''payment.captured''"

definition EventFailed :: string where
  "EventFailed = ''payment.failed''"

record intent_request =
  ir_AmountCents :: int
  ir_Currency :: string
  ir_BookingSessionID :: string

datatype 'a prog =
    Ret 'a
  | Now "time \<Rightarrow> 'a prog"
  | NewID "string \<Rightarrow> 'a prog"
  | HoldsHold hold "unit res \<Rightarrow> 'a prog"
  | HoldsRelease string string "unit res \<Rightarrow> 'a prog"
  | HoldsGet string "hold res \<Rightarrow> 'a prog"
  | HoldsHeldSeats string "seat list res \<Rightarrow> 'a prog"
  | BookingsConfirm booking "booking res \<Rightarrow> 'a prog"
  | BookingsGetBySession string "booking res \<Rightarrow> 'a prog"
  | BookingsSeatConfirmed string seat "bool res \<Rightarrow> 'a prog"
  | BookingsConfirmedSeats string "seat list res \<Rightarrow> 'a prog"
  | ScreeningsGet string "screening res \<Rightarrow> 'a prog"
  | PaymentsHasCaptured string "bool res \<Rightarrow> 'a prog"
  | PaymentsInsertIntent payment "payment res \<Rightarrow> 'a prog"
  | PaymentsGetActive string "payment res \<Rightarrow> 'a prog"
  | PaymentsGetByIntent string "payment res \<Rightarrow> 'a prog"
  | PaymentsCapture string "(payment \<times> bool) res \<Rightarrow> 'a prog"
  | PaymentsMarkFailed string "payment res \<Rightarrow> 'a prog"
  | GatewayProvider "string \<Rightarrow> 'a prog"
  | GatewayCreateIntent intent_request "string res \<Rightarrow> 'a prog"
  | GatewayCaptureIntent string int "unit res \<Rightarrow> 'a prog"
  | GatewayVerifyWebhook string string "webhook_event res \<Rightarrow> 'a prog"

section \<open>Implementations of the ports\<close>

text \<open>
  One field per port method. A method that only reads does not change the state; every
  other one returns it updated.
\<close>

record 'w ports =
  now_p :: "'w \<Rightarrow> time"
  new_id_p :: "'w \<Rightarrow> string \<times> 'w"
  holds_hold_p :: "hold \<Rightarrow> 'w \<Rightarrow> unit res \<times> 'w"
  holds_release_p :: "string \<Rightarrow> string \<Rightarrow> 'w \<Rightarrow> unit res \<times> 'w"
  holds_get_p :: "string \<Rightarrow> 'w \<Rightarrow> hold res"
  holds_held_seats_p :: "string \<Rightarrow> 'w \<Rightarrow> seat list res"
  bookings_confirm_p :: "booking \<Rightarrow> 'w \<Rightarrow> booking res \<times> 'w"
  bookings_get_by_session_p :: "string \<Rightarrow> 'w \<Rightarrow> booking res"
  bookings_seat_confirmed_p :: "string \<Rightarrow> seat \<Rightarrow> 'w \<Rightarrow> bool res"
  bookings_confirmed_seats_p :: "string \<Rightarrow> 'w \<Rightarrow> seat list res"
  screenings_get_p :: "string \<Rightarrow> 'w \<Rightarrow> screening res"
  payments_has_captured_p :: "string \<Rightarrow> 'w \<Rightarrow> bool res"
  payments_insert_intent_p :: "payment \<Rightarrow> 'w \<Rightarrow> payment res \<times> 'w"
  payments_get_active_p :: "string \<Rightarrow> 'w \<Rightarrow> payment res"
  payments_get_by_intent_p :: "string \<Rightarrow> 'w \<Rightarrow> payment res"
  payments_capture_p :: "string \<Rightarrow> 'w \<Rightarrow> (payment \<times> bool) res \<times> 'w"
  payments_mark_failed_p :: "string \<Rightarrow> 'w \<Rightarrow> payment res \<times> 'w"
  gateway_provider_p :: "'w \<Rightarrow> string"
  gateway_create_intent_p :: "intent_request \<Rightarrow> 'w \<Rightarrow> string res \<times> 'w"
  gateway_capture_intent_p :: "string \<Rightarrow> int \<Rightarrow> 'w \<Rightarrow> unit res \<times> 'w"
  gateway_verify_webhook_p :: "string \<Rightarrow> string \<Rightarrow> 'w \<Rightarrow> webhook_event res"

text \<open>The sequential run: every call in order, nobody else touching the state.\<close>

primrec run :: "'w ports \<Rightarrow> 'a prog \<Rightarrow> 'w \<Rightarrow> 'a \<times> 'w" where
  "run P (Ret x) w = (x, w)"
| "run P (Now k) w = run P (k (now_p P w)) w"
| "run P (NewID k) w = (case new_id_p P w of (r, w') \<Rightarrow> run P (k r) w')"
| "run P (HoldsHold a k) w = (case holds_hold_p P a w of (r, w') \<Rightarrow> run P (k r) w')"
| "run P (HoldsRelease a b k) w = (case holds_release_p P a b w of (r, w') \<Rightarrow> run P (k r) w')"
| "run P (HoldsGet a k) w = run P (k (holds_get_p P a w)) w"
| "run P (HoldsHeldSeats a k) w = run P (k (holds_held_seats_p P a w)) w"
| "run P (BookingsConfirm a k) w = (case bookings_confirm_p P a w of (r, w') \<Rightarrow> run P (k r) w')"
| "run P (BookingsGetBySession a k) w = run P (k (bookings_get_by_session_p P a w)) w"
| "run P (BookingsSeatConfirmed a b k) w = run P (k (bookings_seat_confirmed_p P a b w)) w"
| "run P (BookingsConfirmedSeats a k) w = run P (k (bookings_confirmed_seats_p P a w)) w"
| "run P (ScreeningsGet a k) w = run P (k (screenings_get_p P a w)) w"
| "run P (PaymentsHasCaptured a k) w = run P (k (payments_has_captured_p P a w)) w"
| "run P (PaymentsInsertIntent a k) w = (case payments_insert_intent_p P a w of (r, w') \<Rightarrow> run P (k r) w')"
| "run P (PaymentsGetActive a k) w = run P (k (payments_get_active_p P a w)) w"
| "run P (PaymentsGetByIntent a k) w = run P (k (payments_get_by_intent_p P a w)) w"
| "run P (PaymentsCapture a k) w = (case payments_capture_p P a w of (r, w') \<Rightarrow> run P (k r) w')"
| "run P (PaymentsMarkFailed a k) w = (case payments_mark_failed_p P a w of (r, w') \<Rightarrow> run P (k r) w')"
| "run P (GatewayProvider k) w = run P (k (gateway_provider_p P w)) w"
| "run P (GatewayCreateIntent a k) w = (case gateway_create_intent_p P a w of (r, w') \<Rightarrow> run P (k r) w')"
| "run P (GatewayCaptureIntent a b k) w = (case gateway_capture_intent_p P a b w of (r, w') \<Rightarrow> run P (k r) w')"
| "run P (GatewayVerifyWebhook a b k) w = run P (k (gateway_verify_webhook_p P a b w)) w"

text \<open>One call, as a scheduler lets a goroutine take it.\<close>

fun step :: "'w ports \<Rightarrow> 'a prog \<Rightarrow> 'w \<Rightarrow> 'a prog \<times> 'w" where
  "step P (Ret x) w = (Ret x, w)"
| "step P (Now k) w = (k (now_p P w), w)"
| "step P (NewID k) w = (case new_id_p P w of (r, w') \<Rightarrow> (k r, w'))"
| "step P (HoldsHold a k) w = (case holds_hold_p P a w of (r, w') \<Rightarrow> (k r, w'))"
| "step P (HoldsRelease a b k) w = (case holds_release_p P a b w of (r, w') \<Rightarrow> (k r, w'))"
| "step P (HoldsGet a k) w = (k (holds_get_p P a w), w)"
| "step P (HoldsHeldSeats a k) w = (k (holds_held_seats_p P a w), w)"
| "step P (BookingsConfirm a k) w = (case bookings_confirm_p P a w of (r, w') \<Rightarrow> (k r, w'))"
| "step P (BookingsGetBySession a k) w = (k (bookings_get_by_session_p P a w), w)"
| "step P (BookingsSeatConfirmed a b k) w = (k (bookings_seat_confirmed_p P a b w), w)"
| "step P (BookingsConfirmedSeats a k) w = (k (bookings_confirmed_seats_p P a w), w)"
| "step P (ScreeningsGet a k) w = (k (screenings_get_p P a w), w)"
| "step P (PaymentsHasCaptured a k) w = (k (payments_has_captured_p P a w), w)"
| "step P (PaymentsInsertIntent a k) w = (case payments_insert_intent_p P a w of (r, w') \<Rightarrow> (k r, w'))"
| "step P (PaymentsGetActive a k) w = (k (payments_get_active_p P a w), w)"
| "step P (PaymentsGetByIntent a k) w = (k (payments_get_by_intent_p P a w), w)"
| "step P (PaymentsCapture a k) w = (case payments_capture_p P a w of (r, w') \<Rightarrow> (k r, w'))"
| "step P (PaymentsMarkFailed a k) w = (case payments_mark_failed_p P a w of (r, w') \<Rightarrow> (k r, w'))"
| "step P (GatewayProvider k) w = (k (gateway_provider_p P w), w)"
| "step P (GatewayCreateIntent a k) w = (case gateway_create_intent_p P a w of (r, w') \<Rightarrow> (k r, w'))"
| "step P (GatewayCaptureIntent a b k) w = (case gateway_capture_intent_p P a b w of (r, w') \<Rightarrow> (k r, w'))"
| "step P (GatewayVerifyWebhook a b k) w = (k (gateway_verify_webhook_p P a b w), w)"

text \<open>A bound on the calls of a use case, whatever the ports answer.\<close>

primrec calls_le :: "'a prog \<Rightarrow> nat \<Rightarrow> bool" where
  "calls_le (Ret x) n = True"
| "calls_le (Now k) n = (n > 0 \<and> (\<forall>r. calls_le (k r) (n - 1)))"
| "calls_le (NewID k) n = (n > 0 \<and> (\<forall>r. calls_le (k r) (n - 1)))"
| "calls_le (HoldsHold a k) n = (n > 0 \<and> (\<forall>r. calls_le (k r) (n - 1)))"
| "calls_le (HoldsRelease a b k) n = (n > 0 \<and> (\<forall>r. calls_le (k r) (n - 1)))"
| "calls_le (HoldsGet a k) n = (n > 0 \<and> (\<forall>r. calls_le (k r) (n - 1)))"
| "calls_le (HoldsHeldSeats a k) n = (n > 0 \<and> (\<forall>r. calls_le (k r) (n - 1)))"
| "calls_le (BookingsConfirm a k) n = (n > 0 \<and> (\<forall>r. calls_le (k r) (n - 1)))"
| "calls_le (BookingsGetBySession a k) n = (n > 0 \<and> (\<forall>r. calls_le (k r) (n - 1)))"
| "calls_le (BookingsSeatConfirmed a b k) n = (n > 0 \<and> (\<forall>r. calls_le (k r) (n - 1)))"
| "calls_le (BookingsConfirmedSeats a k) n = (n > 0 \<and> (\<forall>r. calls_le (k r) (n - 1)))"
| "calls_le (ScreeningsGet a k) n = (n > 0 \<and> (\<forall>r. calls_le (k r) (n - 1)))"
| "calls_le (PaymentsHasCaptured a k) n = (n > 0 \<and> (\<forall>r. calls_le (k r) (n - 1)))"
| "calls_le (PaymentsInsertIntent a k) n = (n > 0 \<and> (\<forall>r. calls_le (k r) (n - 1)))"
| "calls_le (PaymentsGetActive a k) n = (n > 0 \<and> (\<forall>r. calls_le (k r) (n - 1)))"
| "calls_le (PaymentsGetByIntent a k) n = (n > 0 \<and> (\<forall>r. calls_le (k r) (n - 1)))"
| "calls_le (PaymentsCapture a k) n = (n > 0 \<and> (\<forall>r. calls_le (k r) (n - 1)))"
| "calls_le (PaymentsMarkFailed a k) n = (n > 0 \<and> (\<forall>r. calls_le (k r) (n - 1)))"
| "calls_le (GatewayProvider k) n = (n > 0 \<and> (\<forall>r. calls_le (k r) (n - 1)))"
| "calls_le (GatewayCreateIntent a k) n = (n > 0 \<and> (\<forall>r. calls_le (k r) (n - 1)))"
| "calls_le (GatewayCaptureIntent a b k) n = (n > 0 \<and> (\<forall>r. calls_le (k r) (n - 1)))"
| "calls_le (GatewayVerifyWebhook a b k) n = (n > 0 \<and> (\<forall>r. calls_le (k r) (n - 1)))"

definition is_ret :: "'a prog \<Rightarrow> bool" where
  "is_ret p = (case p of Ret x \<Rightarrow> True | _ \<Rightarrow> False)"

lemma is_ret_iff: "is_ret p \<longleftrightarrow> (\<exists>x. p = Ret x)"
  by (cases p) (simp_all add: is_ret_def)

lemma step_run: "run P (fst (step P p w)) (snd (step P p w)) = run P p w"
  by (cases p) (simp_all split: prod.splits)

lemma calls_le_step: "calls_le p n \<Longrightarrow> \<not> is_ret p \<Longrightarrow> 0 < n \<and> calls_le (fst (step P p w)) (n - 1)"
  by (cases p) (simp_all add: is_ret_def split: prod.splits)

end
