(* ===== verification/BookingService.thy ===== *)
theory BookingService
  imports Ports
begin

text \<open>
  \<open>internal/application/booking/service.go\<close>: the booking use cases as trees of port calls.
  The log lines have no effect on results or state and are left out; everything else is
  in the order of the code.
\<close>

section \<open>Use cases\<close>

record confirm_result =
  cr_Booking :: booking
  cr_Created :: bool

record seat_state =
  ss_Seat :: seat
  ss_Status :: seat_status

record seat_map_view =
  sm_Screening :: screening
  sm_Seats :: "seat_state list"

text \<open>\<open>Service.Hold\<close>; the struct literal mints the session identifier before the token.\<close>

definition booking_hold :: "duration \<Rightarrow> string \<Rightarrow> string \<Rightarrow> seat \<Rightarrow> hold res prog" where
  "booking_hold holdTTL userID screeningID seat =
     ScreeningsGet screeningID (\<lambda>r. case r of Inl err \<Rightarrow> Ret (Inl err) | Inr screening \<Rightarrow>
     if \<not> has_seat screening seat then Ret (Inl ErrSeatOutOfRange) else
     BookingsSeatConfirmed screeningID seat (\<lambda>r. case r of
       Inl err \<Rightarrow> Ret (Inl (Errorf ''booking: hold: seat check: %w'' [] [err]))
     | Inr confirmed \<Rightarrow>
     if confirmed then Ret (Inl ErrSeatAlreadyBooked) else
     Now (\<lambda>now.
     NewID (\<lambda>sessionID.
     NewID (\<lambda>holdToken.
     let hold = \<lparr>h_SessionID = sessionID, h_ScreeningID = screeningID, h_Seat = seat,
                 h_UserID = userID, h_HoldToken = holdToken, h_ExpiresAt = now + holdTTL\<rparr> in
     case hold_validate hold now of
       Inl err \<Rightarrow> Ret (Inl (Errorf ''booking: hold: %w'' [] [err]))
     | Inr _ \<Rightarrow>
     HoldsHold hold (\<lambda>r. case r of Inl err \<Rightarrow> Ret (Inl err) | Inr _ \<Rightarrow> Ret (Inr hold)))))))"

text \<open>\<open>recoverConflict\<close>\<close>

definition recover_conflict :: "error \<Rightarrow> string \<Rightarrow> string \<Rightarrow> confirm_result res prog" where
  "recover_conflict conflict userID sessionID =
     BookingsGetBySession sessionID (\<lambda>r. case r of
       Inl err \<Rightarrow>
         if errors_is err ErrBookingNotFound then Ret (Inl conflict)
         else Ret (Inl (Errorf ''booking: confirm: conflict recovery: %w'' [] [err]))
     | Inr existing \<Rightarrow>
         if b_UserID existing \<noteq> userID
         then Ret (Inl (ErrorsNew ''booking: confirm: ownership invariant violated''))
         else if b_Status existing = StatusConfirmed
         then Ret (Inr \<lparr>cr_Booking = existing, cr_Created = False\<rparr>)
         else Ret (Inl conflict))"

text \<open>\<open>cleanupHold\<close> releases the hold and goes on whatever the store answers.\<close>

definition cleanup_hold :: "string \<Rightarrow> string \<Rightarrow> 'a prog \<Rightarrow> 'a prog" where
  "cleanup_hold sessionID userID next = HoldsRelease sessionID userID (\<lambda>_. next)"

definition booking_confirm :: "string \<Rightarrow> string \<Rightarrow> confirm_result res prog" where
  "booking_confirm userID sessionID =
     HoldsGet sessionID (\<lambda>r. case r of Inl err \<Rightarrow> Ret (Inl err) | Inr hold \<Rightarrow>
     if h_UserID hold \<noteq> userID then Ret (Inl ErrNotHoldOwner) else
     Now (\<lambda>now.
     if \<not> can_be_confirmed hold now then Ret (Inl ErrHoldExpired) else
     PaymentsHasCaptured sessionID (\<lambda>r. case r of
       Inl err \<Rightarrow> Ret (Inl (Errorf ''booking: confirm: payment gate: %w'' [] [err]))
     | Inr captured \<Rightarrow>
     if \<not> captured then Ret (Inl ErrPaymentNotCaptured) else
     BookingsConfirm
       \<lparr>b_ID = [], b_SessionID = h_SessionID hold, b_ScreeningID = h_ScreeningID hold,
        b_Seat = h_Seat hold, b_UserID = h_UserID hold, b_Status = StatusConfirmed,
        b_ConfirmedAt = zero_time\<rparr>
       (\<lambda>r. case r of
         Inr created \<Rightarrow> cleanup_hold sessionID userID
           (Ret (Inr \<lparr>cr_Booking = created, cr_Created = True\<rparr>))
       | Inl err \<Rightarrow>
           if errors_is err ErrSeatAlreadyBooked \<or> errors_is err ErrSessionAlreadyConfirmed
           then recover_conflict err userID sessionID
           else Ret (Inl err)))))"

definition booking_release :: "string \<Rightarrow> string \<Rightarrow> unit res prog" where
  "booking_release userID sessionID = HoldsRelease sessionID userID Ret"

text \<open>The two membership sets of \<open>SeatMap\<close> are built from the lists the stores return.\<close>

definition seat_status_of :: "seat list \<Rightarrow> seat list \<Rightarrow> seat \<Rightarrow> seat_status" where
  "seat_status_of booked held seat =
     (if seat \<in> set booked then SeatStatusBooked
      else if seat \<in> set held then SeatStatusHeld
      else SeatStatusAvailable)"

definition booking_seat_map :: "string \<Rightarrow> seat_map_view res prog" where
  "booking_seat_map screeningID =
     ScreeningsGet screeningID (\<lambda>r. case r of Inl err \<Rightarrow> Ret (Inl err) | Inr screening \<Rightarrow>
     BookingsConfirmedSeats screeningID (\<lambda>r. case r of
       Inl err \<Rightarrow> Ret (Inl (Errorf ''booking: seat map: confirmed seats: %w'' [] [err]))
     | Inr booked \<Rightarrow>
     HoldsHeldSeats screeningID (\<lambda>r. case r of
       Inl err \<Rightarrow> Ret (Inl (Errorf ''booking: seat map: held seats: %w'' [] [err]))
     | Inr held \<Rightarrow>
     Ret (Inr \<lparr>sm_Screening = screening,
               sm_Seats = map (\<lambda>seat. \<lparr>ss_Seat = seat, ss_Status = seat_status_of booked held seat\<rparr>)
                 (all_seats screening)\<rparr>))))"

section \<open>Bounded calls\<close>

lemma booking_calls:
  "calls_le (booking_hold ttl u scr seat) 6"
  "calls_le (booking_confirm u sid) 5"
  "calls_le (booking_release u sid) 1"
  "calls_le (booking_seat_map scr) 3"
  by (simp_all add: booking_hold_def booking_confirm_def booking_release_def booking_seat_map_def
      recover_conflict_def cleanup_hold_def Let_def split: sum.split)

end
