(* ===== verification/PaymentService.thy ===== *)
theory PaymentService
  imports Ports
begin

text \<open>
  \<open>internal/application/payment/service.go\<close>: intents, client capture and webhooks as trees of
  port calls, in the order of the code and without the log lines.
\<close>

section \<open>Use cases\<close>

record intent_result =
  in_Payment :: payment
  in_HoldExpiresAt :: time
  in_Created :: bool

record webhook_outcome =
  wo_IntentID :: string
  wo_Applied :: bool

text \<open>\<open>holdGate\<close>, with the rest of the use case as its continuation.\<close>

definition hold_gate :: "string \<Rightarrow> string \<Rightarrow> (hold res \<Rightarrow> 'a prog) \<Rightarrow> 'a prog" where
  "hold_gate userID sessionID k =
     HoldsGet sessionID (\<lambda>r. case r of Inl err \<Rightarrow> k (Inl err) | Inr hold \<Rightarrow>
     if h_UserID hold \<noteq> userID then k (Inl ErrNotHoldOwner) else
     Now (\<lambda>now. if \<not> can_be_confirmed hold now then k (Inl ErrHoldExpired) else k (Inr hold)))"

text \<open>The fields of the \<open>domain.Payment\<close> literal that the code leaves out are zero values.\<close>

definition new_intent_row :: "string \<Rightarrow> string \<Rightarrow> string \<Rightarrow> int \<Rightarrow> payment" where
  "new_intent_row sessionID gateway intentID amountCents =
     \<lparr>p_ID = [], p_BookingSessionID = sessionID, p_Gateway = gateway, p_IntentID = intentID,
      p_Status = [], p_AmountCents = amountCents, p_Currency = DefaultCurrency,
      p_CreatedAt = zero_time, p_UpdatedAt = zero_time\<rparr>"

definition payment_create_intent :: "string \<Rightarrow> string \<Rightarrow> intent_result res prog" where
  "payment_create_intent userID sessionID =
     hold_gate userID sessionID (\<lambda>r. case r of Inl err \<Rightarrow> Ret (Inl err) | Inr hold \<Rightarrow>
     PaymentsGetActive sessionID (\<lambda>r. case r of
       Inr existing \<Rightarrow> Ret (Inr \<lparr>in_Payment = existing, in_HoldExpiresAt = h_ExpiresAt hold, in_Created = False\<rparr>)
     | Inl err \<Rightarrow>
     if \<not> errors_is err ErrPaymentNotFound
     then Ret (Inl (Errorf ''payment: create intent: active lookup: %w'' [] [err])) else
     ScreeningsGet (h_ScreeningID hold) (\<lambda>r. case r of
       Inl err \<Rightarrow> Ret (Inl (Errorf ''payment: create intent: screening: %w'' [] [err]))
     | Inr screening \<Rightarrow>
     GatewayCreateIntent
       \<lparr>ir_AmountCents = sc_PriceCents screening, ir_Currency = DefaultCurrency,
        ir_BookingSessionID = sessionID\<rparr> (\<lambda>r. case r of
       Inl err \<Rightarrow> Ret (Inl (Errorf ''payment: create intent: gateway: %w'' [] [err]))
     | Inr intentID \<Rightarrow>
     GatewayProvider (\<lambda>provider.
     PaymentsInsertIntent (new_intent_row sessionID provider intentID (sc_PriceCents screening)) (\<lambda>r. case r of
       Inl err \<Rightarrow>
         if errors_is err ErrPaymentIntentExists then
           PaymentsGetActive sessionID (\<lambda>r. case r of
             Inl getErr \<Rightarrow> Ret (Inl err)
           | Inr winner \<Rightarrow> Ret (Inr \<lparr>in_Payment = winner, in_HoldExpiresAt = h_ExpiresAt hold, in_Created = False\<rparr>))
         else Ret (Inl (Errorf ''payment: create intent: insert: %w'' [] [err]))
     | Inr row \<Rightarrow> Ret (Inr \<lparr>in_Payment = row, in_HoldExpiresAt = h_ExpiresAt hold, in_Created = True\<rparr>)))))))"

definition payment_confirm_by_client :: "string \<Rightarrow> string \<Rightarrow> payment res prog" where
  "payment_confirm_by_client userID sessionID =
     hold_gate userID sessionID (\<lambda>r. case r of Inl err \<Rightarrow> Ret (Inl err) | Inr _ \<Rightarrow>
     PaymentsGetActive sessionID (\<lambda>r. case r of
       Inl err \<Rightarrow>
         if errors_is err ErrPaymentNotFound then Ret (Inl ErrPaymentNotCaptured)
         else Ret (Inl (Errorf ''payment: client confirm: active lookup: %w'' [] [err]))
     | Inr p \<Rightarrow>
     if is_captured p then Ret (Inr p)
     else if p_Status p \<noteq> StatusIntent \<and> p_Status p \<noteq> StatusAuthorized
     then Ret (Inl (Errorf ''payment: client confirm: status %q: %w'' [ArgS (p_Status p)] [ErrPaymentInvalidTransition]))
     else
     GatewayCaptureIntent (p_IntentID p) (p_AmountCents p) (\<lambda>r. case r of
       Inl err \<Rightarrow> PaymentsMarkFailed (p_IntentID p) (\<lambda>_.
         Ret (Inl (Errorf ''payment: client confirm: capture: %w: %w'' [] [ErrPaymentDeclined, err])))
     | Inr _ \<Rightarrow>
     PaymentsCapture (p_IntentID p) (\<lambda>r. case r of
       Inl err \<Rightarrow> Ret (Inl (Errorf ''payment: client confirm: record capture: %w'' [] [err]))
     | Inr (row, capturedNow) \<Rightarrow> Ret (Inr row)))))"

definition apply_captured :: "webhook_event \<Rightarrow> payment \<Rightarrow> webhook_outcome res prog" where
  "apply_captured ev p =
     (if ev_AmountCents ev \<noteq> p_AmountCents p then
        PaymentsMarkFailed (p_IntentID p) (\<lambda>r. case r of
          Inl err \<Rightarrow>
            if \<not> errors_is err ErrPaymentInvalidTransition
            then Ret (Inl (Errorf ''payment: webhook: fail mismatched intent: %w'' [] [err]))
            else Ret (Inr \<lparr>wo_IntentID = ev_IntentID ev, wo_Applied = False\<rparr>)
        | Inr _ \<Rightarrow> Ret (Inr \<lparr>wo_IntentID = ev_IntentID ev, wo_Applied = False\<rparr>))
      else
        PaymentsCapture (p_IntentID p) (\<lambda>r. case r of
          Inl err \<Rightarrow>
            if errors_is err ErrPaymentInvalidTransition
            then Ret (Inr \<lparr>wo_IntentID = ev_IntentID ev, wo_Applied = False\<rparr>)
            else Ret (Inl (Errorf ''payment: webhook: capture: %w'' [] [err]))
        | Inr (_, capturedNow) \<Rightarrow> Ret (Inr \<lparr>wo_IntentID = ev_IntentID ev, wo_Applied = capturedNow\<rparr>)))"

definition payment_handle_webhook :: "string \<Rightarrow> string \<Rightarrow> webhook_outcome res prog" where
  "payment_handle_webhook rawBody signatureHeader =
     GatewayVerifyWebhook rawBody signatureHeader (\<lambda>r. case r of Inl err \<Rightarrow> Ret (Inl err) | Inr ev \<Rightarrow>
     PaymentsGetByIntent (ev_IntentID ev) (\<lambda>r. case r of
       Inl err \<Rightarrow>
         if errors_is err ErrPaymentNotFound
         then Ret (Inr \<lparr>wo_IntentID = ev_IntentID ev, wo_Applied = False\<rparr>)
         else Ret (Inl (Errorf ''payment: webhook: intent lookup: %w'' [] [err]))
     | Inr p \<Rightarrow>
     if ev_Kind ev = EventCaptured then apply_captured ev p
     else if ev_Kind ev = EventFailed then
       PaymentsMarkFailed (p_IntentID p) (\<lambda>r. case r of
         Inl err \<Rightarrow>
           if errors_is err ErrPaymentInvalidTransition
           then Ret (Inr \<lparr>wo_IntentID = ev_IntentID ev, wo_Applied = False\<rparr>)
           else Ret (Inl (Errorf ''payment: webhook: mark failed: %w'' [] [err]))
       | Inr row \<Rightarrow> Ret (Inr \<lparr>wo_IntentID = ev_IntentID ev, wo_Applied = (p_Status row = StatusFailed)\<rparr>))
     else Ret (Inr \<lparr>wo_IntentID = ev_IntentID ev, wo_Applied = False\<rparr>)))"

section \<open>Bounded calls\<close>

lemma payment_calls:
  "calls_le (payment_create_intent u sid) 8"
  "calls_le (payment_confirm_by_client u sid) 5"
  "calls_le (payment_handle_webhook body sig) 3"
  by (simp_all add: payment_create_intent_def payment_confirm_by_client_def payment_handle_webhook_def
      apply_captured_def hold_gate_def split: sum.split prod.split)

end
