(* ===== verification/Crypto.thy ===== *)
theory Crypto
  imports GoStrings
begin

text \<open>
  The standard-library primitives behind tokens and webhook signatures:
  \<open>crypto/sha256\<close> (FIPS 180-4), \<open>crypto/hmac\<close> (RFC 2104) over it and \<open>encoding/hex\<close>.
  Their properties used below are algebraic (lengths and round trips); nothing is claimed
  of their cryptographic strength.
\<close>

unbundle bit_operations_syntax

section \<open>SHA-256\<close>

type_synonym word32 = "32 word"

text \<open>
  The round constants are the first 32 bits of the fractional parts of the cube roots of the
  first 64 primes, the initial state those of the square roots of the first eight: the
  integer roots below, taken bit by bit from the top, truncated to 32 bits by the word type.
\<close>

fun int_root :: "nat \<Rightarrow> int \<Rightarrow> nat \<Rightarrow> int \<Rightarrow> int" where
  "int_root e n 0 acc = acc"
| "int_root e n (Suc b) acc =
     (if (acc + 2 ^ b) ^ e \<le> n then int_root e n b (acc + 2 ^ b) else int_root e n b acc)"

definition sha_primes :: "int list" where
  "sha_primes = [
     2, 3, 5, 7, 11, 13, 17, 19, 23, 29, 31, 37, 41, 43, 47, 53,
     59, 61, 67, 71, 73, 79, 83, 89, 97, 101, 103, 107, 109, 113, 127, 131,
     137, 139, 149, 151, 157, 163, 167, 173, 179, 181, 191, 193, 197, 199, 211, 223,
     227, 229, 233, 239, 241, 251, 257, 263, 269, 271, 277, 281, 283, 293, 307, 311]"

definition root_fraction :: "nat \<Rightarrow> int \<Rightarrow> word32" where
  "root_fraction e p = word_of_int (int_root e (p * 2 ^ (32 * e)) 37 0)"

definition sha_k :: "word32 list" where
  "sha_k = map (root_fraction 3) sha_primes"

definition sha_init :: "word32 list" where
  "sha_init = map (root_fraction 2) (take 8 sha_primes)"

definition rotr :: "nat \<Rightarrow> word32 \<Rightarrow> word32" where
  "rotr n x = word_rotr n x"

definition sigma0 :: "word32 \<Rightarrow> word32" where
  "sigma0 x = rotr 7 x XOR rotr 18 x XOR drop_bit 3 x"

definition sigma1 :: "word32 \<Rightarrow> word32" where
  "sigma1 x = rotr 17 x XOR rotr 19 x XOR drop_bit 10 x"

text \<open>The message schedule keeps the last sixteen words, newest first.\<close>

fun schedule :: "nat \<Rightarrow> word32 list \<Rightarrow> word32 list" where
  "schedule 0 ws = rev ws"
| "schedule (Suc n) ws =
     schedule n ((sigma1 (ws ! 1) + ws ! 6 + sigma0 (ws ! 14) + ws ! 15) # ws)"

fun sha_round :: "word32 list \<Rightarrow> word32 \<times> word32 \<Rightarrow> word32 list" where
  "sha_round [a, b, c, d, e, f, g, h] (k, w) =
     (let t1 = h + (rotr 6 e XOR rotr 11 e XOR rotr 25 e) + ((e AND f) XOR (NOT e AND g)) + k + w;
          t2 = (rotr 2 a XOR rotr 13 a XOR rotr 22 a) + ((a AND b) XOR (a AND c) XOR (b AND c))
      in [t1 + t2, a, b, c, d + t1, e, f, g])"
| "sha_round s kw = s"

fun be_word :: "char list \<Rightarrow> word32" where
  "be_word cs = foldl (\<lambda>acc c. acc * 256 + of_nat (byte c)) 0 cs"

fun chunks :: "nat \<Rightarrow> nat \<Rightarrow> 'a list \<Rightarrow> 'a list list" where
  "chunks 0 n xs = []"
| "chunks (Suc k) n xs = take n xs # chunks k n (drop n xs)"

definition sha_block :: "word32 list \<Rightarrow> string \<Rightarrow> word32 list" where
  "sha_block h block =
     (let w = schedule 48 (rev (map be_word (chunks 16 4 block)))
      in map2 (+) h (foldl sha_round h (zip sha_k w)))"

definition be_bytes :: "nat \<Rightarrow> nat \<Rightarrow> string" where
  "be_bytes n v = map (\<lambda>i. chr (v div 256 ^ (n - 1 - i) mod 256)) [0..<n]"

definition sha_pad :: "string \<Rightarrow> string" where
  "sha_pad m = m @ [chr 0x80] @ replicate ((119 - length m mod 64) mod 64) (chr 0)
     @ be_bytes 8 (8 * length m mod 2 ^ 64)"

definition sha256 :: "string \<Rightarrow> string" where
  "sha256 m =
     (let p = sha_pad m;
          h = foldl sha_block sha_init (chunks (length p div 64) 64 p)
      in concat (map (\<lambda>w. be_bytes 4 (unat w)) h))"

section \<open>HMAC\<close>

definition hmac_sha256 :: "string \<Rightarrow> string \<Rightarrow> string" where
  "hmac_sha256 key msg =
     (let k = (if length key > 64 then sha256 key else key);
          k' = k @ replicate (64 - length k) (chr 0);
          ipad = map (\<lambda>c. chr (byte c XOR 0x36)) k';
          opad = map (\<lambda>c. chr (byte c XOR 0x5c)) k'
      in sha256 (opad @ sha256 (ipad @ msg)))"

section \<open>Hexadecimal\<close>

text \<open>\<open>hex.EncodeToString\<close> writes lower case; \<open>hex.DecodeString\<close> reads both cases.\<close>

definition hex_digit :: "nat \<Rightarrow> char" where
  "hex_digit n = (if n < 10 then chr (48 + n) else chr (87 + n))"

definition hex_value :: "char \<Rightarrow> nat option" where
  "hex_value c =
     (let b = byte c in
      if 48 \<le> b \<and> b \<le> 57 then Some (b - 48)
      else if 97 \<le> b \<and> b \<le> 102 then Some (b - 87)
      else if 65 \<le> b \<and> b \<le> 70 then Some (b - 55)
      else None)"

definition hex_encode :: "string \<Rightarrow> string" where
  "hex_encode s = concat (map (\<lambda>c. [hex_digit (byte c div 16), hex_digit (byte c mod 16)]) s)"

fun hex_decode :: "string \<Rightarrow> string option" where
  "hex_decode [] = Some []"
| "hex_decode [c] = None"
| "hex_decode (c # d # s) =
     (case (hex_value c, hex_value d) of
        (Some a, Some b) \<Rightarrow> map_option ((#) (chr (16 * a + b))) (hex_decode s)
      | _ \<Rightarrow> None)"

lemma hex_value_digit: "n < 16 \<Longrightarrow> hex_value (hex_digit n) = Some n"
  by (simp add: hex_value_def hex_digit_def Let_def)

lemma hex_roundtrip: "hex_decode (hex_encode s) = Some s"
proof (induction s)
  case Nil
  then show ?case by (simp add: hex_encode_def)
next
  case (Cons c s)
  have "byte c div 16 < 16" "byte c mod 16 < 16"
    using byte_less [of c] by (simp_all add: less_mult_imp_div_less)
  then have "hex_value (hex_digit (byte c div 16)) = Some (byte c div 16)"
    "hex_value (hex_digit (byte c mod 16)) = Some (byte c mod 16)"
    by (simp_all add: hex_value_digit)
  with Cons show ?case by (simp add: hex_encode_def)
qed

lemma hex_encode_hexits: "\<forall>c \<in> set (hex_encode s). is_digit c \<or> is_lower_letter c"
proof -
  have "is_digit (hex_digit n) \<or> is_lower_letter (hex_digit n)" if "n < 16" for n
    using that by (simp add: hex_digit_def is_digit_def is_lower_letter_def)
  moreover have "byte c div 16 < 16" "byte c mod 16 < 16" for c
    using byte_less [of c] by (simp_all add: less_mult_imp_div_less)
  ultimately show ?thesis by (auto simp: hex_encode_def)
qed

lemma hex_encode_nonempty: "s \<noteq> [] \<Longrightarrow> hex_encode s \<noteq> []"
  by (cases s) (simp_all add: hex_encode_def)

text \<open>A digest has 32 bytes, whatever the message.\<close>

lemma sha_round_length: "length (sha_round s kw) = length s"
  by (induction s kw rule: sha_round.induct) (simp_all add: Let_def)

lemma sha_rounds_length: "length (foldl sha_round s kws) = length s"
  by (induction kws arbitrary: s) (simp_all add: sha_round_length)

lemma sha_block_length: "length h = 8 \<Longrightarrow> length (sha_block h b) = 8"
  by (simp add: sha_block_def Let_def sha_rounds_length)

lemma sha_blocks_length: "length h = 8 \<Longrightarrow> length (foldl sha_block h bs) = 8"
  by (induction bs arbitrary: h) (simp_all add: sha_block_length)

lemma sha_init_length: "length sha_init = 8"
  by (simp add: sha_init_def sha_primes_def)

lemma sha256_length: "length (sha256 m) = 32"
proof -
  have "length (concat (map (\<lambda>w. be_bytes 4 (unat w)) h)) = 4 * length h" for h :: "word32 list"
    by (induction h) (simp_all add: be_bytes_def)
  then show ?thesis
    by (simp add: sha256_def Let_def sha_blocks_length sha_init_length)
qed

lemma hmac_length: "length (hmac_sha256 k m) = 32"
  by (simp add: hmac_sha256_def Let_def sha256_length)

end
