(* ===== verification/Json.thy ===== *)
theory Json
  imports Crypto
begin

text \<open>
  The part of \<open>encoding/json\<close> the repository uses: the byte-driven scanner of the decoder,
  string unquoting, decoding into a struct with \<open>DisallowUnknownFields\<close>,
  \<open>Decoder.More\<close>, and the string and object encoding of \<open>Marshal\<close>.
\<close>

section \<open>Values\<close>

datatype json =
    JNull
  | JBool bool
  | JNum string
  | JStr string
  | JArr "json list"
  | JObj "(string \<times> json) list"

section \<open>Scanner\<close>

definition json_space :: "char \<Rightarrow> bool" where
  "json_space c \<longleftrightarrow> byte c \<in> {32, 9, 13, 10}"

text \<open>The number states of the scanner: after a minus, a leading zero, digits, and so on.\<close>

datatype num_state = NNeg | NZero | NInt | NDot | NFrac | NExpSign | NExpFirst | NExp

definition num_next :: "num_state \<Rightarrow> char \<Rightarrow> num_state option" where
  "num_next n c =
     (case n of
        NNeg \<Rightarrow> if c = CHR ''0'' then Some NZero else if is_digit c then Some NInt else None
      | NZero \<Rightarrow> if c = CHR ''.'' then Some NDot
          else if c = CHR ''e'' \<or> c = CHR ''E'' then Some NExpSign else None
      | NInt \<Rightarrow> if is_digit c then Some NInt else if c = CHR ''.'' then Some NDot
          else if c = CHR ''e'' \<or> c = CHR ''E'' then Some NExpSign else None
      | NDot \<Rightarrow> if is_digit c then Some NFrac else None
      | NFrac \<Rightarrow> if is_digit c then Some NFrac
          else if c = CHR ''e'' \<or> c = CHR ''E'' then Some NExpSign else None
      | NExpSign \<Rightarrow> if c = CHR ''+'' \<or> c = CHR ''-'' then Some NExpFirst
          else if is_digit c then Some NExp else None
      | NExpFirst \<Rightarrow> if is_digit c then Some NExp else None
      | NExp \<Rightarrow> if is_digit c then Some NExp else None)"

definition num_final :: "num_state \<Rightarrow> bool" where
  "num_final n \<longleftrightarrow> n = NZero \<or> n = NInt \<or> n = NFrac \<or> n = NExp"

text \<open>
  The scanner's mode and its stack of open arrays and objects. A string is collected
  as its raw bytes; \<open>SEsc\<close> follows a backslash and \<open>SHex n\<close> expects \<open>n\<close> more hexadecimal digits.
\<close>

datatype str_state = SPlain | SEsc | SHex nat

datatype mode =
    MValue
  | MArrFirst
  | MArrNext
  | MKeyFirst
  | MKey
  | MColon
  | MObjNext
  | MStr bool string str_state
  | MNum string num_state
  | MLit string json

datatype frame =
    FArr "json list"
  | FObj "(string \<times> json) list" string

datatype scan_step = Cont mode "frame list" | Finished json bool | Bad

definition max_nesting :: nat where
  "max_nesting = 10000"

text \<open>A finished value goes into the innermost open container, or is the result;
  the flag says whether the byte that ended it belongs to it.\<close>

definition complete :: "json \<Rightarrow> frame list \<Rightarrow> scan_step" where
  "complete v fs =
     (case fs of
        [] \<Rightarrow> Finished v True
      | FArr vs # fs' \<Rightarrow> Cont MArrNext (FArr (v # vs) # fs')
      | FObj kvs k # fs' \<Rightarrow> Cont MObjNext (FObj ((k, v) # kvs) [] # fs'))"

definition push_frame :: "mode \<Rightarrow> frame \<Rightarrow> frame list \<Rightarrow> scan_step" where
  "push_frame m f fs = (if length fs < max_nesting then Cont m (f # fs) else Bad)"

definition begin_value :: "char \<Rightarrow> frame list \<Rightarrow> scan_step" where
  "begin_value c fs =
     (if c = CHR ''{'' then push_frame MKeyFirst (FObj [] []) fs
      else if c = CHR ''['' then push_frame MArrFirst (FArr []) fs
      else if byte c = 34 then Cont (MStr False [] SPlain) fs
      else if c = CHR ''-'' then Cont (MNum [c] NNeg) fs
      else if c = CHR ''0'' then Cont (MNum [c] NZero) fs
      else if is_digit c then Cont (MNum [c] NInt) fs
      else if c = CHR ''t'' then Cont (MLit ''rue'' (JBool True)) fs
      else if c = CHR ''f'' then Cont (MLit ''alse'' (JBool False)) fs
      else if c = CHR ''n'' then Cont (MLit ''ull'' JNull) fs
      else Bad)"

definition after_element :: "char \<Rightarrow> frame list \<Rightarrow> scan_step" where
  "after_element c fs =
     (case fs of
        FArr vs # fs' \<Rightarrow>
          if json_space c then Cont MArrNext fs
          else if c = CHR '','' then Cont MValue fs
          else if c = CHR '']'' then complete (JArr (rev vs)) fs'
          else Bad
      | FObj kvs k # fs' \<Rightarrow>
          if json_space c then Cont MObjNext fs
          else if c = CHR '','' then Cont MKey fs
          else if c = CHR ''}'' then complete (JObj (rev kvs)) fs'
          else Bad
      | [] \<Rightarrow> Bad)"

section \<open>Unquoting\<close>

definition hex4 :: "string \<Rightarrow> nat option" where
  "hex4 s =
     (if length s < 4 then None
      else foldl (\<lambda>acc c.
             case (acc, hex_value c) of (Some a, Some v) \<Rightarrow> Some (16 * a + v) | _ \<Rightarrow> None) (Some 0) (take 4 s))"

text \<open>\<open>getu4\<close>: a \<open>\u\<close> escape at the front of the bytes.\<close>

fun getu4 :: "string \<Rightarrow> nat option" where
  "getu4 (c # d # s) = (if byte c = 92 \<and> d = CHR ''u'' then hex4 s else None)"
| "getu4 s = None"

definition simple_escape :: "char \<Rightarrow> char" where
  "simple_escape c =
     (if c = CHR ''b'' then chr 8 else if c = CHR ''f'' then chr 12 else if c = CHR ''n'' then chr 10
      else if c = CHR ''r'' then chr 13 else if c = CHR ''t'' then chr 9 else c)"

definition surrogate :: "nat \<Rightarrow> bool" where
  "surrogate r \<longleftrightarrow> 0xD800 \<le> r \<and> r < 0xE000"

text \<open>\<open>utf16.DecodeRune\<close> of two code units, when they are a high and a low surrogate.\<close>

definition utf16_pair :: "nat \<Rightarrow> nat option \<Rightarrow> nat option" where
  "utf16_pair r1 r2 =
     (case r2 of None \<Rightarrow> None
      | Some lo \<Rightarrow>
          if 0xD800 \<le> r1 \<and> r1 < 0xDC00 \<and> 0xDC00 \<le> lo \<and> lo < 0xE000
          then Some ((r1 - 0xD800) * 1024 + (lo - 0xDC00) + 0x10000) else None)"

text \<open>\<open>unquoteBytes\<close> on the bytes between the quotes; the scanner has checked the escapes.\<close>

function unquote :: "string \<Rightarrow> string" where
  "unquote [] = []"
| "unquote (c # s) =
     (if byte c = 92 then
        (case s of
           [] \<Rightarrow> []
         | d # s' \<Rightarrow>
             if d = CHR ''u'' then
               (case hex4 s' of
                  None \<Rightarrow> []
                | Some r \<Rightarrow>
                    if surrogate r then
                      (case utf16_pair r (getu4 (drop 4 s')) of
                         Some r' \<Rightarrow> encode_rune r' @ unquote (drop 10 s')
                       | None \<Rightarrow> encode_rune rune_error @ unquote (drop 4 s'))
                    else encode_rune r @ unquote (drop 4 s'))
             else simple_escape d # unquote s')
      else if byte c < 128 then c # unquote s
      else (case decode_rune c s of (r, w) \<Rightarrow> encode_rune r @ unquote (drop (w - 1) s)))"
  by pat_completeness auto
termination
  by (relation "measure length") auto

section \<open>One byte of input\<close>

definition str_step :: "bool \<Rightarrow> string \<Rightarrow> str_state \<Rightarrow> char \<Rightarrow> frame list \<Rightarrow> scan_step" where
  "str_step key acc st c fs =
     (case st of
        SPlain \<Rightarrow>
          if byte c = 34 then
            (if key then
               (case fs of FObj kvs _ # fs' \<Rightarrow> Cont MColon (FObj kvs (unquote (rev acc)) # fs') | _ \<Rightarrow> Bad)
             else complete (JStr (unquote (rev acc))) fs)
          else if byte c = 92 then Cont (MStr key (c # acc) SEsc) fs
          else if byte c < 32 then Bad
          else Cont (MStr key (c # acc) SPlain) fs
      | SEsc \<Rightarrow>
          if c = CHR ''u'' then Cont (MStr key (c # acc) (SHex 4)) fs
          else if c \<in> set ''bfnrt/'' \<or> byte c = 92 \<or> byte c = 34
          then Cont (MStr key (c # acc) SPlain) fs
          else Bad
      | SHex n \<Rightarrow>
          if hex_value c \<noteq> None
          then Cont (MStr key (c # acc) (if n \<le> 1 then SPlain else SHex (n - 1))) fs
          else Bad)"

definition scan_byte :: "mode \<Rightarrow> frame list \<Rightarrow> char \<Rightarrow> scan_step" where
  "scan_byte m fs c =
     (case m of
        MValue \<Rightarrow> if json_space c then Cont MValue fs else begin_value c fs
      | MArrFirst \<Rightarrow>
          if json_space c then Cont MArrFirst fs
          else if c = CHR '']'' then after_element c fs
          else begin_value c fs
      | MArrNext \<Rightarrow> after_element c fs
      | MObjNext \<Rightarrow> after_element c fs
      | MKeyFirst \<Rightarrow>
          if json_space c then Cont MKeyFirst fs
          else if c = CHR ''}'' then after_element c fs
          else if byte c = 34 then Cont (MStr True [] SPlain) fs
          else Bad
      | MKey \<Rightarrow>
          if json_space c then Cont MKey fs
          else if byte c = 34 then Cont (MStr True [] SPlain) fs
          else Bad
      | MColon \<Rightarrow>
          if json_space c then Cont MColon fs
          else if c = CHR '':'' then Cont MValue fs
          else Bad
      | MStr key acc st \<Rightarrow> str_step key acc st c fs
      | MNum acc n \<Rightarrow>
          (case num_next n c of
             Some n' \<Rightarrow> Cont (MNum (c # acc) n') fs
           | None \<Rightarrow>
               if num_final n then
                 (case complete (JNum (rev acc)) fs of
                    Cont _ fs' \<Rightarrow> after_element c fs'
                  | Finished v _ \<Rightarrow> Finished v False
                  | Bad \<Rightarrow> Bad)
               else Bad)
      | MLit rest v \<Rightarrow>
          (case rest of
             [] \<Rightarrow> Bad
           | [d] \<Rightarrow> if c = d then complete v fs else Bad
           | d # ds \<Rightarrow> if c = d then Cont (MLit ds v) fs else Bad))"

text \<open>\<open>Decoder.readValue\<close>: the first value of the input and what is left after it.\<close>

fun scan :: "mode \<Rightarrow> frame list \<Rightarrow> string \<Rightarrow> (json \<times> string) option" where
  "scan m fs [] =
     (case (m, fs) of
        (MNum acc n, []) \<Rightarrow> if num_final n then Some (JNum (rev acc), []) else None
      | _ \<Rightarrow> None)"
| "scan m fs (c # s) =
     (case scan_byte m fs c of
        Cont m' fs' \<Rightarrow> scan m' fs' s
      | Finished v True \<Rightarrow> Some (v, s)
      | Finished v False \<Rightarrow> Some (v, c # s)
      | Bad \<Rightarrow> None)"

definition read_value :: "string \<Rightarrow> (json \<times> string) option" where
  "read_value s = scan MValue [] s"

text \<open>\<open>Decoder.More\<close>: whether the next non-space byte is neither \<open>]\<close> nor \<open>}\<close>.\<close>

definition json_more :: "string \<Rightarrow> bool" where
  "json_more rest =
     (case dropWhile json_space rest of
        [] \<Rightarrow> False
      | c # _ \<Rightarrow> c \<noteq> CHR '']'' \<and> c \<noteq> CHR ''}'')"

section \<open>Decoding into a struct\<close>

datatype field_kind = KString | KInt
datatype field_value = VString string | VInt int

text \<open>\<open>foldName\<close>: letters in upper case; the Kelvin sign and the long s fold to K and S.\<close>

definition fold_rune :: "rune \<Rightarrow> rune" where
  "fold_rune r =
     (if 97 \<le> r \<and> r \<le> 122 then r - 32 else if r = 0x212A then 75 else if r = 0x17F then 83 else r)"

definition fold_name :: "string \<Rightarrow> rune list" where
  "fold_name s = map fold_rune (runes s)"

definition find_field :: "(string \<times> field_kind) list \<Rightarrow> string \<Rightarrow> (string \<times> field_kind) option" where
  "find_field flds key =
     (case find (\<lambda>(n, k). n = key) flds of
        Some f \<Rightarrow> Some f
      | None \<Rightarrow> find (\<lambda>(n, k). fold_name n = fold_name key) flds)"

text \<open>\<open>None\<close> is a type error; \<open>Some None\<close> leaves the field unchanged (JSON null).\<close>

definition decode_field :: "field_kind \<Rightarrow> json \<Rightarrow> field_value option option" where
  "decode_field k v =
     (case (k, v) of
        (_, JNull) \<Rightarrow> Some None
      | (KString, JStr s) \<Rightarrow> Some (Some (VString s))
      | (KInt, JNum lit) \<Rightarrow> map_option (\<lambda>i. Some (VInt i)) (parse_int lit)
      | _ \<Rightarrow> None)"

fun decode_members :: "(string \<times> field_kind) list \<Rightarrow> (string \<times> json) list \<Rightarrow>
    (string \<rightharpoonup> field_value) \<Rightarrow> (string \<rightharpoonup> field_value) option" where
  "decode_members flds [] acc = Some acc"
| "decode_members flds ((key, v) # kvs) acc =
     (case find_field flds key of
        None \<Rightarrow> None
      | Some (n, k) \<Rightarrow>
          (case decode_field k v of
             None \<Rightarrow> None
           | Some None \<Rightarrow> decode_members flds kvs acc
           | Some (Some fv) \<Rightarrow> decode_members flds kvs (acc(n \<mapsto> fv))))"

definition decode_struct :: "(string \<times> field_kind) list \<Rightarrow> json \<Rightarrow> (string \<rightharpoonup> field_value) option" where
  "decode_struct flds v =
     (case v of
        JObj kvs \<Rightarrow> decode_members flds kvs Map.empty
      | JNull \<Rightarrow> Some Map.empty
      | _ \<Rightarrow> None)"

definition get_string :: "(string \<rightharpoonup> field_value) \<Rightarrow> string \<Rightarrow> string" where
  "get_string m n = (case m n of Some (VString s) \<Rightarrow> s | _ \<Rightarrow> [])"

definition get_int :: "(string \<rightharpoonup> field_value) \<Rightarrow> string \<Rightarrow> int" where
  "get_int m n = (case m n of Some (VInt i) \<Rightarrow> i | _ \<Rightarrow> 0)"

text \<open>\<open>dec.DisallowUnknownFields(); dec.Decode(&dst)\<close> and then \<open>dec.More()\<close> must be false.\<close>

definition decode_strict :: "(string \<times> field_kind) list \<Rightarrow> string \<Rightarrow> (string \<rightharpoonup> field_value) option" where
  "decode_strict flds s =
     (case read_value s of
        None \<Rightarrow> None
      | Some (v, rest) \<Rightarrow>
          (case decode_struct flds v of
             None \<Rightarrow> None
           | Some m \<Rightarrow> if json_more rest then None else Some m))"

section \<open>Encoding\<close>

text \<open>\<open>appendString\<close> with HTML escaping on, as \<open>json.Marshal\<close> calls it.\<close>

definition quote_ascii :: "char \<Rightarrow> string" where
  "quote_ascii c =
     (let b = byte c; bs = chr 92 in
      if b = 92 \<or> b = 34 then [bs, c]
      else if b = 8 then [bs, CHR ''b''] else if b = 12 then [bs, CHR ''f'']
      else if b = 10 then [bs, CHR ''n''] else if b = 13 then [bs, CHR ''r'']
      else if b = 9 then [bs, CHR ''t'']
      else if b < 32 \<or> b = 60 \<or> b = 62 \<or> b = 38
      then [bs, CHR ''u'', CHR ''0'', CHR ''0'', hex_digit (b div 16), hex_digit (b mod 16)]
      else [c])"

function quote_bytes :: "string \<Rightarrow> string" where
  "quote_bytes [] = []"
| "quote_bytes (c # s) =
     (if byte c < 128 then quote_ascii c @ quote_bytes s
      else (case decode_rune c s of (r, w) \<Rightarrow>
        if r = rune_error \<and> w = 1 then chr 92 # ''ufffd'' @ quote_bytes s
        else if r = 0x2028 then chr 92 # ''u2028'' @ quote_bytes (drop (w - 1) s)
        else if r = 0x2029 then chr 92 # ''u2029'' @ quote_bytes (drop (w - 1) s)
        else c # take (w - 1) s @ quote_bytes (drop (w - 1) s)))"
  by pat_completeness auto
termination
  by (relation "measure length") auto

definition json_string :: "string \<Rightarrow> string" where
  "json_string s = chr 34 # quote_bytes s @ [chr 34]"

text \<open>A struct of scalar flds, in declaration order.\<close>

fun encode_value :: "field_value \<Rightarrow> string" where
  "encode_value (VString s) = json_string s"
| "encode_value (VInt i) = itoa i"

fun encode_members :: "(string \<times> field_value) list \<Rightarrow> string" where
  "encode_members [] = []"
| "encode_members [(n, v)] = json_string n @ '':'' @ encode_value v"
| "encode_members ((n, v) # nvs) = json_string n @ '':'' @ encode_value v @ '','' @ encode_members nvs"

definition encode_struct :: "(string \<times> field_value) list \<Rightarrow> string" where
  "encode_struct nvs = ''{'' @ encode_members nvs @ ''}''"

section \<open>Round trip\<close>

text \<open>One ASCII byte, quoted, passes the scanner and comes back from unquoting.\<close>

lemma byte_lit:
  "byte CHR ''u'' = 117" "byte CHR ''0'' = 48" "byte CHR ''b'' = 98" "byte CHR ''f'' = 102"
  "byte CHR ''n'' = 110" "byte CHR ''r'' = 114" "byte CHR ''t'' = 116"
  by (simp_all add: byte_def)

lemma chr_lit: "chr n = c \<longleftrightarrow> byte c = n" if "n < 256"
  using that by (metis byte_chr chr_byte)

lemma hex_digit_value: "n < 16 \<Longrightarrow> hex_value (hex_digit n) = Some n"
  by (rule hex_value_digit)

lemma hex4_low:
  "n < 256 \<Longrightarrow> hex4 (CHR ''0'' # CHR ''0'' # hex_digit (n div 16) # hex_digit (n mod 16) # s) = Some n"
  using hex_digit_value [of "n div 16"] hex_digit_value [of "n mod 16"]
  by (simp add: hex4_def hex_value_def [of "CHR ''0''"] byte_lit less_mult_imp_div_less)

lemma scan_quote_ascii:
  assumes "byte c < 128"
  shows "scan (MStr key acc SPlain) fs (quote_ascii c @ t)
       = scan (MStr key (rev (quote_ascii c) @ acc) SPlain) fs t"
  using assms hex_digit_value [of "byte c div 16"] hex_digit_value [of "byte c mod 16"]
  by (auto simp: quote_ascii_def Let_def scan_byte_def str_step_def byte_lit
      hex_value_def [of "CHR ''0''"] less_mult_imp_div_less)

lemma unquote_quote_ascii:
  assumes "byte c < 128"
  shows "unquote (quote_ascii c @ t) = c # unquote t"
  using assms hex4_low [of "byte c" t]
  by (auto simp: quote_ascii_def Let_def byte_lit simple_escape_def chr_lit surrogate_def encode_rune_ascii)

lemma scan_quote_bytes:
  "ascii s \<Longrightarrow> scan (MStr key acc SPlain) fs (quote_bytes s @ t)
     = scan (MStr key (rev (quote_bytes s) @ acc) SPlain) fs t"
  by (induction s arbitrary: acc) (simp_all add: scan_quote_ascii)

lemma unquote_quote_bytes: "ascii s \<Longrightarrow> unquote (quote_bytes s) = s"
  by (induction s) (simp_all add: unquote_quote_ascii)

text \<open>A member of an object.\<close>

fun to_json :: "field_value \<Rightarrow> json" where
  "to_json (VString s) = JStr s"
| "to_json (VInt i) = JNum (itoa i)"

fun ascii_value :: "field_value \<Rightarrow> bool" where
  "ascii_value (VString s) = ascii s"
| "ascii_value (VInt i) = True"

lemma quote_byte [simp]: "byte (chr 34) = 34" "\<not> json_space (chr 34)"
  by (simp_all add: json_space_def)

lemma not_space [simp]:
  "\<not> json_space CHR '':''" "\<not> json_space CHR '',''" "\<not> json_space CHR ''}''" "\<not> json_space CHR ''{''"
  by (simp_all add: json_space_def byte_def)

lemma chr34_ne [simp]:
  "chr 34 \<noteq> CHR ''{''" "chr 34 \<noteq> CHR ''[''" "chr 34 \<noteq> CHR ''}''"
  by (simp_all add: chr_lit byte_def)

lemma scan_key:
  assumes "ascii n"
  shows "scan MKey (FObj kvs k # fs) (json_string n @ CHR '':'' # t) = scan MValue (FObj kvs n # fs) t"
    and "scan MKeyFirst (FObj kvs k # fs) (json_string n @ CHR '':'' # t) = scan MValue (FObj kvs n # fs) t"
  using scan_quote_bytes [OF assms, of True "[]" "FObj kvs k # fs" "chr 34 # CHR '':'' # t"] unquote_quote_bytes [OF assms]
  by (simp_all add: json_string_def scan_byte_def str_step_def)

lemma scan_string_value:
  assumes "ascii v"
  shows "scan MValue (FObj kvs k # fs) (json_string v @ t) = scan MObjNext (FObj ((k, JStr v) # kvs) [] # fs) t"
  using scan_quote_bytes [OF assms, of False "[]" "FObj kvs k # fs" "chr 34 # t"] unquote_quote_bytes [OF assms]
  by (simp add: json_string_def scan_byte_def str_step_def begin_value_def complete_def)

lemma digits_of_lead: "0 < n \<Longrightarrow> \<exists>c s. digits_of n = c # s \<and> is_digit c \<and> c \<noteq> CHR ''0''"
proof (induction n rule: digits_of.induct)
  case (1 n)
  show ?case
  proof (cases "n < 10")
    case True
    with 1(2) have "digits_of n = [chr (48 + n)]" "is_digit (chr (48 + n))" "chr (48 + n) \<noteq> CHR ''0''"
      by (simp_all add: digits_of.simps [of n] is_digit_def chr_lit byte_lit)
    then show ?thesis by blast
  next
    case False
    with 1(1) obtain c s where "digits_of (n div 10) = c # s" "is_digit c" "c \<noteq> CHR ''0''" by force
    with False show ?thesis by (simp add: digits_of.simps [of n])
  qed
qed

lemma scan_digits:
  "\<forall>c \<in> set ds. is_digit c \<Longrightarrow>
     scan (MNum acc NInt) fs (ds @ t) = scan (MNum (rev ds @ acc) NInt) fs t"
  by (induction ds arbitrary: acc) (simp_all add: scan_byte_def num_next_def)

lemma digit_not:
  "is_digit c \<Longrightarrow> \<not> json_space c \<and> c \<noteq> CHR ''{'' \<and> c \<noteq> CHR ''['' \<and> byte c \<noteq> 34 \<and> c \<noteq> CHR ''-''"
  by (auto simp: is_digit_def json_space_def byte_def)

lemma num_stop [simp]:
  "num_next NInt CHR '','' = None" "num_next NInt CHR ''}'' = None"
  "num_next NZero CHR '','' = None" "num_next NZero CHR ''}'' = None"
  by (simp_all add: num_next_def is_digit_def byte_def)

lemma scan_number_end:
  assumes "c = CHR '','' \<or> c = CHR ''}''" "st = NInt \<or> st = NZero"
  shows "scan (MNum acc st) (FObj kvs k # fs) (c # t)
       = scan MObjNext (FObj ((k, JNum (rev acc)) # kvs) [] # fs) (c # t)"
  using assms by (auto simp: scan_byte_def num_final_def complete_def)

lemma scan_nat_value:
  assumes "c = CHR '','' \<or> c = CHR ''}''"
  shows "scan MValue (FObj kvs k # fs) (digits_of n @ c # t)
       = scan MObjNext (FObj ((k, JNum (digits_of n)) # kvs) [] # fs) (c # t) \<and>
    scan (MNum [CHR ''-''] NNeg) (FObj kvs k # fs) (digits_of n @ c # t)
       = scan MObjNext (FObj ((k, JNum (CHR ''-'' # digits_of n)) # kvs) [] # fs) (c # t)"
proof -
  have digit0: "is_digit CHR ''0''" by (simp add: is_digit_def byte_def)
  show ?thesis
  proof (cases "n = 0")
    case True
    then have "digits_of n = [CHR ''0'']"
      by (simp add: digits_of.simps [of 0] chr_lit byte_lit)
    with scan_number_end [OF assms, of NZero] digit_not [OF digit0] show ?thesis
      by (simp add: scan_byte_def begin_value_def num_next_def)
  next
    case False
    then obtain d ds where d: "digits_of n = d # ds" "is_digit d" "d \<noteq> CHR ''0''"
      using digits_of_lead by blast
    with digits_of_digits [of n] have ds: "\<forall>c \<in> set ds. is_digit c" by simp
    show ?thesis
      using d digit_not [OF d(2)] scan_digits [OF ds] scan_number_end [OF assms, of NInt]
      by (simp add: scan_byte_def begin_value_def num_next_def)
  qed
qed

lemma scan_int_value:
  assumes "c = CHR '','' \<or> c = CHR ''}''"
  shows "scan MValue (FObj kvs k # fs) (itoa i @ c # t)
       = scan MObjNext (FObj ((k, JNum (itoa i)) # kvs) [] # fs) (c # t)"
proof (cases "i < 0")
  case True
  have "\<not> json_space CHR ''-''" "byte CHR ''-'' \<noteq> 34" by (simp_all add: json_space_def byte_def)
  with True scan_nat_value [OF assms, of kvs k fs "nat (- i)" t] show ?thesis
    by (simp add: itoa_def scan_byte_def begin_value_def)
next
  case False
  with scan_nat_value [OF assms, of kvs k fs "nat i" t] show ?thesis by (simp add: itoa_def)
qed

lemma scan_value:
  "ascii_value v \<Longrightarrow> c = CHR '','' \<or> c = CHR ''}'' \<Longrightarrow>
     scan MValue (FObj kvs k # fs) (encode_value v @ c # t)
     = scan MObjNext (FObj ((k, to_json v) # kvs) [] # fs) (c # t)"
  by (cases v) (simp_all add: scan_string_value scan_int_value)

lemma scan_members:
  assumes "nvs \<noteq> []" "\<forall>(n, v) \<in> set nvs. ascii n \<and> ascii_value v"
  shows "scan MKey [FObj kvs k] (encode_members nvs @ CHR ''}'' # t)
       = Some (JObj (rev kvs @ map (\<lambda>(n, v). (n, to_json v)) nvs), t)"
  using assms
proof (induction nvs arbitrary: kvs k rule: encode_members.induct)
  case (2 n v)
  then show ?case
    by (simp add: scan_key scan_value) (simp add: scan_byte_def after_element_def complete_def)
next
  case (3 n v nv nvs)
  then show ?case
    by (simp add: scan_key scan_value) (simp add: scan_byte_def after_element_def complete_def)
qed simp

lemma scan_first_member: "ascii n \<Longrightarrow>
    scan MKeyFirst fs (json_string n @ t) = scan MKey fs (json_string n @ t)"
  by (simp add: json_string_def scan_byte_def)

lemma read_encode_struct:
  assumes "nvs \<noteq> []" "\<forall>(n, v) \<in> set nvs. ascii n \<and> ascii_value v"
  shows "read_value (encode_struct nvs @ t) = Some (JObj (map (\<lambda>(n, v). (n, to_json v)) nvs), t)"
proof -
  have "scan MKeyFirst [FObj [] []] (encode_members nvs @ CHR ''}'' # t)
      = scan MKey [FObj [] []] (encode_members nvs @ CHR ''}'' # t)"
    using assms by (cases nvs rule: encode_members.cases) (simp_all add: scan_first_member)
  then show ?thesis
    using scan_members [OF assms, of "[]" "[]" t]
    by (simp add: read_value_def encode_struct_def scan_byte_def begin_value_def push_frame_def max_nesting_def)
qed

end
