(* ===== verification/FakeGateway.thy ===== *)
theory FakeGateway
  imports Ports Json
begin

text \<open>
  \<open>internal/adapters/payment/fakegateway.go\<close>: the sandbox gateway, whose webhook scheme is a
  timestamped HMAC over the exact bytes received.
\<close>

section \<open>State and charges\<close>

record fake_gateway =
  fg_secret :: string
  fg_failCreate :: "error option"
  fg_failCapture :: "error option"

definition webhookTolerance :: duration where
  "webhookTolerance = 5 * minute"

definition fakeIntentPrefix :: string where
  "fakeIntentPrefix = ''pi_fake_''"

definition new_fake_gateway :: "string \<Rightarrow> fake_gateway res" where
  "new_fake_gateway webhookSecret =
     (if webhookSecret = []
      then Inl (ErrorsNew ''payment: fake gateway requires a webhook secret (PAYMENT_FAKE_WEBHOOK_SECRET)'')
      else Inr \<lparr>fg_secret = webhookSecret, fg_failCreate = None, fg_failCapture = None\<rparr>)"

definition fg_provider :: string where
  "fg_provider = ''fake''"

definition fail_next_create :: "error option \<Rightarrow> fake_gateway \<Rightarrow> fake_gateway" where
  "fail_next_create err g = g\<lparr>fg_failCreate := err\<rparr>"

definition fail_next_capture :: "error option \<Rightarrow> fake_gateway \<Rightarrow> fake_gateway" where
  "fail_next_capture err g = g\<lparr>fg_failCapture := err\<rparr>"

text \<open>\<open>takeFail\<close> on the two slots.\<close>

definition take_fail_create :: "fake_gateway \<Rightarrow> error option \<times> fake_gateway" where
  "take_fail_create g = (fg_failCreate g, g\<lparr>fg_failCreate := None\<rparr>)"

definition take_fail_capture :: "fake_gateway \<Rightarrow> error option \<times> fake_gateway" where
  "take_fail_capture g = (fg_failCapture g, g\<lparr>fg_failCapture := None\<rparr>)"

definition fg_create_intent :: "string \<Rightarrow> intent_request \<Rightarrow> fake_gateway \<Rightarrow> string res \<times> fake_gateway" where
  "fg_create_intent newID req g =
     (case take_fail_create g of
        (Some err, g') \<Rightarrow> (Inl err, g')
      | (None, g') \<Rightarrow>
          if ir_AmountCents req \<le> 0
          then (Inl (Errorf ''payment: fake gateway: amount must be positive, got %d''
                  [ArgI (ir_AmountCents req)] []), g')
          else (Inr (fakeIntentPrefix @ newID), g'))"

definition fg_capture_intent :: "string \<Rightarrow> int \<Rightarrow> fake_gateway \<Rightarrow> unit res \<times> fake_gateway" where
  "fg_capture_intent intentID amountCents g =
     (case take_fail_capture g of (Some err, g') \<Rightarrow> (Inl err, g') | (None, g') \<Rightarrow> (Inr (), g'))"

section \<open>Webhooks\<close>

text \<open>\<open>parseSignatureHeader\<close>: the loop carries \<open>t\<close> and \<open>v1\<close>, \<open>None\<close> until seen.\<close>

fun parse_signature_parts :: "string list \<Rightarrow> string option \<Rightarrow> string option \<Rightarrow> (string \<times> string) option" where
  "parse_signature_parts [] t v1 =
     (case (t, v1) of
        (Some tv, Some vv) \<Rightarrow> if tv = [] \<or> vv = [] then None else Some (tv, vv)
      | _ \<Rightarrow> None)"
| "parse_signature_parts (part # parts) t v1 =
     (case cut CHR ''='' part of
        None \<Rightarrow> None
      | Some (key, val) \<Rightarrow>
          if key = ''t'' then parse_signature_parts parts (Some val) v1
          else if key = ''v1'' then parse_signature_parts parts t (Some val)
          else None)"

definition parse_signature_header :: "string \<Rightarrow> (string \<times> string) option" where
  "parse_signature_header header = parse_signature_parts (split_on CHR '','' header) None None"

definition webhook_fields :: "(string \<times> field_kind) list" where
  "webhook_fields = [(''kind'', KString), (''intent_id'', KString), (''amount_cents'', KInt)]"

definition signed_text :: "string \<Rightarrow> string \<Rightarrow> string" where
  "signed_text tStr body = tStr @ ''.'' @ body"

definition fg_verify_webhook :: "time \<Rightarrow> string \<Rightarrow> string \<Rightarrow> fake_gateway \<Rightarrow> webhook_event res" where
  "fg_verify_webhook now rawBody signatureHeader g =
     (case parse_signature_header signatureHeader of
        None \<Rightarrow> Inl ErrWebhookInvalid
      | Some (tStr, v1Hex) \<Rightarrow>
     (case parse_int tStr of
        None \<Rightarrow> Inl ErrWebhookInvalid
      | Some tUnix \<Rightarrow>
     (case hex_decode v1Hex of
        None \<Rightarrow> Inl ErrWebhookInvalid
      | Some sigBytes \<Rightarrow>
     let d = now - unix tUnix in
     if d > webhookTolerance \<or> d < - webhookTolerance then Inl ErrWebhookInvalid
     else if sigBytes \<noteq> hmac_sha256 (fg_secret g) (signed_text tStr rawBody) then Inl ErrWebhookInvalid
     else
     (case decode_strict webhook_fields rawBody of
        None \<Rightarrow> Inl ErrWebhookInvalid
      | Some m \<Rightarrow>
          if get_string m ''intent_id'' = [] then Inl ErrWebhookInvalid
          else Inr \<lparr>ev_Kind = get_string m ''kind'', ev_IntentID = get_string m ''intent_id'',
                    ev_AmountCents = get_int m ''amount_cents''\<rparr>))))"

definition webhook_body :: "webhook_event \<Rightarrow> string" where
  "webhook_body ev = encode_struct [(''kind'', VString (ev_Kind ev)), (''intent_id'', VString (ev_IntentID ev)),
     (''amount_cents'', VInt (ev_AmountCents ev))]"

definition sign_body :: "string \<Rightarrow> time \<Rightarrow> fake_gateway \<Rightarrow> string" where
  "sign_body body now g =
     (let tStr = itoa (to_unix now) in
      ''t='' @ tStr @ '',v1='' @ hex_encode (hmac_sha256 (fg_secret g) (signed_text tStr body)))"

definition fg_sign_webhook :: "webhook_event \<Rightarrow> time \<Rightarrow> fake_gateway \<Rightarrow> string \<times> string" where
  "fg_sign_webhook ev now g = (webhook_body ev, sign_body (webhook_body ev) now g)"

section \<open>Lemmas\<close>

lemma itoa_bytes: "c \<in> set (itoa i) \<Longrightarrow> is_digit c \<or> c = CHR ''-''"
  using digits_of_digits [of "nat (- i)"] digits_of_digits [of "nat i"]
  by (auto simp: itoa_def split: if_splits)

lemma itoa_nonempty [simp]: "itoa i \<noteq> []"
  by (simp add: itoa_def)

lemma itoa_no_comma [simp]: "CHR '','' \<notin> set (itoa i)" "CHR ''='' \<notin> set (itoa i)"
  using itoa_bytes by (force simp: is_digit_def byte_def)+

lemma hex_no_comma [simp]: "CHR '','' \<notin> set (hex_encode s)"
  using hex_encode_hexits [of s] by (force simp: is_digit_def is_lower_letter_def byte_def)

lemma parse_signed_header:
  "parse_signature_header (sign_body body now g)
   = Some (itoa (to_unix now), hex_encode (hmac_sha256 (fg_secret g) (signed_text (itoa (to_unix now)) body)))"
proof -
  let ?h = "hex_encode (hmac_sha256 (fg_secret g) (signed_text (itoa (to_unix now)) body))"
  have "hmac_sha256 (fg_secret g) (signed_text (itoa (to_unix now)) body) \<noteq> []"
    using hmac_length [of "fg_secret g" "signed_text (itoa (to_unix now)) body"] by fastforce
  then have ne: "?h \<noteq> []" by (rule hex_encode_nonempty)
  have "split_on CHR '','' (''t='' @ itoa (to_unix now) @ '',v1='' @ ?h)
      = [''t='' @ itoa (to_unix now), ''v1='' @ ?h]"
    using split_on_append [of "CHR '',''" "''t='' @ itoa (to_unix now)" "''v1='' @ ?h"]
      split_on_none [of "CHR '',''" "''v1='' @ ?h"]
    by simp
  with ne show ?thesis
    by (simp add: parse_signature_header_def sign_body_def Let_def)
qed

lemma verify_signed:
  assumes "int64_range (to_unix at)" "\<bar>now - unix (to_unix at)\<bar> \<le> webhookTolerance"
  shows "fg_verify_webhook now body (sign_body body at g) g =
     (case decode_strict webhook_fields body of
        None \<Rightarrow> Inl ErrWebhookInvalid
      | Some m \<Rightarrow>
          if get_string m ''intent_id'' = [] then Inl ErrWebhookInvalid
          else Inr \<lparr>ev_Kind = get_string m ''kind'', ev_IntentID = get_string m ''intent_id'',
                    ev_AmountCents = get_int m ''amount_cents''\<rparr>)"
  using assms
  by (simp add: fg_verify_webhook_def parse_signed_header parse_int_itoa hex_roundtrip abs_le_iff not_less
      split: option.splits)

lemma decode_webhook_body:
  assumes "ascii (ev_Kind ev)" "ascii (ev_IntentID ev)" "int64_range (ev_AmountCents ev)" "\<not> json_more rest"
  shows "\<exists>m. decode_strict webhook_fields (webhook_body ev @ rest) = Some m \<and>
     get_string m ''kind'' = ev_Kind ev \<and> get_string m ''intent_id'' = ev_IntentID ev \<and>
     get_int m ''amount_cents'' = ev_AmountCents ev"
proof -
  have a: "ascii ''kind''" "ascii ''intent_id''" "ascii ''amount_cents''"
    by (simp_all add: byte_def)
  have "read_value (webhook_body ev @ rest) = Some (JObj [(''kind'', JStr (ev_Kind ev)),
      (''intent_id'', JStr (ev_IntentID ev)), (''amount_cents'', JNum (itoa (ev_AmountCents ev)))], rest)"
    unfolding webhook_body_def using assms(1,2) a by (subst read_encode_struct) simp_all
  then show ?thesis
    using assms(3,4)
    by (simp add: decode_strict_def decode_struct_def find_field_def webhook_fields_def decode_field_def
        parse_int_itoa get_string_def get_int_def)
qed

text \<open>What acceptance means: a fresh timestamp, the right MAC over these very bytes, a parsable body.\<close>

lemma verify_accepts:
  assumes "fg_verify_webhook now body header g = Inr ev"
  obtains tStr v1 tUnix m where
    "parse_signature_header header = Some (tStr, v1)" "parse_int tStr = Some tUnix"
    "\<bar>now - unix tUnix\<bar> \<le> webhookTolerance"
    "hex_decode v1 = Some (hmac_sha256 (fg_secret g) (signed_text tStr body))"
    "decode_strict webhook_fields body = Some m" "ev_IntentID ev = get_string m ''intent_id''"
    "ev_IntentID ev \<noteq> []" "ev_Kind ev = get_string m ''kind''" "ev_AmountCents ev = get_int m ''amount_cents''"
  using assms by (auto simp: fg_verify_webhook_def Let_def split: option.splits if_splits)

lemma verify_opaque:
  "fg_verify_webhook now body header g = Inl e \<Longrightarrow> e = ErrWebhookInvalid"
  by (auto simp: fg_verify_webhook_def Let_def split: option.splits if_splits)

end
