(* ===== verification/Server.thy ===== *)
theory Server
  imports BookingService PaymentService FakeGateway
begin

text \<open>
  The running server: the implementations behind the ports (\<open>cmd/api/main.go\<close> chooses
  them), the requests it serves, and the steps of its goroutines. One call of one request
  is one step; between two steps of a request any other request may run, time may pass,
  and a call may fail with or without having taken effect.
\<close>

section \<open>World\<close>

text \<open>The operations of the three stores, over their states.\<close>

record ('h, 'b, 'p) stores =
  st_hold :: "time \<Rightarrow> hold \<Rightarrow> 'h \<Rightarrow> unit res \<times> 'h"
  st_release :: "time \<Rightarrow> string \<Rightarrow> string \<Rightarrow> 'h \<Rightarrow> unit res \<times> 'h"
  st_get :: "time \<Rightarrow> string \<Rightarrow> 'h \<Rightarrow> hold res"
  st_held :: "time \<Rightarrow> string \<Rightarrow> 'h \<Rightarrow> seat list"
  st_confirm :: "string \<Rightarrow> time \<Rightarrow> booking \<Rightarrow> 'b \<Rightarrow> booking res \<times> 'b"
  st_by_session :: "string \<Rightarrow> 'b \<Rightarrow> booking res"
  st_seat_confirmed :: "string \<Rightarrow> seat \<Rightarrow> 'b \<Rightarrow> bool res"
  st_confirmed_seats :: "string \<Rightarrow> 'b \<Rightarrow> seat list res"
  st_insert :: "string \<Rightarrow> time \<Rightarrow> payment \<Rightarrow> 'p \<Rightarrow> payment res \<times> 'p"
  st_get_active :: "string \<Rightarrow> 'p \<Rightarrow> payment res"
  st_get_intent :: "string \<Rightarrow> 'p \<Rightarrow> payment res"
  st_capture :: "time \<Rightarrow> string \<Rightarrow> 'p \<Rightarrow> (payment \<times> bool) res \<times> 'p"
  st_fail :: "time \<Rightarrow> string \<Rightarrow> 'p \<Rightarrow> payment res \<times> 'p"
  st_has_captured :: "string \<Rightarrow> 'p \<Rightarrow> bool res"

text \<open>
  The identifiers of \<open>uuid.NewString\<close> are a sequence the world carries, and it remembers how
  many of them are spent. The screenings are reference data.
\<close>

record ('h, 'b, 'p) world =
  w_now :: time
  w_uuid :: "nat \<Rightarrow> string"
  w_next :: nat
  w_holds :: 'h
  w_bookings :: 'b
  w_payments :: 'p
  w_screenings :: "string \<Rightarrow> screening res"
  w_gateway :: fake_gateway

definition world_ports :: "('h, 'b, 'p) stores \<Rightarrow> ('h, 'b, 'p) world ports" where
  "world_ports S = \<lparr>
     now_p = w_now,
     new_id_p = (\<lambda>w. (w_uuid w (w_next w), w\<lparr>w_next := Suc (w_next w)\<rparr>)),
     holds_hold_p = (\<lambda>h w. case st_hold S (w_now w) h (w_holds w) of (r, s) \<Rightarrow> (r, w\<lparr>w_holds := s\<rparr>)),
     holds_release_p = (\<lambda>sid uid w. case st_release S (w_now w) sid uid (w_holds w) of (r, s) \<Rightarrow> (r, w\<lparr>w_holds := s\<rparr>)),
     holds_get_p = (\<lambda>sid w. st_get S (w_now w) sid (w_holds w)),
     holds_held_seats_p = (\<lambda>scr w. Inr (st_held S (w_now w) scr (w_holds w))),
     bookings_confirm_p = (\<lambda>b w. case st_confirm S (w_uuid w (w_next w)) (w_now w) b (w_bookings w) of
       (r, s) \<Rightarrow> (r, w\<lparr>w_bookings := s, w_next := Suc (w_next w)\<rparr>)),
     bookings_get_by_session_p = (\<lambda>sid w. st_by_session S sid (w_bookings w)),
     bookings_seat_confirmed_p = (\<lambda>scr seat w. st_seat_confirmed S scr seat (w_bookings w)),
     bookings_confirmed_seats_p = (\<lambda>scr w. st_confirmed_seats S scr (w_bookings w)),
     screenings_get_p = (\<lambda>scr w. w_screenings w scr),
     payments_has_captured_p = (\<lambda>sid w. st_has_captured S sid (w_payments w)),
     payments_insert_intent_p = (\<lambda>p w. case st_insert S (w_uuid w (w_next w)) (w_now w) p (w_payments w) of
       (r, s) \<Rightarrow> (r, w\<lparr>w_payments := s, w_next := Suc (w_next w)\<rparr>)),
     payments_get_active_p = (\<lambda>sid w. st_get_active S sid (w_payments w)),
     payments_get_by_intent_p = (\<lambda>i w. st_get_intent S i (w_payments w)),
     payments_capture_p = (\<lambda>i w. case st_capture S (w_now w) i (w_payments w) of (r, s) \<Rightarrow> (r, w\<lparr>w_payments := s\<rparr>)),
     payments_mark_failed_p = (\<lambda>i w. case st_fail S (w_now w) i (w_payments w) of (r, s) \<Rightarrow> (r, w\<lparr>w_payments := s\<rparr>)),
     gateway_provider_p = (\<lambda>w. fg_provider),
     gateway_create_intent_p = (\<lambda>req w. case fg_create_intent (w_uuid w (w_next w)) req (w_gateway w) of
       (r, g) \<Rightarrow> (r, w\<lparr>w_gateway := g, w_next := Suc (w_next w)\<rparr>)),
     gateway_capture_intent_p = (\<lambda>i a w. case fg_capture_intent i a (w_gateway w) of (r, g) \<Rightarrow> (r, w\<lparr>w_gateway := g\<rparr>)),
     gateway_verify_webhook_p = (\<lambda>body sig w. fg_verify_webhook (w_now w) body sig (w_gateway w))\<rparr>"

lemma world_ports_fields:
  "now_p (world_ports S) = w_now"
  "new_id_p (world_ports S) = (\<lambda>w. (w_uuid w (w_next w), w\<lparr>w_next := Suc (w_next w)\<rparr>))"
  "holds_hold_p (world_ports S) = (\<lambda>h w. case st_hold S (w_now w) h (w_holds w) of (r, s) \<Rightarrow> (r, w\<lparr>w_holds := s\<rparr>))"
  "holds_release_p (world_ports S) = (\<lambda>sid uid w. case st_release S (w_now w) sid uid (w_holds w) of (r, s) \<Rightarrow> (r, w\<lparr>w_holds := s\<rparr>))"
  "holds_get_p (world_ports S) = (\<lambda>sid w. st_get S (w_now w) sid (w_holds w))"
  "holds_held_seats_p (world_ports S) = (\<lambda>scr w. Inr (st_held S (w_now w) scr (w_holds w)))"
  "bookings_confirm_p (world_ports S) = (\<lambda>b w. case st_confirm S (w_uuid w (w_next w)) (w_now w) b (w_bookings w) of
       (r, s) \<Rightarrow> (r, w\<lparr>w_bookings := s, w_next := Suc (w_next w)\<rparr>))"
  "bookings_get_by_session_p (world_ports S) = (\<lambda>sid w. st_by_session S sid (w_bookings w))"
  "bookings_seat_confirmed_p (world_ports S) = (\<lambda>scr seat w. st_seat_confirmed S scr seat (w_bookings w))"
  "bookings_confirmed_seats_p (world_ports S) = (\<lambda>scr w. st_confirmed_seats S scr (w_bookings w))"
  "screenings_get_p (world_ports S) = (\<lambda>scr w. w_screenings w scr)"
  "payments_has_captured_p (world_ports S) = (\<lambda>sid w. st_has_captured S sid (w_payments w))"
  "payments_insert_intent_p (world_ports S) = (\<lambda>p w. case st_insert S (w_uuid w (w_next w)) (w_now w) p (w_payments w) of
       (r, s) \<Rightarrow> (r, w\<lparr>w_payments := s, w_next := Suc (w_next w)\<rparr>))"
  "payments_get_active_p (world_ports S) = (\<lambda>sid w. st_get_active S sid (w_payments w))"
  "payments_get_by_intent_p (world_ports S) = (\<lambda>i w. st_get_intent S i (w_payments w))"
  "payments_capture_p (world_ports S) = (\<lambda>i w. case st_capture S (w_now w) i (w_payments w) of (r, s) \<Rightarrow> (r, w\<lparr>w_payments := s\<rparr>))"
  "payments_mark_failed_p (world_ports S) = (\<lambda>i w. case st_fail S (w_now w) i (w_payments w) of (r, s) \<Rightarrow> (r, w\<lparr>w_payments := s\<rparr>))"
  "gateway_provider_p (world_ports S) = (\<lambda>w. fg_provider)"
  "gateway_create_intent_p (world_ports S) = (\<lambda>req w. case fg_create_intent (w_uuid w (w_next w)) req (w_gateway w) of
       (r, g) \<Rightarrow> (r, w\<lparr>w_gateway := g, w_next := Suc (w_next w)\<rparr>))"
  "gateway_capture_intent_p (world_ports S) = (\<lambda>i a w. case fg_capture_intent i a (w_gateway w) of (r, g) \<Rightarrow> (r, w\<lparr>w_gateway := g\<rparr>))"
  "gateway_verify_webhook_p (world_ports S) = (\<lambda>body sig w. fg_verify_webhook (w_now w) body sig (w_gateway w))"
  by (simp_all add: world_ports_def)

section \<open>Requests\<close>

datatype request =
    ReqHold string string seat
  | ReqConfirm string string
  | ReqRelease string string
  | ReqSeatMap string
  | ReqCreateIntent string string
  | ReqPay string string
  | ReqWebhook string string

datatype outcome =
    OutHold "hold res"
  | OutConfirm "confirm_result res"
  | OutRelease "unit res"
  | OutSeatMap "seat_map_view res"
  | OutIntent "intent_result res"
  | OutPay "payment res"
  | OutWebhook "webhook_outcome res"

fun serve :: "duration \<Rightarrow> request \<Rightarrow> outcome prog" where
  "serve ttl (ReqHold uid scr seat) = map_prog OutHold (booking_hold ttl uid scr seat)"
| "serve ttl (ReqConfirm uid sid) = map_prog OutConfirm (booking_confirm uid sid)"
| "serve ttl (ReqRelease uid sid) = map_prog OutRelease (booking_release uid sid)"
| "serve ttl (ReqSeatMap scr) = map_prog OutSeatMap (booking_seat_map scr)"
| "serve ttl (ReqCreateIntent uid sid) = map_prog OutIntent (payment_create_intent uid sid)"
| "serve ttl (ReqPay uid sid) = map_prog OutPay (payment_confirm_by_client uid sid)"
| "serve ttl (ReqWebhook body sig) = map_prog OutWebhook (payment_handle_webhook body sig)"

text \<open>The HTTP layer builds the seat of a hold with \<open>new_seat\<close>, from a Go \<open>int\<close>.\<close>

fun request_ok :: "request \<Rightarrow> bool" where
  "request_ok (ReqHold uid scr seat) \<longleftrightarrow> seat_well_formed seat \<and> int64_range (s_Number seat)"
| "request_ok _ \<longleftrightarrow> True"

section \<open>Failing calls\<close>

text \<open>The continuation of a call that reports an infrastructure failure.\<close>

fun fault :: "error \<Rightarrow> 'a prog \<Rightarrow> 'a prog" where
  "fault e (HoldsHold h k) = k (Inl e)"
| "fault e (HoldsRelease a b k) = k (Inl e)"
| "fault e (HoldsGet a k) = k (Inl e)"
| "fault e (HoldsHeldSeats a k) = k (Inl e)"
| "fault e (BookingsConfirm b k) = k (Inl e)"
| "fault e (BookingsGetBySession a k) = k (Inl e)"
| "fault e (BookingsSeatConfirmed a b k) = k (Inl e)"
| "fault e (BookingsConfirmedSeats a k) = k (Inl e)"
| "fault e (ScreeningsGet a k) = k (Inl e)"
| "fault e (PaymentsHasCaptured a k) = k (Inl e)"
| "fault e (PaymentsInsertIntent p k) = k (Inl e)"
| "fault e (PaymentsGetActive a k) = k (Inl e)"
| "fault e (PaymentsGetByIntent a k) = k (Inl e)"
| "fault e (PaymentsCapture a k) = k (Inl e)"
| "fault e (PaymentsMarkFailed a k) = k (Inl e)"
| "fault e (GatewayCreateIntent r k) = k (Inl e)"
| "fault e (GatewayCaptureIntent a b k) = k (Inl e)"
| "fault e (GatewayVerifyWebhook a b k) = k (Inl e)"
| "fault e p = p"

section \<open>Interleaved execution\<close>

text \<open>
  A configuration is a world, the holds that have been readable at some moment of the run
  (a record for the statements, no code reads it), and the requests in flight.
\<close>

definition readable :: "('h, 'b, 'p) world ports \<Rightarrow> ('h, 'b, 'p) world \<Rightarrow> hold set" where
  "readable P w = {h. \<exists>sid. holds_get_p P sid w = Inr h}"

type_synonym ('h, 'b, 'p, 'x) config = "('h, 'b, 'p) world \<times> hold set \<times> 'x prog list"

inductive server_step ::
    "duration \<Rightarrow> ('h, 'b, 'p) world ports \<Rightarrow> ('h, 'b, 'p, outcome) config \<Rightarrow> ('h, 'b, 'p, outcome) config \<Rightarrow> bool"
  for ttl :: duration and P :: "('h, 'b, 'p) world ports" where
  arrive: "request_ok req \<Longrightarrow>
    server_step ttl P (w, H, ts) (w, H, ts @ [serve ttl req])"
| call: "i < length ts \<Longrightarrow> step P (ts ! i) w = (p, w') \<Longrightarrow>
    server_step ttl P (w, H, ts) (w', H \<union> readable P w', ts[i := p])"
| refuse: "i < length ts \<Longrightarrow>
    server_step ttl P (w, H, ts) (w, H, ts[i := fault (Infra m) (ts ! i)])"
| lose_reply: "i < length ts \<Longrightarrow> step P (ts ! i) w = (p, w') \<Longrightarrow>
    server_step ttl P (w, H, ts) (w', H \<union> readable P w', ts[i := fault (Infra m) (ts ! i)])"
| tick: "0 \<le> d \<Longrightarrow>
    server_step ttl P (w, H, ts) (w\<lparr>w_now := w_now w + d\<rparr>, H, ts)"

definition server_run ::
    "duration \<Rightarrow> ('h, 'b, 'p) world ports \<Rightarrow> ('h, 'b, 'p, outcome) config \<Rightarrow> ('h, 'b, 'p, outcome) config \<Rightarrow> bool" where
  "server_run ttl P = (server_step ttl P)\<^sup>*\<^sup>*"

inductive_cases server_stepE: "server_step ttl P c c'"

section \<open>Every request finishes\<close>

lemma calls_le_map: "calls_le p n \<Longrightarrow> calls_le (map_prog f p) n"
  by (induction p arbitrary: n) simp_all

lemma calls_le_mono: "calls_le p n \<Longrightarrow> n \<le> m \<Longrightarrow> calls_le p m"
proof (induction p arbitrary: n m)
qed (simp, (simp, blast intro: diff_le_mono)+)

lemma calls_le_fault: "calls_le p n \<Longrightarrow> calls_le (fault e p) n"
  by (cases p) (auto intro: calls_le_mono)

lemma serve_calls: "calls_le (serve ttl req) 8"
  by (cases req) (auto intro!: calls_le_map intro: calls_le_mono booking_calls payment_calls)

text \<open>Whatever worlds the other requests leave it, a request is done after so many of its calls.\<close>

lemma calls_finish:
  "calls_le p n \<Longrightarrow> n \<le> length ws \<Longrightarrow> is_ret (fold (\<lambda>w p. fst (step P p w)) ws p)"
proof (induction ws arbitrary: p n)
  case Nil
  then show ?case by (cases p) (simp_all add: is_ret_def)
next
  case (Cons w ws)
  show ?case
  proof (cases "is_ret p")
    case True
    then obtain x where "p = Ret x" by (auto simp: is_ret_iff)
    moreover have "fold (\<lambda>w p. fst (step P p w)) ws (Ret x) = Ret x" by (induction ws) simp_all
    ultimately show ?thesis by (simp add: is_ret_def)
  next
    case False
    with calls_le_step [OF Cons.prems(1), of P w] Cons.prems(2) have
      "calls_le (fst (step P p w)) (n - 1)" "n - 1 \<le> length ws" by auto
    from Cons.IH [OF this] show ?thesis by simp
  qed
qed

text \<open>Scheduled alone, a request runs to its result, under any scheduler that lets it take its calls.\<close>

lemma alone_steps:
  assumes R: "\<And>w H p p' w'. step P p w = (p', w') \<Longrightarrow> R (w, H, ts @ [p]) (w', H \<union> readable P w', ts @ [p'])"
  shows "\<exists>H'. R\<^sup>*\<^sup>* (w, H, ts @ [p]) (snd (run P p w), H', ts @ [Ret (fst (run P p w))])"
proof -
  have step1: "\<exists>H'. R\<^sup>*\<^sup>* (w, H, ts @ [p]) (snd (run P p w), H', ts @ [Ret (fst (run P p w))])"
    if IH: "\<And>w' H. \<exists>H'. R\<^sup>*\<^sup>* (w', H, ts @ [fst (step P p w)])
        (snd (run P (fst (step P p w)) w'), H', ts @ [Ret (fst (run P (fst (step P p w)) w'))])" for p w H
  proof -
    obtain p' w' where st: "step P p w = (p', w')" by force
    have "run P p w = run P p' w'" using step_run [of P p w] st by simp
    then show ?thesis
      using IH [of w' "H \<union> readable P w'"] R [OF st, of H] st by (auto intro: converse_rtranclp_into_rtranclp)
  qed
  show ?thesis
  proof (induction p arbitrary: w H)
    case (Ret x)
    then show ?case by auto
  qed (rule step1, fastforce split: prod.split)+
qed

lemma alone_run:
  "\<exists>H'. server_run ttl P (w, H, ts @ [p]) (snd (run P p w), H', ts @ [Ret (fst (run P p w))])"
  unfolding server_run_def
proof (rule alone_steps)
  show "server_step ttl P (w, H, ts @ [p]) (w', H \<union> readable P w', ts @ [p'])" if "step P p w = (p', w')" for w H p p' w'
    using server_step.call [of "length ts" "ts @ [p]" P w p' w' ttl H] that by simp
qed

text \<open>No call moves the clock.\<close>

lemma run_now: "w_now (snd (run (world_ports S) p w)) = w_now w"
  by (induction p arbitrary: w) (auto simp: world_ports_fields split: prod.split)

end
