(* ===== verification/ServerSafety.thy ===== *)
theory ServerSafety
  imports Server
begin

text \<open>
  What a request must know before each of its calls, and the invariant of every
  interleaving. The use cases are checked once against \<open>safe\<close>; the locale \<open>server\<close>, over
  the three store contracts, then carries the invariant through every step.
\<close>

section \<open>Obligations of a request\<close>

text \<open>
  The facts a request has gathered: sessions it saw paid, holds it read, and identifiers it
  minted and has not yet stored.
\<close>

record facts =
  fk_paid :: "string set"
  fk_holds :: "hold set"
  fk_ids :: "string set"

definition no_facts :: facts where
  "no_facts = \<lparr>fk_paid = {}, fk_holds = {}, fk_ids = {}\<rparr>"

definition booking_of :: "hold \<Rightarrow> booking \<Rightarrow> bool" where
  "booking_of h b \<longleftrightarrow> b_SessionID b = h_SessionID h \<and> b_ScreeningID b = h_ScreeningID h \<and>
     b_Seat b = h_Seat h \<and> b_UserID b = h_UserID h"

definition learn_hold :: "hold res \<Rightarrow> facts \<Rightarrow> facts" where
  "learn_hold r F = (case r of Inl e \<Rightarrow> F | Inr h \<Rightarrow> F\<lparr>fk_holds := insert h (fk_holds F)\<rparr>)"

definition learn_paid :: "string \<Rightarrow> bool res \<Rightarrow> facts \<Rightarrow> facts" where
  "learn_paid sid r F = (if r = Inr True then F\<lparr>fk_paid := insert sid (fk_paid F)\<rparr> else F)"

definition learn_id :: "string \<Rightarrow> facts \<Rightarrow> facts" where
  "learn_id i F = F\<lparr>fk_ids := insert i (fk_ids F)\<rparr>"

definition spend_ids :: "string set \<Rightarrow> facts \<Rightarrow> facts" where
  "spend_ids X F = F\<lparr>fk_ids := fk_ids F - X\<rparr>"

definition hold_ids :: "hold \<Rightarrow> string set" where
  "hold_ids h = {h_SessionID h, h_HoldToken h}"

text \<open>Holds are made of fresh identifiers; a booking needs a hold that was read and a payment that was seen.\<close>

primrec safe :: "'a prog \<Rightarrow> facts \<Rightarrow> bool" where
  "safe (Ret x) F = True"
| "safe (Now k) F = (\<forall>t. safe (k t) F)"
| "safe (NewID k) F = (\<forall>i. i \<notin> fk_ids F \<longrightarrow> safe (k i) (learn_id i F))"
| "safe (HoldsHold h k) F =
     (seat_well_formed (h_Seat h) \<and> int64_range (s_Number (h_Seat h)) \<and> hold_ids h \<subseteq> fk_ids F \<and>
      (\<forall>r. safe (k r) (spend_ids (hold_ids h) F)))"
| "safe (HoldsGet sid k) F =
     (\<forall>r. (\<forall>h. r = Inr h \<longrightarrow> h_SessionID h = sid \<and> keyable (h_Seat h)) \<longrightarrow> safe (k r) (learn_hold r F))"
| "safe (BookingsConfirm b k) F =
     (keyable (b_Seat b) \<and> b_SessionID b \<in> fk_paid F \<and> (\<exists>h \<in> fk_holds F. booking_of h b) \<and>
      (\<forall>r. safe (k r) F))"
| "safe (PaymentsHasCaptured sid k) F = (\<forall>r. safe (k r) (learn_paid sid r F))"
| "safe (HoldsRelease a b k) F = (\<forall>r. safe (k r) F)"
| "safe (HoldsHeldSeats a k) F = (\<forall>r. safe (k r) F)"
| "safe (BookingsGetBySession a k) F = (\<forall>r. safe (k r) F)"
| "safe (BookingsSeatConfirmed a b k) F = (\<forall>r. safe (k r) F)"
| "safe (BookingsConfirmedSeats a k) F = (\<forall>r. safe (k r) F)"
| "safe (ScreeningsGet a k) F = (\<forall>r. safe (k r) F)"
| "safe (PaymentsInsertIntent a k) F = (\<forall>r. safe (k r) F)"
| "safe (PaymentsGetActive a k) F = (\<forall>r. safe (k r) F)"
| "safe (PaymentsGetByIntent a k) F = (\<forall>r. safe (k r) F)"
| "safe (PaymentsCapture a k) F = (\<forall>r. safe (k r) F)"
| "safe (PaymentsMarkFailed a k) F = (\<forall>r. safe (k r) F)"
| "safe (GatewayProvider k) F = (\<forall>r. safe (k r) F)"
| "safe (GatewayCreateIntent a k) F = (\<forall>r. safe (k r) F)"
| "safe (GatewayCaptureIntent a b k) F = (\<forall>r. safe (k r) F)"
| "safe (GatewayVerifyWebhook a b k) F = (\<forall>r. safe (k r) F)"

fun spent :: "'a prog \<Rightarrow> string set" where
  "spent (HoldsHold h k) = hold_ids h"
| "spent p = {}"

lemma safe_map: "safe p F \<Longrightarrow> safe (map_prog f p) F"
  by (induction p arbitrary: F) simp_all

lemma spend_nothing [simp]: "spend_ids {} F = F"
  by (simp add: spend_ids_def)

lemma learn_nothing [simp]: "learn_hold (Inl e) F = F" "learn_paid sid (Inl e) F = F"
  by (simp_all add: learn_hold_def learn_paid_def)

lemma safe_fault: "safe p F \<Longrightarrow> safe (fault e p) (spend_ids (spent p) F)"
  by (cases p) (auto dest!: spec [where x = "Inl e"])

section \<open>The use cases meet their obligations\<close>

lemma safe_booking_hold:
  assumes "seat_well_formed seat" "int64_range (s_Number seat)"
  shows "safe (booking_hold ttl uid scr seat) F"
  using assms
  by (simp add: booking_hold_def Let_def learn_id_def hold_ids_def split: sum.split)

lemma safe_booking_confirm: "safe (booking_confirm uid sid) F"
  by (simp add: booking_confirm_def recover_conflict_def cleanup_hold_def learn_hold_def learn_paid_def
      booking_of_def split: sum.split)

lemma safe_booking_others: "safe (booking_release uid sid) F" "safe (booking_seat_map scr) F"
  by (simp_all add: booking_release_def booking_seat_map_def split: sum.split)

lemma safe_payment:
  "safe (payment_create_intent uid sid) F"
  "safe (payment_confirm_by_client uid sid) F"
  "safe (payment_handle_webhook body sig) F"
  by (simp_all add: payment_create_intent_def payment_confirm_by_client_def payment_handle_webhook_def
      apply_captured_def hold_gate_def split: sum.split prod.split)

lemma safe_serve: "request_ok req \<Longrightarrow> safe (serve ttl req) F"
  by (cases req) (auto intro!: safe_map safe_booking_hold safe_booking_confirm safe_booking_others safe_payment)

section \<open>The invariant\<close>

locale server =
  hs: hold_store hinv hlive hstored hused "st_hold S" "st_release S" "st_get S" "st_held S" +
  bs: booking_store binv brows bbookable bspell bfresh "st_confirm S" "st_by_session S" "st_seat_confirmed S"
    "st_confirmed_seats S" +
  ps: payment_store pinv prows pinsertable "st_insert S" "st_get_active S" "st_get_intent S"
    "st_capture S" "st_fail S" "st_has_captured S"
  for S :: "('h, 'b, 'p) stores"
    and hinv hlive hstored hused binv brows bbookable bspell bfresh pinv prows pinsertable
begin

text \<open>The identifiers minted so far; \<open>uuid.NewString\<close> never repeats itself.\<close>

definition minted :: "('h, 'b, 'p) world \<Rightarrow> string set" where
  "minted w = w_uuid w ` {..<w_next w}"

definition world_inv :: "('h, 'b, 'p) world \<Rightarrow> bool" where
  "world_inv w \<longleftrightarrow> hinv (w_now w) (w_holds w) \<and> binv (w_bookings w) \<and> pinv (w_payments w) \<and>
     hused (w_holds w) \<subseteq> minted w \<and> inj (w_uuid w)"

definition paid_sessions :: "('h, 'b, 'p) world \<Rightarrow> string set" where
  "paid_sessions w = {sid. paid (prows (w_payments w)) sid}"

definition live_holds :: "('h, 'b, 'p) world \<Rightarrow> hold set" where
  "live_holds w = {h. \<exists>sid. hlive (w_now w) (w_holds w) sid = Some h}"

text \<open>The row is the sale of the hold, as the booking store spells it.\<close>

definition sale_of :: "hold \<Rightarrow> booking \<Rightarrow> bool" where
  "sale_of h b \<longleftrightarrow> (\<exists>b0. booking_of h b0 \<and> b_SessionID b = b_SessionID b0 \<and> same_booking_seat b (bspell b0) \<and>
     b_UserID b = b_UserID (bspell b0))"

text \<open>Every booking row is paid for, and is the sale of a hold that has been readable.\<close>

definition backed :: "('h, 'b, 'p) world \<Rightarrow> hold set \<Rightarrow> bool" where
  "backed w H \<longleftrightarrow> (\<forall>b \<in> brows (w_bookings w). b_SessionID b \<in> paid_sessions w \<and> (\<exists>h \<in> H. sale_of h b))"

definition covers :: "('h, 'b, 'p) world \<Rightarrow> hold set \<Rightarrow> facts \<Rightarrow> bool" where
  "covers w H F \<longleftrightarrow> fk_paid F \<subseteq> paid_sessions w \<and> fk_holds F \<subseteq> H \<and>
     fk_ids F \<subseteq> minted w - hused (w_holds w)"

abbreviation P :: "('h, 'b, 'p) world ports" where
  "P \<equiv> world_ports S"

lemma get_live_hold:
  "world_inv w \<Longrightarrow> st_get S (w_now w) sid (w_holds w) = Inr h \<longleftrightarrow> hlive (w_now w) (w_holds w) sid = Some h"
  using hs.get_live [of "w_now w" "w_holds w" sid]
  by (auto simp: world_inv_def split: option.splits)

lemma readable_live: "world_inv w \<Longrightarrow> readable P w = live_holds w"
  by (simp add: readable_def live_holds_def world_ports_fields get_live_hold)

text \<open>What one call does to the world; \<open>X\<close> are the identifiers it stores.\<close>

definition moves :: "hold set \<Rightarrow> string set \<Rightarrow> ('h, 'b, 'p) world \<Rightarrow> ('h, 'b, 'p) world \<Rightarrow> bool" where
  "moves H X w w' \<longleftrightarrow> world_inv w' \<and> w_now w' = w_now w \<and> w_uuid w' = w_uuid w \<and> w_next w \<le> w_next w' \<and>
     hused (w_holds w') \<subseteq> hused (w_holds w) \<union> X \<and> paid_sessions w \<subseteq> paid_sessions w' \<and> backed w' H"

lemma moves_frame:
  assumes "world_inv w" "backed w H" "w_now w' = w_now w" "w_uuid w' = w_uuid w" "w_next w \<le> w_next w'" "w_holds w' = w_holds w"
    "w_bookings w' = w_bookings w" "w_payments w' = w_payments w"
  shows "moves H {} w w'"
  using assms by (auto simp: minted_def moves_def world_inv_def paid_sessions_def backed_def)

lemma moves_holds:
  assumes "world_inv w" "backed w H" "hinv (w_now w) s" "hused s \<subseteq> hused (w_holds w) \<union> X" "X \<subseteq> minted w"
  shows "moves H X w (w\<lparr>w_holds := s\<rparr>)"
  using assms by (auto simp: minted_def moves_def world_inv_def paid_sessions_def backed_def)

lemma moves_payments:
  assumes "world_inv w" "backed w H" "pinv s"
    "\<And>sid. paid (prows (w_payments w)) sid \<Longrightarrow> paid (prows s) sid" "w_next w \<le> n"
  shows "moves H {} w (w\<lparr>w_payments := s, w_next := n\<rparr>)"
  using assms by (auto simp: minted_def moves_def world_inv_def paid_sessions_def backed_def)

lemma moves_bookings:
  assumes "world_inv w" "backed w H" "binv s" "w_next w \<le> n"
    "\<And>b. b \<in> brows s \<Longrightarrow> b \<in> brows (w_bookings w) \<or> (b_SessionID b \<in> paid_sessions w \<and> (\<exists>h \<in> H. sale_of h b))"
  shows "moves H {} w (w\<lparr>w_bookings := s, w_next := n\<rparr>)"
  using assms by (fastforce simp: minted_def moves_def world_inv_def paid_sessions_def backed_def)

lemma hold_call:
  assumes w: "world_inv w" "backed w H" and F: "covers w H F" "safe (HoldsHold h k) F"
    and c: "step P (HoldsHold h k) w = (p', w')"
  shows "moves H (hold_ids h) w w'"
proof -
  obtain r s where rs: "st_hold S (w_now w) h (w_holds w) = (r, s)" by force
  have ids: "hold_ids h \<subseteq> minted w - hused (w_holds w)"
    using F by (auto simp: covers_def)
  have f: "fresh_hold (hused (w_holds w)) h"
    using F(2) ids by (simp add: fresh_hold_def hold_ids_def)
  have "hinv (w_now w) s"
    using w(1) hs.invar_hold [OF _ f rs] by (simp add: world_inv_def)
  moreover have "hused s \<subseteq> hused (w_holds w) \<union> hold_ids h"
    using hs.used_hold [OF _ f rs] w(1) by (auto simp: hold_ids_def world_inv_def)
  moreover have "hold_ids h \<subseteq> minted w" using ids by blast
  ultimately have "moves H (hold_ids h) w (w\<lparr>w_holds := s\<rparr>)"
    by (rule moves_holds [OF w])
  then show ?thesis using c rs by (auto simp: world_ports_fields)
qed

lemma release_call:
  assumes w: "world_inv w" "backed w H" and c: "step P (HoldsRelease sid uid k) w = (p', w')"
  shows "moves H {} w w'"
proof -
  obtain r s where rs: "st_release S (w_now w) sid uid (w_holds w) = (r, s)" by force
  have "hinv (w_now w) s"
    using w(1) hs.invar_release [OF _ rs] by (simp add: world_inv_def)
  moreover have "hused s \<subseteq> hused (w_holds w)"
    using w(1) hs.used_release [OF _ rs] by (simp add: world_inv_def)
  ultimately show ?thesis using moves_holds [OF w, of s "{}"] c rs
    by (auto simp: world_ports_fields)
qed

lemma confirm_call:
  assumes w: "world_inv w" "backed w H" and F: "covers w H F" "safe (BookingsConfirm b k) F"
    and c: "step P (BookingsConfirm b k) w = (p', w')"
  shows "moves H {} w w'"
proof -
  obtain r s where rs: "st_confirm S (w_uuid w (w_next w)) (w_now w) b (w_bookings w) = (r, s)" by force
  have b: "keyable (b_Seat b)" "b_SessionID b \<in> paid_sessions w" and "\<exists>h \<in> H. booking_of h b"
    using F by (auto simp: covers_def)
  have i: "binv (w_bookings w)" using w(1) by (simp add: world_inv_def)
  have rows: "x \<in> brows (w_bookings w) \<or> (b_SessionID x \<in> paid_sessions w \<and> (\<exists>h \<in> H. sale_of h x))"
    if "x \<in> brows s" for x
  proof (cases r)
    case (Inl e)
    with that bs.confirm_err [OF i, of _ _ b e s] rs show ?thesis by auto
  next
    case (Inr b')
    from bs.confirm_row [OF i b(1), of _ _ b' s] rs Inr
    have "brows s = insert b' (brows (w_bookings w))" "b_SessionID b' = b_SessionID b"
      "same_booking_seat b' (bspell b)" "b_UserID b' = b_UserID (bspell b)" by auto
    with that b(2) \<open>\<exists>h \<in> H. booking_of h b\<close> show ?thesis
      unfolding sale_of_def by auto
  qed
  show ?thesis
    using moves_bookings [OF w bs.confirm_invar [OF i b(1) rs] _ rows, of "Suc (w_next w)"] c rs
    by (auto simp: world_ports_fields)
qed

lemma payment_calls_move:
  assumes w: "world_inv w" "backed w H"
  shows "step P (PaymentsInsertIntent p k) w = (p', w') \<Longrightarrow> moves H {} w w'"
    and "step P (PaymentsCapture i k1) w = (p', w') \<Longrightarrow> moves H {} w w'"
    and "step P (PaymentsMarkFailed i k) w = (p', w') \<Longrightarrow> moves H {} w w'"
proof -
  have i: "pinv (w_payments w)" using w(1) by (simp add: world_inv_def)
  show "moves H {} w w'" if c: "step P (PaymentsInsertIntent p k) w = (p', w')"
  proof -
    obtain r s where rs: "st_insert S (w_uuid w (w_next w)) (w_now w) p (w_payments w) = (r, s)" by force
    with c moves_payments [OF w ps.insert_invar [OF i rs] ps.insert_keeps_paid [OF i rs], of "Suc (w_next w)"]
    show ?thesis by (auto simp: world_ports_fields)
  qed
  show "moves H {} w w'" if c: "step P (PaymentsCapture i k1) w = (p', w')"
  proof -
    obtain r s where rs: "st_capture S (w_now w) i (w_payments w) = (r, s)" by force
    with c moves_payments [OF w ps.capture_invar [OF i rs] ps.capture_keeps_paid [OF i rs], of "w_next w"]
    show ?thesis by (auto simp: world_ports_fields)
  qed
  show "moves H {} w w'" if c: "step P (PaymentsMarkFailed i k) w = (p', w')"
  proof -
    obtain r s where rs: "st_fail S (w_now w) i (w_payments w) = (r, s)" by force
    with c moves_payments [OF w ps.fail_invar [OF i rs] ps.fail_keeps_paid [OF i rs], of "w_next w"]
    show ?thesis by (auto simp: world_ports_fields)
  qed
qed

lemma step_moves:
  assumes w: "world_inv w" "backed w H" and F: "covers w H F" "safe p F" and c: "step P p w = (p', w')"
  shows "moves H (spent p) w w'"
proof (cases p)
  case (HoldsHold h k)
  with hold_call [OF w F(1), of h k p' w'] F(2) c show ?thesis by simp
next
  case HoldsRelease
  with release_call [OF w] c show ?thesis by auto
next
  case (BookingsConfirm b k)
  with confirm_call [OF w F(1), of b k p' w'] F(2) c show ?thesis by simp
next
  case PaymentsInsertIntent
  with payment_calls_move(1) [OF w] c show ?thesis by auto
next
  case PaymentsCapture
  with payment_calls_move(2) [OF w] c show ?thesis by auto
next
  case PaymentsMarkFailed
  with payment_calls_move(3) [OF w] c show ?thesis by auto
qed (use c moves_frame [OF w] in \<open>auto simp: world_ports_fields split: prod.splits\<close>)

text \<open>The obligations of the rest of the request, under the facts its call has taught it.\<close>

lemma step_safe:
  assumes w: "world_inv w" and L: "live_holds w \<subseteq> H" and F: "covers w H F" "safe p F"
    and c: "step P p w = (p', w')" and m: "moves H (spent p) w w'"
  shows "\<exists>F'. safe p' F' \<and> covers w' H F' \<and> fk_ids F' \<subseteq> (fk_ids F - spent p) \<union> w_uuid w ` {w_next w..<w_next w'}"
proof -
  have keep: "covers w' H (spend_ids (spent p) F)"
    using F(1) m by (force simp: covers_def moves_def spend_ids_def minted_def)
  show ?thesis
  proof (cases p)
    case (NewID k)
    have new: "w_uuid w (w_next w) \<notin> minted w"
      using w by (auto simp: minted_def world_inv_def dest: injD)
    then have "w_uuid w (w_next w) \<notin> fk_ids F" "w_uuid w (w_next w) \<notin> hused (w_holds w)"
      using F(1) w by (auto simp: covers_def world_inv_def)
    moreover have "w' = w\<lparr>w_next := Suc (w_next w)\<rparr>" "p' = k (w_uuid w (w_next w))"
      using c NewID by (auto simp: world_ports_fields)
    ultimately show ?thesis
      using F NewID keep
      by (intro exI [of _ "learn_id (w_uuid w (w_next w)) F"]) (auto simp: learn_id_def covers_def paid_sessions_def minted_def)
  next
    case (HoldsGet sid k)
    let ?r = "st_get S (w_now w) sid (w_holds w)"
    have wp: "w' = w" "p' = k ?r" using c HoldsGet by (auto simp: world_ports_fields)
    have "h_SessionID h = sid \<and> keyable (h_Seat h) \<and> h \<in> H" if "?r = Inr h" for h
    proof -
      have "hlive (w_now w) (w_holds w) sid = Some h"
        using that get_live_hold [OF w] by simp
      with hs.live_session [of "w_now w" "w_holds w"] w L show ?thesis
        by (auto simp: world_inv_def live_holds_def)
    qed
    then show ?thesis
      using F HoldsGet wp
      by (intro exI [of _ "learn_hold ?r F"]) (auto simp: learn_hold_def covers_def split: sum.split)
  next
    case (PaymentsHasCaptured sid k)
    let ?r = "st_has_captured S sid (w_payments w)"
    have wp: "w' = w" "p' = k ?r" using c PaymentsHasCaptured by (auto simp: world_ports_fields)
    have "?r = Inr True \<Longrightarrow> sid \<in> paid_sessions w"
      using ps.has_captured [of "w_payments w" sid] w by (simp add: world_inv_def paid_sessions_def)
    then show ?thesis
      using F PaymentsHasCaptured wp
      by (intro exI [of _ "learn_paid sid ?r F"]) (auto simp: learn_paid_def covers_def)
  qed (use c F(2) keep in \<open>auto simp: world_ports_fields spend_ids_def intro!: exI [of _ "spend_ids (spent p) F"]
      split: prod.splits\<close>)
qed

definition threads_inv :: "('h, 'b, 'p) world \<Rightarrow> hold set \<Rightarrow> 'x prog list \<Rightarrow> bool" where
  "threads_inv w H ts \<longleftrightarrow> (\<exists>Fs. length Fs = length ts \<and>
     (\<forall>i < length ts. safe (ts ! i) (Fs ! i) \<and> covers w H (Fs ! i)) \<and>
     (\<forall>i < length ts. \<forall>j < length ts. i \<noteq> j \<longrightarrow> fk_ids (Fs ! i) \<inter> fk_ids (Fs ! j) = {}))"

definition config_inv :: "('h, 'b, 'p, 'x) config \<Rightarrow> bool" where
  "config_inv c = (case c of (w, H, ts) \<Rightarrow>
     world_inv w \<and> backed w H \<and> live_holds w \<subseteq> H \<and> threads_inv w H ts)"

lemma backed_mono: "backed w H \<Longrightarrow> H \<subseteq> H' \<Longrightarrow> backed w H'"
  by (fastforce simp: backed_def)

lemma covers_others:
  assumes "covers w H F" "moves H0 X w w'" "X \<inter> fk_ids F = {}" "H \<subseteq> H'"
  shows "covers w' H' F"
proof -
  have "minted w \<subseteq> minted w'"
    using assms(2) by (auto simp: moves_def minted_def)
  moreover have "hused (w_holds w') \<subseteq> hused (w_holds w) \<union> X" "paid_sessions w \<subseteq> paid_sessions w'"
    using assms(2) by (simp_all add: moves_def)
  ultimately show ?thesis
    using assms(1,3,4) unfolding covers_def by blast
qed

lemma safe_spent: "safe p F \<Longrightarrow> spent p \<subseteq> fk_ids F"
  by (cases p) auto

text \<open>One thread moves, under facts that only grew by identifiers minted in the move.\<close>

lemma threads_update:
  assumes T: "threads_inv w H ts" and i: "i < length ts"
    and m: "moves H (spent (ts ! i)) w w'" and H: "H \<subseteq> H'" and uuid: "inj (w_uuid w)"
    and next_facts: "\<And>F. safe (ts ! i) F \<Longrightarrow> covers w H F \<Longrightarrow> \<exists>F'. safe p' F' \<and> covers w' H' F' \<and>
      fk_ids F' \<subseteq> (fk_ids F - spent (ts ! i)) \<union> w_uuid w ` {w_next w..<w_next w'}"
  shows "threads_inv w' H' (ts[i := p'])"
proof -
  from T obtain Fs where Fs: "length Fs = length ts"
    "\<And>j. j < length ts \<Longrightarrow> safe (ts ! j) (Fs ! j) \<and> covers w H (Fs ! j)"
    "\<And>j k. j < length ts \<Longrightarrow> k < length ts \<Longrightarrow> j \<noteq> k \<Longrightarrow> fk_ids (Fs ! j) \<inter> fk_ids (Fs ! k) = {}"
    by (auto simp: threads_inv_def)
  obtain F' where F': "safe p' F'" "covers w' H' F'"
    "fk_ids F' \<subseteq> (fk_ids (Fs ! i) - spent (ts ! i)) \<union> w_uuid w ` {w_next w..<w_next w'}"
    using next_facts Fs(2) [OF i] by blast
  have new: "w_uuid w ` {w_next w..<w_next w'} \<inter> fk_ids (Fs ! j) = {}" if "j < length ts" for j
  proof -
    have "fk_ids (Fs ! j) \<subseteq> minted w"
      using Fs(2) [OF that] by (auto simp: covers_def)
    moreover have "w_uuid w ` {w_next w..<w_next w'} \<inter> minted w = {}"
      using uuid by (force simp: minted_def dest: injD)
    ultimately show ?thesis by blast
  qed
  have other: "fk_ids F' \<inter> fk_ids (Fs ! j) = {}" if "j < length ts" "j \<noteq> i" for j
    using F'(3) new [OF that(1)] Fs(3) [OF that(1) i that(2)] by blast
  have keep: "covers w' H' (Fs ! j)" if "j < length ts" "j \<noteq> i" for j
  proof (rule covers_others [OF _ m _ H])
    show "covers w H (Fs ! j)" using Fs(2) [OF that(1)] by simp
    have "spent (ts ! i) \<subseteq> fk_ids (Fs ! i)" using safe_spent Fs(2) [OF i] by blast
    then show "spent (ts ! i) \<inter> fk_ids (Fs ! j) = {}"
      using Fs(3) [OF that(1) i that(2)] by blast
  qed
  show ?thesis
    unfolding threads_inv_def
  proof (intro exI [of _ "Fs[i := F']"] conjI allI impI)
    show "length (Fs[i := F']) = length (ts[i := p'])" using Fs(1) by simp
  next
    fix j assume "j < length (ts[i := p'])"
    then show "safe (ts[i := p'] ! j) (Fs[i := F'] ! j)" "covers w' H' (Fs[i := F'] ! j)"
      using F' Fs(1,2) keep i by (auto simp: nth_list_update)
  next
    fix j k assume "j < length (ts[i := p'])" "k < length (ts[i := p'])" "j \<noteq> k"
    then show "fk_ids (Fs[i := F'] ! j) \<inter> fk_ids (Fs[i := F'] ! k) = {}"
      using Fs(1,3) other i by (auto simp: nth_list_update Int_commute)
  qed
qed

lemma threads_add:
  assumes "threads_inv w H ts" "\<And>F. safe p F"
  shows "threads_inv w H (ts @ [p])"
proof -
  from assms(1) obtain Fs where "length Fs = length ts"
    "\<forall>i < length ts. safe (ts ! i) (Fs ! i) \<and> covers w H (Fs ! i)"
    "\<forall>i < length ts. \<forall>j < length ts. i \<noteq> j \<longrightarrow> fk_ids (Fs ! i) \<inter> fk_ids (Fs ! j) = {}"
    by (auto simp: threads_inv_def)
  moreover have "covers w H no_facts" "fk_ids no_facts = {}"
    by (simp_all add: covers_def no_facts_def)
  ultimately show ?thesis
    unfolding threads_inv_def
    by (intro exI [of _ "Fs @ [no_facts]"]) (auto simp: nth_append less_Suc_eq assms(2))
qed

lemma config_call:
  assumes c: "config_inv (w, H, ts)" and i: "i < length ts" and st: "step P (ts ! i) w = (p, w')"
    and p': "p' = p \<or> p' = fault e (ts ! i)"
  shows "config_inv (w', H \<union> readable P w', ts[i := p'])"
proof -
  from c have w: "world_inv w" "backed w H" and L: "live_holds w \<subseteq> H" and T: "threads_inv w H ts"
    by (simp_all add: config_inv_def)
  from T i obtain F where "covers w H F" "safe (ts ! i) F"
    unfolding threads_inv_def by blast
  from step_moves [OF w this st] have m: "moves H (spent (ts ! i)) w w'" .
  then have w': "world_inv w'" "backed w' H" by (simp_all add: moves_def)
  have "threads_inv w' (H \<union> readable P w') (ts[i := p'])"
  proof (rule threads_update [OF T i m])
    fix F assume F: "safe (ts ! i) F" "covers w H F"
    have H': "covers w' (H \<union> readable P w') F'" if "covers w' H F'" for F'
      using that by (auto simp: covers_def)
    show "\<exists>F'. safe p' F' \<and> covers w' (H \<union> readable P w') F' \<and>
        fk_ids F' \<subseteq> (fk_ids F - spent (ts ! i)) \<union> w_uuid w ` {w_next w..<w_next w'}"
    proof (cases "p' = p")
      case True
      with step_safe [OF w(1) L F(2,1) st m] H' show ?thesis by blast
    next
      case False
      with p' have "p' = fault e (ts ! i)" by simp
      moreover have "covers w' H (spend_ids (spent (ts ! i)) F)"
        using F(2) m by (force simp: covers_def moves_def spend_ids_def minted_def)
      ultimately show ?thesis
        using safe_fault [OF F(1)] H'
        by (intro exI [of _ "spend_ids (spent (ts ! i)) F"]) (auto simp: spend_ids_def)
    qed
  qed (use w in \<open>simp_all add: world_inv_def\<close>)
  with w' readable_live [OF w'(1)] show ?thesis
    using backed_mono by (auto simp: config_inv_def)
qed

lemma config_tick:
  assumes c: "config_inv (w, H, ts)" and d: "0 \<le> d"
  shows "config_inv (w\<lparr>w_now := w_now w + d\<rparr>, H, ts)"
proof -
  from c have h: "hinv (w_now w) (w_holds w)" by (simp add: config_inv_def world_inv_def)
  have "world_inv (w\<lparr>w_now := w_now w + d\<rparr>)"
    using c hs.invar_later [OF h, of "w_now w + d"] d by (simp add: config_inv_def world_inv_def minted_def)
  moreover have "live_holds (w\<lparr>w_now := w_now w + d\<rparr>) \<subseteq> live_holds w"
    using hs.live_later [OF h, of "w_now w + d"] d by (auto simp: live_holds_def)
  ultimately show ?thesis
    using c by (auto simp: config_inv_def backed_def paid_sessions_def threads_inv_def covers_def minted_def)
qed

lemma config_refuse:
  assumes c: "config_inv (w, H, ts)" and i: "i < length ts"
  shows "config_inv (w, H, ts[i := fault e (ts ! i)])"
proof -
  from c have w: "world_inv w" "backed w H" and T: "threads_inv w H ts"
    by (simp_all add: config_inv_def)
  have m: "moves H (spent (ts ! i)) w w"
    using w by (auto simp: moves_def)
  have "threads_inv w H (ts[i := fault e (ts ! i)])"
  proof (rule threads_update [OF T i m])
    fix F assume F: "safe (ts ! i) F" "covers w H F"
    then show "\<exists>F'. safe (fault e (ts ! i)) F' \<and> covers w H F' \<and>
        fk_ids F' \<subseteq> (fk_ids F - spent (ts ! i)) \<union> w_uuid w ` {w_next w..<w_next w}"
      using safe_fault [OF F(1)]
      by (intro exI [of _ "spend_ids (spent (ts ! i)) F"]) (auto simp: spend_ids_def covers_def)
  qed (use w in \<open>simp_all add: world_inv_def\<close>)
  with c show ?thesis by (simp add: config_inv_def)
qed

lemma config_step: "server_step ttl P c c' \<Longrightarrow> config_inv c \<Longrightarrow> config_inv c'"
proof (induction rule: server_step.induct)
  case (arrive req w H ts)
  then show ?case by (auto simp: config_inv_def intro!: threads_add safe_serve)
next
  case (call i ts w p w' H)
  then show ?case by (auto intro: config_call)
next
  case (refuse i ts w H m)
  then show ?case by (auto intro: config_refuse)
next
  case (lose_reply i ts w p w' H m)
  then show ?case by (auto intro: config_call)
next
  case (tick d w H ts)
  then show ?case by (auto intro: config_tick)
qed

lemma config_run: "server_run ttl P c c' \<Longrightarrow> config_inv c \<Longrightarrow> config_inv c'"
  unfolding server_run_def by (induction rule: rtranclp_induct) (auto intro: config_step)

text \<open>The server starts with no request in flight and no booking.\<close>

lemma config_start:
  "world_inv w \<Longrightarrow> brows (w_bookings w) = {} \<Longrightarrow> config_inv (w, live_holds w, [])"
  by (simp add: config_inv_def backed_def threads_inv_def)

text \<open>The two claims every reachable configuration satisfies.\<close>

lemma run_no_double_sale:
  assumes "server_run ttl P (w, live_holds w, []) (w', H, ts)" "world_inv w" "brows (w_bookings w) = {}"
  shows "arbiter (brows (w_bookings w'))"
  using config_run [OF assms(1) config_start [OF assms(2,3)]] bs.rows_arbiter
  by (simp add: config_inv_def world_inv_def)

lemma run_backed:
  assumes "server_run ttl P (w, live_holds w, []) (w', H, ts)" "world_inv w" "brows (w_bookings w) = {}"
    and "b \<in> brows (w_bookings w')"
  shows "paid (prows (w_payments w')) (b_SessionID b)" "\<exists>h \<in> H. sale_of h b"
  using config_run [OF assms(1) config_start [OF assms(2,3)]] assms(4)
  by (auto simp: config_inv_def backed_def paid_sessions_def)

text \<open>Along every run a payment keeps its charge and moves only along the domain's edges.\<close>

definition later_payment :: "payment \<Rightarrow> payment \<Rightarrow> bool" where
  "later_payment p q \<longleftrightarrow> same_charge q p \<and> can_transition_to\<^sup>*\<^sup>* (p_Status p) (p_Status q)"

lemma later_payment_refl [simp]: "later_payment p p"
  by (simp add: later_payment_def)

lemma later_payment_trans: "later_payment p q \<Longrightarrow> later_payment q r \<Longrightarrow> later_payment p r"
  by (auto simp: later_payment_def same_charge_def)

lemma later_payment_edge:
  "same_charge q p \<Longrightarrow> p_Status q = p_Status p \<or> can_transition_to (p_Status p) (p_Status q) \<Longrightarrow> later_payment p q"
  by (auto simp: later_payment_def)

lemma call_payment:
  assumes w: "world_inv w" and c: "step P p w = (p', w')" and row: "prows (w_payments w) i = Some x"
  shows "\<exists>y. prows (w_payments w') i = Some y \<and> later_payment x y"
proof -
  have i: "pinv (w_payments w)" using w by (simp add: world_inv_def)
  show ?thesis
  proof (cases p)
    case (PaymentsInsertIntent q k)
    obtain r s where rs: "st_insert S (w_uuid w (w_next w)) (w_now w) q (w_payments w) = (r, s)" by force
    from ps.insert_keeps_rows [OF i rs row] rs c PaymentsInsertIntent show ?thesis
      by (auto simp: world_ports_fields)
  next
    case (PaymentsCapture j k)
    obtain r s where rs: "st_capture S (w_now w) j (w_payments w) = (r, s)" by force
    from ps.capture_edge [OF i rs row] obtain y where "prows s i = Some y" "later_payment x y"
      using later_payment_edge by metis
    with rs c PaymentsCapture show ?thesis by (auto simp: world_ports_fields)
  next
    case (PaymentsMarkFailed j k)
    obtain r s where rs: "st_fail S (w_now w) j (w_payments w) = (r, s)" by force
    from ps.fail_edge [OF i rs row] obtain y where "prows s i = Some y" "later_payment x y"
      using later_payment_edge by metis
    with rs c PaymentsMarkFailed show ?thesis by (auto simp: world_ports_fields)
  qed (use c row in \<open>auto simp: world_ports_fields split: prod.splits\<close>)
qed

lemma step_payment:
  "server_step ttl P c c' \<Longrightarrow> world_inv (fst c) \<Longrightarrow> prows (w_payments (fst c)) i = Some x \<Longrightarrow>
     \<exists>y. prows (w_payments (fst c')) i = Some y \<and> later_payment x y"
  by (induction rule: server_step.induct) (auto intro: call_payment)

lemma run_payment:
  assumes "server_run ttl P c c'" "config_inv c" "prows (w_payments (fst c)) i = Some x"
  shows "\<exists>y. prows (w_payments (fst c')) i = Some y \<and> later_payment x y"
  using assms unfolding server_run_def
proof (induction rule: rtranclp_induct)
  case base
  then show ?case by auto
next
  case (step d e)
  then obtain y where y: "prows (w_payments (fst d)) i = Some y" "later_payment x y" by blast
  have "config_inv d"
    using config_run step by (simp add: server_run_def)
  then have "world_inv (fst d)" by (auto simp: config_inv_def)
  from step_payment [OF step(2) this y(1)] y(2) later_payment_trans show ?case by blast
qed

end

end
