(* ===== verification/ServerBehaviour.thy ===== *)
theory ServerBehaviour
  imports ServerSafety
begin

text \<open>
  What one request does when nothing interferes, over the store contracts: the outcome of
  every use case and the state it leaves, on every branch.
\<close>

lemmas booking_use_cases = booking_hold_def booking_confirm_def recover_conflict_def cleanup_hold_def
  booking_release_def booking_seat_map_def

lemmas payment_use_cases = payment_create_intent_def payment_confirm_by_client_def
  payment_handle_webhook_def apply_captured_def hold_gate_def

context server
begin

section \<open>Reading through the contracts\<close>

lemma port_get:
  "world_inv w \<Longrightarrow> holds_get_p P sid w =
     (case hlive (w_now w) (w_holds w) sid of None \<Rightarrow> Inl ErrHoldNotFound | Some h \<Rightarrow> Inr h)"
  using hs.get_live [of "w_now w" "w_holds w" sid] by (simp add: world_inv_def world_ports_fields)

lemma port_now: "now_p P w = w_now w"
  by (simp add: world_ports_fields)

lemma port_captured:
  "world_inv w \<Longrightarrow> payments_has_captured_p P sid w = Inr (paid (prows (w_payments w)) sid)"
  using ps.has_captured [of "w_payments w" sid] by (simp add: world_inv_def world_ports_fields)

lemmas port_reads = port_get port_now port_captured

section \<open>Confirm\<close>

text \<open>The row that confirm hands to the booking store.\<close>

definition row_of :: "hold \<Rightarrow> booking" where
  "row_of h = \<lparr>b_ID = [], b_SessionID = h_SessionID h, b_ScreeningID = h_ScreeningID h, b_Seat = h_Seat h,
     b_UserID = h_UserID h, b_Status = StatusConfirmed, b_ConfirmedAt = zero_time\<rparr>"

definition sale_free :: "('h, 'b, 'p) world \<Rightarrow> hold \<Rightarrow> bool" where
  "sale_free w h \<longleftrightarrow> \<not> session_taken (brows (w_bookings w)) (h_SessionID h) \<and>
     \<not> seat_taken (brows (w_bookings w)) (h_ScreeningID h) (h_Seat h)"

lemma row_of_simps [simp]:
  "b_SessionID (row_of h) = h_SessionID h" "b_ScreeningID (row_of h) = h_ScreeningID h"
  "b_Seat (row_of h) = h_Seat h" "b_UserID (row_of h) = h_UserID h"
  by (simp_all add: row_of_def)

lemma confirm_no_hold:
  assumes "world_inv w" "hlive (w_now w) (w_holds w) sid = None"
  shows "run P (booking_confirm uid sid) w = (Inl ErrHoldNotFound, w)"
  using assms by (simp add: booking_confirm_def port_reads)

lemma confirm_foreign:
  assumes "world_inv w" "hlive (w_now w) (w_holds w) sid = Some h" "h_UserID h \<noteq> uid"
  shows "run P (booking_confirm uid sid) w = (Inl ErrNotHoldOwner, w)"
  using assms by (simp add: booking_confirm_def port_reads)

lemma confirm_expired:
  assumes "world_inv w" "hlive (w_now w) (w_holds w) sid = Some h" "h_UserID h = uid" "\<not> w_now w < h_ExpiresAt h"
  shows "run P (booking_confirm uid sid) w = (Inl ErrHoldExpired, w)"
  using assms by (simp add: booking_confirm_def port_reads can_be_confirmed_iff)

lemma confirm_unpaid:
  assumes "world_inv w" "hlive (w_now w) (w_holds w) sid = Some h" "h_UserID h = uid" "w_now w < h_ExpiresAt h"
    "\<not> paid (prows (w_payments w)) sid"
  shows "run P (booking_confirm uid sid) w = (Inl ErrPaymentNotCaptured, w)"
  using assms by (simp add: booking_confirm_def port_reads can_be_confirmed_iff)

text \<open>Past the gates, the booking store decides.\<close>

lemma confirm_store:
  assumes w: "world_inv w" and h: "hlive (w_now w) (w_holds w) sid = Some h" "h_UserID h = uid" "w_now w < h_ExpiresAt h"
    and p: "paid (prows (w_payments w)) sid"
  shows "run P (booking_confirm uid sid) w = run P (BookingsConfirm (row_of h) (\<lambda>r. case r of
         Inr created \<Rightarrow> cleanup_hold sid uid (Ret (Inr \<lparr>cr_Booking = created, cr_Created = True\<rparr>))
       | Inl err \<Rightarrow>
           if errors_is err ErrSeatAlreadyBooked \<or> errors_is err ErrSessionAlreadyConfirmed
           then recover_conflict err uid sid
           else Ret (Inl err))) w"
  using assms
  by (simp add: booking_confirm_def port_reads can_be_confirmed_iff row_of_def
      del: run.simps(8) cong: sum.case_cong)

text \<open>The first confirm: a new row, the hold given up, the money left alone.\<close>

lemma confirm_creates:
  assumes w: "world_inv w" and h: "hlive (w_now w) (w_holds w) sid = Some h" "h_UserID h = uid" "w_now w < h_ExpiresAt h"
    and p: "paid (prows (w_payments w)) sid"
    and b: "bbookable (w_bookings w) (row_of h)" and free: "sale_free w h"
    and new: "bfresh (w_bookings w) (w_uuid w (w_next w))"
  obtains b w' where
    "run P (booking_confirm uid sid) w = (Inr \<lparr>cr_Booking = b, cr_Created = True\<rparr>, w')"
    "booking_of h b" "b_Status b = StatusConfirmed" "brows (w_bookings w') = insert b (brows (w_bookings w))"
    "hlive (w_now w') (w_holds w') sid = None" "w_payments w' = w_payments w" "world_inv w'"
proof -
  have i: "binv (w_bookings w)" "hinv (w_now w) (w_holds w)" using w by (simp_all add: world_inv_def)
  obtain b s where bs: "st_confirm S (w_uuid w (w_next w)) (w_now w) (row_of h) (w_bookings w) = (Inr b, s)"
    using bs.confirm_free [OF i(1) b new, of "w_now w"] free by (auto simp: sale_free_def)
  note k = bs.bookable_keyable [OF b]
  note row = bs.confirm_row [OF i(1) k bs] bs.bookable_spell [OF b]
  obtain s' where rel: "st_release S (w_now w) sid uid (w_holds w) = (Inr (), s')"
    and gone: "\<And>sid'. hlive (w_now w) s' sid' = (if sid' = sid then None else hlive (w_now w) (w_holds w) sid')"
    using hs.release_owner [OF i(2) h(1,2)] by auto
  let ?w = "w\<lparr>w_bookings := s, w_next := Suc (w_next w), w_holds := s'\<rparr>"
  have "run P (booking_confirm uid sid) w = (Inr \<lparr>cr_Booking = b, cr_Created = True\<rparr>, ?w)"
    using bs rel by (simp add: confirm_store [OF w h p] cleanup_hold_def world_ports_fields)
  moreover have "world_inv ?w"
    using w bs.confirm_invar [OF i(1) k bs] hs.invar_release [OF i(2) rel] hs.used_release [OF i(2) rel]
    by (auto simp: world_inv_def minted_def)
  moreover have "booking_of h b"
    using row by (simp add: booking_of_def same_booking_seat_def)
  ultimately show thesis
    using that row gone by simp
qed

text \<open>A replay while the hold is still there returns the row of the first confirm.\<close>

lemma confirm_replays:
  assumes w: "world_inv w" and h: "hlive (w_now w) (w_holds w) sid = Some h" "h_UserID h = uid" "w_now w < h_ExpiresAt h"
    and p: "paid (prows (w_payments w)) sid"
    and bk: "bbookable (w_bookings w) (row_of h)"
    and b: "b \<in> brows (w_bookings w)" "b_SessionID b = sid" "b_UserID b = uid" "b_Status b = StatusConfirmed"
  shows "fst (run P (booking_confirm uid sid) w) = Inr \<lparr>cr_Booking = b, cr_Created = False\<rparr>"
    and "brows (w_bookings (snd (run P (booking_confirm uid sid) w))) = brows (w_bookings w)"
proof -
  have i: "binv (w_bookings w)" "hinv (w_now w) (w_holds w)" using w by (simp_all add: world_inv_def)
  have sid: "h_SessionID h = sid" using hs.live_session [OF i(2) h(1)] by simp
  obtain r s where rs: "st_confirm S (w_uuid w (w_next w)) (w_now w) (row_of h) (w_bookings w) = (r, s)" by force
  have "session_taken (brows (w_bookings w)) (b_SessionID (row_of h))"
    using b sid by (auto simp: session_taken_def)
  with bs.confirm_session [OF i(1) bk, of "w_uuid w (w_next w)" "w_now w"]
    bs.confirm_both [OF i(1) bk, of "w_uuid w (w_next w)" "w_now w"] rs
  obtain e where r: "r = Inl e" and e: "e = ErrSeatAlreadyBooked \<or> e = ErrSessionAlreadyConfirmed"
    by fastforce
  have rows: "brows s = brows (w_bookings w)" using bs.confirm_err [OF i(1)] rs r by auto
  have "binv s" using bs.confirm_invar [OF i(1) bs.bookable_keyable [OF bk] rs] .
  with bs.by_session_found [of s b] rows b have "st_by_session S sid s = Inr b" by simp
  then have "run P (booking_confirm uid sid) w = (Inr \<lparr>cr_Booking = b, cr_Created = False\<rparr>,
      w\<lparr>w_bookings := s, w_next := Suc (w_next w)\<rparr>)"
    using e rs [unfolded r] b(3,4)
    by (elim disjE) (simp_all add: confirm_store [OF w h p] recover_conflict_def world_ports_fields)
  with rows
  show "fst (run P (booking_confirm uid sid) w) = Inr \<lparr>cr_Booking = b, cr_Created = False\<rparr>"
    "brows (w_bookings (snd (run P (booking_confirm uid sid) w))) = brows (w_bookings w)"
    by simp_all
qed

text \<open>Somebody else's sale: the seat conflict, and nothing sold.\<close>

lemma confirm_loses:
  assumes w: "world_inv w" and h: "hlive (w_now w) (w_holds w) sid = Some h" "h_UserID h = uid" "w_now w < h_ExpiresAt h"
    and p: "paid (prows (w_payments w)) sid"
    and bk: "bbookable (w_bookings w) (row_of h)"
    and t: "\<not> session_taken (brows (w_bookings w)) sid" "seat_taken (brows (w_bookings w)) (h_ScreeningID h) (h_Seat h)"
  shows "fst (run P (booking_confirm uid sid) w) = Inl ErrSeatAlreadyBooked"
    and "brows (w_bookings (snd (run P (booking_confirm uid sid) w))) = brows (w_bookings w)"
proof -
  have i: "binv (w_bookings w)" "hinv (w_now w) (w_holds w)" using w by (simp_all add: world_inv_def)
  have sid: "h_SessionID h = sid" using hs.live_session [OF i(2) h(1)] by simp
  obtain r s where rs: "st_confirm S (w_uuid w (w_next w)) (w_now w) (row_of h) (w_bookings w) = (r, s)" by force
  with bs.confirm_seat [OF i(1) bk, of "w_uuid w (w_next w)" "w_now w"] t sid
  have r: "r = Inl ErrSeatAlreadyBooked" by simp
  have rows: "brows s = brows (w_bookings w)" using bs.confirm_err [OF i(1)] rs r by auto
  have "binv s" using bs.confirm_invar [OF i(1) bs.bookable_keyable [OF bk] rs] .
  with bs.by_session_unknown [of s sid] rows t have "st_by_session S sid s = Inl ErrBookingNotFound" by simp
  then have "run P (booking_confirm uid sid) w = (Inl ErrSeatAlreadyBooked,
      w\<lparr>w_bookings := s, w_next := Suc (w_next w)\<rparr>)"
    using rs [unfolded r] by (simp add: confirm_store [OF w h p] recover_conflict_def world_ports_fields)
  with rows
  show "fst (run P (booking_confirm uid sid) w) = Inl ErrSeatAlreadyBooked"
    "brows (w_bookings (snd (run P (booking_confirm uid sid) w))) = brows (w_bookings w)"
    by simp_all
qed

text \<open>Confirming again after the hold was given up finds no hold.\<close>

lemma confirm_again:
  assumes "world_inv w" "run P (booking_confirm uid sid) w = (Inr \<lparr>cr_Booking = b, cr_Created = True\<rparr>, w')"
    and "hlive (w_now w') (w_holds w') sid = None" "world_inv w'"
  shows "run P (booking_confirm uid sid) w' = (Inl ErrHoldNotFound, w')"
  using confirm_no_hold assms by blast

section \<open>Hold\<close>

text \<open>A hold that is granted: what it is, what it needed and what it changed.\<close>

lemma hold_granted:
  assumes w: "world_inv w" and ok: "seat_well_formed seat" "int64_range (s_Number seat)"
    and bk: "bbookable (w_bookings w) b" "b_ScreeningID b = scr" "b_Seat b = seat"
    and r: "run P (booking_hold ttl uid scr seat) w = (Inr h, w')"
  shows "\<exists>sc. w_screenings w scr = Inr sc \<and> has_seat sc seat"
    and "\<not> seat_taken (brows (w_bookings w)) scr seat"
    and "h = \<lparr>h_SessionID = w_uuid w (w_next w), h_ScreeningID = scr, h_Seat = seat, h_UserID = uid,
           h_HoldToken = w_uuid w (Suc (w_next w)), h_ExpiresAt = w_now w + ttl\<rparr>"
    and "\<And>sid. hlive (w_now w) (w_holds w') sid =
           (if sid = h_SessionID h then Some (hstored h) else hlive (w_now w) (w_holds w) sid)"
    and "\<And>sid h'. hlive (w_now w) (w_holds w) sid = Some h' \<Longrightarrow> \<not> same_seat h' h"
    and "w_bookings w' = w_bookings w" "w_payments w' = w_payments w" "world_inv w'"
    and "w_now w' = w_now w" "w_screenings w' = w_screenings w" "w_gateway w' = w_gateway w"
      "w_uuid w' = w_uuid w" "w_next w' = w_next w + 2"
proof -
  have i: "binv (w_bookings w)" "hinv (w_now w) (w_holds w)" using w by (simp_all add: world_inv_def)
  have sc: "bookings_seat_confirmed_p P scr seat w = Inr (seat_taken (brows (w_bookings w)) scr seat)"
    using bs.seat_confirmed [OF i(1) bk(1)] bk(2,3) by (simp add: world_ports_fields)
  let ?h = "\<lparr>h_SessionID = w_uuid w (w_next w), h_ScreeningID = scr, h_Seat = seat, h_UserID = uid,
           h_HoldToken = w_uuid w (Suc (w_next w)), h_ExpiresAt = w_now w + ttl\<rparr>"
  let ?w = "w\<lparr>w_next := Suc (Suc (w_next w))\<rparr>"
  show screening: "\<exists>sc. w_screenings w scr = Inr sc \<and> has_seat sc seat"
    using r by (auto simp: booking_hold_def world_ports_fields split: sum.splits if_splits)
  show "\<not> seat_taken (brows (w_bookings w)) scr seat"
    using r sc by (auto simp: booking_hold_def world_ports_fields(11) split: sum.splits if_splits)
  then have red: "run P (booking_hold ttl uid scr seat) w =
      (case hold_validate ?h (w_now w) of
         Inl err \<Rightarrow> (Inl (Errorf ''booking: hold: %w'' [] [err]), ?w)
       | Inr _ \<Rightarrow> run P (HoldsHold ?h (\<lambda>r. case r of Inl err \<Rightarrow> Ret (Inl err) | Inr _ \<Rightarrow> Ret (Inr ?h))) ?w)"
    using screening sc
    by (auto simp: booking_hold_def Let_def world_ports_fields(1,2,11) simp del: run.simps(4) split: sum.split)
  obtain rr s where rs: "st_hold S (w_now w) ?h (w_holds w) = (rr, s)" by force
  from r red have v: "hold_validate ?h (w_now w) = Inr ()"
    by (cases "hold_validate ?h (w_now w)") auto
  with r red rs have "rr = Inr ()" and h: "h = ?h" and w': "w' = ?w\<lparr>w_holds := s\<rparr>"
    by (auto simp: world_ports_fields split: sum.splits)
  then have hold: "st_hold S (w_now w) h (w_holds w) = (Inr (), s)" using rs by simp
  show "h = ?h" by (rule h)
  show "w_bookings w' = w_bookings w" "w_payments w' = w_payments w" "w_now w' = w_now w"
    "w_screenings w' = w_screenings w" "w_gateway w' = w_gateway w" "w_uuid w' = w_uuid w" "w_next w' = w_next w + 2"
    using w' by simp_all
  have new: "w_uuid w (w_next w) \<notin> minted w" "w_uuid w (Suc (w_next w)) \<notin> minted w"
    using w by (auto simp: minted_def world_inv_def dest: injD)
  then have f: "fresh_hold (hused (w_holds w)) h"
    using ok w by (auto simp: fresh_hold_def h world_inv_def)
  have t: "w_now w < h_ExpiresAt h"
    using v by (simp add: hold_validate_ok h)
  note ok' = hs.hold_ok [OF i(2) f t hold]
  show "hlive (w_now w) (w_holds w') sid =
      (if sid = h_SessionID h then Some (hstored h) else hlive (w_now w) (w_holds w) sid)" for sid
    using ok' w' by simp
  show "\<not> same_seat h' h" if "hlive (w_now w) (w_holds w) sid = Some h'" for sid h'
    using ok' that by blast
  have "hused s \<subseteq> insert (w_uuid w (w_next w)) (insert (w_uuid w (Suc (w_next w))) (minted w))"
    using hs.used_hold [OF i(2) f hold] w by (auto simp: h world_inv_def)
  also have "\<dots> = minted w'"
    by (auto simp: minted_def w' lessThan_Suc)
  finally show "world_inv w'"
    using w hs.invar_hold [OF i(2) f hold] by (auto simp: world_inv_def w')
qed

section \<open>Seat map\<close>

text \<open>One entry per seat of the grid, in grid order: sold over held over free.\<close>

lemma seat_map_content:
  assumes w: "world_inv w" and sc: "w_screenings w scr = Inr sc"
    and b: "bbookable (w_bookings w) r" "b_ScreeningID r = scr" "st_confirmed_seats S scr (w_bookings w) = Inr booked"
    and l: "set (st_held S (w_now w) scr (w_holds w)) =
        {h_Seat h | sid h. hlive (w_now w) (w_holds w) sid = Some h \<and> h_ScreeningID h = scr}"
  shows "run P (booking_seat_map scr) w = (Inr \<lparr>sm_Screening = sc,
     sm_Seats = map (\<lambda>seat. \<lparr>ss_Seat = seat, ss_Status =
       (if seat_taken (brows (w_bookings w)) scr seat then SeatStatusBooked
        else if \<exists>sid h. hlive (w_now w) (w_holds w) sid = Some h \<and> h_ScreeningID h = scr \<and> h_Seat h = seat
        then SeatStatusHeld else SeatStatusAvailable)\<rparr>) (all_seats sc)\<rparr>, w)"
proof -
  have i: "binv (w_bookings w)" "hinv (w_now w) (w_holds w)" using w by (simp_all add: world_inv_def)
  have held: "seat \<in> set (st_held S (w_now w) scr (w_holds w)) \<longleftrightarrow>
      (\<exists>sid h. hlive (w_now w) (w_holds w) sid = Some h \<and> h_ScreeningID h = scr \<and> h_Seat h = seat)" for seat
    unfolding l by auto
  show ?thesis
    using sc b(3) bs.confirmed_seats [OF i(1) b(1), unfolded b(2), OF b(3)] held
    by (simp add: booking_seat_map_def world_ports_fields seat_status_of_def)
qed

section \<open>Payments\<close>

lemma port_active:
  "world_inv w \<Longrightarrow> active_row (prows (w_payments w)) sid p \<Longrightarrow> payments_get_active_p P sid w = Inr p"
  "world_inv w \<Longrightarrow> \<forall>p. \<not> active_row (prows (w_payments w)) sid p \<Longrightarrow>
     payments_get_active_p P sid w = Inl ErrPaymentNotFound"
  using ps.get_active_found [of "w_payments w"] ps.get_active_none [of "w_payments w"]
  by (simp_all add: world_inv_def world_ports_fields)

lemma port_intent:
  "world_inv w \<Longrightarrow> payments_get_by_intent_p P i w =
     (case prows (w_payments w) i of None \<Rightarrow> Inl ErrPaymentNotFound | Some p \<Rightarrow> Inr p)"
  using ps.get_intent [of "w_payments w" i] by (simp add: world_inv_def world_ports_fields)

definition gate_open :: "('h, 'b, 'p) world \<Rightarrow> string \<Rightarrow> string \<Rightarrow> hold \<Rightarrow> bool" where
  "gate_open w uid sid h \<longleftrightarrow> hlive (w_now w) (w_holds w) sid = Some h \<and> h_UserID h = uid \<and> w_now w < h_ExpiresAt h"

lemma hold_gate_open:
  "world_inv w \<Longrightarrow> gate_open w uid sid h \<Longrightarrow> run P (hold_gate uid sid k) w = run P (k (Inr h)) w"
  by (simp add: hold_gate_def gate_open_def port_reads can_be_confirmed_iff)

text \<open>A repeated intent request returns the intent the session has, and changes nothing.\<close>

lemma intent_reused:
  assumes "world_inv w" "gate_open w uid sid h" "active_row (prows (w_payments w)) sid p"
  shows "run P (payment_create_intent uid sid) w =
     (Inr \<lparr>in_Payment = p, in_HoldExpiresAt = h_ExpiresAt h, in_Created = False\<rparr>, w)"
  using assms by (simp add: payment_create_intent_def hold_gate_open port_active)

text \<open>A new intent freezes the price of the screening.\<close>

lemma intent_created:
  assumes w: "world_inv w" and g: "gate_open w uid sid h" and none: "\<forall>p. \<not> active_row (prows (w_payments w)) sid p"
    and r: "run P (payment_create_intent uid sid) w = (Inr res, w')"
    and ins: "\<And>p. p_IntentID p = fakeIntentPrefix @ w_uuid w (w_next w) \<Longrightarrow>
      pinsertable (w_payments w) p \<and> prows (w_payments w) (p_IntentID p) = None"
  shows "\<exists>sc. w_screenings w (h_ScreeningID h) = Inr sc \<and> 0 < sc_PriceCents sc \<and>
     in_Created res \<and> in_HoldExpiresAt res = h_ExpiresAt h \<and>
     p_AmountCents (in_Payment res) = sc_PriceCents sc \<and> p_Status (in_Payment res) = StatusIntent \<and>
     p_BookingSessionID (in_Payment res) = sid \<and>
     prows (w_payments w') = (prows (w_payments w))(fakeIntentPrefix @ w_uuid w (w_next w) \<mapsto> in_Payment res)"
proof -
  have i: "pinv (w_payments w)" using w by (simp add: world_inv_def)
  obtain sc where sc: "w_screenings w (h_ScreeningID h) = Inr sc"
    using r w g none
    by (cases "w_screenings w (h_ScreeningID h)")
       (auto simp: payment_create_intent_def hold_gate_open port_active world_ports_fields(11))
  have ok: "fg_failCreate (w_gateway w) = None \<and> 0 < sc_PriceCents sc"
    using r w g none sc
    by (auto simp: payment_create_intent_def hold_gate_open port_active world_ports_fields(11,19)
        fg_create_intent_def take_fail_create_def split: option.splits if_splits)
  let ?i = "fakeIntentPrefix @ w_uuid w (w_next w)"
  let ?p = "new_intent_row sid fg_provider ?i (sc_PriceCents sc)"
  let ?w = "w\<lparr>w_gateway := w_gateway w\<lparr>fg_failCreate := None\<rparr>, w_next := Suc (w_next w)\<rparr>"
  have p: "p_IntentID ?p = ?i" "p_BookingSessionID ?p = sid" "p_AmountCents ?p = sc_PriceCents sc"
    by (simp_all add: new_intent_row_def)
  obtain row s where ins': "st_insert S (w_uuid w (Suc (w_next w))) (w_now w) ?p (w_payments w) = (Inr row, s)"
    "prows s = (prows (w_payments w))(?i \<mapsto> row)" "p_Status row = StatusIntent"
    "p_BookingSessionID row = sid" "p_AmountCents row = sc_PriceCents sc"
    using ps.insert_free [OF i, of ?p "w_uuid w (Suc (w_next w))" "w_now w"] ins [OF p(1)] none
    by (auto simp: p)
  have "run P (payment_create_intent uid sid) w =
      (Inr \<lparr>in_Payment = row, in_HoldExpiresAt = h_ExpiresAt h, in_Created = True\<rparr>,
       ?w\<lparr>w_payments := s, w_next := Suc (Suc (w_next w))\<rparr>)"
    using w g none sc ok ins'(1)
    by (simp add: payment_create_intent_def hold_gate_open port_active world_ports_fields(11,13,18,19)
        fg_create_intent_def take_fail_create_def)
  with r sc ok ins' show ?thesis by auto
qed

text \<open>A successful client capture leaves the session paid, for the amount of its intent.\<close>

lemma pay_captures:
  assumes w: "world_inv w" and g: "gate_open w uid sid h"
    and r: "run P (payment_confirm_by_client uid sid) w = (Inr p, w')"
  shows "p_Status p = StatusCaptured" "paid (prows (w_payments w')) sid"
    "\<exists>q. active_row (prows (w_payments w)) sid q \<and> same_charge p q"
proof -
  have i: "pinv (w_payments w)" using w by (simp add: world_inv_def)
  obtain q where q: "active_row (prows (w_payments w)) sid q"
    using r w g by (cases "\<exists>q. active_row (prows (w_payments w)) sid q")
      (auto simp: payment_confirm_by_client_def hold_gate_open port_active)
  then obtain j where j: "prows (w_payments w) j = Some q" "p_BookingSessionID q = sid"
    by (auto simp: active_row_def)
  with ps.rows_ok [OF i] have ji: "p_IntentID q = j" by (auto simp: payments_ok_def)
  have "p_Status p = StatusCaptured \<and> paid (prows (w_payments w')) sid \<and> same_charge p q"
  proof (cases "is_captured q")
    case True
    with r w g q j show ?thesis
      by (auto simp: payment_confirm_by_client_def hold_gate_open port_active is_captured_def paid_def)
  next
    case False
    have o: "open_status (p_Status q)"
      using r w g q False
      by (auto simp: payment_confirm_by_client_def hold_gate_open port_active open_status_def split: if_splits)
    then have st: "p_Status q = StatusIntent \<or> p_Status q = StatusAuthorized" by (simp add: open_status_def)
    have cap: "fg_failCapture (w_gateway w) = None"
      using r w g q False st
      by (auto simp: payment_confirm_by_client_def hold_gate_open port_active world_ports_fields(17,20)
          fg_capture_intent_def take_fail_capture_def split: option.splits prod.splits)
    obtain row s where c: "st_capture S (w_now w) j (w_payments w) = (Inr (row, True), s)"
      "prows s = (prows (w_payments w))(j \<mapsto> row)" "same_charge row q" "p_Status row = StatusCaptured"
      using ps.capture_open [OF i j(1) o, of "w_now w"] by auto
    then have "p = row \<and> w_payments w' = s"
      using r w g q False st cap ji
      by (auto simp: payment_confirm_by_client_def hold_gate_open port_active world_ports_fields(16,20)
          fg_capture_intent_def take_fail_capture_def)
    with c j show ?thesis by (auto simp: paid_def same_charge_def)
  qed
  with q show "p_Status p = StatusCaptured" "paid (prows (w_payments w')) sid"
    "\<exists>q. active_row (prows (w_payments w)) sid q \<and> same_charge p q" by auto
qed

section \<open>Webhooks\<close>

lemma port_verify: "gateway_verify_webhook_p P body sig w = fg_verify_webhook (w_now w) body sig (w_gateway w)"
  by (simp add: world_ports_fields)

lemma webhook_rejected:
  assumes "fg_verify_webhook (w_now w) body sig (w_gateway w) = Inl e"
  shows "run P (payment_handle_webhook body sig) w = (Inl e, w)"
  using assms by (simp add: payment_handle_webhook_def port_verify)

lemma webhook_unknown:
  assumes "world_inv w" "fg_verify_webhook (w_now w) body sig (w_gateway w) = Inr ev"
    "prows (w_payments w) (ev_IntentID ev) = None"
  shows "run P (payment_handle_webhook body sig) w =
     (Inr \<lparr>wo_IntentID = ev_IntentID ev, wo_Applied = False\<rparr>, w)"
  using assms by (simp add: payment_handle_webhook_def port_verify port_intent)

lemma webhook_other_kind:
  assumes "world_inv w" "fg_verify_webhook (w_now w) body sig (w_gateway w) = Inr ev"
    "prows (w_payments w) (ev_IntentID ev) = Some p" "ev_Kind ev \<noteq> EventCaptured" "ev_Kind ev \<noteq> EventFailed"
  shows "run P (payment_handle_webhook body sig) w =
     (Inr \<lparr>wo_IntentID = ev_IntentID ev, wo_Applied = False\<rparr>, w)"
  using assms by (simp add: payment_handle_webhook_def port_verify port_intent)

lemma row_key: "world_inv w \<Longrightarrow> prows (w_payments w) i = Some p \<Longrightarrow> p_IntentID p = i"
  using ps.rows_ok [of "w_payments w"] by (auto simp: world_inv_def payments_ok_def)

text \<open>A capture event with the frozen amount: applied once, inert afterwards, never over a closed row.\<close>

lemma webhook_captured:
  assumes w: "world_inv w" and v: "fg_verify_webhook (w_now w) body sig (w_gateway w) = Inr ev"
    and p: "prows (w_payments w) (ev_IntentID ev) = Some p" and k: "ev_Kind ev = EventCaptured"
    and a: "ev_AmountCents ev = p_AmountCents p"
  obtains w' where
    "run P (payment_handle_webhook body sig) w =
       (Inr \<lparr>wo_IntentID = ev_IntentID ev, wo_Applied = open_status (p_Status p)\<rparr>, w')"
    "open_status (p_Status p) \<Longrightarrow> paid (prows (w_payments w')) (p_BookingSessionID p)"
    "\<not> open_status (p_Status p) \<Longrightarrow> w' = w"
proof -
  have i: "pinv (w_payments w)" using w by (simp add: world_inv_def)
  note key = row_key [OF w p]
  show thesis
  proof (cases "open_status (p_Status p)")
    case True
    obtain row s where c: "st_capture S (w_now w) (ev_IntentID ev) (w_payments w) = (Inr (row, True), s)"
      "prows s = (prows (w_payments w))(ev_IntentID ev \<mapsto> row)" "same_charge row p" "p_Status row = StatusCaptured"
      using ps.capture_open [OF i p True, of "w_now w"] by auto
    have "run P (payment_handle_webhook body sig) w =
       (Inr \<lparr>wo_IntentID = ev_IntentID ev, wo_Applied = True\<rparr>, w\<lparr>w_payments := s\<rparr>)"
      using w v p k a c(1) key
      by (simp add: payment_handle_webhook_def port_verify port_intent apply_captured_def world_ports_fields(16))
    moreover have "paid (prows s) (p_BookingSessionID p)"
      using paid_upd_captured [OF c(4), of "prows (w_payments w)"] c(2,3) by (simp add: same_charge_def)
    ultimately show thesis using True that [of "w\<lparr>w_payments := s\<rparr>"] by simp
  next
    case False
    show thesis
    proof (cases "p_Status p = StatusCaptured")
      case True
      with ps.capture_replay [OF i p] False w v k a key p that show thesis
        by (simp add: payment_handle_webhook_def port_verify port_intent apply_captured_def world_ports_fields(16))
    next
      case other: False
      obtain e where "st_capture S (w_now w) (ev_IntentID ev) (w_payments w) = (Inl e, w_payments w)"
        "errors_is e ErrPaymentInvalidTransition"
        using ps.capture_closed [OF i p False other] by blast
      with False w v k a key p that show thesis
        by (simp add: payment_handle_webhook_def port_verify port_intent apply_captured_def world_ports_fields(16))
    qed
  qed
qed

text \<open>A capture event with another amount fails an open row and never marks it captured.\<close>

lemma webhook_mismatch:
  assumes w: "world_inv w" and v: "fg_verify_webhook (w_now w) body sig (w_gateway w) = Inr ev"
    and p: "prows (w_payments w) (ev_IntentID ev) = Some p" and k: "ev_Kind ev = EventCaptured"
    and a: "ev_AmountCents ev \<noteq> p_AmountCents p"
  obtains w' where
    "run P (payment_handle_webhook body sig) w = (Inr \<lparr>wo_IntentID = ev_IntentID ev, wo_Applied = False\<rparr>, w')"
    "paid (prows (w_payments w')) = paid (prows (w_payments w))"
    "\<exists>q. prows (w_payments w') (ev_IntentID ev) = Some q \<and> same_charge q p \<and>
       p_Status q = (if open_status (p_Status p) then StatusFailed else p_Status p)"
proof -
  have i: "pinv (w_payments w)" using w by (simp add: world_inv_def)
  note key = row_key [OF w p]
  have red: "run P (payment_handle_webhook body sig) w =
      (Inr \<lparr>wo_IntentID = ev_IntentID ev, wo_Applied = False\<rparr>, w\<lparr>w_payments := s\<rparr>)"
    if "st_fail S (w_now w) (ev_IntentID ev) (w_payments w) = (r, s)"
      "\<And>e. r = Inl e \<Longrightarrow> errors_is e ErrPaymentInvalidTransition" for r s
    using w v p k a key that
    by (cases r) (simp_all add: payment_handle_webhook_def port_verify port_intent apply_captured_def
        world_ports_fields(17))
  show thesis
  proof (cases "open_status (p_Status p)")
    case True
    obtain row s where c: "st_fail S (w_now w) (ev_IntentID ev) (w_payments w) = (Inr row, s)"
      "prows s = (prows (w_payments w))(ev_IntentID ev \<mapsto> row)" "same_charge row p" "p_Status row = StatusFailed"
      using ps.fail_open [OF i p True, of "w_now w"] by auto
    have "paid (prows s) = paid (prows (w_payments w))"
      using paid_upd_open [of "prows (w_payments w)", OF p open_not_captured [OF True]] c(2,4) by simp
    with red [OF c(1)] c True that show thesis by simp
  next
    case False
    have "\<exists>r. st_fail S (w_now w) (ev_IntentID ev) (w_payments w) = (r, w_payments w) \<and>
        (\<forall>e. r = Inl e \<longrightarrow> errors_is e ErrPaymentInvalidTransition)"
      using ps.fail_replay [OF i p, of "w_now w"] ps.fail_closed [OF i p False, of "w_now w"]
      by (cases "p_Status p = StatusFailed") auto
    with red False p that show thesis by fastforce
  qed
qed

text \<open>A failure event: applied to an open row, inert over captured money, and reported as
  applied when the row had failed before.\<close>

lemma webhook_failed:
  assumes w: "world_inv w" and v: "fg_verify_webhook (w_now w) body sig (w_gateway w) = Inr ev"
    and p: "prows (w_payments w) (ev_IntentID ev) = Some p" and k: "ev_Kind ev = EventFailed"
  obtains w' where
    "run P (payment_handle_webhook body sig) w =
       (Inr \<lparr>wo_IntentID = ev_IntentID ev,
             wo_Applied = (open_status (p_Status p) \<or> p_Status p = StatusFailed)\<rparr>, w')"
    "\<not> open_status (p_Status p) \<Longrightarrow> w' = w"
    "paid (prows (w_payments w')) = paid (prows (w_payments w))"
proof -
  have i: "pinv (w_payments w)" using w by (simp add: world_inv_def)
  note key = row_key [OF w p]
  have kinds: "EventFailed \<noteq> EventCaptured" by (simp add: EventFailed_def EventCaptured_def)
  note red = payment_handle_webhook_def port_verify port_intent world_ports_fields(17)
  show thesis
  proof (cases "open_status (p_Status p)")
    case True
    obtain row s where c: "st_fail S (w_now w) (ev_IntentID ev) (w_payments w) = (Inr row, s)"
      "prows s = (prows (w_payments w))(ev_IntentID ev \<mapsto> row)" "same_charge row p" "p_Status row = StatusFailed"
      using ps.fail_open [OF i p True, of "w_now w"] by auto
    have "paid (prows s) = paid (prows (w_payments w))"
      using paid_upd_open [of "prows (w_payments w)", OF p open_not_captured [OF True]] c(2,4) by simp
    with w v p k kinds c key True that show thesis by (simp add: red)
  next
    case False
    show thesis
    proof (cases "p_Status p = StatusFailed")
      case True
      with ps.fail_replay [OF i p] w v p k kinds key False that show thesis by (simp add: red)
    next
      case other: False
      obtain e where "st_fail S (w_now w) (ev_IntentID ev) (w_payments w) = (Inl e, w_payments w)"
        "errors_is e ErrPaymentInvalidTransition"
        using ps.fail_closed [OF i p False other] by blast
      with w v p k kinds key False other that show thesis by (simp add: red)
    qed
  qed
qed

end

end
