(* ===== verification/ServerProgress.thy ===== *)
theory ServerProgress
  imports ServerBehaviour
begin

text \<open>
  Progress: a buyer with a live hold of an unsold seat, whose calls succeed and whom nobody
  interrupts, gets from the hold to the booking by asking for an intent, paying and confirming.
\<close>

text \<open>Requests served one after the other.\<close>

fun run_all :: "duration \<Rightarrow> 'w ports \<Rightarrow> request list \<Rightarrow> 'w \<Rightarrow> outcome list \<times> 'w" where
  "run_all ttl P [] w = ([], w)"
| "run_all ttl P (r # rs) w =
     (case run P (serve ttl r) w of (out, w') \<Rightarrow>
      case run_all ttl P rs w' of (outs, w'') \<Rightarrow> (out # outs, w''))"

lemma run_map_prog: "run P (map_prog f p) w = (f (fst (run P p w)), snd (run P p w))"
  by (induction p arbitrary: w) (simp_all split: prod.split)

lemma run_all_reaches:
  "\<forall>r \<in> set rs. request_ok r \<Longrightarrow>
     \<exists>H'. server_run ttl P (w, H, ts) (snd (run_all ttl P rs w), H', ts @ map Ret (fst (run_all ttl P rs w)))"
proof (induction rs arbitrary: w H ts)
  case Nil
  then show ?case by (auto simp: server_run_def)
next
  case (Cons r rs)
  obtain out w' where o: "run P (serve ttl r) w = (out, w')" by force
  have "server_step ttl P (w, H, ts) (w, H, ts @ [serve ttl r])"
    using Cons.prems by (auto intro: server_step.arrive)
  moreover obtain H1 where "server_run ttl P (w, H, ts @ [serve ttl r]) (w', H1, ts @ [Ret out])"
    using alone_run [of ttl P w H ts "serve ttl r"] o by auto
  moreover obtain H2 where
    "server_run ttl P (w', H1, ts @ [Ret out])
       (snd (run_all ttl P rs w'), H2, (ts @ [Ret out]) @ map Ret (fst (run_all ttl P rs w')))"
    using Cons.IH [of w' H1 "ts @ [Ret out]"] Cons.prems by auto
  ultimately have "server_run ttl P (w, H, ts)
      (snd (run_all ttl P rs w'), H2, (ts @ [Ret out]) @ map Ret (fst (run_all ttl P rs w')))"
    unfolding server_run_def by (meson converse_rtranclp_into_rtranclp rtranclp_trans)
  then show ?case using o by (auto split: prod.splits)
qed

text \<open>The hold the next request for a seat makes.\<close>

definition next_hold :: "duration \<Rightarrow> ('h, 'b, 'p) world \<Rightarrow> string \<Rightarrow> string \<Rightarrow> seat \<Rightarrow> hold" where
  "next_hold ttl w uid scr seat = \<lparr>h_SessionID = w_uuid w (w_next w), h_ScreeningID = scr, h_Seat = seat, h_UserID = uid,
     h_HoldToken = w_uuid w (Suc (w_next w)), h_ExpiresAt = w_now w + ttl\<rparr>"

context server
begin

lemma intent_succeeds:
  assumes w: "world_inv w" and g: "gate_open w uid sid h" and none: "\<forall>p. \<not> active_row (prows (w_payments w)) sid p"
    and sc: "w_screenings w (h_ScreeningID h) = Inr sc" "0 < sc_PriceCents sc" "fg_failCreate (w_gateway w) = None"
    and ins: "\<And>p. p_Gateway p = fg_provider \<Longrightarrow> p_IntentID p = fakeIntentPrefix @ w_uuid w (w_next w) \<Longrightarrow>
      p_AmountCents p = sc_PriceCents sc \<Longrightarrow>
      pinsertable (w_payments w) p \<and> prows (w_payments w) (p_IntentID p) = None"
  obtains row s where
    "run P (payment_create_intent uid sid) w =
      (Inr \<lparr>in_Payment = row, in_HoldExpiresAt = h_ExpiresAt h, in_Created = True\<rparr>,
       w\<lparr>w_gateway := w_gateway w\<lparr>fg_failCreate := None\<rparr>, w_next := Suc (Suc (w_next w)), w_payments := s\<rparr>)"
    "pinv s" "active_row (prows s) sid row" "p_Status row = StatusIntent" "p_AmountCents row = sc_PriceCents sc"
proof -
  have i: "pinv (w_payments w)" using w by (simp add: world_inv_def)
  let ?i = "fakeIntentPrefix @ w_uuid w (w_next w)"
  let ?p = "new_intent_row sid fg_provider ?i (sc_PriceCents sc)"
  have p: "p_IntentID ?p = ?i" "p_BookingSessionID ?p = sid" "p_Gateway ?p = fg_provider" "p_AmountCents ?p = sc_PriceCents sc"
    by (simp_all add: new_intent_row_def)
  obtain row s where ins': "st_insert S (w_uuid w (Suc (w_next w))) (w_now w) ?p (w_payments w) = (Inr row, s)"
    "prows s = (prows (w_payments w))(?i \<mapsto> row)" "p_Status row = StatusIntent" "p_BookingSessionID row = sid" "p_AmountCents row = sc_PriceCents sc"
    using ps.insert_free [OF i, of ?p "w_uuid w (Suc (w_next w))" "w_now w"] ins [OF p(3,1,4)] none
    by (auto simp: p)
  have "run P (payment_create_intent uid sid) w =
      (Inr \<lparr>in_Payment = row, in_HoldExpiresAt = h_ExpiresAt h, in_Created = True\<rparr>,
       w\<lparr>w_gateway := w_gateway w\<lparr>fg_failCreate := None\<rparr>, w_next := Suc (Suc (w_next w)), w_payments := s\<rparr>)"
    using w g none sc ins'(1)
    by (simp add: payment_create_intent_def hold_gate_open port_active world_ports_fields(11,13,18,19)
        fg_create_intent_def take_fail_create_def)
  moreover have "active_row (prows s) sid row"
    using ins'(2-4) by (auto simp: active_row_def active_status_def intro: exI [of _ ?i])
  ultimately show thesis using that ps.insert_invar [OF i ins'(1)] ins'(3,5) by blast
qed

lemma pay_succeeds:
  assumes w: "world_inv w" and g: "gate_open w uid sid h" and q: "active_row (prows (w_payments w)) sid q"
    "p_Status q = StatusIntent" and cap: "fg_failCapture (w_gateway w) = None"
  obtains row s where
    "run P (payment_confirm_by_client uid sid) w =
      (Inr row, w\<lparr>w_gateway := w_gateway w\<lparr>fg_failCapture := None\<rparr>, w_payments := s\<rparr>)"
    "pinv s" "paid (prows s) sid" "same_charge row q" "p_Status row = StatusCaptured"
proof -
  have i: "pinv (w_payments w)" using w by (simp add: world_inv_def)
  from q obtain j where j: "prows (w_payments w) j = Some q" "p_BookingSessionID q = sid"
    by (auto simp: active_row_def)
  with ps.rows_ok [OF i] have ji: "p_IntentID q = j" by (auto simp: payments_ok_def)
  have o: "open_status (p_Status q)" using q(2) by (simp add: open_status_def)
  obtain row s where c: "st_capture S (w_now w) j (w_payments w) = (Inr (row, True), s)"
    "prows s = (prows (w_payments w))(j \<mapsto> row)" "same_charge row q" "p_Status row = StatusCaptured"
    using ps.capture_open [OF i j(1) o, of "w_now w"] by auto
  have "run P (payment_confirm_by_client uid sid) w =
      (Inr row, w\<lparr>w_gateway := w_gateway w\<lparr>fg_failCapture := None\<rparr>, w_payments := s\<rparr>)"
    using w g q cap ji c(1)
    by (simp add: payment_confirm_by_client_def hold_gate_open port_active is_captured_def
        world_ports_fields(16,20) fg_capture_intent_def take_fail_capture_def)
  moreover have "paid (prows s) sid"
    using c(2-4) j by (auto simp: paid_def same_charge_def)
  ultimately show thesis
    using that ps.capture_invar [OF i c(1)] c(3,4) by blast
qed

definition ready_to_buy :: "('h, 'b, 'p) world \<Rightarrow> string \<Rightarrow> string \<Rightarrow> hold \<Rightarrow> screening \<Rightarrow> bool" where
  "ready_to_buy w uid sid h sc \<longleftrightarrow> gate_open w uid sid h \<and>
     (\<forall>p. \<not> active_row (prows (w_payments w)) sid p) \<and> sale_free w h \<and>
     w_screenings w (h_ScreeningID h) = Inr sc \<and> 0 < sc_PriceCents sc \<and>
     fg_failCreate (w_gateway w) = None \<and> fg_failCapture (w_gateway w) = None \<and>
     bbookable (w_bookings w) (row_of h) \<and> bfresh (w_bookings w) (w_uuid w (w_next w + 2)) \<and>
     (\<forall>p. p_Gateway p = fg_provider \<longrightarrow> p_IntentID p = fakeIntentPrefix @ w_uuid w (w_next w) \<longrightarrow>
        p_AmountCents p = sc_PriceCents sc \<longrightarrow>
        pinsertable (w_payments w) p \<and> prows (w_payments w) (p_IntentID p) = None)"

text \<open>From the hold to the booking in three requests, for the price of the screening.\<close>

lemma purchase_runs:
  assumes w: "world_inv w" and rd: "ready_to_buy w uid sid h sc"
  obtains row q b w1 w2 w3 where
    "run P (payment_create_intent uid sid) w = (Inr \<lparr>in_Payment = row, in_HoldExpiresAt = h_ExpiresAt h, in_Created = True\<rparr>, w1)"
    "run P (payment_confirm_by_client uid sid) w1 = (Inr q, w2)"
    "run P (booking_confirm uid sid) w2 = (Inr \<lparr>cr_Booking = b, cr_Created = True\<rparr>, w3)"
    "p_AmountCents row = sc_PriceCents sc" "p_AmountCents q = sc_PriceCents sc" "p_Status q = StatusCaptured"
    "booking_of h b" "b_Status b = StatusConfirmed" "brows (w_bookings w3) = insert b (brows (w_bookings w))" "world_inv w3"
proof -
  note rd = rd [unfolded ready_to_buy_def]
  obtain row s where i: "run P (payment_create_intent uid sid) w =
      (Inr \<lparr>in_Payment = row, in_HoldExpiresAt = h_ExpiresAt h, in_Created = True\<rparr>,
       w\<lparr>w_gateway := w_gateway w\<lparr>fg_failCreate := None\<rparr>, w_next := Suc (Suc (w_next w)), w_payments := s\<rparr>)"
    "pinv s" "active_row (prows s) sid row" "p_Status row = StatusIntent" "p_AmountCents row = sc_PriceCents sc"
    by (rule intent_succeeds [OF w, of uid sid h sc]) (use rd in auto)
  let ?w1 = "w\<lparr>w_gateway := w_gateway w\<lparr>fg_failCreate := None\<rparr>, w_next := Suc (Suc (w_next w)), w_payments := s\<rparr>"
  have w1: "world_inv ?w1" using w i(2) by (auto simp: world_inv_def minted_def)
  have g1: "gate_open ?w1 uid sid h" using rd by (simp add: gate_open_def)
  obtain q s' where p: "run P (payment_confirm_by_client uid sid) ?w1 =
      (Inr q, ?w1\<lparr>w_gateway := w_gateway ?w1\<lparr>fg_failCapture := None\<rparr>, w_payments := s'\<rparr>)"
    "pinv s'" "paid (prows s') sid" "same_charge q row" "p_Status q = StatusCaptured"
    by (rule pay_succeeds [OF w1 g1, of row]) (use rd i in auto)
  let ?w2 = "?w1\<lparr>w_gateway := w_gateway ?w1\<lparr>fg_failCapture := None\<rparr>, w_payments := s'\<rparr>"
  have w2: "world_inv ?w2" using w1 p(2) by (auto simp: world_inv_def minted_def)
  obtain b w' where c: "run P (booking_confirm uid sid) ?w2 = (Inr \<lparr>cr_Booking = b, cr_Created = True\<rparr>, w')"
    "booking_of h b" "b_Status b = StatusConfirmed" "brows (w_bookings w') = insert b (brows (w_bookings ?w2))" "world_inv w'"
    by (rule confirm_creates [OF w2, of sid h uid]) (use rd p(3) in \<open>auto simp: gate_open_def sale_free_def\<close>)
  have "p_AmountCents q = sc_PriceCents sc" using p(4) i(5) by (simp add: same_charge_def)
  then show thesis using that [OF i(1) p(1) c(1) i(5) _ p(5) c(2,3) _ c(5)] c(4) by simp
qed

lemma purchase_completes:
  assumes w: "world_inv w" and rd: "ready_to_buy w uid sid h sc"
  obtains p q b w' where
    "run_all ttl P [ReqCreateIntent uid sid, ReqPay uid sid, ReqConfirm uid sid] w =
      ([OutIntent (Inr p), OutPay (Inr q), OutConfirm (Inr \<lparr>cr_Booking = b, cr_Created = True\<rparr>)], w')"
    "booking_of h b" "brows (w_bookings w') = insert b (brows (w_bookings w))" "world_inv w'"
proof -
  obtain row q b w1 w2 w3 where
    "run P (payment_create_intent uid sid) w = (Inr \<lparr>in_Payment = row, in_HoldExpiresAt = h_ExpiresAt h, in_Created = True\<rparr>, w1)"
    "run P (payment_confirm_by_client uid sid) w1 = (Inr q, w2)"
    "run P (booking_confirm uid sid) w2 = (Inr \<lparr>cr_Booking = b, cr_Created = True\<rparr>, w3)"
    "booking_of h b" "brows (w_bookings w3) = insert b (brows (w_bookings w))" "world_inv w3"
    by (rule purchase_runs [OF w rd])
  then show thesis
    by (intro that [of "\<lparr>in_Payment = row, in_HoldExpiresAt = h_ExpiresAt h, in_Created = True\<rparr>" q b w3])
      (simp_all add: run_map_prog)
qed

text \<open>A free seat can be held: the store has room for the hold, which has all it needs.\<close>

lemma hold_succeeds:
  assumes w: "world_inv w" and bk: "bbookable (w_bookings w) b" "b_ScreeningID b = scr" "b_Seat b = seat"
    and sc: "w_screenings w scr = Inr sc" "has_seat sc seat" and free: "\<not> seat_taken (brows (w_bookings w)) scr seat"
    and v: "hold_validate (next_hold ttl w uid scr seat) (w_now w) = Inr ()"
    and st: "fst (st_hold S (w_now w) (next_hold ttl w uid scr seat) (w_holds w)) = Inr ()"
  obtains w' where "run P (booking_hold ttl uid scr seat) w = (Inr (next_hold ttl w uid scr seat), w')"
proof -
  have i: "binv (w_bookings w)" using w by (simp add: world_inv_def)
  have t: "bookings_seat_confirmed_p P scr seat w = Inr False"
    using bs.seat_confirmed [OF i bk(1)] bk(2,3) free by (simp add: world_ports_fields)
  obtain s where s: "st_hold S (w_now w) (next_hold ttl w uid scr seat) (w_holds w) = (Inr (), s)"
    using st by (metis prod.collapse)
  have "run P (booking_hold ttl uid scr seat) w = (Inr (next_hold ttl w uid scr seat), w\<lparr>w_next := Suc (Suc (w_next w)), w_holds := s\<rparr>)"
    using sc t v s by (simp add: booking_hold_def Let_def next_hold_def world_ports_fields(1-3,11))
  then show thesis by (rule that)
qed

end

end
