(* ===== verification/MemHoldStore.thy ===== *)
theory MemHoldStore
  imports HoldStore
begin

text \<open>
  \<open>internal/adapters/memory/holdstore.go\<close>: the in-memory hold store. One mutex makes every
  method one atomic step on the state; the instant a method reads from its clock is its
  first argument.
\<close>

section \<open>State and operations\<close>

record seat_entry =
  se_token :: string
  se_expiresAt :: time

record mem_holds =
  mh_maxHolds :: int
  mh_seats :: "string \<rightharpoonup> seat_entry"
  mh_sessions :: "(string, hold) gomap"
  mh_userHolds :: "string \<rightharpoonup> (string, unit) gomap"
  mh_globalSize :: int

definition new_mem_holds :: "int \<Rightarrow> mem_holds" where
  "new_mem_holds maxHolds =
     \<lparr>mh_maxHolds = maxHolds, mh_seats = Map.empty, mh_sessions = [],
      mh_userHolds = Map.empty, mh_globalSize = 0\<rparr>"

definition mem_seat_key :: "string \<Rightarrow> seat \<Rightarrow> string" where
  "mem_seat_key screeningID seat =
     ''seat:'' @ screeningID @ '':'' @ s_Row seat @ '':'' @ itoa (s_Number seat)"

text \<open>\<open>s.userHolds[u]\<close> of an absent user is the nil map: empty to \<open>len\<close> and to \<open>delete\<close>.\<close>

definition user_holds :: "mem_holds \<Rightarrow> string \<Rightarrow> (string, unit) gomap" where
  "user_holds s u = (case mh_userHolds s u of None \<Rightarrow> [] | Some m \<Rightarrow> m)"

definition mem_hold :: "time \<Rightarrow> hold \<Rightarrow> mem_holds \<Rightarrow> unit res \<times> mem_holds" where
  "mem_hold now h s =
     (if int (length (user_holds s (h_UserID h))) \<ge> mh_maxHolds s
      then (Inl ErrHoldLimitExceeded, s)
      else
        let key = mem_seat_key (h_ScreeningID h) (h_Seat h) in
        if (case mh_seats s key of None \<Rightarrow> False | Some e \<Rightarrow> now < se_expiresAt e)
        then (Inl ErrSeatAlreadyHeld, s)
        else
          (Inr (), s\<lparr>
             mh_seats := (mh_seats s)(key \<mapsto>
               \<lparr>se_token = h_HoldToken h, se_expiresAt = h_ExpiresAt h\<rparr>),
             mh_sessions := gm_set (h_SessionID h) h (mh_sessions s),
             mh_userHolds := (mh_userHolds s)(h_UserID h \<mapsto>
               gm_set (h_SessionID h) () (user_holds s (h_UserID h))),
             mh_globalSize := mh_globalSize s + 1\<rparr>))"

definition mem_release :: "time \<Rightarrow> string \<Rightarrow> string \<Rightarrow> mem_holds \<Rightarrow> unit res \<times> mem_holds" where
  "mem_release now sessionID userID s =
     (case gm_get (mh_sessions s) sessionID of
        None \<Rightarrow> (Inl ErrHoldNotFound, s)
      | Some h \<Rightarrow>
          if \<not> now < h_ExpiresAt h then (Inl ErrHoldNotFound, s)
          else if h_UserID h \<noteq> userID then (Inl ErrNotHoldOwner, s)
          else
            let key = mem_seat_key (h_ScreeningID h) (h_Seat h);
                seats = (case mh_seats s key of
                    None \<Rightarrow> mh_seats s
                  | Some e \<Rightarrow>
                      if se_token e = h_HoldToken h then (mh_seats s)(key := None) else mh_seats s)
            in (Inr (), s\<lparr>
                 mh_seats := seats,
                 mh_sessions := gm_del sessionID (mh_sessions s),
                 mh_userHolds := (case mh_userHolds s userID of
                     None \<Rightarrow> mh_userHolds s
                   | Some m \<Rightarrow> (mh_userHolds s)(userID \<mapsto> gm_del sessionID m)),
                 mh_globalSize := mh_globalSize s - 1\<rparr>))"

definition mem_get :: "time \<Rightarrow> string \<Rightarrow> mem_holds \<Rightarrow> hold res" where
  "mem_get now sessionID s =
     (case gm_get (mh_sessions s) sessionID of
        None \<Rightarrow> Inl ErrHoldNotFound
      | Some h \<Rightarrow> if \<not> now < h_ExpiresAt h then Inl ErrHoldNotFound else Inr h)"

definition mem_held_seats :: "time \<Rightarrow> string \<Rightarrow> mem_holds \<Rightarrow> seat list" where
  "mem_held_seats now screeningID s =
     map (\<lambda>(sid, h). h_Seat h)
       (filter (\<lambda>(sid, h). h_ScreeningID h = screeningID \<and> now < h_ExpiresAt h) (mh_sessions s))"

section \<open>Invariant\<close>

text \<open>The hold a session has at an instant.\<close>

definition mem_live :: "time \<Rightarrow> mem_holds \<Rightarrow> string \<Rightarrow> hold option" where
  "mem_live now s sid =
     (case gm_get (mh_sessions s) sid of
        None \<Rightarrow> None
      | Some h \<Rightarrow> if now < h_ExpiresAt h then Some h else None)"

text \<open>
  Every unexpired session owns the entry of its seat key; an entry was written by some
  session; tokens tell sessions apart; a session is counted in its user's bookkeeping,
  which the limit bounds.
\<close>

definition mem_key_of :: "hold \<Rightarrow> string" where
  "mem_key_of h = mem_seat_key (h_ScreeningID h) (h_Seat h)"

definition mem_entry_of :: "hold \<Rightarrow> seat_entry" where
  "mem_entry_of h = \<lparr>se_token = h_HoldToken h, se_expiresAt = h_ExpiresAt h\<rparr>"

definition mem_seats_ok :: "time \<Rightarrow> mem_holds \<Rightarrow> bool" where
  "mem_seats_ok now s \<longleftrightarrow>
     (\<forall>sid h. gm_get (mh_sessions s) sid = Some h \<longrightarrow> now < h_ExpiresAt h \<longrightarrow>
        mh_seats s (mem_key_of h) = Some (mem_entry_of h)) \<and>
     (\<forall>key e. mh_seats s key = Some e \<longrightarrow>
        (\<exists>sid h. gm_get (mh_sessions s) sid = Some h \<and> mem_key_of h = key \<and> mem_entry_of h = e))"

definition mem_sessions_ok :: "mem_holds \<Rightarrow> bool" where
  "mem_sessions_ok s \<longleftrightarrow> gm_wf (mh_sessions s) \<and>
     (\<forall>sid h. gm_get (mh_sessions s) sid = Some h \<longrightarrow> h_SessionID h = sid \<and> keyable (h_Seat h)) \<and>
     (\<forall>a b h h'. gm_get (mh_sessions s) a = Some h \<longrightarrow> gm_get (mh_sessions s) b = Some h' \<longrightarrow>
        h_HoldToken h = h_HoldToken h' \<longrightarrow> a = b)"

definition mem_users_ok :: "mem_holds \<Rightarrow> bool" where
  "mem_users_ok s \<longleftrightarrow>
     (\<forall>sid h. gm_get (mh_sessions s) sid = Some h \<longrightarrow> gm_get (user_holds s (h_UserID h)) sid = Some ()) \<and>
     (\<forall>u. gm_wf (user_holds s u) \<and> int (length (user_holds s u)) \<le> max 0 (mh_maxHolds s))"

definition mem_size_ok :: "mem_holds \<Rightarrow> bool" where
  "mem_size_ok s \<longleftrightarrow> mh_globalSize s = int (length (mh_sessions s))"

definition mem_holds_ok :: "time \<Rightarrow> mem_holds \<Rightarrow> bool" where
  "mem_holds_ok now s \<longleftrightarrow> mem_sessions_ok s \<and> mem_seats_ok now s \<and> mem_users_ok s \<and> mem_size_ok s"

text \<open>The session and token identifiers in the store, and a hold that reuses none of them.\<close>

definition mem_used :: "mem_holds \<Rightarrow> string set" where
  "mem_used s = {sid. gm_get (mh_sessions s) sid \<noteq> None} \<union>
     {h_HoldToken h | sid h. gm_get (mh_sessions s) sid = Some h}"

definition mem_fresh :: "hold \<Rightarrow> mem_holds \<Rightarrow> bool" where
  "mem_fresh h s \<longleftrightarrow> keyable (h_Seat h) \<and> gm_get (mh_sessions s) (h_SessionID h) = None \<and>
     (\<forall>sid h'. gm_get (mh_sessions s) sid = Some h' \<longrightarrow> h_HoldToken h' \<noteq> h_HoldToken h)"

lemma fresh_mem_fresh: "fresh_hold (mem_used s) h \<Longrightarrow> mem_fresh h s"
  by (force simp: fresh_hold_def mem_fresh_def mem_used_def intro: well_formed_keyable)

section \<open>Preservation\<close>

lemma mem_hold_ok_state:
  assumes "mem_hold now h s = (Inr (), s')"
  shows "s' = s\<lparr>
      mh_seats := (mh_seats s)(mem_key_of h \<mapsto> mem_entry_of h),
      mh_sessions := gm_set (h_SessionID h) h (mh_sessions s),
      mh_userHolds := (mh_userHolds s)(h_UserID h \<mapsto>
        gm_set (h_SessionID h) () (user_holds s (h_UserID h))),
      mh_globalSize := mh_globalSize s + 1\<rparr>"
    and "int (length (user_holds s (h_UserID h))) < mh_maxHolds s"
    and "\<And>e. mh_seats s (mem_key_of h) = Some e \<Longrightarrow> \<not> now < se_expiresAt e"
  using assms
  by (auto simp: mem_hold_def Let_def mem_key_of_def mem_entry_of_def split: if_splits option.splits)

lemma mem_release_ok_state:
  assumes "mem_release now sid uid s = (Inr (), s')"
  obtains h where "gm_get (mh_sessions s) sid = Some h" "now < h_ExpiresAt h" "h_UserID h = uid"
    "mh_sessions s' = gm_del sid (mh_sessions s)"
    "mh_seats s' = (if map_option se_token (mh_seats s (mem_key_of h)) = Some (h_HoldToken h)
                    then (mh_seats s)(mem_key_of h := None) else mh_seats s)"
    "\<And>u. user_holds s' u = (if u = uid then gm_del sid (user_holds s u) else user_holds s u)"
    "mh_globalSize s' = mh_globalSize s - 1" "mh_maxHolds s' = mh_maxHolds s"
  using assms
  by (auto simp: mem_release_def Let_def mem_key_of_def user_holds_def gm_del_def
      split: if_splits option.splits)

lemma mem_hold_err: "mem_hold now h s = (Inl e, s') \<Longrightarrow> s' = s"
  by (auto simp: mem_hold_def Let_def split: if_splits option.splits)

lemma mem_release_err: "mem_release now sid uid s = (Inl e, s') \<Longrightarrow> s' = s"
  by (auto simp: mem_release_def Let_def split: if_splits option.splits)

lemma user_holds_upd [simp]:
  "user_holds (s\<lparr>mh_seats := a, mh_sessions := b, mh_userHolds := (mh_userHolds s)(u \<mapsto> m), mh_globalSize := c\<rparr>) v
   = (if v = u then m else user_holds s v)"
  by (simp add: user_holds_def)

lemma mem_tokenD:
  "mem_sessions_ok s \<Longrightarrow> gm_get (mh_sessions s) a = Some h \<Longrightarrow> gm_get (mh_sessions s) b = Some h' \<Longrightarrow>
     h_HoldToken h = h_HoldToken h' \<Longrightarrow> a = b"
  unfolding mem_sessions_ok_def by blast

lemma mem_entryD:
  "mem_seats_ok now s \<Longrightarrow> gm_get (mh_sessions s) sid = Some h \<Longrightarrow> now < h_ExpiresAt h \<Longrightarrow>
     mh_seats s (mem_key_of h) = Some (mem_entry_of h)"
  unfolding mem_seats_ok_def by blast

lemma mem_writerD:
  "mem_seats_ok now s \<Longrightarrow> mh_seats s key = Some e \<Longrightarrow>
     \<exists>sid h. gm_get (mh_sessions s) sid = Some h \<and> mem_key_of h = key \<and> mem_entry_of h = e"
  unfolding mem_seats_ok_def by blast

lemma mem_userD:
  "mem_users_ok s \<Longrightarrow> gm_get (mh_sessions s) sid = Some h \<Longrightarrow>
     gm_get (user_holds s (h_UserID h)) sid = Some ()"
  unfolding mem_users_ok_def by blast

lemma mem_hold_keeps_sessions:
  assumes "mem_sessions_ok s" "mem_fresh h s" "mem_hold now h s = (Inr (), s')"
  shows "mem_sessions_ok s'"
proof -
  have tok: "h_HoldToken h' \<noteq> h_HoldToken h" if "gm_get (mh_sessions s) sid = Some h'" for sid h'
    using assms(2) that unfolding mem_fresh_def by blast
  then have tok': "h_HoldToken h \<noteq> h_HoldToken h'" if "gm_get (mh_sessions s) sid = Some h'" for sid h'
    using that by metis
  show ?thesis
    using assms(1,2) tok tok' mem_hold_ok_state(1) [OF assms(3)] mem_tokenD [OF assms(1)]
    by (simp add: mem_sessions_ok_def mem_fresh_def)
qed

lemma mem_hold_keeps_seats:
  assumes "mem_seats_ok now s" "mem_fresh h s" "mem_hold now h s = (Inr (), s')"
  shows "mem_seats_ok now s'"
proof -
  note s' = mem_hold_ok_state(1) [OF assms(3)] and free = mem_hold_ok_state(3) [OF assms(3)]
  have other: "mem_key_of h' \<noteq> mem_key_of h"
    if "gm_get (mh_sessions s) sid = Some h'" "now < h_ExpiresAt h'" for sid h'
    using assms(1) that free by (fastforce simp: mem_seats_ok_def mem_entry_of_def)
  show ?thesis
    unfolding mem_seats_ok_def
  proof (intro conjI allI impI)
    fix sid h' assume "gm_get (mh_sessions s') sid = Some h'" "now < h_ExpiresAt h'"
    then show "mh_seats s' (mem_key_of h') = Some (mem_entry_of h')"
      using other mem_entryD [OF assms(1)] by (simp add: s' split: if_splits)
  next
    fix key e assume e: "mh_seats s' key = Some e"
    show "\<exists>sid h'. gm_get (mh_sessions s') sid = Some h' \<and> mem_key_of h' = key \<and> mem_entry_of h' = e"
    proof (cases "key = mem_key_of h")
      case True
      with e show ?thesis by (auto simp: s')
    next
      case False
      with e mem_writerD [OF assms(1), of key e] obtain sid h' where
        "gm_get (mh_sessions s) sid = Some h'" "mem_key_of h' = key" "mem_entry_of h' = e"
        by (auto simp: s')
      moreover from this assms(2) have "sid \<noteq> h_SessionID h" by (auto simp: mem_fresh_def)
      ultimately show ?thesis by (auto simp: s')
    qed
  qed
qed

lemma mem_hold_keeps_users:
  assumes "mem_users_ok s" "mem_hold now h s = (Inr (), s')"
  shows "mem_users_ok s'"
proof -
  have "gm_get (user_holds s u) sid = Some ()"
    if "gm_get (mh_sessions s) sid = Some h'" "h_UserID h' = u" for sid h' u
    using mem_userD [OF assms(1) that(1)] that(2) by simp
  with assms(1) mem_hold_ok_state(2) [OF assms(2)] show ?thesis
    by (simp add: mem_users_ok_def gm_length_set mem_hold_ok_state(1) [OF assms(2)])
qed

lemma mem_hold_keeps_size:
  assumes "mem_size_ok s" "mem_fresh h s" "mem_hold now h s = (Inr (), s')"
  shows "mem_size_ok s'"
  using assms(1,2) mem_hold_ok_state(1) [OF assms(3)]
  by (simp add: mem_size_ok_def mem_fresh_def gm_length_set)

lemma mem_hold_keeps_ok:
  assumes "mem_holds_ok now s" "mem_fresh h s" "mem_hold now h s = (r, s')"
  shows "mem_holds_ok now s'"
proof (cases r)
  case (Inl e)
  with assms mem_hold_err show ?thesis by blast
next
  case (Inr u)
  with assms show ?thesis
    by (auto simp: mem_holds_ok_def intro: mem_hold_keeps_sessions mem_hold_keeps_seats
        mem_hold_keeps_users mem_hold_keeps_size)
qed

lemma mem_release_keeps_seats:
  assumes ok: "mem_sessions_ok s" "mem_seats_ok now s"
    and h: "gm_get (mh_sessions s) sid = Some h" "now < h_ExpiresAt h"
    and s': "mh_sessions s' = gm_del sid (mh_sessions s)"
      "mh_seats s' = (if map_option se_token (mh_seats s (mem_key_of h)) = Some (h_HoldToken h)
                      then (mh_seats s)(mem_key_of h := None) else mh_seats s)"
  shows "mem_seats_ok now s'"
proof -
  have own: "mh_seats s (mem_key_of h) = Some (mem_entry_of h)"
    using ok h by (auto simp: mem_seats_ok_def)
  then have seats': "mh_seats s' = (mh_seats s)(mem_key_of h := None)"
    by (simp add: s' mem_entry_of_def)
  have other: "mem_key_of h' \<noteq> mem_key_of h"
    if "gm_get (mh_sessions s) sid' = Some h'" "now < h_ExpiresAt h'" "sid' \<noteq> sid" for sid' h'
    using mem_entryD [OF ok(2) that(1,2)] own mem_tokenD [OF ok(1) that(1) h(1)] that(3)
    by (auto simp: mem_entry_of_def)
  show ?thesis
    unfolding mem_seats_ok_def seats' s'(1)
  proof (intro conjI allI impI)
    fix sid' h' assume "gm_get (gm_del sid (mh_sessions s)) sid' = Some h'" "now < h_ExpiresAt h'"
    then show "((mh_seats s)(mem_key_of h := None)) (mem_key_of h') = Some (mem_entry_of h')"
      using ok(2) other by (auto simp: mem_seats_ok_def split: if_splits)
  next
    fix key e assume e: "((mh_seats s)(mem_key_of h := None)) key = Some e"
    then have "mh_seats s key = Some e" by (simp split: if_splits)
    with mem_writerD [OF ok(2)] obtain sid' h' where
      "gm_get (mh_sessions s) sid' = Some h'" "mem_key_of h' = key" "mem_entry_of h' = e"
      by blast
    moreover from this e h have "sid' \<noteq> sid" by auto
    ultimately show "\<exists>sid' h'. gm_get (gm_del sid (mh_sessions s)) sid' = Some h' \<and>
        mem_key_of h' = key \<and> mem_entry_of h' = e"
      by auto
  qed
qed

lemma mem_release_keeps_ok:
  assumes "mem_holds_ok now s" "mem_release now sid uid s = (r, s')"
  shows "mem_holds_ok now s'"
proof (cases r)
  case (Inl e)
  with assms mem_release_err show ?thesis by blast
next
  case (Inr u)
  with assms(2) have "mem_release now sid uid s = (Inr (), s')" by simp
  then obtain h where h: "gm_get (mh_sessions s) sid = Some h" "now < h_ExpiresAt h" "h_UserID h = uid"
    and sess: "mh_sessions s' = gm_del sid (mh_sessions s)"
    and seats: "mh_seats s' = (if map_option se_token (mh_seats s (mem_key_of h)) = Some (h_HoldToken h)
                    then (mh_seats s)(mem_key_of h := None) else mh_seats s)"
    and users: "\<And>u. user_holds s' u = (if u = uid then gm_del sid (user_holds s u) else user_holds s u)"
    and size: "mh_globalSize s' = mh_globalSize s - 1" "mh_maxHolds s' = mh_maxHolds s"
    by (rule mem_release_ok_state) blast
  have ne: "mh_sessions s \<noteq> []" using h(1) by auto
  from assms(1) have ok: "mem_sessions_ok s" "mem_seats_ok now s" "mem_users_ok s" "mem_size_ok s"
    by (simp_all add: mem_holds_ok_def)
  have "mem_sessions_ok s'"
    using ok(1) by (auto simp: mem_sessions_ok_def sess split: if_splits)
  moreover have "mem_seats_ok now s'"
    using mem_release_keeps_seats [OF ok(1,2) h(1,2) sess seats] .
  moreover have "mem_users_ok s'"
    unfolding mem_users_ok_def sess users size
  proof (intro conjI allI impI)
    fix sid' h' assume "gm_get (gm_del sid (mh_sessions s)) sid' = Some h'"
    then show "gm_get (if h_UserID h' = uid then gm_del sid (user_holds s (h_UserID h'))
        else user_holds s (h_UserID h')) sid' = Some ()"
      using mem_userD [OF ok(3), of sid' h'] by (auto split: if_splits)
  next
    fix u
    have w: "gm_wf (user_holds s u)" "int (length (user_holds s u)) \<le> max 0 (mh_maxHolds s)"
      using ok(3) by (simp_all add: mem_users_ok_def)
    then show "gm_wf (if u = uid then gm_del sid (user_holds s u) else user_holds s u)"
      by auto
    from w show "int (length (if u = uid then gm_del sid (user_holds s u) else user_holds s u))
        \<le> max 0 (mh_maxHolds s)"
      by (auto simp: gm_length_del)
  qed
  moreover have "mem_size_ok s'"
    using ok(1,4) h(1) ne
    by (simp add: mem_size_ok_def mem_sessions_ok_def sess size gm_length_del of_nat_diff Suc_leI)
  ultimately show ?thesis by (simp add: mem_holds_ok_def)
qed

lemma mem_holds_ok_later: "mem_holds_ok now s \<Longrightarrow> now \<le> later \<Longrightarrow> mem_holds_ok later s"
  by (fastforce simp: mem_holds_ok_def mem_seats_ok_def)

lemma new_mem_holds_ok: "mem_holds_ok now (new_mem_holds n)"
  by (simp add: mem_holds_ok_def new_mem_holds_def mem_sessions_ok_def mem_seats_ok_def
      mem_users_ok_def mem_size_ok_def user_holds_def)

section \<open>The contract\<close>

lemma mem_live_Some:
  "mem_live now s sid = Some h \<longleftrightarrow> gm_get (mh_sessions s) sid = Some h \<and> now < h_ExpiresAt h"
  by (auto simp: mem_live_def split: option.splits)

lemma mem_hold_live:
  assumes "mem_holds_ok now s" "mem_fresh h s" "now < h_ExpiresAt h" "mem_hold now h s = (Inr (), s')"
  shows "mem_live now s' sid = (if sid = h_SessionID h then Some h else mem_live now s sid)"
  using assms(3) by (simp add: mem_live_def mem_hold_ok_state(1) [OF assms(4)])

lemma mem_hold_free:
  assumes "mem_holds_ok now s" "mem_hold now h s = (Inr (), s')" "mem_live now s sid = Some h'"
  shows "\<not> same_seat h' h"
proof
  assume "same_seat h' h"
  then have "mem_key_of h' = mem_key_of h"
    by (simp add: same_seat_def mem_key_of_def)
  then have "mh_seats s (mem_key_of h) = Some (mem_entry_of h')"
    using assms(1,3) mem_entryD [of now s sid h'] by (simp add: mem_holds_ok_def mem_live_Some)
  from mem_hold_ok_state(3) [OF assms(2) this] assms(3) show False
    by (simp add: mem_entry_of_def mem_live_Some)
qed

lemma mem_live_exclusive:
  assumes "mem_holds_ok now s" "mem_live now s a = Some h" "mem_live now s b = Some h'" "same_seat h h'"
  shows "a = b"
proof -
  have ok: "mem_sessions_ok s" "mem_seats_ok now s"
    using assms(1) by (simp_all add: mem_holds_ok_def)
  have "mem_key_of h = mem_key_of h'"
    using assms(4) by (simp add: same_seat_def mem_key_of_def)
  then have "h_HoldToken h = h_HoldToken h'"
    using mem_entryD [OF ok(2), of a h] mem_entryD [OF ok(2), of b h'] assms(2,3)
    by (simp add: mem_live_Some mem_entry_of_def)
  then show ?thesis
    using mem_tokenD [OF ok(1)] assms(2,3) by (auto simp: mem_live_Some)
qed

lemma mem_release_live:
  assumes "mem_live now s sid = Some h" "h_UserID h = uid"
  obtains s' where "mem_release now sid uid s = (Inr (), s')"
    "\<And>sid'. mem_live now s' sid' = (if sid' = sid then None else mem_live now s sid')"
proof -
  obtain s' where s': "mem_release now sid uid s = (Inr (), s')"
    using assms by (auto simp: mem_release_def Let_def mem_live_Some)
  then obtain h' where "mh_sessions s' = gm_del sid (mh_sessions s)"
    by (rule mem_release_ok_state) blast
  with s' show ?thesis
    by (intro that) (auto simp: mem_live_def)
qed

lemma mem_held_live:
  assumes "mem_holds_ok now s"
  shows "set (mem_held_seats now scr s) =
     {h_Seat h | sid h. mem_live now s sid = Some h \<and> h_ScreeningID h = scr}"
proof -
  have "gm_wf (mh_sessions s)"
    using assms by (simp add: mem_holds_ok_def mem_sessions_ok_def)
  then show ?thesis
    by (force simp: mem_held_seats_def mem_live_Some gm_in_set [symmetric])
qed

lemma mem_hold_used:
  "mem_hold now h s = (r, s') \<Longrightarrow> mem_used s' \<subseteq> insert (h_SessionID h) (insert (h_HoldToken h) (mem_used s))"
proof (cases r)
  case (Inl e)
  moreover assume "mem_hold now h s = (r, s')"
  ultimately show ?thesis using mem_hold_err [of now h s e s'] by auto
next
  case (Inr u)
  moreover assume "mem_hold now h s = (r, s')"
  ultimately have "mem_hold now h s = (Inr (), s')" by simp
  from mem_hold_ok_state(1) [OF this] show ?thesis
    by (auto simp: mem_used_def split: if_splits)
qed

lemma mem_release_used:
  assumes "mem_release now sid uid s = (r, s')"
  shows "mem_used s' \<subseteq> mem_used s"
proof (cases r)
  case (Inl e)
  with assms mem_release_err [of now sid uid s e s'] show ?thesis by auto
next
  case (Inr u)
  with assms have "mem_release now sid uid s = (Inr (), s')" by simp
  then obtain h where "mh_sessions s' = gm_del sid (mh_sessions s)"
    by (rule mem_release_ok_state) blast
  then show ?thesis by (auto simp: mem_used_def)
qed

lemma mem_hold_late:
  assumes "\<not> now < h_ExpiresAt h" "mem_hold now h s = (r, s')" "mem_live now s' sid = Some h'"
    and "gm_get (mh_sessions s) (h_SessionID h) = None"
  shows "mem_live now s sid = Some h'"
proof (cases r)
  case (Inl e)
  with assms mem_hold_err [of now h s e s'] show ?thesis by auto
next
  case (Inr u)
  with assms(2) have "mem_hold now h s = (Inr (), s')" by simp
  from mem_hold_ok_state(1) [OF this] assms(1,3) show ?thesis
    by (auto simp: mem_live_Some split: if_splits)
qed

interpretation mem_hs: hold_store mem_holds_ok mem_live "\<lambda>h. h" mem_used
    mem_hold mem_release mem_get mem_held_seats
proof
  show "mem_holds_ok now s \<Longrightarrow> fresh_hold (mem_used s) h \<Longrightarrow> mem_hold now h s = (r, s') \<Longrightarrow> mem_holds_ok now s'"
    for now s h r s' by (rule mem_hold_keeps_ok [OF _ fresh_mem_fresh])
  show "mem_holds_ok now s \<Longrightarrow> mem_release now sid uid s = (r, s') \<Longrightarrow> mem_holds_ok now s'"
    for now s sid uid r s' by (rule mem_release_keeps_ok)
  show "mem_holds_ok now s \<Longrightarrow> now \<le> later \<Longrightarrow> mem_holds_ok later s" for now s later
    by (rule mem_holds_ok_later)
  show "mem_hold now h s = (r, s') \<Longrightarrow> mem_used s' \<subseteq> insert (h_SessionID h) (insert (h_HoldToken h) (mem_used s))"
    for now h s r s' by (rule mem_hold_used)
  show "mem_release now sid uid s = (r, s') \<Longrightarrow> mem_used s' \<subseteq> mem_used s" for now sid uid s r s'
    by (rule mem_release_used)
  show "mem_holds_ok now s \<Longrightarrow> now \<le> later \<Longrightarrow> mem_live later s sid = Some h \<Longrightarrow> mem_live now s sid = Some h"
    for now s later sid h by (simp add: mem_live_Some)
  show "same_seat h h \<and> h_UserID h = h_UserID h \<and> h_SessionID h = h_SessionID h" for h
    by (simp add: same_seat_def)
  show "mem_holds_ok now s \<Longrightarrow> mem_live now s sid = Some h \<Longrightarrow> h_SessionID h = sid \<and> keyable (h_Seat h)"
    for now s sid h unfolding mem_holds_ok_def mem_sessions_ok_def mem_live_Some by blast
  show "mem_get now sid s = (case mem_live now s sid of None \<Rightarrow> Inl ErrHoldNotFound | Some h \<Rightarrow> Inr h)"
    for now s sid by (simp add: mem_get_def mem_live_def split: option.split)
  show "mem_holds_ok now s \<Longrightarrow> mem_live now s a = Some h \<Longrightarrow> mem_live now s b = Some h' \<Longrightarrow>
      same_seat h h' \<Longrightarrow> a = b" for now s a h b h'
    by (rule mem_live_exclusive)
  show "(\<forall>sid. mem_live now s' sid = (if sid = h_SessionID h then Some h else mem_live now s sid)) \<and>
      (\<forall>sid h'. mem_live now s sid = Some h' \<longrightarrow> \<not> same_seat h' h)"
    if "mem_holds_ok now s" "fresh_hold (mem_used s) h" "now < h_ExpiresAt h" "mem_hold now h s = (Inr (), s')"
    for now s h s'
    using mem_hold_live [OF that(1) fresh_mem_fresh [OF that(2)] that(3,4)] mem_hold_free [OF that(1,4)]
    by simp
  show "mem_live now s sid = Some h'"
    if "fresh_hold (mem_used s) h" "\<not> now < h_ExpiresAt h" "mem_hold now h s = (r, s')"
      "mem_live now s' sid = Some h'" for now s h r s' sid h'
    using mem_hold_late [OF that(2-4)] fresh_mem_fresh [OF that(1)] by (simp add: mem_fresh_def)
  show "mem_hold now h s = (Inl e, s') \<Longrightarrow> s' = s" for now h s e s'
    by (rule mem_hold_err)
  show "mem_live now s sid = None \<Longrightarrow> mem_release now sid uid s = (Inl ErrHoldNotFound, s)"
    for now s sid uid by (auto simp: mem_live_def mem_release_def split: option.splits if_splits)
  show "mem_live now s sid = Some h \<Longrightarrow> h_UserID h \<noteq> uid \<Longrightarrow> mem_release now sid uid s = (Inl ErrNotHoldOwner, s)"
    for now s sid h uid by (simp add: mem_live_Some mem_release_def)
  show "\<exists>s'. mem_release now sid uid s = (Inr (), s') \<and>
      (\<forall>sid'. mem_live now s' sid' = (if sid' = sid then None else mem_live now s sid'))"
    if "mem_live now s sid = Some h" "h_UserID h = uid" for now s sid h uid
    using mem_release_live [OF that] by metis
  show "mem_holds_ok now s \<Longrightarrow> set (mem_held_seats now scr s) =
      {h_Seat h | sid h. mem_live now s sid = Some h \<and> h_ScreeningID h = scr}" for now s scr
    by (rule mem_held_live)
qed

section \<open>Limits and progress\<close>

lemma mem_user_limit:
  assumes "mem_holds_ok now s"
  shows "int (card {sid. \<exists>h. mem_live now s sid = Some h \<and> h_UserID h = u}) \<le> max 0 (mh_maxHolds s)"
proof -
  have ok: "mem_users_ok s" using assms by (simp add: mem_holds_ok_def)
  have "{sid. \<exists>h. mem_live now s sid = Some h \<and> h_UserID h = u} \<subseteq> fst ` set (user_holds s u)"
    using mem_userD [OF ok] by (force simp: mem_live_Some gm_get_def dest: map_of_SomeD)
  then have "card {sid. \<exists>h. mem_live now s sid = Some h \<and> h_UserID h = u} \<le> length (user_holds s u)"
    by (meson List.finite_set card_image_le card_length card_mono finite_imageI le_trans)
  moreover have "int (length (user_holds s u)) \<le> max 0 (mh_maxHolds s)"
    using ok by (simp add: mem_users_ok_def)
  ultimately show ?thesis by linarith
qed

text \<open>A free seat can be held, and a seat is refused only when some live session holds it.\<close>

lemma mem_key_of_inject:
  "keyable (h_Seat h) \<Longrightarrow> keyable (h_Seat h') \<Longrightarrow> mem_key_of h = mem_key_of h' \<Longrightarrow> same_seat h h'"
  using seat_key_parts_inject [of "s_Row (h_Seat h)" "s_Row (h_Seat h')"
      "s_Number (h_Seat h)" "s_Number (h_Seat h')" "h_ScreeningID h" "h_ScreeningID h'"]
  by (simp add: keyable_def mem_key_of_def mem_seat_key_def same_seat_def seat.equality)

lemma mem_hold_outcome:
  assumes ok: "mem_holds_ok now s" and f: "mem_fresh h s"
  shows "fst (mem_hold now h s) =
     (if int (length (user_holds s (h_UserID h))) \<ge> mh_maxHolds s then Inl ErrHoldLimitExceeded
      else if \<exists>sid h'. mem_live now s sid = Some h' \<and> same_seat h' h then Inl ErrSeatAlreadyHeld
      else Inr ())"
proof -
  have ok': "mem_sessions_ok s" "mem_seats_ok now s"
    using ok by (simp_all add: mem_holds_ok_def)
  have held: "(\<exists>e. mh_seats s (mem_key_of h) = Some e \<and> now < se_expiresAt e) \<longleftrightarrow>
      (\<exists>sid h'. mem_live now s sid = Some h' \<and> same_seat h' h)" (is "?L \<longleftrightarrow> ?R")
  proof
    assume ?L
    then obtain e where e: "mh_seats s (mem_key_of h) = Some e" "now < se_expiresAt e" by blast
    with mem_writerD [OF ok'(2)] obtain sid h' where
      h': "gm_get (mh_sessions s) sid = Some h'" "mem_key_of h' = mem_key_of h" "mem_entry_of h' = e"
      by blast
    have "keyable (h_Seat h')" "keyable (h_Seat h)"
      using ok'(1) h'(1) f by (auto simp: mem_sessions_ok_def mem_fresh_def)
    then have "same_seat h' h" using h'(2) by (blast intro: mem_key_of_inject)
    moreover have "mem_live now s sid = Some h'"
      using h' e by (auto simp: mem_live_Some mem_entry_of_def)
    ultimately show ?R by blast
  next
    assume ?R
    then obtain sid h' where h': "mem_live now s sid = Some h'" "same_seat h' h" by blast
    then have "mem_key_of h' = mem_key_of h" by (simp add: same_seat_def mem_key_of_def)
    with mem_entryD [OF ok'(2)] h'(1) show ?L by (fastforce simp: mem_live_Some mem_entry_of_def)
  qed
  show ?thesis
    unfolding mem_hold_def Let_def mem_key_of_def [symmetric] held [symmetric]
    by (simp split: option.split)
qed

end
