(* ===== verification/MemBookingStore.thy ===== *)
theory MemBookingStore
  imports BookingStore MemHoldStore
begin

text \<open>
  \<open>internal/adapters/memory/bookingstore.go\<close>: the in-memory booking store. \<open>bySession\<close> is only
  indexed; \<open>bySeat\<close> is also ranged over.
\<close>

section \<open>State and operations\<close>

record mem_bookings =
  mb_bySession :: "string \<rightharpoonup> booking"
  mb_bySeat :: "(string, booking list) gomap"

definition new_mem_bookings :: mem_bookings where
  "new_mem_bookings = \<lparr>mb_bySession = Map.empty, mb_bySeat = []\<rparr>"

definition seat_rows :: "mem_bookings \<Rightarrow> string \<Rightarrow> booking list" where
  "seat_rows s key = (case gm_get (mb_bySeat s) key of None \<Rightarrow> [] | Some bs \<Rightarrow> bs)"

definition mem_confirm :: "string \<Rightarrow> time \<Rightarrow> booking \<Rightarrow> mem_bookings \<Rightarrow> booking res \<times> mem_bookings" where
  "mem_confirm newID now b s =
     (if mb_bySession s (b_SessionID b) \<noteq> None then (Inl ErrSessionAlreadyConfirmed, s)
      else
        let key = mem_seat_key (b_ScreeningID b) (b_Seat b) in
        if list_ex (\<lambda>existing. b_Status existing = StatusConfirmed) (seat_rows s key)
        then (Inl ErrSeatAlreadyBooked, s)
        else
          let row = b\<lparr>b_ID := newID, b_Status := StatusConfirmed, b_ConfirmedAt := now\<rparr> in
          (Inr row, s\<lparr>mb_bySession := (mb_bySession s)(b_SessionID row \<mapsto> row),
                      mb_bySeat := gm_set key (seat_rows s key @ [row]) (mb_bySeat s)\<rparr>))"

definition mem_by_session :: "string \<Rightarrow> mem_bookings \<Rightarrow> booking res" where
  "mem_by_session sessionID s =
     (case mb_bySession s sessionID of None \<Rightarrow> Inl ErrBookingNotFound | Some b \<Rightarrow> Inr b)"

definition mem_seat_confirmed :: "string \<Rightarrow> seat \<Rightarrow> mem_bookings \<Rightarrow> bool res" where
  "mem_seat_confirmed screeningID seat s =
     Inr (list_ex (\<lambda>existing. b_Status existing = StatusConfirmed)
            (seat_rows s (mem_seat_key screeningID seat)))"

definition mem_confirmed_seats :: "string \<Rightarrow> mem_bookings \<Rightarrow> seat list res" where
  "mem_confirmed_seats screeningID s =
     Inr (concat (map (\<lambda>(key, bs).
            map b_Seat (filter (\<lambda>b. b_ScreeningID b = screeningID \<and> b_Status b = StatusConfirmed) bs))
          (mb_bySeat s)))"

section \<open>Invariant\<close>

definition mem_booking_key :: "booking \<Rightarrow> string" where
  "mem_booking_key b = mem_seat_key (b_ScreeningID b) (b_Seat b)"

definition mem_rows :: "mem_bookings \<Rightarrow> booking set" where
  "mem_rows s = ran (mb_bySession s)"

definition mem_bookable :: "mem_bookings \<Rightarrow> booking \<Rightarrow> bool" where
  "mem_bookable s b \<longleftrightarrow> keyable (b_Seat b)"

text \<open>Both maps hold the same rows, each filed under its own keys, and the arbiter holds.\<close>

definition mem_bookings_ok :: "mem_bookings \<Rightarrow> bool" where
  "mem_bookings_ok s \<longleftrightarrow> gm_wf (mb_bySeat s) \<and> arbiter (mem_rows s) \<and>
     (\<forall>sid b. mb_bySession s sid = Some b \<longrightarrow> b_SessionID b = sid \<and> keyable (b_Seat b)) \<and>
     (\<forall>key b. b \<in> set (seat_rows s key) \<longleftrightarrow> b \<in> mem_rows s \<and> mem_booking_key b = key)"

lemma mem_booking_key_inject:
  "keyable (b_Seat b) \<Longrightarrow> keyable (b_Seat b') \<Longrightarrow> mem_booking_key b = mem_booking_key b' \<longleftrightarrow>
     same_booking_seat b b'"
  using seat_key_parts_inject [of "s_Row (b_Seat b)" "s_Row (b_Seat b')"
      "s_Number (b_Seat b)" "s_Number (b_Seat b')" "b_ScreeningID b" "b_ScreeningID b'"]
  by (auto simp: keyable_def mem_booking_key_def mem_seat_key_def same_booking_seat_def seat.equality)

lemma mem_rows_keyable: "mem_bookings_ok s \<Longrightarrow> b \<in> mem_rows s \<Longrightarrow> keyable (b_Seat b)"
  by (auto simp: mem_bookings_ok_def mem_rows_def ran_def)

lemma mem_session_taken:
  "mem_bookings_ok s \<Longrightarrow> session_taken (mem_rows s) sid \<longleftrightarrow> mb_bySession s sid \<noteq> None"
  by (auto simp: mem_bookings_ok_def session_taken_def mem_rows_def ran_def)

lemma mem_seat_taken:
  assumes "mem_bookings_ok s" "keyable (b_Seat b)"
  shows "seat_taken (mem_rows s) (b_ScreeningID b) (b_Seat b) \<longleftrightarrow>
     list_ex (\<lambda>r. b_Status r = StatusConfirmed) (seat_rows s (mem_booking_key b))"
proof -
  have "b_ScreeningID r = b_ScreeningID b \<and> b_Seat r = b_Seat b \<longleftrightarrow> mem_booking_key r = mem_booking_key b"
    if "r \<in> mem_rows s" for r
    using mem_booking_key_inject [OF mem_rows_keyable [OF assms(1) that] assms(2)]
    by (simp add: same_booking_seat_def)
  moreover have "r \<in> set (seat_rows s (mem_booking_key b)) \<longleftrightarrow>
      r \<in> mem_rows s \<and> mem_booking_key r = mem_booking_key b" for r
    using assms(1) by (simp add: mem_bookings_ok_def)
  ultimately show ?thesis
    unfolding seat_taken_def list_ex_iff by blast
qed

section \<open>The contract\<close>

lemma mem_confirm_cases:
  assumes "mem_bookings_ok s" "mem_bookable s b"
  shows "mem_confirm i now b s =
     (if session_taken (mem_rows s) (b_SessionID b) then (Inl ErrSessionAlreadyConfirmed, s)
      else if seat_taken (mem_rows s) (b_ScreeningID b) (b_Seat b) then (Inl ErrSeatAlreadyBooked, s)
      else let row = b\<lparr>b_ID := i, b_Status := StatusConfirmed, b_ConfirmedAt := now\<rparr> in
        (Inr row, s\<lparr>mb_bySession := (mb_bySession s)(b_SessionID b \<mapsto> row),
           mb_bySeat := gm_set (mem_booking_key b) (seat_rows s (mem_booking_key b) @ [row]) (mb_bySeat s)\<rparr>))"
  using assms mem_session_taken [OF assms(1)] mem_seat_taken [OF assms(1), of b]
  by (simp add: mem_confirm_def Let_def mem_bookable_def mem_booking_key_def)

lemma mem_confirm_keeps:
  assumes ok: "mem_bookings_ok s" and b: "mem_bookable s b" and c: "mem_confirm i now b s = (Inr row, s')"
  shows "mem_rows s' = insert row (mem_rows s)"
    and "row = b\<lparr>b_ID := i, b_Status := StatusConfirmed, b_ConfirmedAt := now\<rparr>"
    and "mem_bookings_ok s'"
proof -
  have free: "\<not> session_taken (mem_rows s) (b_SessionID b)"
    "\<not> seat_taken (mem_rows s) (b_ScreeningID b) (b_Seat b)"
    using c by (auto simp: mem_confirm_cases [OF ok b] split: if_splits)
  then have row: "row = b\<lparr>b_ID := i, b_Status := StatusConfirmed, b_ConfirmedAt := now\<rparr>"
    and s': "s' = s\<lparr>mb_bySession := (mb_bySession s)(b_SessionID b \<mapsto> row),
       mb_bySeat := gm_set (mem_booking_key b) (seat_rows s (mem_booking_key b) @ [row]) (mb_bySeat s)\<rparr>"
    using c by (auto simp: mem_confirm_cases [OF ok b] Let_def)
  have new: "mb_bySession s (b_SessionID b) = None"
    using free(1) mem_session_taken [OF ok] by simp
  then show rows: "mem_rows s' = insert row (mem_rows s)"
    by (simp add: mem_rows_def s')
  show "row = b\<lparr>b_ID := i, b_Status := StatusConfirmed, b_ConfirmedAt := now\<rparr>" by (rule row)
  have key: "mem_booking_key row = mem_booking_key b"
    by (simp add: row mem_booking_key_def)
  have seat_rows': "seat_rows s' k = (if k = mem_booking_key b then seat_rows s k @ [row] else seat_rows s k)" for k
    by (simp add: seat_rows_def s')
  have seats: "r \<in> set (seat_rows s k) \<longleftrightarrow> r \<in> mem_rows s \<and> mem_booking_key r = k" for r k
    using ok by (simp add: mem_bookings_ok_def)
  have "arbiter (mem_rows s')"
    unfolding rows using ok free by (intro arbiter_insert) (simp_all add: mem_bookings_ok_def row)
  moreover have "r \<in> set (seat_rows s' k) \<longleftrightarrow> r \<in> mem_rows s' \<and> mem_booking_key r = k" for r k
    unfolding seat_rows' rows using seats key by auto
  moreover have "b_SessionID r = sid \<and> keyable (b_Seat r)" if "mb_bySession s' sid = Some r" for sid r
    using that ok b by (auto simp: s' row mem_bookings_ok_def mem_bookable_def split: if_splits)
  moreover have "gm_wf (mb_bySeat s')"
    using ok by (simp add: s' mem_bookings_ok_def)
  ultimately show "mem_bookings_ok s'"
    unfolding mem_bookings_ok_def by blast
qed

lemma new_mem_bookings_ok [simp]: "mem_bookings_ok new_mem_bookings"
  by (simp add: mem_bookings_ok_def new_mem_bookings_def mem_rows_def seat_rows_def)

lemma mem_confirmed_seats_set:
  assumes ok: "mem_bookings_ok s" and r: "mem_confirmed_seats scr s = Inr seats"
  shows "set seats = {seat. seat_taken (mem_rows s) scr seat}"
proof -
  have w: "gm_wf (mb_bySeat s)" and
    rows: "\<And>key b. b \<in> set (seat_rows s key) \<longleftrightarrow> b \<in> mem_rows s \<and> mem_booking_key b = key"
    using ok by (simp_all add: mem_bookings_ok_def)
  have all: "(\<exists>p \<in> set (mb_bySeat s). b \<in> set (snd p)) \<longleftrightarrow> b \<in> mem_rows s" for b
  proof
    assume "\<exists>p \<in> set (mb_bySeat s). b \<in> set (snd p)"
    then obtain key bs where "gm_get (mb_bySeat s) key = Some bs" "b \<in> set bs"
      by (auto simp: gm_in_set [OF w])
    then have "b \<in> set (seat_rows s key)" by (simp add: seat_rows_def)
    with rows show "b \<in> mem_rows s" by simp
  next
    assume "b \<in> mem_rows s"
    then have "b \<in> set (seat_rows s (mem_booking_key b))" using rows by simp
    then obtain bs where "gm_get (mb_bySeat s) (mem_booking_key b) = Some bs" "b \<in> set bs"
      by (cases "gm_get (mb_bySeat s) (mem_booking_key b)") (auto simp: seat_rows_def)
    then show "\<exists>p \<in> set (mb_bySeat s). b \<in> set (snd p)"
      using gm_in_set [OF w, of "mem_booking_key b" bs] by (metis snd_conv)
  qed
  have "set seats = (\<Union>p \<in> set (mb_bySeat s).
      b_Seat ` {b \<in> set (snd p). b_ScreeningID b = scr \<and> b_Status b = StatusConfirmed})"
    using r [symmetric] by (simp add: mem_confirmed_seats_def split_beta)
  also have "\<dots> = b_Seat ` {b. (\<exists>p \<in> set (mb_bySeat s). b \<in> set (snd p)) \<and>
      b_ScreeningID b = scr \<and> b_Status b = StatusConfirmed}"
    by blast
  also have "\<dots> = {seat. seat_taken (mem_rows s) scr seat}"
    unfolding all seat_taken_def by blast
  finally show ?thesis .
qed

interpretation mem_bs: booking_store mem_bookings_ok mem_rows mem_bookable "\<lambda>b. b" "\<lambda>_ _. True"
    mem_confirm mem_by_session mem_seat_confirmed mem_confirmed_seats
proof
  fix s b i now r s' b' e sid scr seats
  show "mem_bookings_ok s \<Longrightarrow> arbiter (mem_rows s)"
    by (simp add: mem_bookings_ok_def)
  show "mem_bookable s b \<Longrightarrow> keyable (b_Seat b)" by (simp add: mem_bookable_def)
  assume ok: "mem_bookings_ok s"
  show "keyable (b_Seat b) \<Longrightarrow> mem_confirm i now b s = (r, s') \<Longrightarrow> mem_bookings_ok s'"
    using ok mem_confirm_keeps(3) [OF ok, unfolded mem_bookable_def, of b i now]
    by (cases r) (auto simp: mem_confirm_def Let_def split: if_splits)
  show "keyable (b_Seat b) \<Longrightarrow> mem_confirm i now b s = (Inr b', s') \<Longrightarrow>
      mem_rows s' = insert b' (mem_rows s) \<and> b_SessionID b' = b_SessionID b \<and>
      same_booking_seat b' b \<and> b_UserID b' = b_UserID b \<and> b_Status b' = StatusConfirmed"
    using mem_confirm_keeps(1,2) [OF ok, unfolded mem_bookable_def, of b i now b' s'] by (simp add: same_booking_seat_def)
  show "mem_confirm i now b s = (Inl e, s') \<Longrightarrow> mem_rows s' = mem_rows s"
    by (auto simp: mem_confirm_def Let_def split: if_splits)
  show "b \<in> mem_rows s \<Longrightarrow> mem_by_session (b_SessionID b) s = Inr b"
    using ok by (auto simp: mem_by_session_def mem_rows_def ran_def mem_bookings_ok_def)
  show "\<not> session_taken (mem_rows s) sid \<Longrightarrow> mem_by_session sid s = Inl ErrBookingNotFound"
    using mem_session_taken [OF ok] by (simp add: mem_by_session_def)
  show "mem_bookable s b \<Longrightarrow> mem_seat_confirmed (b_ScreeningID b) (b_Seat b) s
      = Inr (seat_taken (mem_rows s) (b_ScreeningID b) (b_Seat b))"
    using mem_seat_taken [OF ok, of b]
    by (simp add: mem_seat_confirmed_def mem_bookable_def mem_booking_key_def)
  show "mem_confirmed_seats (b_ScreeningID b) s = Inr seats \<Longrightarrow>
      set seats = {seat. seat_taken (mem_rows s) (b_ScreeningID b) seat}"
    by (rule mem_confirmed_seats_set [OF ok])
qed (auto simp: mem_confirm_cases Let_def same_booking_seat_def)

end
