(* ===== verification/MemPaymentStore.thy ===== *)
theory MemPaymentStore
  imports PaymentStore
begin

text \<open>
  \<open>internal/adapters/memory/paymentstore.go\<close>: the payments table as an insertion-ordered list
  of rows.
\<close>

section \<open>Operations\<close>

type_synonym mem_payments = "payment list"

definition is_active :: "payment_status \<Rightarrow> bool" where
  "is_active status \<longleftrightarrow> status \<noteq> StatusFailed \<and> status \<noteq> StatusRefunded"

text \<open>The loop over the rows of \<open>InsertIntent\<close>: the error of the first row that clashes.\<close>

fun insert_clash :: "payment \<Rightarrow> mem_payments \<Rightarrow> error option" where
  "insert_clash p [] = None"
| "insert_clash p (existing # rest) =
     (if p_IntentID existing = p_IntentID p
      then Some (Errorf ''memory: payment insert: duplicate intent id %q'' [ArgS (p_IntentID p)] [])
      else if p_BookingSessionID existing = p_BookingSessionID p \<and> is_active (p_Status existing)
      then Some ErrPaymentIntentExists
      else insert_clash p rest)"

definition mem_insert_intent :: "string \<Rightarrow> time \<Rightarrow> payment \<Rightarrow> mem_payments \<Rightarrow> payment res \<times> mem_payments" where
  "mem_insert_intent newID now p rows =
     (case insert_clash p rows of
        Some e \<Rightarrow> (Inl e, rows)
      | None \<Rightarrow>
          let row = p\<lparr>p_ID := newID, p_Status := StatusIntent, p_CreatedAt := now, p_UpdatedAt := now\<rparr>
          in (Inr row, rows @ [row]))"

text \<open>The loop of \<open>GetActiveBySession\<close> runs from the last row down.\<close>

definition mem_get_active :: "string \<Rightarrow> mem_payments \<Rightarrow> payment res" where
  "mem_get_active sessionID rows =
     (case find (\<lambda>r. p_BookingSessionID r = sessionID \<and> is_active (p_Status r)) (rev rows) of
        Some r \<Rightarrow> Inr r | None \<Rightarrow> Inl ErrPaymentNotFound)"

definition mem_get_by_intent :: "string \<Rightarrow> mem_payments \<Rightarrow> payment res" where
  "mem_get_by_intent intentID rows =
     (case find (\<lambda>r. p_IntentID r = intentID) rows of
        Some r \<Rightarrow> Inr r | None \<Rightarrow> Inl ErrPaymentNotFound)"

fun find_index_by_intent :: "string \<Rightarrow> mem_payments \<Rightarrow> nat res" where
  "find_index_by_intent intentID [] = Inl ErrPaymentNotFound"
| "find_index_by_intent intentID (row # rest) =
     (if p_IntentID row = intentID then Inr 0
      else case find_index_by_intent intentID rest of Inl e \<Rightarrow> Inl e | Inr i \<Rightarrow> Inr (Suc i))"

definition mem_capture :: "time \<Rightarrow> string \<Rightarrow> mem_payments \<Rightarrow> (payment \<times> bool) res \<times> mem_payments" where
  "mem_capture now intentID rows =
     (case find_index_by_intent intentID rows of
        Inl e \<Rightarrow> (Inl e, rows)
      | Inr i \<Rightarrow>
          let st = p_Status (rows ! i) in
          if st = StatusIntent \<or> st = StatusAuthorized then
            let row = (rows ! i)\<lparr>p_Status := StatusCaptured, p_UpdatedAt := now\<rparr>
            in (Inr (row, True), rows[i := row])
          else if st = StatusCaptured then (Inr (rows ! i, False), rows)
          else (Inl (Errorf ''payment: capture: intent %s is in status %q: %w''
                  [ArgS intentID, ArgS st] [ErrPaymentInvalidTransition]), rows))"

definition mem_mark_failed :: "time \<Rightarrow> string \<Rightarrow> mem_payments \<Rightarrow> payment res \<times> mem_payments" where
  "mem_mark_failed now intentID rows =
     (case find_index_by_intent intentID rows of
        Inl e \<Rightarrow> (Inl e, rows)
      | Inr i \<Rightarrow>
          let st = p_Status (rows ! i) in
          if st = StatusIntent \<or> st = StatusAuthorized then
            let row = (rows ! i)\<lparr>p_Status := StatusFailed, p_UpdatedAt := now\<rparr>
            in (Inr row, rows[i := row])
          else if st = StatusFailed then (Inr (rows ! i), rows)
          else (Inl (Errorf ''payment: mark failed: intent %s is in status %q: %w''
                  [ArgS intentID, ArgS st] [ErrPaymentInvalidTransition]), rows))"

definition mem_has_captured :: "string \<Rightarrow> mem_payments \<Rightarrow> bool res" where
  "mem_has_captured sessionID rows =
     Inr (list_ex (\<lambda>r. p_BookingSessionID r = sessionID \<and> p_Status r = StatusCaptured) rows)"

definition mem_seed_captured ::
    "string \<Rightarrow> time \<Rightarrow> string \<Rightarrow> string \<Rightarrow> int \<Rightarrow> mem_payments \<Rightarrow> payment \<times> mem_payments" where
  "mem_seed_captured newID now sessionID intentID amountCents rows =
     (let p = \<lparr>p_ID = newID, p_BookingSessionID = sessionID, p_Gateway = ''fake'', p_IntentID = intentID,
               p_Status = StatusCaptured, p_AmountCents = amountCents, p_Currency = DefaultCurrency,
               p_CreatedAt = now, p_UpdatedAt = now\<rparr>
      in (p, rows @ [p]))"

section \<open>Rows by intent\<close>

definition mem_payment_rows :: "mem_payments \<Rightarrow> string \<rightharpoonup> payment" where
  "mem_payment_rows rows = map_of (map (\<lambda>r. (p_IntentID r, r)) rows)"

definition mem_payments_ok :: "mem_payments \<Rightarrow> bool" where
  "mem_payments_ok rows \<longleftrightarrow>
     distinct (map p_IntentID rows) \<and> payments_ok (mem_payment_rows rows)"

lemma active_is_active [simp]: "is_active st = active_status st"
  by (simp add: is_active_def active_status_def)

lemma mem_payment_rows_intent: "mem_payment_rows rows i = Some p \<Longrightarrow> p_IntentID p = i \<and> p \<in> set rows"
  by (auto simp: mem_payment_rows_def dest: map_of_SomeD)

lemma mem_payment_rows_Some:
  "distinct (map p_IntentID rows) \<Longrightarrow> mem_payment_rows rows i = Some p \<longleftrightarrow> p \<in> set rows \<and> p_IntentID p = i"
  by (auto simp: mem_payment_rows_def map_of_eq_Some_iff o_def)

lemma mem_payment_rows_None: "mem_payment_rows rows i = None \<longleftrightarrow> i \<notin> p_IntentID ` set rows"
  by (simp add: mem_payment_rows_def map_of_eq_None_iff image_image)

lemma mem_active_row:
  "distinct (map p_IntentID rows) \<Longrightarrow>
     active_row (mem_payment_rows rows) sid p \<longleftrightarrow>
     p \<in> set rows \<and> p_BookingSessionID p = sid \<and> active_status (p_Status p)"
  by (auto simp: active_row_def mem_payment_rows_Some)

lemma mem_payment_rows_append:
  "distinct (map p_IntentID rows) \<Longrightarrow> p_IntentID p \<notin> p_IntentID ` set rows \<Longrightarrow>
     mem_payment_rows (rows @ [p]) = (mem_payment_rows rows)(p_IntentID p \<mapsto> p)"
  using mem_payment_rows_None [of rows "p_IntentID p"]
  by (auto simp: mem_payment_rows_def map_add_def fun_eq_iff split: option.split)

lemma find_index_Inl: "find_index_by_intent i rows = Inl e \<longleftrightarrow>
    e = ErrPaymentNotFound \<and> i \<notin> p_IntentID ` set rows"
  by (induction rows) (auto split: sum.splits)

lemma find_index_Inr: "find_index_by_intent i rows = Inr n \<Longrightarrow>
    n < length rows \<and> p_IntentID (rows ! n) = i"
  by (induction rows arbitrary: n) (auto split: if_splits sum.splits)

lemma find_index_row:
  assumes "distinct (map p_IntentID rows)" "mem_payment_rows rows i = Some p"
  obtains n where "find_index_by_intent i rows = Inr n" "n < length rows" "rows ! n = p"
proof (cases "find_index_by_intent i rows")
  case (Inl e)
  with assms(2) mem_payment_rows_intent [OF assms(2)] show ?thesis
    by (auto simp: find_index_Inl)
next
  case (Inr n)
  note n = find_index_Inr [OF Inr]
  then have "mem_payment_rows rows i = Some (rows ! n)"
    using assms(1) by (simp add: mem_payment_rows_Some)
  with assms(2) n Inr that show ?thesis by simp
qed

lemma mem_payment_rows_update:
  assumes d: "distinct (map p_IntentID rows)" and n: "n < length rows" and q: "p_IntentID q = p_IntentID (rows ! n)"
  shows "mem_payment_rows (rows[n := q]) = (mem_payment_rows rows)(p_IntentID q \<mapsto> q)"
    and "distinct (map p_IntentID (rows[n := q]))"
proof -
  have same: "map p_IntentID (rows[n := q]) = map p_IntentID rows"
    using n q by (simp add: map_update list_update_same_conv)
  then show d': "distinct (map p_IntentID (rows[n := q]))" using d by simp
  have "mem_payment_rows (rows[n := q]) i = ((mem_payment_rows rows)(p_IntentID q \<mapsto> q)) i" for i
  proof (cases "i = p_IntentID q")
    case True
    have "q \<in> set (rows[n := q])" using n by (rule set_update_memI)
    with True d' show ?thesis by (simp add: mem_payment_rows_Some)
  next
    case False
    have "(p \<in> set (rows[n := q]) \<and> p_IntentID p = i) \<longleftrightarrow> (p \<in> set rows \<and> p_IntentID p = i)" for p
      using n q False by (auto simp: in_set_conv_nth nth_list_update split: if_splits)
    then have "mem_payment_rows (rows[n := q]) i = Some p \<longleftrightarrow> mem_payment_rows rows i = Some p" for p
      using d d' by (simp add: mem_payment_rows_Some)
    with False show ?thesis
      by (metis fun_upd_other not_Some_eq)
  qed
  then show "mem_payment_rows (rows[n := q]) = (mem_payment_rows rows)(p_IntentID q \<mapsto> q)" ..
qed

text \<open>Keeping the rows well formed under the two kinds of change.\<close>

lemma payments_ok_upd:
  assumes "payments_ok R" "p_IntentID q = i"
    and "active_status (p_Status q) \<Longrightarrow> \<forall>p. active_row R (p_BookingSessionID q) p \<longrightarrow> R i = Some p"
  shows "payments_ok (R(i \<mapsto> q))"
proof -
  have key: "p_IntentID p = j" if "R j = Some p" for j p
    using assms(1) that by (simp add: payments_ok_def)
  have act: "active_row R sid p" "p_IntentID p \<noteq> i"
    if "active_row (R(i \<mapsto> q)) sid p" "p \<noteq> q" for sid p
    using that key by (auto simp: active_row_def split: if_splits)
  have one: "p = p'" if "active_row R sid p" "active_row R sid p'" for sid p p'
    using assms(1) that unfolding payments_ok_def by blast
  have new: "p_IntentID p = i" if "active_row R sid p" "active_row (R(i \<mapsto> q)) sid q" for sid p
    using assms(3) that key by (auto simp: active_row_def)
  show ?thesis
    unfolding payments_ok_def
  proof (intro conjI allI impI)
    show "p_IntentID p = j" if "(R(i \<mapsto> q)) j = Some p" for j p
      using that key assms(2) by (simp split: if_splits)
    show "p = p'" if "active_row (R(i \<mapsto> q)) sid p" "active_row (R(i \<mapsto> q)) sid p'" for sid p p'
      using act [OF that(1)] act [OF that(2)] one new that by metis
  qed
qed

section \<open>The contract\<close>

lemma insert_clash_None:
  "insert_clash p rows = None \<longleftrightarrow> p_IntentID p \<notin> p_IntentID ` set rows \<and>
     (\<forall>r \<in> set rows. p_BookingSessionID r = p_BookingSessionID p \<longrightarrow> \<not> active_status (p_Status r))"
  by (induction rows) auto

lemma insert_clash_active:
  "p_IntentID p \<notin> p_IntentID ` set rows \<Longrightarrow> insert_clash p rows = Some e \<Longrightarrow> e = ErrPaymentIntentExists"
  by (induction rows) (auto split: if_splits)

text \<open>The gateway mints a new intent identifier for every insert.\<close>

definition mem_insertable :: "mem_payments \<Rightarrow> payment \<Rightarrow> bool" where
  "mem_insertable rows p \<longleftrightarrow> p_IntentID p \<notin> p_IntentID ` set rows"

lemma mem_insert_keeps:
  assumes ok: "mem_payments_ok rows" and c: "mem_insert_intent n now p rows = (Inr row, rows')"
  shows "row = p\<lparr>p_ID := n, p_Status := StatusIntent, p_CreatedAt := now, p_UpdatedAt := now\<rparr>"
    and "mem_payment_rows rows' = (mem_payment_rows rows)(p_IntentID p \<mapsto> row)"
    and "mem_payments_ok rows'"
proof -
  have d: "distinct (map p_IntentID rows)" and R: "payments_ok (mem_payment_rows rows)"
    using ok by (simp_all add: mem_payments_ok_def)
  have n: "insert_clash p rows = None"
    using c by (simp add: mem_insert_intent_def split: option.splits)
  then show row: "row = p\<lparr>p_ID := n, p_Status := StatusIntent, p_CreatedAt := now, p_UpdatedAt := now\<rparr>"
    using c by (auto simp: mem_insert_intent_def Let_def)
  have app: "rows' = rows @ [row]"
    using c n by (auto simp: mem_insert_intent_def Let_def)
  show rows': "mem_payment_rows rows' = (mem_payment_rows rows)(p_IntentID p \<mapsto> row)"
    using n mem_payment_rows_append [OF d, of row] by (simp add: app row insert_clash_None)
  have "payments_ok ((mem_payment_rows rows)(p_IntentID p \<mapsto> row))"
    using n by (intro payments_ok_upd R) (auto simp: row mem_active_row [OF d] insert_clash_None)
  moreover have "distinct (map p_IntentID rows')"
    using n d by (simp add: app row insert_clash_None)
  ultimately show "mem_payments_ok rows'"
    by (simp add: mem_payments_ok_def rows')
qed

lemma mem_insert_Inl: "mem_insert_intent n now p rows = (Inl e, rows') \<Longrightarrow> rows' = rows"
  by (auto simp: mem_insert_intent_def Let_def split: option.splits)

lemma mem_insert_rows:
  assumes "mem_payments_ok s" "mem_insert_intent n now p s = (r, s')"
  shows "mem_payment_rows s' = mem_payment_rows s \<or>
     (\<exists>row. r = Inr row \<and> mem_payment_rows s (p_IntentID p) = None \<and>
        mem_payment_rows s' = (mem_payment_rows s)(p_IntentID p \<mapsto> row) \<and> p_Status row = StatusIntent)"
proof (cases r)
  case (Inl e)
  with mem_insert_Inl assms(2) show ?thesis by blast
next
  case (Inr row)
  with assms(2) have c: "mem_insert_intent n now p s = (Inr row, s')" by simp
  then have "insert_clash p s = None" by (simp add: mem_insert_intent_def split: option.splits)
  then have "mem_payment_rows s (p_IntentID p) = None"
    by (simp add: insert_clash_None mem_payment_rows_None)
  with mem_insert_keeps(1,2) [OF assms(1) c] Inr show ?thesis by simp
qed

text \<open>Both guarded edges replace one open row by the same charge under another status.\<close>

definition set_status :: "payment_status \<Rightarrow> time \<Rightarrow> payment \<Rightarrow> payment" where
  "set_status st now p = p\<lparr>p_Status := st, p_UpdatedAt := now\<rparr>"

lemma set_status_simps [simp]:
  "same_charge (set_status st now p) p" "p_Status (set_status st now p) = st"
  "p_IntentID (set_status st now p) = p_IntentID p"
  "p_BookingSessionID (set_status st now p) = p_BookingSessionID p"
  by (simp_all add: set_status_def same_charge_def)

lemma set_status_ok:
  assumes ok: "mem_payments_ok rows" and n: "n < length rows" and o: "open_status (p_Status (rows ! n))"
  shows "mem_payments_ok (rows[n := set_status st now (rows ! n)])"
    and "mem_payment_rows (rows[n := set_status st now (rows ! n)])
      = (mem_payment_rows rows)(p_IntentID (rows ! n) \<mapsto> set_status st now (rows ! n))"
proof -
  have d: "distinct (map p_IntentID rows)" and R: "payments_ok (mem_payment_rows rows)"
    using ok by (simp_all add: mem_payments_ok_def)
  have row: "mem_payment_rows rows (p_IntentID (rows ! n)) = Some (rows ! n)"
    using d n by (simp add: mem_payment_rows_Some)
  with n o have a: "active_row (mem_payment_rows rows) (p_BookingSessionID (rows ! n)) (rows ! n)"
    by (auto simp: active_row_def active_open)
  have one: "p = rows ! n" if "active_row (mem_payment_rows rows) (p_BookingSessionID (rows ! n)) p" for p
    using R a that unfolding payments_ok_def by blast
  show upd: "mem_payment_rows (rows[n := set_status st now (rows ! n)])
      = (mem_payment_rows rows)(p_IntentID (rows ! n) \<mapsto> set_status st now (rows ! n))"
    using mem_payment_rows_update(1) [OF d n, of "set_status st now (rows ! n)"] by simp
  show "mem_payments_ok (rows[n := set_status st now (rows ! n)])"
    unfolding mem_payments_ok_def upd
    using mem_payment_rows_update(2) [OF d n, of "set_status st now (rows ! n)"] row one
    by (intro conjI payments_ok_upd [OF R]) auto
qed

lemma mem_capture_unknown:
  "mem_payment_rows rows i = None \<Longrightarrow> mem_capture now i rows = (Inl ErrPaymentNotFound, rows)"
  "mem_payment_rows rows i = None \<Longrightarrow> mem_mark_failed now i rows = (Inl ErrPaymentNotFound, rows)"
  using find_index_Inl [of i rows ErrPaymentNotFound]
  by (auto simp: mem_capture_def mem_mark_failed_def mem_payment_rows_None)

lemma mem_capture_known:
  assumes "mem_payments_ok rows" "mem_payment_rows rows i = Some p"
  obtains n where "n < length rows" "rows ! n = p"
    "mem_capture now i rows =
      (if open_status (p_Status p) then (Inr (set_status StatusCaptured now p, True),
         rows[n := set_status StatusCaptured now p])
       else if p_Status p = StatusCaptured then (Inr (p, False), rows)
       else (Inl (Errorf ''payment: capture: intent %s is in status %q: %w''
               [ArgS i, ArgS (p_Status p)] [ErrPaymentInvalidTransition]), rows))"
    "mem_mark_failed now i rows =
      (if open_status (p_Status p) then (Inr (set_status StatusFailed now p),
         rows[n := set_status StatusFailed now p])
       else if p_Status p = StatusFailed then (Inr p, rows)
       else (Inl (Errorf ''payment: mark failed: intent %s is in status %q: %w''
               [ArgS i, ArgS (p_Status p)] [ErrPaymentInvalidTransition]), rows))"
proof -
  from assms obtain n where "find_index_by_intent i rows = Inr n" "n < length rows" "rows ! n = p"
    by (auto simp: mem_payments_ok_def elim: find_index_row)
  then show thesis
    by (intro that) (auto simp: mem_capture_def mem_mark_failed_def Let_def open_status_def set_status_def)
qed

lemma mem_edges_keep_ok:
  assumes ok: "mem_payments_ok rows"
  shows "mem_payments_ok (snd (mem_capture now i rows))" "mem_payments_ok (snd (mem_mark_failed now i rows))"
proof -
  have "mem_payments_ok (snd (mem_capture now i rows)) \<and> mem_payments_ok (snd (mem_mark_failed now i rows))"
  proof (cases "mem_payment_rows rows i")
    case None
    with ok show ?thesis by (simp add: mem_capture_unknown)
  next
    case (Some p)
    obtain n where n: "n < length rows" "rows ! n = p"
      and c: "mem_capture now i rows =
        (if open_status (p_Status p) then (Inr (set_status StatusCaptured now p, True),
           rows[n := set_status StatusCaptured now p])
         else if p_Status p = StatusCaptured then (Inr (p, False), rows)
         else (Inl (Errorf ''payment: capture: intent %s is in status %q: %w''
                 [ArgS i, ArgS (p_Status p)] [ErrPaymentInvalidTransition]), rows))"
        "mem_mark_failed now i rows =
        (if open_status (p_Status p) then (Inr (set_status StatusFailed now p),
           rows[n := set_status StatusFailed now p])
         else if p_Status p = StatusFailed then (Inr p, rows)
         else (Inl (Errorf ''payment: mark failed: intent %s is in status %q: %w''
                 [ArgS i, ArgS (p_Status p)] [ErrPaymentInvalidTransition]), rows))"
      by (rule mem_capture_known [OF ok Some])
    show ?thesis
      unfolding c using ok set_status_ok(1) [OF ok n(1)] n(2) by simp
  qed
  then show "mem_payments_ok (snd (mem_capture now i rows))" "mem_payments_ok (snd (mem_mark_failed now i rows))"
    by simp_all
qed

lemma mem_get_active_found:
  assumes "mem_payments_ok rows" "active_row (mem_payment_rows rows) sid p"
  shows "mem_get_active sid rows = Inr p"
proof -
  have d: "distinct (map p_IntentID rows)" using assms(1) by (simp add: mem_payments_ok_def)
  have p: "p \<in> set rows" "p_BookingSessionID p = sid" "active_status (p_Status p)"
    using assms(2) by (simp_all add: mem_active_row [OF d])
  then obtain q where q: "find (\<lambda>r. p_BookingSessionID r = sid \<and> is_active (p_Status r)) (rev rows) = Some q"
    by (cases "find (\<lambda>r. p_BookingSessionID r = sid \<and> is_active (p_Status r)) (rev rows)")
       (auto simp: find_None_iff)
  from find_member [OF q] have "active_row (mem_payment_rows rows) sid q"
    by (simp add: mem_active_row [OF d])
  with assms have "q = p"
    unfolding mem_payments_ok_def payments_ok_def by blast
  with q show ?thesis by (simp add: mem_get_active_def)
qed

lemma mem_get_active_none:
  assumes "mem_payments_ok rows" "\<forall>p. \<not> active_row (mem_payment_rows rows) sid p"
  shows "mem_get_active sid rows = Inl ErrPaymentNotFound"
proof -
  have d: "distinct (map p_IntentID rows)" using assms(1) by (simp add: mem_payments_ok_def)
  have "find (\<lambda>r. p_BookingSessionID r = sid \<and> is_active (p_Status r)) (rev rows) = None"
    using assms(2) by (auto simp: find_None_iff mem_active_row [OF d])
  then show ?thesis by (simp add: mem_get_active_def)
qed

lemma mem_get_by_intent_row:
  assumes "mem_payments_ok rows"
  shows "mem_get_by_intent i rows =
    (case mem_payment_rows rows i of None \<Rightarrow> Inl ErrPaymentNotFound | Some p \<Rightarrow> Inr p)"
proof -
  have "find (\<lambda>r. p_IntentID r = i) rows = mem_payment_rows rows i"
    by (induction rows) (auto simp: mem_payment_rows_def)
  then show ?thesis by (simp add: mem_get_by_intent_def)
qed

lemma mem_has_captured_paid:
  "mem_payments_ok rows \<Longrightarrow> mem_has_captured sid rows = Inr (paid (mem_payment_rows rows) sid)"
  by (auto simp: mem_has_captured_def paid_def mem_payments_ok_def mem_payment_rows_Some list_ex_iff)

interpretation mem_ps: payment_store mem_payments_ok mem_payment_rows mem_insertable
    mem_insert_intent mem_get_active mem_get_by_intent mem_capture mem_mark_failed mem_has_captured
proof
  fix s p n now r s' cr i q sid
  show "mem_payments_ok s \<Longrightarrow> payments_ok (mem_payment_rows s)"
    by (simp add: mem_payments_ok_def)
  assume ok: "mem_payments_ok s"
  show "mem_insert_intent n now p s = (r, s') \<Longrightarrow> mem_payment_rows s' = mem_payment_rows s \<or>
      (\<exists>row. r = Inr row \<and> mem_payment_rows s (p_IntentID p) = None \<and>
         mem_payment_rows s' = (mem_payment_rows s)(p_IntentID p \<mapsto> row) \<and> p_Status row = StatusIntent)"
    by (rule mem_insert_rows [OF ok])
  show "mem_insert_intent n now p s = (r, s') \<Longrightarrow> mem_payments_ok s'"
    using ok mem_insert_keeps(3) [OF ok, of n now p] mem_insert_Inl [of n now p s] by (cases r) auto
  show "mem_capture now i s = (cr, s') \<Longrightarrow> mem_payments_ok s'"
    using mem_edges_keep_ok(1) [OF ok, of now i] by simp
  show "mem_mark_failed now i s = (r, s') \<Longrightarrow> mem_payments_ok s'"
    using mem_edges_keep_ok(2) [OF ok, of now i] by simp
  have d: "distinct (map p_IntentID s)" using ok by (simp add: mem_payments_ok_def)
  show "\<exists>row s'. mem_insert_intent n now p s = (Inr row, s') \<and>
      mem_payment_rows s' = (mem_payment_rows s)(p_IntentID p \<mapsto> row) \<and>
      p_Status row = StatusIntent \<and> p_BookingSessionID row = p_BookingSessionID p \<and>
      p_IntentID row = p_IntentID p \<and> p_AmountCents row = p_AmountCents p"
    if "mem_insertable s p" "\<forall>q. \<not> active_row (mem_payment_rows s) (p_BookingSessionID p) q"
  proof -
    have n: "insert_clash p s = None"
      using that by (auto simp: insert_clash_None mem_insertable_def mem_active_row [OF d])
    then obtain row s' where c: "mem_insert_intent n now p s = (Inr row, s')"
      by (simp add: mem_insert_intent_def Let_def)
    with mem_insert_keeps(1,2) [OF ok c] show ?thesis by simp
  qed
  show "\<exists>s'. mem_insert_intent n now p s = (Inl ErrPaymentIntentExists, s') \<and>
      mem_payment_rows s' = mem_payment_rows s"
    if "mem_insertable s p" "active_row (mem_payment_rows s) (p_BookingSessionID p) q"
  proof -
    have "insert_clash p s \<noteq> None"
      using that by (auto simp: insert_clash_None mem_active_row [OF d])
    then have "insert_clash p s = Some ErrPaymentIntentExists"
      using that(1) insert_clash_active [of p s] by (auto simp: mem_insertable_def)
    then show ?thesis by (simp add: mem_insert_intent_def)
  qed
  show "active_row (mem_payment_rows s) sid p \<Longrightarrow> mem_get_active sid s = Inr p"
    by (rule mem_get_active_found [OF ok])
  show "\<forall>p. \<not> active_row (mem_payment_rows s) sid p \<Longrightarrow> mem_get_active sid s = Inl ErrPaymentNotFound"
    by (rule mem_get_active_none [OF ok])
  show "mem_get_by_intent i s = (case mem_payment_rows s i of None \<Rightarrow> Inl ErrPaymentNotFound | Some p \<Rightarrow> Inr p)"
    by (rule mem_get_by_intent_row [OF ok])
  show "mem_has_captured sid s = Inr (paid (mem_payment_rows s) sid)"
    by (rule mem_has_captured_paid [OF ok])
  show "mem_payment_rows s i = None \<Longrightarrow> mem_capture now i s = (Inl ErrPaymentNotFound, s)"
    "mem_payment_rows s i = None \<Longrightarrow> mem_mark_failed now i s = (Inl ErrPaymentNotFound, s)"
    by (simp_all add: mem_capture_unknown)
  assume row: "mem_payment_rows s i = Some p"
  obtain k where k: "k < length s" "s ! k = p"
    and c: "mem_capture now i s =
        (if open_status (p_Status p) then (Inr (set_status StatusCaptured now p, True),
           s[k := set_status StatusCaptured now p])
         else if p_Status p = StatusCaptured then (Inr (p, False), s)
         else (Inl (Errorf ''payment: capture: intent %s is in status %q: %w''
                 [ArgS i, ArgS (p_Status p)] [ErrPaymentInvalidTransition]), s))"
    and f: "mem_mark_failed now i s =
        (if open_status (p_Status p) then (Inr (set_status StatusFailed now p),
           s[k := set_status StatusFailed now p])
         else if p_Status p = StatusFailed then (Inr p, s)
         else (Inl (Errorf ''payment: mark failed: intent %s is in status %q: %w''
                 [ArgS i, ArgS (p_Status p)] [ErrPaymentInvalidTransition]), s))"
    by (rule mem_capture_known [OF ok row])
  have key: "p_IntentID p = i" using mem_payment_rows_intent [OF row] by simp
  note upd = set_status_ok(2) [OF ok k(1), unfolded k(2) key]
  show "open_status (p_Status p) \<Longrightarrow> \<exists>row s'. mem_capture now i s = (Inr (row, True), s') \<and>
      mem_payment_rows s' = (mem_payment_rows s)(i \<mapsto> row) \<and> same_charge row p \<and> p_Status row = StatusCaptured"
    using c upd by simp
  show "open_status (p_Status p) \<Longrightarrow> \<exists>row s'. mem_mark_failed now i s = (Inr row, s') \<and>
      mem_payment_rows s' = (mem_payment_rows s)(i \<mapsto> row) \<and> same_charge row p \<and> p_Status row = StatusFailed"
    using f upd by simp
  show "p_Status p = StatusCaptured \<Longrightarrow> mem_capture now i s = (Inr (p, False), s)"
    using c by (simp add: open_status_def)
  show "p_Status p = StatusFailed \<Longrightarrow> mem_mark_failed now i s = (Inr p, s)"
    using f by (simp add: open_status_def)
  show "\<not> open_status (p_Status p) \<Longrightarrow> p_Status p \<noteq> StatusCaptured \<Longrightarrow>
      \<exists>e. mem_capture now i s = (Inl e, s) \<and> errors_is e ErrPaymentInvalidTransition"
    using c by simp
  show "\<not> open_status (p_Status p) \<Longrightarrow> p_Status p \<noteq> StatusFailed \<Longrightarrow>
      \<exists>e. mem_mark_failed now i s = (Inl e, s) \<and> errors_is e ErrPaymentInvalidTransition"
    using f by simp
qed

text \<open>\<open>SeedCaptured\<close> appends the row an insert and a capture at the same instant produce together.\<close>

lemma find_index_last:
  "i \<notin> p_IntentID ` set rows \<Longrightarrow> p_IntentID p = i \<Longrightarrow>
     find_index_by_intent i (rows @ [p]) = Inr (length rows)"
  by (induction rows) auto

lemma seed_is_insert_capture:
  assumes "insert_clash p rows = None"
    and p: "p_Gateway p = ''fake''" "p_Currency p = DefaultCurrency"
  shows "snd (mem_seed_captured n now (p_BookingSessionID p) (p_IntentID p) (p_AmountCents p) rows)
    = snd (mem_capture now (p_IntentID p) (snd (mem_insert_intent n now p rows)))"
proof -
  let ?row = "p\<lparr>p_ID := n, p_Status := StatusIntent, p_CreatedAt := now, p_UpdatedAt := now\<rparr>"
  have ins: "snd (mem_insert_intent n now p rows) = rows @ [?row]"
    using assms(1) by (simp add: mem_insert_intent_def Let_def)
  have "find_index_by_intent (p_IntentID p) (rows @ [?row]) = Inr (length rows)"
    using assms(1) by (intro find_index_last) (simp_all add: insert_clash_None)
  then show ?thesis
    using p by (simp add: ins mem_capture_def Let_def mem_seed_captured_def payment.equality)
qed

end
