(* ===== verification/MemoryServer.thy ===== *)
theory MemoryServer
  imports ServerProgress MemHoldStore MemBookingStore MemPaymentStore
begin

text \<open>
  The server on the in-memory stores, the composition its unit and race tests run: the
  interpretation of the \<open>server\<close> locale, and the properties of the booking and payment use
  cases over it.
\<close>

section \<open>Composition\<close>

definition mem_stores :: "(mem_holds, mem_bookings, mem_payments) stores" where
  "mem_stores = \<lparr>
     st_hold = mem_hold, st_release = mem_release, st_get = mem_get, st_held = mem_held_seats,
     st_confirm = mem_confirm, st_by_session = mem_by_session, st_seat_confirmed = mem_seat_confirmed,
     st_confirmed_seats = mem_confirmed_seats,
     st_insert = mem_insert_intent, st_get_active = mem_get_active, st_get_intent = mem_get_by_intent,
     st_capture = mem_capture, st_fail = mem_mark_failed, st_has_captured = mem_has_captured\<rparr>"

lemma mem_stores_fields:
  "st_hold mem_stores = mem_hold" "st_release mem_stores = mem_release"
  "st_get mem_stores = mem_get" "st_held mem_stores = mem_held_seats"
  "st_confirm mem_stores = mem_confirm" "st_by_session mem_stores = mem_by_session"
  "st_seat_confirmed mem_stores = mem_seat_confirmed" "st_confirmed_seats mem_stores = mem_confirmed_seats"
  "st_insert mem_stores = mem_insert_intent" "st_get_active mem_stores = mem_get_active"
  "st_get_intent mem_stores = mem_get_by_intent" "st_capture mem_stores = mem_capture"
  "st_fail mem_stores = mem_mark_failed" "st_has_captured mem_stores = mem_has_captured"
  by (simp_all add: mem_stores_def)

type_synonym mem_world = "(mem_holds, mem_bookings, mem_payments) world"

abbreviation mem_ports :: "mem_world ports" where
  "mem_ports \<equiv> world_ports mem_stores"

interpretation mem_srv: server mem_stores mem_holds_ok mem_live "\<lambda>h. h" mem_used mem_bookings_ok mem_rows
    mem_bookable "\<lambda>b. b" "\<lambda>_ _. True" mem_payments_ok mem_payment_rows mem_insertable
  unfolding server_def mem_stores_fields
  by (intro conjI mem_hs.hold_store_axioms mem_bs.booking_store_axioms mem_ps.payment_store_axioms)

definition mem_start :: "time \<Rightarrow> (nat \<Rightarrow> string) \<Rightarrow> (string \<Rightarrow> screening res) \<Rightarrow> fake_gateway \<Rightarrow> int \<Rightarrow> mem_world" where
  "mem_start now uuid screenings gw maxHolds = \<lparr>w_now = now, w_uuid = uuid, w_next = 0,
     w_holds = new_mem_holds maxHolds, w_bookings = new_mem_bookings, w_payments = [],
     w_screenings = screenings, w_gateway = gw\<rparr>"

definition mem_world_ok :: "mem_world \<Rightarrow> bool" where
  "mem_world_ok w \<longleftrightarrow> mem_holds_ok (w_now w) (w_holds w) \<and> mem_bookings_ok (w_bookings w) \<and>
     mem_payments_ok (w_payments w) \<and> mem_used (w_holds w) \<subseteq> w_uuid w ` {..<w_next w} \<and> inj (w_uuid w)"

lemma mem_world_ok_inv: "mem_srv.world_inv w \<longleftrightarrow> mem_world_ok w"
  by (simp add: mem_srv.world_inv_def mem_world_ok_def mem_srv.minted_def)

lemma mem_sale_of: "mem_srv.sale_of h b \<longleftrightarrow> booking_of h b"
  by (auto simp: mem_srv.sale_of_def booking_of_def same_booking_seat_def intro: exI [of _ b])

lemma mem_start_ok: "inj uuid \<Longrightarrow> mem_world_ok (mem_start now uuid scr gw n)"
  by (simp add: mem_world_ok_def mem_start_def new_mem_holds_ok mem_used_def new_mem_holds_def
      mem_payments_ok_def payments_ok_def mem_payment_rows_def active_row_def
      mem_holds_ok_def mem_sessions_ok_def mem_seats_ok_def mem_users_ok_def mem_size_ok_def user_holds_def)

lemma mem_start_live: "mem_srv.live_holds (mem_start now uuid scr gw n) = {}"
  by (simp add: mem_srv.live_holds_def mem_live_def mem_start_def new_mem_holds_def)

lemma mem_start_rows: "mem_rows (w_bookings (mem_start now uuid scr gw n)) = {}"
  by (simp add: mem_rows_def mem_start_def new_mem_bookings_def)

lemmas mem_run_facts = mem_srv.run_no_double_sale [unfolded mem_world_ok_inv]
  mem_srv.run_backed [unfolded mem_world_ok_inv]

lemma mem_run_from_start:
  assumes "inj uuid" "server_run ttl mem_ports (mem_start now uuid scr gw n, {}, []) (w, H, ts)"
  shows "mem_srv.config_inv (w, H, ts)"
  using mem_srv.config_run [OF assms(2)] mem_srv.config_start [of "mem_start now uuid scr gw n"]
    assms(1) mem_start_ok mem_start_live mem_start_rows
  by (simp add: mem_world_ok_inv)

lemma mem_live_alive: "mem_live now s sid = Some h \<Longrightarrow> now < h_ExpiresAt h"
  by (simp add: mem_live_Some)

section \<open>A concrete world\<close>

text \<open>One screening, one live hold by one buyer, and the captured payment of its session.\<close>

definition demo_uuid :: "nat \<Rightarrow> string" where
  "demo_uuid n = replicate (Suc n) (CHR ''x'')"

definition demo_screening :: screening where
  "demo_screening = \<lparr>sc_ID = ''scr'', sc_MovieID = ''mov'', sc_StartsAt = 0, sc_Rows = [''A'', ''B''],
     sc_SeatsPerRow = 2, sc_PriceCents = 1200, sc_CreatedAt = 0\<rparr>"

definition demo_screenings :: "string \<Rightarrow> screening res" where
  "demo_screenings scr = (if scr = ''scr'' then Inr demo_screening else Inl ErrScreeningNotFound)"

definition demo_gateway :: fake_gateway where
  "demo_gateway = \<lparr>fg_secret = ''whsec'', fg_failCreate = None, fg_failCapture = None\<rparr>"

definition demo_seat :: seat where
  "demo_seat = \<lparr>s_Row = ''A'', s_Number = 1\<rparr>"

definition demo_hold :: hold where
  "demo_hold = \<lparr>h_SessionID = ''x'', h_ScreeningID = ''scr'', h_Seat = demo_seat, h_UserID = ''bob'',
     h_HoldToken = ''xx'', h_ExpiresAt = 900 * second\<rparr>"

definition demo_payment :: "payment_status \<Rightarrow> payment" where
  "demo_payment st = \<lparr>p_ID = ''p1'', p_BookingSessionID = ''x'', p_Gateway = ''fake'', p_IntentID = ''i1'',
     p_Status = st, p_AmountCents = 1200, p_Currency = ''usd'', p_CreatedAt = 0, p_UpdatedAt = 0\<rparr>"

definition demo_start :: mem_world where
  "demo_start = mem_start 0 demo_uuid demo_screenings demo_gateway 4"

definition demo_world :: "payment list \<Rightarrow> mem_world" where
  "demo_world ps = demo_start\<lparr>w_next := 2, w_holds := snd (mem_hold 0 demo_hold (new_mem_holds 4)), w_payments := ps\<rparr>"

lemma demo_uuid_inj: "inj demo_uuid"
  by (rule injI) (metis demo_uuid_def length_replicate nat.inject)

lemma demo_seat_ok: "seat_well_formed demo_seat" "int64_range (s_Number demo_seat)"
  by (simp_all add: demo_seat_def seat_well_formed_def row_label_def is_upper_letter_def byte_def int64_range_def)

lemma demo_hold_placed: "mem_hold 0 demo_hold (new_mem_holds 4) = (Inr (), snd (mem_hold 0 demo_hold (new_mem_holds 4)))"
  by (simp add: mem_hold_def new_mem_holds_def user_holds_def Let_def)

lemma demo_hold_fresh: "fresh_hold (mem_used (new_mem_holds 4)) demo_hold"
  using demo_seat_ok by (simp add: fresh_hold_def demo_hold_def mem_used_def new_mem_holds_def)

lemma demo_hold_time: "0 < h_ExpiresAt demo_hold"
  by (simp add: demo_hold_def)

lemma demo_live:
  "mem_live 0 (w_holds (demo_world ps)) sid = (if sid = ''x'' then Some demo_hold else None)"
proof -
  have "mem_live 0 (new_mem_holds 4) sid = None" by (simp add: mem_live_def new_mem_holds_def)
  then show ?thesis
    using mem_hs.hold_ok [OF new_mem_holds_ok demo_hold_fresh demo_hold_time demo_hold_placed]
    by (simp add: demo_world_def demo_hold_def)
qed

lemma demo_used: "mem_used (w_holds (demo_world ps)) \<subseteq> {''x'', ''xx''}"
proof -
  have "mem_used (new_mem_holds 4) = {}" by (simp add: mem_used_def new_mem_holds_def)
  then show ?thesis
    using mem_hs.used_hold [OF new_mem_holds_ok demo_hold_fresh demo_hold_placed] by (auto simp: demo_world_def demo_hold_def)
qed

lemma demo_world_simps [simp]:
  "w_now (demo_world ps) = 0" "w_payments (demo_world ps) = ps" "w_bookings (demo_world ps) = new_mem_bookings"
  "w_gateway (demo_world ps) = demo_gateway" "w_screenings (demo_world ps) = demo_screenings"
  "w_uuid (demo_world ps) = demo_uuid" "w_next (demo_world ps) = 2"
  by (simp_all add: demo_world_def demo_start_def mem_start_def)

lemma demo_world_ok: "mem_payments_ok ps \<Longrightarrow> mem_world_ok (demo_world ps)"
proof -
  assume "mem_payments_ok ps"
  moreover have "mem_holds_ok 0 (w_holds (demo_world ps))"
    using mem_hs.invar_hold [OF new_mem_holds_ok demo_hold_fresh demo_hold_placed] by (simp add: demo_world_def)
  moreover have "''x'' = demo_uuid 0" "''xx'' = demo_uuid 1"
    by (simp_all add: demo_uuid_def)
  then have "{''x'', ''xx''} \<subseteq> demo_uuid ` {..<2}" by auto
  ultimately show ?thesis
    using demo_used [of ps] demo_uuid_inj by (auto simp: mem_world_ok_def)
qed

lemma demo_payments_ok: "mem_payments_ok []" "mem_payments_ok [demo_payment st]"
  by (auto simp: mem_payments_ok_def payments_ok_def mem_payment_rows_def active_row_def demo_payment_def
      split: if_splits)

lemma demo_paid: "paid (mem_payment_rows [demo_payment StatusCaptured]) ''x''"
  by (auto simp: paid_def mem_payment_rows_def demo_payment_def)

end
