(* ===== verification/BookingProperties.thy ===== *)
theory BookingProperties
  imports MemoryServer
begin

text \<open>
  The properties of the booking and payment use cases on the in-memory stores, each with a
  witness on a concrete world. The first group speaks of every interleaving of any number
  of requests, with calls that fail and clocks that advance; the others of one request.
\<close>

section \<open>A witness run\<close>

text \<open>One buyer holds a seat, asks for an intent, pays, and confirms: four requests in a row.\<close>

definition demo_requests :: "request list" where
  "demo_requests = [ReqHold ''bob'' ''scr'' demo_seat, ReqCreateIntent ''bob'' ''x'',
     ReqPay ''bob'' ''x'', ReqConfirm ''bob'' ''x'']"

lemma demo_requests_ok: "\<forall>r \<in> set demo_requests. request_ok r"
  using demo_seat_ok by (simp add: demo_requests_def)

definition demo_end :: mem_world where
  "demo_end = snd (run_all (900 * second) mem_ports demo_requests demo_start)"

lemma demo_reaches:
  "\<exists>H ts. server_run (900 * second) mem_ports (demo_start, {}, []) (demo_end, H, ts)"
  using run_all_reaches [OF demo_requests_ok, of "900 * second" mem_ports demo_start "{}" "[]"]
  by (auto simp: demo_end_def)

lemma demo_end_booked: "mb_bySession (w_bookings demo_end) ''x'' \<noteq> None"
  by code_simp

lemma demo_end_row: "\<exists>b \<in> mem_rows (w_bookings demo_end). b_SessionID b = ''x''"
proof -
  obtain b where b: "mb_bySession (w_bookings demo_end) ''x'' = Some b"
    using demo_end_booked by auto
  obtain H ts where "server_run (900 * second) mem_ports (demo_start, {}, []) (demo_end, H, ts)"
    using demo_reaches by blast
  from mem_run_from_start [OF demo_uuid_inj this [unfolded demo_start_def]]
  have "mem_bookings_ok (w_bookings demo_end)"
    by (simp add: mem_srv.config_inv_def mem_srv.world_inv_def)
  with b have "b_SessionID b = ''x''" by (simp add: mem_bookings_ok_def)
  with b show ?thesis by (auto simp: mem_rows_def ran_def)
qed

text \<open>The worlds after the intent was made and after it was paid.\<close>

definition demo_mid :: mem_world where
  "demo_mid = snd (run_all (900 * second) mem_ports (take 2 demo_requests) demo_start)"

definition demo_paid_end :: mem_world where
  "demo_paid_end = snd (run_all (900 * second) mem_ports [ReqPay ''bob'' ''x''] demo_mid)"

lemma demo_mid_reaches:
  "\<exists>H ts H' ts'. server_run (900 * second) mem_ports (demo_start, {}, []) (demo_mid, H, ts) \<and>
     server_run (900 * second) mem_ports (demo_mid, H, ts) (demo_paid_end, H', ts')"
proof -
  have ok: "\<forall>r \<in> set (take 2 demo_requests). request_ok r" "\<forall>r \<in> set [ReqPay ''bob'' ''x'']. request_ok r"
    using demo_requests_ok by (auto dest: in_set_takeD)
  obtain H ts where "server_run (900 * second) mem_ports (demo_start, {}, []) (demo_mid, H, ts)"
    using run_all_reaches [OF ok(1), of "900 * second" mem_ports demo_start "{}" "[]"] by (auto simp: demo_mid_def)
  moreover obtain H' ts' where "server_run (900 * second) mem_ports (demo_mid, H, ts) (demo_paid_end, H', ts')"
    using run_all_reaches [OF ok(2), of "900 * second" mem_ports demo_mid H ts] unfolding demo_paid_end_def by blast
  ultimately show ?thesis by blast
qed

lemma demo_mid_intent:
  "\<exists>p. mem_payment_rows (w_payments demo_mid) ''pi_fake_xxx'' = Some p \<and> p_Status p = StatusIntent"
proof -
  have "map_option p_Status (mem_payment_rows (w_payments demo_mid) ''pi_fake_xxx'') = Some StatusIntent"
    by code_simp
  then show ?thesis by auto
qed

lemma demo_end_captured:
  "\<exists>p. mem_payment_rows (w_payments demo_paid_end) ''pi_fake_xxx'' = Some p \<and> p_Status p = StatusCaptured"
proof -
  have "map_option p_Status (mem_payment_rows (w_payments demo_paid_end) ''pi_fake_xxx'') = Some StatusCaptured"
    by code_simp
  then show ?thesis by auto
qed

section \<open>Every interleaving\<close>

text \<open>C6: however the requests of any number of clients interleave, with calls failing before or after
  they took effect and time passing, no seat is sold twice: two confirmed bookings of one seat of one
  screening are the same booking, and a session never has two bookings.\<close>

theorem no_double_sale:
  assumes "inj uuid"
    and "server_run ttl mem_ports (mem_start now uuid screenings gw maxHolds, {}, []) (w, H, ts)"
    and "b \<in> mem_rows (w_bookings w)" "b' \<in> mem_rows (w_bookings w)"
  shows "(b_SessionID b = b_SessionID b' \<longrightarrow> b = b') \<and>
     (b_Status b = StatusConfirmed \<and> b_Status b' = StatusConfirmed \<and>
      b_ScreeningID b = b_ScreeningID b' \<and> b_Seat b = b_Seat b' \<longrightarrow> b = b')"
  using mem_run_from_start [OF assms(1,2)] assms(3,4)
  by (auto simp: mem_srv.config_inv_def mem_srv.world_inv_def mem_bookings_ok_def arbiter_def same_booking_seat_def)

theorem no_double_sale_witness:
  "\<exists>w H ts b. server_run (900 * second) mem_ports (demo_start, {}, []) (w, H, ts) \<and>
     b \<in> mem_rows (w_bookings w) \<and> (\<forall>b' \<in> mem_rows (w_bookings w). b_SessionID b' = b_SessionID b \<longrightarrow> b' = b)"
proof -
  obtain H ts where r: "server_run (900 * second) mem_ports (demo_start, {}, []) (demo_end, H, ts)"
    using demo_reaches by blast
  obtain b where b: "b \<in> mem_rows (w_bookings demo_end)" using demo_end_row by blast
  show ?thesis
    using r b no_double_sale [OF demo_uuid_inj r [unfolded demo_start_def] _ b] by blast
qed

text \<open>C7: in every interleaving, every booking is backed: its session has a captured payment, and
  the booking is the sale of a hold that was readable earlier in the run, with the same screening,
  seat and buyer.\<close>

theorem sales_are_backed:
  assumes "inj uuid"
    and "server_run ttl mem_ports (mem_start now uuid screenings gw maxHolds, {}, []) (w, H, ts)"
    and "b \<in> mem_rows (w_bookings w)"
  shows "paid (mem_payment_rows (w_payments w)) (b_SessionID b) \<and>
     (\<exists>h \<in> H. b_SessionID b = h_SessionID h \<and> b_ScreeningID b = h_ScreeningID h \<and>
        b_Seat b = h_Seat h \<and> b_UserID b = h_UserID h)"
  using mem_run_from_start [OF assms(1,2)] assms(3)
  by (fastforce simp: mem_srv.config_inv_def mem_srv.backed_def mem_srv.paid_sessions_def mem_sale_of booking_of_def)

theorem sales_are_backed_witness:
  "\<exists>b \<in> mem_rows (w_bookings demo_end). paid (mem_payment_rows (w_payments demo_end)) (b_SessionID b)"
proof -
  obtain H ts where r: "server_run (900 * second) mem_ports (demo_start, {}, []) (demo_end, H, ts)"
    using demo_reaches by blast
  obtain b where b: "b \<in> mem_rows (w_bookings demo_end)" using demo_end_row by blast
  from sales_are_backed [OF demo_uuid_inj r [unfolded demo_start_def] b] b show ?thesis by blast
qed

text \<open>C8: in every interleaving, a payment row keeps its charge (session, intent, amount, currency) for
  ever and its status moves only along the edges of the payment status machine; so captured money never
  becomes failed or open again.\<close>

theorem payments_follow_machine:
  assumes "inj uuid"
    and "server_run ttl mem_ports (mem_start now uuid screenings gw maxHolds, {}, []) c"
    and "server_run ttl mem_ports c c'"
    and "mem_payment_rows (w_payments (fst c)) i = Some p"
  shows "\<exists>q. mem_payment_rows (w_payments (fst c')) i = Some q \<and> same_charge q p \<and>
     can_transition_to\<^sup>*\<^sup>* (p_Status p) (p_Status q) \<and>
     (p_Status p = StatusCaptured \<longrightarrow> p_Status q \<in> {StatusCaptured, StatusRefunding, StatusRefunded})"
proof -
  obtain w H ts where c: "c = (w, H, ts)" by (cases c) auto
  from mem_srv.run_payment [OF assms(3) _ assms(4)] mem_run_from_start [OF assms(1) assms(2) [unfolded c]]
  obtain q where q: "mem_payment_rows (w_payments (fst c')) i = Some q" "mem_srv.later_payment p q"
    using c by auto
  then show ?thesis
    using captured_closed by (auto simp: mem_srv.later_payment_def)
qed

theorem payments_follow_machine_witness:
  "\<exists>q. mem_payment_rows (w_payments demo_paid_end) ''pi_fake_xxx'' = Some q \<and> p_Status q = StatusCaptured \<and>
     can_transition_to\<^sup>*\<^sup>* StatusIntent (p_Status q)"
proof -
  obtain H ts H' ts' where r: "server_run (900 * second) mem_ports (demo_start, {}, []) (demo_mid, H, ts)"
    "server_run (900 * second) mem_ports (demo_mid, H, ts) (demo_paid_end, H', ts')"
    using demo_mid_reaches by blast
  obtain p where p: "mem_payment_rows (w_payments demo_mid) ''pi_fake_xxx'' = Some p" "p_Status p = StatusIntent"
    using demo_mid_intent by blast
  from payments_follow_machine [OF demo_uuid_inj r(1) [unfolded demo_start_def] r(2), of "''pi_fake_xxx''" p] p
  show ?thesis using demo_end_captured by auto
qed

section \<open>Hold and confirm\<close>

text \<open>C16: a granted hold is for a seat inside the geometry that is not sold and that nobody holds; it
  carries the caller, a session and a token that no request was given before and that no hold in the store uses, and
  the configured lifetime; it becomes the session's live hold and disturbs no other hold, booking or payment.\<close>

theorem hold_grants:
  assumes "mem_world_ok w" "seat_well_formed seat" "int64_range (s_Number seat)"
    and "run mem_ports (booking_hold ttl uid scr seat) w = (Inr h, w')"
  shows "(\<exists>sc. w_screenings w scr = Inr sc \<and> has_seat sc seat) \<and>
     \<not> seat_taken (mem_rows (w_bookings w)) scr seat \<and>
     (\<forall>sid h'. mem_live (w_now w) (w_holds w) sid = Some h' \<longrightarrow> \<not> same_seat h' h) \<and>
     h_UserID h = uid \<and> h_ScreeningID h = scr \<and> h_Seat h = seat \<and> h_ExpiresAt h = w_now w + ttl \<and>
     h_SessionID h \<notin> w_uuid w ` {..<w_next w} \<and> h_HoldToken h \<notin> w_uuid w ` {..<w_next w} \<and>
     h_SessionID h \<noteq> h_HoldToken h \<and> {h_SessionID h, h_HoldToken h} \<inter> mem_used (w_holds w) = {} \<and>
     {h_SessionID h, h_HoldToken h} \<subseteq> w_uuid w' ` {..<w_next w'} \<and>
     (\<forall>sid. mem_live (w_now w) (w_holds w') sid =
        (if sid = h_SessionID h then Some h else mem_live (w_now w) (w_holds w) sid)) \<and>
     w_bookings w' = w_bookings w \<and> w_payments w' = w_payments w \<and> mem_world_ok w'"
proof -
  let ?b = "mem_srv.row_of \<lparr>h_SessionID = [], h_ScreeningID = scr, h_Seat = seat, h_UserID = [],
     h_HoldToken = [], h_ExpiresAt = 0\<rparr>"
  have "mem_bookable (w_bookings w) ?b" "b_ScreeningID ?b = scr" "b_Seat ?b = seat"
    using well_formed_keyable [OF assms(2,3)] by (simp_all add: mem_bookable_def)
  note g = mem_srv.hold_granted [OF assms(1) [folded mem_world_ok_inv] assms(2,3) this assms(4)]
  have m: "mem_used (w_holds w) \<subseteq> w_uuid w ` {..<w_next w}" "inj (w_uuid w)" using assms(1) by (simp_all add: mem_world_ok_def)
  have new: "w_uuid w n \<notin> w_uuid w ` {..<w_next w}" "w_uuid w n \<notin> mem_used (w_holds w)" if "w_next w \<le> n" for n
  proof -
    show "w_uuid w n \<notin> w_uuid w ` {..<w_next w}" using m(2) that by (auto dest: injD)
    with m(1) show "w_uuid w n \<notin> mem_used (w_holds w)" by blast
  qed
  have "h_SessionID h = w_uuid w (w_next w)" "h_HoldToken h = w_uuid w (Suc (w_next w))" by (simp_all add: g(3))
  then have "h_SessionID h \<notin> w_uuid w ` {..<w_next w}" "h_HoldToken h \<notin> w_uuid w ` {..<w_next w}"
    "h_SessionID h \<noteq> h_HoldToken h" "{h_SessionID h, h_HoldToken h} \<inter> mem_used (w_holds w) = {}"
    "{h_SessionID h, h_HoldToken h} \<subseteq> w_uuid w' ` {..<w_next w'}"
    using new [of "w_next w"] new [of "Suc (w_next w)"] inj_eq [OF m(2)] unfolding g(12,13) by auto
  then show ?thesis
    using g(1,2,4-7) g(8) [unfolded mem_world_ok_inv] unfolding g(3) by simp
qed

lemma demo_start_ok: "mem_world_ok demo_start"
  unfolding demo_start_def by (rule mem_start_ok [OF demo_uuid_inj])

lemma demo_hold_run:
  "run mem_ports (booking_hold (900 * second) ''bob'' ''scr'' demo_seat) demo_start =
    (Inr demo_hold, snd (run mem_ports (booking_hold (900 * second) ''bob'' ''scr'' demo_seat) demo_start))"
proof -
  have "fst (run mem_ports (booking_hold (900 * second) ''bob'' ''scr'' demo_seat) demo_start) = Inr demo_hold"
    by code_simp
  then show ?thesis by (metis prod.collapse)
qed

theorem hold_grants_witness:
  "mem_live 0 (w_holds (snd (run mem_ports (booking_hold (900 * second) ''bob'' ''scr'' demo_seat) demo_start)))
     ''x'' = Some demo_hold"
proof -
  have n: "w_now demo_start = 0" "h_SessionID demo_hold = ''x''"
    by (simp_all add: demo_start_def mem_start_def demo_hold_def)
  show ?thesis
    using hold_grants [OF demo_start_ok demo_seat_ok demo_hold_run] unfolding n by simp
qed

text \<open>A hold that is refused changes no hold, booking or payment, whatever the reason.\<close>

theorem hold_refusal_changes_nothing:
  assumes "run mem_ports (booking_hold ttl uid scr seat) w = (Inl e, w')"
  shows "w_holds w' = w_holds w \<and> w_bookings w' = w_bookings w \<and> w_payments w' = w_payments w"
  using assms
  by (auto simp: booking_hold_def Let_def world_ports_fields mem_stores_fields
      split: sum.splits if_splits prod.splits dest: mem_hold_err)

theorem hold_refusal_changes_nothing_witness:
  "w_holds (snd (run mem_ports (booking_hold 0 ''bob'' ''nope'' demo_seat) (demo_world []))) = w_holds (demo_world [])"
proof -
  have "run mem_ports (booking_hold 0 ''bob'' ''nope'' demo_seat) (demo_world []) = (Inl ErrScreeningNotFound, demo_world [])"
    by (simp add: booking_hold_def world_ports_fields demo_screenings_def)
  from hold_refusal_changes_nothing [OF this] this show ?thesis by simp
qed

text \<open>C17: the owner of a live hold whose session is paid, with neither the session nor the seat sold, confirms
  it: one new confirmed row, of this hold, is added, the hold is given up and the payments are untouched.\<close>

theorem confirm_sells:
  assumes "mem_world_ok w" "mem_live (w_now w) (w_holds w) sid = Some h"
    and "paid (mem_payment_rows (w_payments w)) sid"
    and "\<not> session_taken (mem_rows (w_bookings w)) sid"
    and "\<not> seat_taken (mem_rows (w_bookings w)) (h_ScreeningID h) (h_Seat h)"
  shows "\<exists>b w'. run mem_ports (booking_confirm (h_UserID h) sid) w = (Inr \<lparr>cr_Booking = b, cr_Created = True\<rparr>, w') \<and>
     booking_of h b \<and> b_Status b = StatusConfirmed \<and>
     mem_rows (w_bookings w') = insert b (mem_rows (w_bookings w)) \<and>
     mem_live (w_now w') (w_holds w') sid = None \<and> w_payments w' = w_payments w \<and> mem_world_ok w'"
proof -
  have w: "mem_srv.world_inv w" using assms(1) by (simp add: mem_world_ok_inv)
  have h: "h_SessionID h = sid" "keyable (h_Seat h)"
    using mem_hs.live_session [of "w_now w" "w_holds w" sid h] assms(1,2) by (simp_all add: mem_world_ok_def)
  then have b: "mem_bookable (w_bookings w) (mem_srv.row_of h)" "mem_srv.sale_free w h"
    using assms(4,5) by (simp_all add: mem_bookable_def mem_srv.sale_free_def)
  show ?thesis
    using mem_srv.confirm_creates [OF w assms(2) refl mem_live_alive [OF assms(2)] assms(3) b TrueI]
    by (metis mem_world_ok_inv)
qed

theorem confirm_sells_witness:
  "\<exists>b w'. run mem_ports (booking_confirm ''bob'' ''x'') (demo_world [demo_payment StatusCaptured])
     = (Inr \<lparr>cr_Booking = b, cr_Created = True\<rparr>, w') \<and> b_Seat b = demo_seat"
proof -
  let ?w = "demo_world [demo_payment StatusCaptured]"
  have "mem_rows (w_bookings ?w) = {}" by (simp add: mem_rows_def new_mem_bookings_def)
  then have "\<not> session_taken (mem_rows (w_bookings ?w)) ''x''"
    "\<not> seat_taken (mem_rows (w_bookings ?w)) (h_ScreeningID demo_hold) (h_Seat demo_hold)"
    by (simp_all add: session_taken_def seat_taken_def)
  from confirm_sells [OF demo_world_ok [OF demo_payments_ok(2)] _ _ this] demo_live demo_paid
  show ?thesis by (fastforce simp: demo_hold_def booking_of_def)
qed

text \<open>Without the money no seat is sold: an unpaid session is refused, whoever asks, and nothing changes.\<close>

theorem confirm_needs_payment:
  assumes "mem_world_ok w" "\<not> paid (mem_payment_rows (w_payments w)) sid"
  shows "run mem_ports (booking_confirm uid sid) w =
     (Inl (case mem_live (w_now w) (w_holds w) sid of
        None \<Rightarrow> ErrHoldNotFound
      | Some h \<Rightarrow> if h_UserID h \<noteq> uid then ErrNotHoldOwner else ErrPaymentNotCaptured), w)"
proof -
  have w: "mem_srv.world_inv w" using assms(1) by (simp add: mem_world_ok_inv)
  show ?thesis
  proof (cases "mem_live (w_now w) (w_holds w) sid")
    case None
    with mem_srv.confirm_no_hold [OF w None] show ?thesis by simp
  next
    case (Some h)
    show ?thesis
      using mem_srv.confirm_foreign [OF w Some, of uid]
        mem_srv.confirm_unpaid [OF w Some _ mem_live_alive [OF Some] assms(2), of uid] Some by simp
  qed
qed

theorem confirm_needs_payment_witness:
  "run mem_ports (booking_confirm ''bob'' ''x'') (demo_world [demo_payment StatusIntent])
     = (Inl ErrPaymentNotCaptured, demo_world [demo_payment StatusIntent])"
proof -
  have "\<not> paid (mem_payment_rows (w_payments (demo_world [demo_payment StatusIntent]))) ''x''"
    by (auto simp: paid_def mem_payment_rows_def demo_payment_def split: if_splits)
  from confirm_needs_payment [OF demo_world_ok [OF demo_payments_ok(2)] this, of "''bob''"] demo_live
  show ?thesis by (simp add: demo_hold_def)
qed

text \<open>C18: a confirm replayed while its hold is still there (the cleanup failed or has not run) returns the
  booking of the first confirm with \<open>Created\<close> false, and adds no row.\<close>

theorem confirm_is_idempotent:
  assumes "mem_world_ok w" "mem_live (w_now w) (w_holds w) sid = Some h"
    and "paid (mem_payment_rows (w_payments w)) sid"
    and "b \<in> mem_rows (w_bookings w)" "booking_of h b" "b_Status b = StatusConfirmed"
  shows "fst (run mem_ports (booking_confirm (h_UserID h) sid) w) = Inr \<lparr>cr_Booking = b, cr_Created = False\<rparr> \<and>
     mem_rows (w_bookings (snd (run mem_ports (booking_confirm (h_UserID h) sid) w))) = mem_rows (w_bookings w)"
proof -
  have w: "mem_srv.world_inv w" using assms(1) by (simp add: mem_world_ok_inv)
  have h: "h_SessionID h = sid" "keyable (h_Seat h)"
    using mem_hs.live_session [of "w_now w" "w_holds w" sid h] assms(1,2) by (simp_all add: mem_world_ok_def)
  then have "mem_bookable (w_bookings w) (mem_srv.row_of h)" by (simp add: mem_bookable_def)
  from mem_srv.confirm_replays [OF w assms(2) refl mem_live_alive [OF assms(2)] assms(3) this assms(4) _ _ assms(6)]
  show ?thesis using assms(5) h(1) by (simp add: booking_of_def)
qed

text \<open>A world in which a session has confirmed and its hold was not cleaned up.\<close>

definition demo_row :: "string \<Rightarrow> booking" where
  "demo_row sid = \<lparr>b_ID = ''b1'', b_SessionID = sid, b_ScreeningID = ''scr'', b_Seat = demo_seat,
     b_UserID = ''bob'', b_Status = StatusConfirmed, b_ConfirmedAt = 5\<rparr>"

definition demo_sold :: "string \<Rightarrow> mem_world" where
  "demo_sold sid = (demo_world [demo_payment StatusCaptured])\<lparr>w_bookings :=
     snd (mem_confirm ''b1'' 5 (demo_row sid) new_mem_bookings)\<rparr>"

lemma demo_sold_confirm: "mem_confirm ''b1'' 5 (demo_row sid) new_mem_bookings = (Inr (demo_row sid), w_bookings (demo_sold sid))"
  by (simp add: mem_confirm_def new_mem_bookings_def seat_rows_def Let_def demo_row_def demo_sold_def)

lemma demo_row_keyable: "mem_bookable s (demo_row sid)"
  using well_formed_keyable [OF demo_seat_ok] by (simp add: mem_bookable_def demo_row_def)

lemma demo_sold_rows: "mem_rows (w_bookings (demo_sold sid)) = {demo_row sid}"
  using mem_confirm_keeps(1) [OF new_mem_bookings_ok demo_row_keyable demo_sold_confirm [of sid]]
  by (simp add: mem_rows_def new_mem_bookings_def)

lemma demo_sold_ok: "mem_world_ok (demo_sold sid)"
  using demo_world_ok [OF demo_payments_ok(2), of StatusCaptured]
    mem_confirm_keeps(3) [OF new_mem_bookings_ok demo_row_keyable demo_sold_confirm [of sid]]
  by (simp add: mem_world_ok_def demo_sold_def)

lemma demo_sold_simps [simp]:
  "w_now (demo_sold sid) = 0" "w_payments (demo_sold sid) = [demo_payment StatusCaptured]"
  "w_holds (demo_sold sid) = w_holds (demo_world [demo_payment StatusCaptured])"
  by (simp_all add: demo_sold_def)

theorem confirm_is_idempotent_witness:
  "fst (run mem_ports (booking_confirm ''bob'' ''x'') (demo_sold ''x'')) = Inr \<lparr>cr_Booking = demo_row ''x'', cr_Created = False\<rparr>"
proof -
  have "booking_of demo_hold (demo_row ''x'')" "b_Status (demo_row ''x'') = StatusConfirmed"
    by (simp_all add: booking_of_def demo_hold_def demo_row_def)
  from confirm_is_idempotent [OF demo_sold_ok _ _ _ this, of "''x''"] demo_live demo_paid demo_sold_rows
  show ?thesis by (simp add: demo_hold_def)
qed

text \<open>C19: a confirm repeated after a confirm that succeeded and gave the hold up is answered as an unknown
  hold, not with the booking: the recovery of the first result needs the hold to be there still.\<close>

theorem confirm_replay_after_cleanup:
  assumes "mem_world_ok w" "mem_live (w_now w) (w_holds w) sid = Some h"
    and "paid (mem_payment_rows (w_payments w)) sid"
    and "\<not> session_taken (mem_rows (w_bookings w)) sid"
    and "\<not> seat_taken (mem_rows (w_bookings w)) (h_ScreeningID h) (h_Seat h)"
    and "run mem_ports (booking_confirm (h_UserID h) sid) w = (Inr res, w')"
  shows "run mem_ports (booking_confirm (h_UserID h) sid) w' = (Inl ErrHoldNotFound, w') \<and>
     cr_Booking res \<in> mem_rows (w_bookings w')"
proof -
  have w: "mem_srv.world_inv w" using assms(1) by (simp add: mem_world_ok_inv)
  have h: "h_SessionID h = sid" "keyable (h_Seat h)"
    using mem_hs.live_session [of "w_now w" "w_holds w" sid h] assms(1,2) by (simp_all add: mem_world_ok_def)
  then have b: "mem_bookable (w_bookings w) (mem_srv.row_of h)" "mem_srv.sale_free w h"
    using assms(4,5) by (simp_all add: mem_bookable_def mem_srv.sale_free_def)
  from mem_srv.confirm_creates [OF w assms(2) refl mem_live_alive [OF assms(2)] assms(3) b TrueI]
  have "mem_live (w_now w') (w_holds w') sid = None" "mem_srv.world_inv w'" "cr_Booking res \<in> mem_rows (w_bookings w')"
    using assms(6) by (metis (no_types) Inr_inject confirm_result.select_convs(1) insertI1 prod.inject)+
  with mem_srv.confirm_no_hold show ?thesis by blast
qed

theorem confirm_replay_after_cleanup_witness:
  "\<exists>res w'. run mem_ports (booking_confirm ''bob'' ''x'') (demo_world [demo_payment StatusCaptured]) = (Inr res, w') \<and>
     run mem_ports (booking_confirm ''bob'' ''x'') w' = (Inl ErrHoldNotFound, w')"
proof -
  let ?w = "demo_world [demo_payment StatusCaptured]"
  have "mem_rows (w_bookings ?w) = {}" by (simp add: mem_rows_def new_mem_bookings_def)
  then have free: "\<not> session_taken (mem_rows (w_bookings ?w)) ''x''"
    "\<not> seat_taken (mem_rows (w_bookings ?w)) (h_ScreeningID demo_hold) (h_Seat demo_hold)"
    by (simp_all add: session_taken_def seat_taken_def)
  have u: "h_UserID demo_hold = ''bob''" by (simp add: demo_hold_def)
  have "\<exists>res. fst (run mem_ports (booking_confirm ''bob'' ''x'') ?w) = Inr res"
  proof -
    have "case_sum (\<lambda>e. False) (\<lambda>r. True) (fst (run mem_ports (booking_confirm ''bob'' ''x'') ?w))"
      by code_simp
    then show ?thesis by (cases "fst (run mem_ports (booking_confirm ''bob'' ''x'') ?w)") auto
  qed
  then obtain res w' where r: "run mem_ports (booking_confirm ''bob'' ''x'') ?w = (Inr res, w')"
    by (metis prod.collapse)
  from confirm_replay_after_cleanup [OF demo_world_ok [OF demo_payments_ok(2)] _ _ free] demo_live demo_paid r
  show ?thesis unfolding u by auto
qed

text \<open>A paid buyer whose seat was sold to another session meanwhile gets the seat conflict, and the
  bookings stay as they were.\<close>

theorem confirm_loses_seat:
  assumes "mem_world_ok w" "mem_live (w_now w) (w_holds w) sid = Some h"
    and "paid (mem_payment_rows (w_payments w)) sid"
    and "\<not> session_taken (mem_rows (w_bookings w)) sid"
    and "seat_taken (mem_rows (w_bookings w)) (h_ScreeningID h) (h_Seat h)"
  shows "fst (run mem_ports (booking_confirm (h_UserID h) sid) w) = Inl ErrSeatAlreadyBooked \<and>
     mem_rows (w_bookings (snd (run mem_ports (booking_confirm (h_UserID h) sid) w))) = mem_rows (w_bookings w)"
proof -
  have w: "mem_srv.world_inv w" using assms(1) by (simp add: mem_world_ok_inv)
  have "keyable (h_Seat h)"
    using mem_hs.live_session [of "w_now w" "w_holds w" sid h] assms(1,2) by (simp add: mem_world_ok_def)
  then have "mem_bookable (w_bookings w) (mem_srv.row_of h)" by (simp add: mem_bookable_def)
  from mem_srv.confirm_loses [OF w assms(2) refl mem_live_alive [OF assms(2)] assms(3) this assms(4,5)]
  show ?thesis by simp
qed

theorem confirm_loses_seat_witness:
  "fst (run mem_ports (booking_confirm ''bob'' ''x'') (demo_sold ''other'')) = Inl ErrSeatAlreadyBooked"
proof -
  have t: "\<not> session_taken (mem_rows (w_bookings (demo_sold ''other''))) ''x''"
    "seat_taken (mem_rows (w_bookings (demo_sold ''other''))) (h_ScreeningID demo_hold) (h_Seat demo_hold)"
    by (simp_all add: demo_sold_rows session_taken_def seat_taken_def demo_row_def demo_hold_def)
  from confirm_loses_seat [OF demo_sold_ok _ _ t] demo_live demo_paid
  show ?thesis by (simp add: demo_hold_def)
qed

section \<open>Seat map and requests in general\<close>

text \<open>C26: the seat map has one entry for every seat of the grid, in grid order, and reports sold before held
  before available, from the booking store and the live holds.\<close>

theorem seat_map_is_accurate:
  assumes "mem_world_ok w" "w_screenings w scr = Inr sc"
  shows "run mem_ports (booking_seat_map scr) w = (Inr \<lparr>sm_Screening = sc,
     sm_Seats = map (\<lambda>seat. \<lparr>ss_Seat = seat, ss_Status =
       (if seat_taken (mem_rows (w_bookings w)) scr seat then SeatStatusBooked
        else if \<exists>sid h. mem_live (w_now w) (w_holds w) sid = Some h \<and> h_ScreeningID h = scr \<and> h_Seat h = seat
        then SeatStatusHeld else SeatStatusAvailable)\<rparr>) (all_seats sc)\<rparr>, w)"
proof -
  let ?b = "\<lparr>b_ID = [], b_SessionID = [], b_ScreeningID = scr, b_Seat = \<lparr>s_Row = [], s_Number = 1\<rparr>, b_UserID = [],
     b_Status = [], b_ConfirmedAt = 0\<rparr>"
  have "mem_bookable (w_bookings w) ?b" by (simp add: mem_bookable_def keyable_def int64_range_def)
  moreover have "mem_holds_ok (w_now w) (w_holds w)" using assms(1) by (simp add: mem_world_ok_def)
  ultimately show ?thesis
    using mem_srv.seat_map_content [OF assms(1) [folded mem_world_ok_inv] assms(2), of ?b] mem_held_live
    by (simp add: mem_confirmed_seats_def mem_stores_fields)
qed

theorem seat_map_is_accurate_witness:
  "map ss_Status (case fst (run mem_ports (booking_seat_map ''scr'') (demo_world [])) of Inr v \<Rightarrow> sm_Seats v | Inl e \<Rightarrow> [])
     = [SeatStatusHeld, SeatStatusAvailable, SeatStatusAvailable, SeatStatusAvailable]"
proof -
  have sc: "w_screenings (demo_world []) ''scr'' = Inr demo_screening" by (simp add: demo_screenings_def)
  have grid: "all_seats demo_screening = [demo_seat, \<lparr>s_Row = ''A'', s_Number = 2\<rparr>, \<lparr>s_Row = ''B'', s_Number = 1\<rparr>,
      \<lparr>s_Row = ''B'', s_Number = 2\<rparr>]"
    by code_simp
  have "\<not> seat_taken (mem_rows (w_bookings (demo_world []))) ''scr'' seat" for seat
    by (simp add: seat_taken_def mem_rows_def new_mem_bookings_def)
  then show ?thesis
    using demo_live [of "[]"]
    by (simp add: seat_map_is_accurate [OF demo_world_ok [OF demo_payments_ok(1)] sc] grid)
       (simp add: demo_hold_def demo_seat_def)
qed

section \<open>Hold limits\<close>

text \<open>C28: a buyer never has more live holds than the configured limit, in any reachable state, and a hold on a
  free seat below the limit is granted while one at the limit is refused.\<close>

theorem hold_limit_is_enforced:
  assumes "mem_holds_ok now s" "fresh_hold (mem_used s) h"
  shows "int (card {sid. \<exists>h'. mem_live now s sid = Some h' \<and> h_UserID h' = u}) \<le> max 0 (mh_maxHolds s) \<and>
     fst (mem_hold now h s) =
       (if int (length (user_holds s (h_UserID h))) \<ge> mh_maxHolds s then Inl ErrHoldLimitExceeded
        else if \<exists>sid h'. mem_live now s sid = Some h' \<and> same_seat h' h then Inl ErrSeatAlreadyHeld
        else Inr ())"
  using mem_user_limit [OF assms(1)] mem_hold_outcome [OF assms(1) fresh_mem_fresh [OF assms(2)]] by simp

theorem hold_limit_is_enforced_witness: "fst (mem_hold 0 demo_hold (new_mem_holds 4)) = Inr ()"
  using hold_limit_is_enforced [OF new_mem_holds_ok demo_hold_fresh, of 0]
  by (simp add: new_mem_holds_def user_holds_def mem_live_def)

end
