(* ===== verification/PaymentProperties.thy ===== *)
theory PaymentProperties
  imports BookingProperties
begin

text \<open>
  The properties of the payment use cases and of the sandbox gateway's webhook scheme, on the
  in-memory stores.
\<close>

section \<open>Intents and client capture\<close>

text \<open>C24: an intent asked for again, while the session has an active one, is that intent, with
  \<open>Created\<close> false; no gateway call, no new row, no other effect.\<close>

theorem intent_request_is_idempotent:
  assumes "mem_world_ok w" "mem_live (w_now w) (w_holds w) sid = Some h"
    and "active_row (mem_payment_rows (w_payments w)) sid p"
  shows "run mem_ports (payment_create_intent (h_UserID h) sid) w =
     (Inr \<lparr>in_Payment = p, in_HoldExpiresAt = h_ExpiresAt h, in_Created = False\<rparr>, w)"
  using mem_srv.intent_reused [of w "h_UserID h" sid h p] assms mem_live_alive [OF assms(2)]
  by (simp add: mem_world_ok_inv mem_srv.gate_open_def)

lemma demo_active:
  "active_status st \<Longrightarrow> active_row (mem_payment_rows [demo_payment st]) ''x'' (demo_payment st)"
  by (auto simp: active_row_def mem_payment_rows_def demo_payment_def)

theorem intent_request_is_idempotent_witness:
  "run mem_ports (payment_create_intent ''bob'' ''x'') (demo_world [demo_payment StatusIntent]) =
     (Inr \<lparr>in_Payment = demo_payment StatusIntent, in_HoldExpiresAt = 900 * second, in_Created = False\<rparr>,
      demo_world [demo_payment StatusIntent])"
proof -
  have a: "active_row (mem_payment_rows (w_payments (demo_world [demo_payment StatusIntent]))) ''x'' (demo_payment StatusIntent)"
    using demo_active [of StatusIntent] by (simp add: active_status_def)
  from intent_request_is_idempotent [OF demo_world_ok [OF demo_payments_ok(2)] _ a] demo_live
  show ?thesis by (simp add: demo_hold_def)
qed

text \<open>C23: a new intent freezes the screening's price: its row is for this session, in status intent, and its
  amount is the positive price of the hold's screening at that moment; it is the only row added.\<close>

theorem intent_freezes_price:
  assumes "mem_world_ok w" "mem_live (w_now w) (w_holds w) sid = Some h"
    and "\<forall>p. \<not> active_row (mem_payment_rows (w_payments w)) sid p"
    and "mem_payment_rows (w_payments w) (fakeIntentPrefix @ w_uuid w (w_next w)) = None"
    and "run mem_ports (payment_create_intent (h_UserID h) sid) w = (Inr res, w')"
  shows "\<exists>sc. w_screenings w (h_ScreeningID h) = Inr sc \<and> 0 < sc_PriceCents sc \<and>
     p_AmountCents (in_Payment res) = sc_PriceCents sc \<and> p_Status (in_Payment res) = StatusIntent \<and>
     p_BookingSessionID (in_Payment res) = sid \<and> in_Created res \<and> in_HoldExpiresAt res = h_ExpiresAt h \<and>
     mem_payment_rows (w_payments w') =
       (mem_payment_rows (w_payments w))(fakeIntentPrefix @ w_uuid w (w_next w) \<mapsto> in_Payment res)"
proof -
  have g: "mem_srv.gate_open w (h_UserID h) sid h"
    using assms(2) mem_live_alive [OF assms(2)] by (simp add: mem_srv.gate_open_def)
  have ins: "mem_insertable (w_payments w) p \<and> mem_payment_rows (w_payments w) (p_IntentID p) = None"
    if "p_IntentID p = fakeIntentPrefix @ w_uuid w (w_next w)" for p
    using assms(4) that by (simp add: mem_insertable_def mem_payment_rows_None)
  from mem_srv.intent_created [OF assms(1) [folded mem_world_ok_inv] g assms(3,5) ins] show ?thesis by auto
qed

theorem intent_freezes_price_witness:
  "\<exists>res w'. run mem_ports (payment_create_intent ''bob'' ''x'') (demo_world []) = (Inr res, w') \<and>
     p_AmountCents (in_Payment res) = 1200"
proof -
  have "case_sum (\<lambda>e. False) (\<lambda>r. True) (fst (run mem_ports (payment_create_intent ''bob'' ''x'') (demo_world [])))"
    by code_simp
  then obtain res w' where r: "run mem_ports (payment_create_intent ''bob'' ''x'') (demo_world []) = (Inr res, w')"
    by (cases "run mem_ports (payment_create_intent ''bob'' ''x'') (demo_world [])") (auto split: sum.splits)
  have n: "\<forall>p. \<not> active_row (mem_payment_rows (w_payments (demo_world []))) ''x'' p"
    "mem_payment_rows (w_payments (demo_world [])) i = None" for i
    by (simp_all add: active_row_def mem_payment_rows_def)
  have u: "h_UserID demo_hold = ''bob''" by (simp add: demo_hold_def)
  have l: "mem_live (w_now (demo_world [])) (w_holds (demo_world [])) ''x'' = Some demo_hold"
    using demo_live by simp
  from intent_freezes_price [OF demo_world_ok [OF demo_payments_ok(1)] l n] r
  show ?thesis unfolding u by (fastforce simp: demo_screenings_def demo_hold_def demo_screening_def)
qed

text \<open>C25: a client capture that succeeds returns the session's own intent, captured and with its charge
  unchanged, and leaves the session paid, so the confirm gate opens.\<close>

theorem client_capture_pays:
  assumes "mem_world_ok w" "mem_live (w_now w) (w_holds w) sid = Some h"
    and "run mem_ports (payment_confirm_by_client (h_UserID h) sid) w = (Inr p, w')"
  shows "p_Status p = StatusCaptured \<and> mem_has_captured sid (w_payments w') = Inr True \<and>
     (\<exists>q. active_row (mem_payment_rows (w_payments w)) sid q \<and> same_charge p q)"
proof -
  have g: "mem_srv.gate_open w (h_UserID h) sid h"
    using assms(2) mem_live_alive [OF assms(2)] by (simp add: mem_srv.gate_open_def)
  note c = mem_srv.pay_captures [OF assms(1) [folded mem_world_ok_inv] g assms(3)]
  then obtain i q where "mem_payment_rows (w_payments w') i = Some q" "p_BookingSessionID q = sid" "p_Status q = StatusCaptured"
    by (auto simp: paid_def)
  then have "mem_has_captured sid (w_payments w') = Inr True"
    using mem_payment_rows_intent [of "w_payments w'" i q] by (auto simp: mem_has_captured_def list_ex_iff)
  with c show ?thesis by simp
qed

theorem client_capture_pays_witness:
  "\<exists>p w'. run mem_ports (payment_confirm_by_client ''bob'' ''x'') (demo_world [demo_payment StatusIntent]) = (Inr p, w') \<and>
     mem_has_captured ''x'' (w_payments w') = Inr True"
proof -
  let ?w = "demo_world [demo_payment StatusIntent]"
  have "case_sum (\<lambda>e. False) (\<lambda>r. True) (fst (run mem_ports (payment_confirm_by_client ''bob'' ''x'') ?w))"
    by code_simp
  then obtain p w' where r: "run mem_ports (payment_confirm_by_client ''bob'' ''x'') ?w = (Inr p, w')"
    by (cases "run mem_ports (payment_confirm_by_client ''bob'' ''x'') ?w") (auto split: sum.splits)
  have u: "h_UserID demo_hold = ''bob''" by (simp add: demo_hold_def)
  have l: "mem_live (w_now ?w) (w_holds ?w) ''x'' = Some demo_hold" using demo_live by simp
  from client_capture_pays [OF demo_world_ok [OF demo_payments_ok(2)] l, unfolded u, OF r] r
  show ?thesis by blast
qed

section \<open>Webhooks\<close>

text \<open>C20: a verified capture event with the frozen amount captures an open row and reports that it did; on a
  row already captured, failed or refunded it changes nothing and reports so. It never asks for the hold.\<close>

theorem webhook_captures_once:
  assumes "mem_world_ok w" "fg_verify_webhook (w_now w) body sig (w_gateway w) = Inr ev"
    and "mem_payment_rows (w_payments w) (ev_IntentID ev) = Some p"
    and "ev_Kind ev = EventCaptured" "ev_AmountCents ev = p_AmountCents p"
  shows "\<exists>w'. run mem_ports (payment_handle_webhook body sig) w =
       (Inr \<lparr>wo_IntentID = ev_IntentID ev, wo_Applied = open_status (p_Status p)\<rparr>, w') \<and>
     (if open_status (p_Status p) then paid (mem_payment_rows (w_payments w')) (p_BookingSessionID p) else w' = w)"
  using mem_srv.webhook_captured [OF assms(1) [folded mem_world_ok_inv] assms(2-5)] by metis

definition demo_event :: "string \<Rightarrow> int \<Rightarrow> webhook_event" where
  "demo_event kind amount = \<lparr>ev_Kind = kind, ev_IntentID = ''i1'', ev_AmountCents = amount\<rparr>"

lemma demo_signed:
  assumes "kind = EventCaptured \<or> kind = EventFailed" "amount = 1200 \<or> amount = 7"
  shows "fg_verify_webhook 0 (webhook_body (demo_event kind amount))
     (sign_body (webhook_body (demo_event kind amount)) 0 demo_gateway) demo_gateway = Inr (demo_event kind amount)"
proof -
  have r: "int64_range (to_unix 0)" "\<bar>0 - unix (to_unix 0)\<bar> \<le> webhookTolerance"
    by (simp_all add: to_unix_def unix_def int64_range_def webhookTolerance_def minute_def second_def)
  have a: "ascii (ev_Kind (demo_event kind amount))" "ascii (ev_IntentID (demo_event kind amount))"
    "int64_range (ev_AmountCents (demo_event kind amount))"
    using assms by (auto simp: demo_event_def EventCaptured_def EventFailed_def byte_def int64_range_def)
  obtain m where "decode_strict webhook_fields (webhook_body (demo_event kind amount) @ []) = Some m"
    "get_string m ''kind'' = kind" "get_string m ''intent_id'' = ''i1''" "get_int m ''amount_cents'' = amount"
    using decode_webhook_body [OF a, of "[]"] by (auto simp: json_more_def demo_event_def)
  then show ?thesis
    unfolding verify_signed [OF r] by (simp add: demo_event_def)
qed

lemma demo_payment_row: "mem_payment_rows [demo_payment st] (ev_IntentID (demo_event k a)) = Some (demo_payment st)"
  by (simp add: mem_payment_rows_def demo_payment_def demo_event_def)

definition demo_header :: "string \<Rightarrow> int \<Rightarrow> string" where
  "demo_header kind amount = sign_body (webhook_body (demo_event kind amount)) 0 demo_gateway"

theorem webhook_captures_once_witness:
  "\<exists>w'. run mem_ports (payment_handle_webhook (webhook_body (demo_event EventCaptured 1200)) (demo_header EventCaptured 1200))
       (demo_world [demo_payment StatusIntent]) = (Inr \<lparr>wo_IntentID = ''i1'', wo_Applied = True\<rparr>, w') \<and>
     paid (mem_payment_rows (w_payments w')) ''x''"
proof -
  let ?w = "demo_world [demo_payment StatusIntent]"
  have v: "fg_verify_webhook (w_now ?w) (webhook_body (demo_event EventCaptured 1200)) (demo_header EventCaptured 1200) (w_gateway ?w)
      = Inr (demo_event EventCaptured 1200)"
    using demo_signed [of EventCaptured 1200] by (simp add: demo_header_def)
  have k: "ev_Kind (demo_event EventCaptured 1200) = EventCaptured"
    "ev_AmountCents (demo_event EventCaptured 1200) = p_AmountCents (demo_payment StatusIntent)"
    by (simp_all add: demo_event_def demo_payment_def)
  from webhook_captures_once [OF demo_world_ok [OF demo_payments_ok(2)] v _ k] demo_payment_row
  show ?thesis by (simp add: demo_event_def demo_payment_def open_status_def)
qed

text \<open>C21: a verified capture event for another amount than the frozen one never counts as money: it is
  acknowledged as not applied, the set of paid sessions stays as it was, and an open row is failed.\<close>

theorem webhook_amount_is_checked:
  assumes "mem_world_ok w" "fg_verify_webhook (w_now w) body sig (w_gateway w) = Inr ev"
    and "mem_payment_rows (w_payments w) (ev_IntentID ev) = Some p"
    and "ev_Kind ev = EventCaptured" "ev_AmountCents ev \<noteq> p_AmountCents p"
  shows "\<exists>w'. run mem_ports (payment_handle_webhook body sig) w =
       (Inr \<lparr>wo_IntentID = ev_IntentID ev, wo_Applied = False\<rparr>, w') \<and>
     paid (mem_payment_rows (w_payments w')) = paid (mem_payment_rows (w_payments w)) \<and>
     (\<exists>q. mem_payment_rows (w_payments w') (ev_IntentID ev) = Some q \<and> same_charge q p \<and>
        p_Status q = (if open_status (p_Status p) then StatusFailed else p_Status p))"
  using mem_srv.webhook_mismatch [OF assms(1) [folded mem_world_ok_inv] assms(2-5)] by metis

theorem webhook_amount_is_checked_witness:
  "\<exists>w' q. run mem_ports (payment_handle_webhook (webhook_body (demo_event EventCaptured 7)) (demo_header EventCaptured 7))
       (demo_world [demo_payment StatusIntent]) = (Inr \<lparr>wo_IntentID = ''i1'', wo_Applied = False\<rparr>, w') \<and>
     mem_payment_rows (w_payments w') ''i1'' = Some q \<and> p_Status q = StatusFailed"
proof -
  let ?w = "demo_world [demo_payment StatusIntent]"
  have v: "fg_verify_webhook (w_now ?w) (webhook_body (demo_event EventCaptured 7)) (demo_header EventCaptured 7) (w_gateway ?w)
      = Inr (demo_event EventCaptured 7)"
    using demo_signed [of EventCaptured 7] by (simp add: demo_header_def)
  have k: "ev_Kind (demo_event EventCaptured 7) = EventCaptured"
    "ev_AmountCents (demo_event EventCaptured 7) \<noteq> p_AmountCents (demo_payment StatusIntent)"
    by (simp_all add: demo_event_def demo_payment_def)
  from webhook_amount_is_checked [OF demo_world_ok [OF demo_payments_ok(2)] v _ k] demo_payment_row
  show ?thesis by (fastforce simp: demo_event_def demo_payment_def open_status_def)
qed

text \<open>A verified failure event never touches captured money; but delivered again for a row that has failed
  already, it is reported as applied although nothing changed.\<close>

theorem webhook_failure_duplicates:
  assumes "mem_world_ok w" "fg_verify_webhook (w_now w) body sig (w_gateway w) = Inr ev"
    and "mem_payment_rows (w_payments w) (ev_IntentID ev) = Some p" "ev_Kind ev = EventFailed"
  shows "\<exists>w'. run mem_ports (payment_handle_webhook body sig) w =
       (Inr \<lparr>wo_IntentID = ev_IntentID ev, wo_Applied = (open_status (p_Status p) \<or> p_Status p = StatusFailed)\<rparr>, w') \<and>
     paid (mem_payment_rows (w_payments w')) = paid (mem_payment_rows (w_payments w)) \<and>
     (\<not> open_status (p_Status p) \<longrightarrow> w' = w)"
  using mem_srv.webhook_failed [OF assms(1) [folded mem_world_ok_inv] assms(2-4)] by metis

theorem webhook_failure_duplicates_witness:
  "run mem_ports (payment_handle_webhook (webhook_body (demo_event EventFailed 1200)) (demo_header EventFailed 1200))
       (demo_world [demo_payment StatusFailed]) =
     (Inr \<lparr>wo_IntentID = ''i1'', wo_Applied = True\<rparr>, demo_world [demo_payment StatusFailed])"
proof -
  let ?w = "demo_world [demo_payment StatusFailed]"
  have v: "fg_verify_webhook (w_now ?w) (webhook_body (demo_event EventFailed 1200)) (demo_header EventFailed 1200) (w_gateway ?w)
      = Inr (demo_event EventFailed 1200)"
    using demo_signed [of EventFailed 1200] by (simp add: demo_header_def)
  have k: "ev_Kind (demo_event EventFailed 1200) = EventFailed" by (simp add: demo_event_def)
  from webhook_failure_duplicates [OF demo_world_ok [OF demo_payments_ok(2)] v _ k] demo_payment_row
  show ?thesis by (auto simp: demo_event_def demo_payment_def open_status_def)
qed

section \<open>The signature scheme\<close>

text \<open>C22: what the gateway signs, the gateway verifies, to the same event, for any clock within the tolerance
  of the signing instant.\<close>

theorem signed_webhook_verifies:
  assumes "ascii (ev_Kind ev)" "ascii (ev_IntentID ev)" "ev_IntentID ev \<noteq> []"
    and "int64_range (ev_AmountCents ev)" "int64_range (to_unix at)"
    and "\<bar>now - unix (to_unix at)\<bar> \<le> webhookTolerance"
  shows "fg_verify_webhook now (fst (fg_sign_webhook ev at g)) (snd (fg_sign_webhook ev at g)) g = Inr ev"
proof -
  obtain m where "decode_strict webhook_fields (webhook_body ev @ []) = Some m"
    "get_string m ''kind'' = ev_Kind ev" "get_string m ''intent_id'' = ev_IntentID ev"
    "get_int m ''amount_cents'' = ev_AmountCents ev"
    using decode_webhook_body [OF assms(1,2,4), of "[]"] by (auto simp: json_more_def)
  then show ?thesis
    using assms(3) by (simp add: fg_sign_webhook_def verify_signed [OF assms(5,6)])
qed

theorem signed_webhook_verifies_witness:
  "fg_verify_webhook (299 * second) (fst (fg_sign_webhook (demo_event EventCaptured 1200) 0 demo_gateway))
     (snd (fg_sign_webhook (demo_event EventCaptured 1200) 0 demo_gateway)) demo_gateway = Inr (demo_event EventCaptured 1200)"
  by (rule signed_webhook_verifies)
     (simp_all add: demo_event_def EventCaptured_def byte_def int64_range_def to_unix_def unix_def
       webhookTolerance_def minute_def second_def)

text \<open>
  What a webhook body has to say, over the members of the JSON object in it: every member is one of the three the
  event has (names compare up to case) with a value of its type or null, and of a member that appears more than once
  the last value counts.
\<close>

definition called :: "string \<Rightarrow> string \<times> json \<Rightarrow> bool" where
  "called n m \<longleftrightarrow> fold_name (fst m) = fold_name n"

definition webhook_member :: "string \<times> json \<Rightarrow> bool" where
  "webhook_member m \<longleftrightarrow>
     (case snd m of
        JNull \<Rightarrow> called ''kind'' m \<or> called ''intent_id'' m \<or> called ''amount_cents'' m
      | JStr s \<Rightarrow> called ''kind'' m \<or> called ''intent_id'' m
      | JNum l \<Rightarrow> called ''amount_cents'' m \<and> parse_int l \<noteq> None
      | _ \<Rightarrow> False)"

definition last_text :: "string \<Rightarrow> (string \<times> json) list \<Rightarrow> string" where
  "last_text n kvs = last ([] # [s. (key, JStr s) \<leftarrow> kvs, fold_name key = fold_name n])"

definition last_number :: "string \<Rightarrow> (string \<times> json) list \<Rightarrow> int" where
  "last_number n kvs = last (0 # [the (parse_int l). (key, JNum l) \<leftarrow> kvs, fold_name key = fold_name n])"

definition event_of_members :: "(string \<times> json) list \<Rightarrow> webhook_event" where
  "event_of_members kvs =
     \<lparr>ev_Kind = last_text ''kind'' kvs, ev_IntentID = last_text ''intent_id'' kvs,
      ev_AmountCents = last_number ''amount_cents'' kvs\<rparr>"

lemma webhook_names_differ:
  "fold_name ''kind'' \<noteq> fold_name ''intent_id''" "fold_name ''kind'' \<noteq> fold_name ''amount_cents''"
  "fold_name ''intent_id'' \<noteq> fold_name ''amount_cents''"
  by (simp_all add: fold_name_def runes_ascii byte_def fold_rune_def)

lemma find_webhook_field:
  "find_field webhook_fields key =
     (if fold_name key = fold_name ''kind'' then Some (''kind'', KString)
      else if fold_name key = fold_name ''intent_id'' then Some (''intent_id'', KString)
      else if fold_name key = fold_name ''amount_cents'' then Some (''amount_cents'', KInt) else None)"
  using webhook_names_differ by (auto simp: find_field_def webhook_fields_def eq_commute)

lemma last_values_Cons:
  "last (z # [s. (key, JStr s) \<leftarrow> (k, v) # kvs, fold_name key = f]) =
     last ((case v of JStr s \<Rightarrow> if fold_name k = f then s else z | _ \<Rightarrow> z) # [s. (key, JStr s) \<leftarrow> kvs, fold_name key = f])"
  "last (y # [the (parse_int l). (key, JNum l) \<leftarrow> (k, v) # kvs, fold_name key = f]) =
     last ((case v of JNum l \<Rightarrow> if fold_name k = f then the (parse_int l) else y | _ \<Rightarrow> y) #
        [the (parse_int l). (key, JNum l) \<leftarrow> kvs, fold_name key = f])"
  by (auto split: json.split)

lemma decode_webhook_Cons:
  "decode_members webhook_fields ((key, v) # kvs) acc =
     (if webhook_member (key, v) then decode_members webhook_fields kvs
        (case v of JStr s \<Rightarrow> acc ((if fold_name key = fold_name ''kind'' then ''kind'' else ''intent_id'') \<mapsto> VString s)
         | JNum l \<Rightarrow> acc (''amount_cents'' \<mapsto> VInt (the (parse_int l))) | _ \<Rightarrow> acc)
      else None)"
  using webhook_names_differ
  by (cases v) (simp_all add: find_webhook_field webhook_member_def called_def decode_field_def split: option.split)

lemma decode_webhook_members:
  "(decode_members webhook_fields kvs acc = None) = (\<not> list_all webhook_member kvs)"
proof (induction kvs arbitrary: acc)
  case (Cons kv kvs)
  show ?case by (cases kv) (simp add: decode_webhook_Cons Cons.IH del: decode_members.simps(2) not_None_eq)
qed simp

lemma decode_webhook_text:
  assumes "n = ''kind'' \<or> n = ''intent_id''" "decode_members webhook_fields kvs acc = Some m"
  shows "get_string m n = last (get_string acc n # [s. (key, JStr s) \<leftarrow> kvs, fold_name key = fold_name n])"
  using assms(2)
proof (induction kvs arbitrary: acc)
  case (Cons kv kvs)
  obtain key v where kv: "kv = (key, v)" by fastforce
  have member: "webhook_member (key, v)" using Cons.prems unfolding kv decode_webhook_Cons by (simp split: if_splits)
  let ?acc = "case v of JStr s \<Rightarrow> acc ((if fold_name key = fold_name ''kind'' then ''kind'' else ''intent_id'') \<mapsto> VString s)
         | JNum l \<Rightarrow> acc (''amount_cents'' \<mapsto> VInt (the (parse_int l))) | _ \<Rightarrow> acc"
  have "get_string ?acc n = (case v of JStr s \<Rightarrow> if fold_name key = fold_name n then s else get_string acc n | _ \<Rightarrow> get_string acc n)"
    using member assms(1) webhook_names_differ
    by (cases v) (auto simp: get_string_def webhook_member_def called_def)
  moreover have "get_string m n = last (get_string ?acc n # [s. (key, JStr s) \<leftarrow> kvs, fold_name key = fold_name n])"
    using Cons.prems member unfolding kv decode_webhook_Cons by (intro Cons.IH) simp
  ultimately show ?case unfolding kv last_values_Cons by (simp only:)
qed simp

lemma decode_webhook_number:
  assumes "decode_members webhook_fields kvs acc = Some m"
  shows "get_int m ''amount_cents'' = last (get_int acc ''amount_cents'' #
       [the (parse_int l). (key, JNum l) \<leftarrow> kvs, fold_name key = fold_name ''amount_cents''])"
  using assms
proof (induction kvs arbitrary: acc)
  case (Cons kv kvs)
  obtain key v where kv: "kv = (key, v)" by fastforce
  have member: "webhook_member (key, v)" using Cons.prems unfolding kv decode_webhook_Cons by (simp split: if_splits)
  let ?acc = "case v of JStr s \<Rightarrow> acc ((if fold_name key = fold_name ''kind'' then ''kind'' else ''intent_id'') \<mapsto> VString s)
         | JNum l \<Rightarrow> acc (''amount_cents'' \<mapsto> VInt (the (parse_int l))) | _ \<Rightarrow> acc"
  have "get_int ?acc ''amount_cents'' = (case v of JNum l \<Rightarrow> if fold_name key = fold_name ''amount_cents'' then the (parse_int l)
      else get_int acc ''amount_cents'' | _ \<Rightarrow> get_int acc ''amount_cents'')"
    using member by (cases v) (auto simp: get_int_def webhook_member_def called_def)
  moreover have "get_int m ''amount_cents'' = last (get_int ?acc ''amount_cents'' #
       [the (parse_int l). (key, JNum l) \<leftarrow> kvs, fold_name key = fold_name ''amount_cents''])"
    using Cons.prems member unfolding kv decode_webhook_Cons by (intro Cons.IH) simp
  ultimately show ?case unfolding kv last_values_Cons by (simp only:)
qed simp

lemma decode_webhook_strict:
  "(\<exists>m. decode_strict webhook_fields body = Some m \<and> get_string m ''intent_id'' \<noteq> [] \<and>
      ev = \<lparr>ev_Kind = get_string m ''kind'', ev_IntentID = get_string m ''intent_id'', ev_AmountCents = get_int m ''amount_cents''\<rparr>) \<longleftrightarrow>
   ev_IntentID ev \<noteq> [] \<and> (\<exists>kvs rest. read_value body = Some (JObj kvs, rest) \<and> \<not> json_more rest \<and>
      list_all webhook_member kvs \<and> ev = event_of_members kvs)" (is "?l \<longleftrightarrow> ?r")
proof
  assume ?l
  then obtain m v rest where m: "read_value body = Some (v, rest)" "decode_struct webhook_fields v = Some m" "\<not> json_more rest"
    and i: "get_string m ''intent_id'' \<noteq> []"
    and ev: "ev = \<lparr>ev_Kind = get_string m ''kind'', ev_IntentID = get_string m ''intent_id'', ev_AmountCents = get_int m ''amount_cents''\<rparr>"
    by (auto simp: decode_strict_def split: option.splits if_splits)
  obtain kvs where v: "v = JObj kvs" and d: "decode_members webhook_fields kvs Map.empty = Some m"
    using m(2) i by (cases v) (auto simp: decode_struct_def get_string_def)
  from d decode_webhook_members have "list_all webhook_member kvs" by (metis option.distinct(1))
  moreover have "ev_IntentID ev \<noteq> []" using i ev by simp
  moreover have "ev = event_of_members kvs"
    using decode_webhook_text [OF _ d] decode_webhook_number [OF d] ev
    by (simp add: event_of_members_def last_text_def last_number_def get_string_def get_int_def)
  ultimately show ?r using m(1,3) v by blast
next
  assume ?r
  then obtain kvs rest where r: "read_value body = Some (JObj kvs, rest)" "\<not> json_more rest" "list_all webhook_member kvs"
    and ev: "ev = event_of_members kvs" "ev_IntentID ev \<noteq> []" by auto
  obtain m where d: "decode_members webhook_fields kvs Map.empty = Some m"
    using r(3) decode_webhook_members by fastforce
  have "ev = \<lparr>ev_Kind = get_string m ''kind'', ev_IntentID = get_string m ''intent_id'', ev_AmountCents = get_int m ''amount_cents''\<rparr>"
    using decode_webhook_text [OF _ d] decode_webhook_number [OF d] ev(1)
    by (simp add: event_of_members_def last_text_def last_number_def get_string_def get_int_def)
  moreover have "decode_strict webhook_fields body = Some m" using r(1,2) d by (simp add: decode_strict_def decode_struct_def)
  ultimately show ?l using ev(2) by auto
qed

lemma verify_webhook_iff:
  "fg_verify_webhook now body header g = Inr ev \<longleftrightarrow>
     (\<exists>t tUnix v1. parse_signature_header header = Some (t, v1) \<and> parse_int t = Some tUnix \<and>
        \<bar>now - unix tUnix\<bar> \<le> webhookTolerance \<and> hex_decode v1 = Some (hmac_sha256 (fg_secret g) (signed_text t body))) \<and>
     (\<exists>m. decode_strict webhook_fields body = Some m \<and> get_string m ''intent_id'' \<noteq> [] \<and>
        ev = \<lparr>ev_Kind = get_string m ''kind'', ev_IntentID = get_string m ''intent_id'', ev_AmountCents = get_int m ''amount_cents''\<rparr>)"
  (is "?l \<longleftrightarrow> ?r")
proof
  show "?l \<Longrightarrow> ?r" by (erule verify_accepts) (auto simp: webhook_event.equality)
  show "?r \<Longrightarrow> ?l" by (auto simp: fg_verify_webhook_def abs_le_iff not_less)
qed

text \<open>C11: a webhook is accepted, as the event \<open>ev\<close>, exactly when three things hold. Its header names a timestamp
  within five minutes of the clock. It carries the HMAC, under the gateway's secret, of that timestamp and exactly the
  received bytes. And those bytes begin with a JSON object, followed by nothing that \<open>dec.More\<close> sees, all of whose
  members belong to the event, with values of their types, and that names an intent: its kind, its intent and its
  amount are the event's. Every other delivery gets
  the same opaque error.\<close>

theorem accepted_webhook_is_authentic:
  "(fg_verify_webhook now body header g = Inr ev \<longleftrightarrow>
      (\<exists>t tUnix v1. parse_signature_header header = Some (t, v1) \<and> parse_int t = Some tUnix \<and>
         \<bar>now - unix tUnix\<bar> \<le> 300 * second \<and>
         hex_decode v1 = Some (hmac_sha256 (fg_secret g) (t @ ''.'' @ body))) \<and>
      ev_IntentID ev \<noteq> [] \<and>
      (\<exists>kvs rest. read_value body = Some (JObj kvs, rest) \<and> \<not> json_more rest \<and> list_all webhook_member kvs \<and>
         ev = event_of_members kvs)) \<and>
   ((\<exists>accepted. fg_verify_webhook now body header g = Inr accepted) \<or>
    fg_verify_webhook now body header g = Inl ErrWebhookInvalid)"
proof
  have tol: "webhookTolerance = 300 * second" by (simp add: webhookTolerance_def minute_def)
  show "fg_verify_webhook now body header g = Inr ev \<longleftrightarrow>
      (\<exists>t tUnix v1. parse_signature_header header = Some (t, v1) \<and> parse_int t = Some tUnix \<and>
         \<bar>now - unix tUnix\<bar> \<le> 300 * second \<and>
         hex_decode v1 = Some (hmac_sha256 (fg_secret g) (t @ ''.'' @ body))) \<and>
      ev_IntentID ev \<noteq> [] \<and>
      (\<exists>kvs rest. read_value body = Some (JObj kvs, rest) \<and> \<not> json_more rest \<and> list_all webhook_member kvs \<and>
         ev = event_of_members kvs)"
    unfolding decode_webhook_strict [symmetric] tol [symmetric] signed_text_def [symmetric]
    by (rule verify_webhook_iff)
  show "(\<exists>accepted. fg_verify_webhook now body header g = Inr accepted) \<or>
      fg_verify_webhook now body header g = Inl ErrWebhookInvalid"
    using verify_opaque by (cases "fg_verify_webhook now body header g") auto
qed

text \<open>C30: the check for trailing data after the JSON object lets through anything that begins with a closing
  brace or bracket: a signed body followed by such bytes verifies to the event of its first object.\<close>

theorem trailing_bracket_is_accepted:
  assumes "ascii (ev_Kind ev)" "ascii (ev_IntentID ev)" "ev_IntentID ev \<noteq> []"
    and "int64_range (ev_AmountCents ev)" "int64_range (to_unix at)"
    and "\<bar>now - unix (to_unix at)\<bar> \<le> webhookTolerance" "c = CHR ''}'' \<or> c = CHR '']''"
  shows "fg_verify_webhook now (webhook_body ev @ c # junk) (sign_body (webhook_body ev @ c # junk) at g) g = Inr ev"
proof -
  have "\<not> json_more (c # junk)"
    using assms(7) by (auto simp: json_more_def json_space_def byte_def)
  from decode_webhook_body [OF assms(1,2,4) this] obtain m where
    "decode_strict webhook_fields (webhook_body ev @ c # junk) = Some m"
    "get_string m ''kind'' = ev_Kind ev" "get_string m ''intent_id'' = ev_IntentID ev"
    "get_int m ''amount_cents'' = ev_AmountCents ev"
    by auto
  then show ?thesis
    using assms(3) by (simp add: verify_signed [OF assms(5,6)])
qed

theorem trailing_bracket_is_accepted_witness:
  "fg_verify_webhook 0 (webhook_body (demo_event EventCaptured 7) @ ''} and more'')
     (sign_body (webhook_body (demo_event EventCaptured 7) @ ''} and more'') 0 demo_gateway) demo_gateway
     = Inr (demo_event EventCaptured 7)"
  by (rule trailing_bracket_is_accepted)
     (simp_all add: demo_event_def EventCaptured_def byte_def int64_range_def to_unix_def unix_def
       webhookTolerance_def minute_def second_def)

end
