(* ===== verification/Redis.thy ===== *)
theory Redis
  imports Errors
begin

text \<open>
  The Redis server, which is not code of this repository: its commands are a parameter of the
  hold store, and the locale \<open>redis\<close> states what the Redis documentation says of them, over the
  logical entries of the keyspace (a value and the instant at which it lapses). A key whose
  instant has come is absent to every command. One instance, an association list, shows that
  the laws can hold. Commands run atomically, and so does a Lua script made of them.
\<close>

section \<open>Commands\<close>

datatype rvalue =
    RStr string
  | RHash "(string, string) gomap"
  | RZset "(string, string) gomap"

type_synonym rentry = "rvalue \<times> time option"

record 's redis =
  rd_get :: "time \<Rightarrow> string \<Rightarrow> 's \<Rightarrow> string option"
  rd_set_nx_ex :: "time \<Rightarrow> string \<Rightarrow> string \<Rightarrow> int \<Rightarrow> 's \<Rightarrow> bool \<times> 's"
  rd_del :: "time \<Rightarrow> string \<Rightarrow> 's \<Rightarrow> 's"
  rd_hset :: "time \<Rightarrow> string \<Rightarrow> (string \<times> string) list \<Rightarrow> 's \<Rightarrow> 's"
  rd_hget :: "time \<Rightarrow> string \<Rightarrow> string \<Rightarrow> 's \<Rightarrow> string option"
  rd_hgetall :: "time \<Rightarrow> string \<Rightarrow> 's \<Rightarrow> (string, string) gomap"
  rd_expire :: "time \<Rightarrow> string \<Rightarrow> int \<Rightarrow> 's \<Rightarrow> 's"
  rd_zcard :: "time \<Rightarrow> string \<Rightarrow> 's \<Rightarrow> int"
  rd_zadd :: "time \<Rightarrow> string \<Rightarrow> string \<Rightarrow> string \<Rightarrow> 's \<Rightarrow> 's"
  rd_zrem :: "time \<Rightarrow> string \<Rightarrow> string \<Rightarrow> 's \<Rightarrow> 's"
  rd_scan :: "time \<Rightarrow> string \<Rightarrow> 's \<Rightarrow> string list"

section \<open>Laws\<close>

text \<open>What a command that runs at an instant sees of an entry.\<close>

definition seen :: "time \<Rightarrow> (string \<Rightarrow> rentry option) \<Rightarrow> string \<Rightarrow> rentry option" where
  "seen now m k = (case m k of
     Some (v, Some d) \<Rightarrow> if now < d then Some (v, Some d) else None
   | e \<Rightarrow> e)"

lemma seen_Some: "seen now m k = Some (v, d) \<longleftrightarrow> m k = Some (v, d) \<and> (\<forall>t. d = Some t \<longrightarrow> now < t)"
  by (auto simp: seen_def split: option.splits)

lemma seen_upd [simp]:
  "seen now (m(k := x)) k' = (if k' = k then seen now (\<lambda>_. x) k else seen now m k')"
  by (simp add: seen_def)

lemma seen_const [simp]:
  "seen now (\<lambda>_. None) k = None" "seen now (\<lambda>_. Some (v, None)) k = Some (v, None)"
  "seen now (\<lambda>_. Some (v, Some d)) k = (if now < d then Some (v, Some d) else None)"
  by (simp_all add: seen_def)

lemma seen_later: "now \<le> later \<Longrightarrow> seen later m k = Some e \<Longrightarrow> seen now m k = Some e"
  by (auto simp: seen_def split: option.splits if_splits)

text \<open>Two keys with the same lifetime are seen together.\<close>

lemma seen_together: "seen later m a = Some (v, d) \<Longrightarrow> seen now m b = Some (w, d) \<Longrightarrow> seen later m b = Some (w, d)"
  by (auto simp: seen_Some)

definition hash_of :: "rentry option \<Rightarrow> (string, string) gomap" where
  "hash_of e = (case e of Some (RHash h, _) \<Rightarrow> h | _ \<Rightarrow> [])"

definition zset_of :: "rentry option \<Rightarrow> (string, string) gomap" where
  "zset_of e = (case e of Some (RZset z, _) \<Rightarrow> z | _ \<Rightarrow> [])"

definition lifetime_of :: "rentry option \<Rightarrow> time option" where
  "lifetime_of e = (case e of Some (_, d) \<Rightarrow> d | None \<Rightarrow> None)"

lemma of_None [simp]: "hash_of None = []" "zset_of None = []" "lifetime_of None = None"
  by (simp_all add: hash_of_def zset_of_def lifetime_of_def)

lemma of_Some [simp]:
  "hash_of (Some (RHash h, d)) = h" "zset_of (Some (RZset z, d)) = z" "lifetime_of (Some (v, d)) = d"
  by (simp_all add: hash_of_def zset_of_def lifetime_of_def)

text \<open>A key holds nothing or a value of the kind that the command is for.\<close>

definition is_kind :: "(rvalue \<Rightarrow> bool) \<Rightarrow> rentry option \<Rightarrow> bool" where
  "is_kind K e \<longleftrightarrow> (case e of None \<Rightarrow> True | Some (v, _) \<Rightarrow> K v)"

definition is_str :: "rvalue \<Rightarrow> bool" where "is_str v \<longleftrightarrow> (case v of RStr _ \<Rightarrow> True | _ \<Rightarrow> False)"
definition is_hash :: "rvalue \<Rightarrow> bool" where "is_hash v \<longleftrightarrow> (case v of RHash _ \<Rightarrow> True | _ \<Rightarrow> False)"
definition is_zset :: "rvalue \<Rightarrow> bool" where "is_zset v \<longleftrightarrow> (case v of RZset _ \<Rightarrow> True | _ \<Rightarrow> False)"

lemma is_kind_simps [simp]:
  "is_kind K None" "is_kind K (Some (v, d)) \<longleftrightarrow> K v"
  "is_str (RStr x)" "is_hash (RHash h)" "is_zset (RZset z)"
  by (simp_all add: is_kind_def is_str_def is_hash_def is_zset_def)

definition glob_free :: "string \<Rightarrow> bool" where
  "glob_free p \<longleftrightarrow> list_all (\<lambda>c. c \<notin> {CHR ''*'', CHR ''?'', CHR ''['', CHR 0x5C}) p"

definition hash_put :: "(string, string) gomap \<Rightarrow> (string \<times> string) list \<Rightarrow> (string, string) gomap" where
  "hash_put h fvs = foldl (\<lambda>h (f, v). gm_set f v h) h fvs"

text \<open>\<open>ZREM\<close> of the last member removes the key.\<close>

definition zset_put :: "(string, string) gomap \<Rightarrow> time option \<Rightarrow> rentry option" where
  "zset_put z d = (if z = [] then None else Some (RZset z, d))"

locale redis =
  fixes R :: "'s redis" and entries :: "'s \<Rightarrow> string \<Rightarrow> rentry option"
  assumes get_absent: "seen now (entries s) k = None \<Longrightarrow> rd_get R now k s = None"
    and get_present: "seen now (entries s) k = Some (RStr v, d) \<Longrightarrow> rd_get R now k s = Some v"
    and set_taken: "seen now (entries s) k \<noteq> None \<Longrightarrow> rd_set_nx_ex R now k v ttl s = (False, s)"
    and set_free: "seen now (entries s) k = None \<Longrightarrow> 0 < ttl \<Longrightarrow>
        \<exists>s'. rd_set_nx_ex R now k v ttl s = (True, s') \<and>
             entries s' = (entries s)(k \<mapsto> (RStr v, Some (now + ttl * second)))"
    and del: "entries (rd_del R now k s) = (entries s)(k := None)"
    and hset: "is_kind is_hash (seen now (entries s) k) \<Longrightarrow> fvs \<noteq> [] \<Longrightarrow>
        entries (rd_hset R now k fvs s) = (entries s)(k \<mapsto>
          (RHash (hash_put (hash_of (seen now (entries s) k)) fvs), lifetime_of (seen now (entries s) k)))"
    and hget: "is_kind is_hash (seen now (entries s) k) \<Longrightarrow>
        rd_hget R now k f s = gm_get (hash_of (seen now (entries s) k)) f"
    and hgetall: "is_kind is_hash (seen now (entries s) k) \<Longrightarrow>
        rd_hgetall R now k s = hash_of (seen now (entries s) k)"
    and expire: "seen now (entries s) k = Some (x, d) \<Longrightarrow> 0 < ttl \<Longrightarrow>
        entries (rd_expire R now k ttl s) = (entries s)(k \<mapsto> (x, Some (now + ttl * second)))"
    and zcard: "is_kind is_zset (seen now (entries s) k) \<Longrightarrow>
        rd_zcard R now k s = int (length (zset_of (seen now (entries s) k)))"
    and zadd: "is_kind is_zset (seen now (entries s) k) \<Longrightarrow>
        entries (rd_zadd R now k score m s) = (entries s)(k \<mapsto>
          (RZset (gm_set m score (zset_of (seen now (entries s) k))), lifetime_of (seen now (entries s) k)))"
    and zrem: "is_kind is_zset (seen now (entries s) k) \<Longrightarrow>
        entries (rd_zrem R now k m s) = (entries s)(k :=
          zset_put (gm_del m (zset_of (seen now (entries s) k))) (lifetime_of (seen now (entries s) k)))"
    and scan: "glob_free p \<Longrightarrow>
        set (rd_scan R now (p @ ''*'') s) = {k. seen now (entries s) k \<noteq> None \<and> has_prefix k p}"

section \<open>A keyspace\<close>

type_synonym keyspace = "(string, rentry) gomap"

definition ks_seen :: "time \<Rightarrow> keyspace \<Rightarrow> string \<Rightarrow> rentry option" where
  "ks_seen now s k = seen now (gm_get s) k"

definition ks_put :: "string \<Rightarrow> rentry option \<Rightarrow> keyspace \<Rightarrow> keyspace" where
  "ks_put k e s = (case e of None \<Rightarrow> gm_del k s | Some e \<Rightarrow> gm_set k e s)"

definition ks_expire :: "time \<Rightarrow> string \<Rightarrow> int \<Rightarrow> keyspace \<Rightarrow> keyspace" where
  "ks_expire now k ttl s = (case ks_seen now s k of
     None \<Rightarrow> s | Some (v, d) \<Rightarrow> ks_put k (Some (v, Some (now + ttl * second))) s)"

definition ks_scan :: "time \<Rightarrow> string \<Rightarrow> keyspace \<Rightarrow> string list" where
  "ks_scan now pat s = filter (\<lambda>k. ks_seen now s k \<noteq> None \<and> has_prefix k (butlast pat)) (map fst s)"

definition ks_redis :: "keyspace redis" where
  "ks_redis = \<lparr>
     rd_get = (\<lambda>now k s. case ks_seen now s k of Some (RStr v, _) \<Rightarrow> Some v | _ \<Rightarrow> None),
     rd_set_nx_ex = (\<lambda>now k v ttl s.
       if ks_seen now s k \<noteq> None then (False, s)
       else (True, ks_put k (Some (RStr v, Some (now + ttl * second))) s)),
     rd_del = (\<lambda>now k s. ks_put k None s),
     rd_hset = (\<lambda>now k fvs s. ks_put k
       (Some (RHash (hash_put (hash_of (ks_seen now s k)) fvs), lifetime_of (ks_seen now s k))) s),
     rd_hget = (\<lambda>now k f s. gm_get (hash_of (ks_seen now s k)) f),
     rd_hgetall = (\<lambda>now k s. hash_of (ks_seen now s k)),
     rd_expire = ks_expire,
     rd_zcard = (\<lambda>now k s. int (length (zset_of (ks_seen now s k)))),
     rd_zadd = (\<lambda>now k score m s. ks_put k
       (Some (RZset (gm_set m score (zset_of (ks_seen now s k))), lifetime_of (ks_seen now s k))) s),
     rd_zrem = (\<lambda>now k m s. ks_put k
       (zset_put (gm_del m (zset_of (ks_seen now s k))) (lifetime_of (ks_seen now s k))) s),
     rd_scan = ks_scan\<rparr>"

lemma ks_put_get [simp]: "gm_get (ks_put k e s) = (gm_get s)(k := e)"
  by (rule ext) (simp add: ks_put_def split: option.split)

lemma ks_scan_set:
  "set (ks_scan now (p @ ''*'') s) = {k. seen now (gm_get s) k \<noteq> None \<and> has_prefix k p}"
proof -
  have "k \<in> set (map fst s)" if "seen now (gm_get s) k \<noteq> None" for k
  proof -
    have "map_of s k \<noteq> None" using that by (cases "map_of s k") (simp_all add: seen_def gm_get_def)
    then show ?thesis by (simp add: map_of_eq_None_iff)
  qed
  then show ?thesis
    by (auto simp: ks_scan_def ks_seen_def butlast_append)
qed

interpretation ks: redis ks_redis gm_get
proof
  show "seen now (gm_get s) k = Some (v, d) \<Longrightarrow> 0 < ttl \<Longrightarrow>
      gm_get (rd_expire ks_redis now k ttl s) = (gm_get s)(k \<mapsto> (v, Some (now + ttl * second)))"
    for now s k v d ttl by (simp add: ks_redis_def ks_expire_def ks_seen_def)
  show "set (rd_scan ks_redis now (p @ ''*'') s) = {k. seen now (gm_get s) k \<noteq> None \<and> has_prefix k p}"
    for p now s by (simp add: ks_redis_def ks_scan_set)
qed (simp_all add: ks_redis_def ks_seen_def)

end
