(* ===== verification/RedisHoldStore.thy ===== *)
theory RedisHoldStore
  imports Redis MemHoldStore
begin

text \<open>
  \<open>internal/adapters/redis/holdstore.go\<close>: the hold store on Redis commands, its two Lua scripts
  included. A script is one atomic unit, so an operation is one function of the keyspace. The
  locale \<open>redis_holds\<close> derives the whole contract \<open>hold_store\<close> from the laws of Redis.
\<close>

section \<open>Keys\<close>

definition globalHoldsKey :: string where
  "globalHoldsKey = ''holds:expiring''"

definition seatPrefix :: string where
  "seatPrefix = ''seat:''"

definition sessionPrefix :: string where
  "sessionPrefix = ''session:''"

definition userHoldsPrefix :: string where
  "userHoldsPrefix = ''user:''"

definition seat_key :: "string \<Rightarrow> seat \<Rightarrow> string" where
  "seat_key screeningID seat = seatPrefix @ screeningID @ '':'' @ s_Row seat @ '':'' @ itoa (s_Number seat)"

definition parse_seat_key :: "unicode \<Rightarrow> string \<Rightarrow> string \<Rightarrow> seat option" where
  "parse_seat_key ut screeningID key =
     (let prefix = seatPrefix @ screeningID @ '':'' in
      if \<not> has_prefix key prefix then None
      else case cut CHR '':'' (trim_prefix key prefix) of
        None \<Rightarrow> None
      | Some (row, numStr) \<Rightarrow>
         (case parse_int numStr of
            None \<Rightarrow> None
          | Some num \<Rightarrow>
             (case new_seat ut row num of Inl err \<Rightarrow> None | Inr seat \<Rightarrow> Some seat)))"

definition session_key :: "string \<Rightarrow> string" where
  "session_key sessionID = sessionPrefix @ sessionID"

definition user_holds_key :: "string \<Rightarrow> string" where
  "user_holds_key userID = userHoldsPrefix @ userID @ '':holds''"

section \<open>Scripts\<close>

text \<open>
  The Lua lists \<open>KEYS\<close> and \<open>ARGV\<close> count from one. Arguments arrive as strings; \<open>tonumber\<close> reads
  the decimal numerals that the client sends for Go integers.
\<close>

definition tonumber :: "string \<Rightarrow> int" where
  "tonumber s = (case parse_int s of Some i \<Rightarrow> i | None \<Rightarrow> 0)"

definition hold_script :: "'s redis \<Rightarrow> time \<Rightarrow> string list \<Rightarrow> string list \<Rightarrow> 's \<Rightarrow> string \<times> 's" where
  "hold_script R now KEYS ARGV s =
     (if rd_zcard R now (KEYS ! 2) s \<ge> tonumber (ARGV ! 3) then (''LIMIT'', s)
      else case rd_set_nx_ex R now (KEYS ! 0) (ARGV ! 0) (tonumber (ARGV ! 1)) s of
        (True, s1) \<Rightarrow>
          let s2 = rd_hset R now (KEYS ! 1)
                [(''screening_id'', ARGV ! 5), (''row'', ARGV ! 6), (''num'', ARGV ! 7),
                 (''user_id'', ARGV ! 8), (''hold_token'', ARGV ! 0), (''expires_at'', ARGV ! 2)] s1;
              s3 = rd_expire R now (KEYS ! 1) (tonumber (ARGV ! 1)) s2;
              s4 = rd_zadd R now (KEYS ! 2) (ARGV ! 2) (ARGV ! 4) s3;
              s5 = rd_zadd R now (KEYS ! 3) (ARGV ! 2) (ARGV ! 4) s4
          in (''OK'', s5)
      | (False, s1) \<Rightarrow> (''TAKEN'', s1))"

text \<open>Concatenating an absent field is a run-time error of the script; it comes before any write.\<close>

definition release_script :: "'s redis \<Rightarrow> time \<Rightarrow> string list \<Rightarrow> string list \<Rightarrow> 's \<Rightarrow> string res \<times> 's" where
  "release_script R now KEYS ARGV s =
     (let field = (\<lambda>f. rd_hget R now (KEYS ! 0) f s) in
      case field ''user_id'' of
        None \<Rightarrow> (Inr ''NOT_FOUND'', s)
      | Some owner \<Rightarrow>
          if owner \<noteq> ARGV ! 0 then (Inr ''NOT_OWNER'', s)
          else
            let token = field ''hold_token'' in
            case (field ''screening_id'', field ''row'', field ''num'') of
              (Some screening, Some row, Some num) \<Rightarrow>
                let seatKey = ''seat:'' @ screening @ '':'' @ row @ '':'' @ num;
                    s1 = (if rd_get R now seatKey s = token then rd_del R now seatKey s else s);
                    s2 = rd_del R now (KEYS ! 0) s1;
                    s3 = rd_zrem R now (KEYS ! 1) (ARGV ! 1) s2;
                    s4 = rd_zrem R now (KEYS ! 2) (ARGV ! 1) s3
                in (Inr ''OK'', s4)
            | _ \<Rightarrow> (Inl (Infra ''attempt to concatenate a boolean value''), s))"

section \<open>Operations\<close>

record redis_store =
  rs_holdTTL :: duration
  rs_maxHolds :: int

definition new_redis_store :: "duration \<Rightarrow> int \<Rightarrow> redis_store" where
  "new_redis_store holdTTL maxHolds = \<lparr>rs_holdTTL = holdTTL, rs_maxHolds = maxHolds\<rparr>"

text \<open>\<open>int64(d.Seconds())\<close> truncates towards zero.\<close>

definition whole_seconds :: "duration \<Rightarrow> int" where
  "whole_seconds d = (if 0 \<le> d then d div second else - (- d div second))"

definition ttl_seconds :: "duration \<Rightarrow> int" where
  "ttl_seconds ttl =
     (let n = whole_seconds ttl in if ttl > n * second then n + 1 else n)"

text \<open>\<open>time.Until(t)\<close>: the distance saturates at the ends of \<open>Duration\<close>.\<close>

definition time_until :: "time \<Rightarrow> time \<Rightarrow> duration" where
  "time_until t now = max (- (2 ^ 63)) (min (2 ^ 63 - 1) (t - now))"

text \<open>
  \<open>Hold\<close>. The code reads the clock for the validation, again for the lifetime, and the script
  runs at an instant of the server: \<open>checked\<close> is the first, \<open>now\<close> the other two.
\<close>

definition redis_hold :: "'s redis \<Rightarrow> redis_store \<Rightarrow> time \<Rightarrow> time \<Rightarrow> hold \<Rightarrow> 's \<Rightarrow> unit res \<times> 's" where
  "redis_hold R st checked now h s =
     (case hold_validate h checked of
        Inl err \<Rightarrow> (Inl err, s)
      | Inr _ \<Rightarrow>
          let ttlSeconds = ttl_seconds (time_until (h_ExpiresAt h) now) in
          if ttlSeconds < 1 then (Inl (ErrorsNew ''booking: hold expired before it could be written''), s)
          else
            let keys = [seat_key (h_ScreeningID h) (h_Seat h), session_key (h_SessionID h),
                        user_holds_key (h_UserID h), globalHoldsKey];
                args = [h_HoldToken h, itoa ttlSeconds, itoa (int64 (to_unix (h_ExpiresAt h))),
                        itoa (rs_maxHolds st), h_SessionID h, h_ScreeningID h, s_Row (h_Seat h),
                        itoa (s_Number (h_Seat h)), h_UserID h];
                (res, s') = hold_script R now keys args s
            in (if res = ''OK'' then Inr ()
                else if res = ''LIMIT'' then Inl ErrHoldLimitExceeded
                else if res = ''TAKEN'' then Inl ErrSeatAlreadyHeld
                else Inl (Errorf ''booking: hold script returned unexpected result %q'' [ArgS res] []), s'))"

definition redis_release :: "'s redis \<Rightarrow> time \<Rightarrow> string \<Rightarrow> string \<Rightarrow> 's \<Rightarrow> unit res \<times> 's" where
  "redis_release R now sessionID userID s =
     (let keys = [session_key sessionID, user_holds_key userID, globalHoldsKey];
          (r, s') = release_script R now keys [userID, sessionID] s
      in (case r of
            Inl err \<Rightarrow> Inl (Errorf ''booking: release script: %w'' [] [err])
          | Inr res \<Rightarrow>
              if res = ''OK'' then Inr ()
              else if res = ''NOT_FOUND'' then Inl ErrHoldNotFound
              else if res = ''NOT_OWNER'' then Inl ErrNotHoldOwner
              else Inl (Errorf ''booking: release script returned unexpected result %q'' [ArgS res] []), s'))"

text \<open>Indexing a Go map with an absent key gives the zero value, here the empty string.\<close>

definition field :: "(string, string) gomap \<Rightarrow> string \<Rightarrow> string" where
  "field fs k = (case gm_get fs k of None \<Rightarrow> [] | Some v \<Rightarrow> v)"

definition decode_session :: "unicode \<Rightarrow> string \<Rightarrow> (string, string) gomap \<Rightarrow> hold res" where
  "decode_session ut sessionID fs =
     (case parse_int (field fs ''num'') of
        None \<Rightarrow> Inl (Errorf ''booking: corrupt session payload (num=%q): %w'' [ArgS (field fs ''num'')] [Infra ''strconv.Atoi''])
      | Some num \<Rightarrow>
     (case parse_int (field fs ''expires_at'') of
        None \<Rightarrow> Inl (Errorf ''booking: corrupt session payload (expires_at=%q): %w''
                 [ArgS (field fs ''expires_at'')] [Infra ''strconv.ParseInt''])
      | Some expiresUnix \<Rightarrow>
     (case new_seat ut (field fs ''row'') num of
        Inl err \<Rightarrow> Inl (Errorf ''booking: corrupt session payload: %w'' [] [err])
      | Inr seat \<Rightarrow>
          Inr \<lparr>h_SessionID = sessionID, h_ScreeningID = field fs ''screening_id'', h_Seat = seat,
               h_UserID = field fs ''user_id'', h_HoldToken = field fs ''hold_token'',
               h_ExpiresAt = unix expiresUnix\<rparr>)))"

definition redis_get :: "'s redis \<Rightarrow> unicode \<Rightarrow> time \<Rightarrow> string \<Rightarrow> 's \<Rightarrow> hold res" where
  "redis_get R ut now sessionID s =
     (let fields = rd_hgetall R now (session_key sessionID) s in
      if length fields = 0 then Inl ErrHoldNotFound else decode_session ut sessionID fields)"

definition redis_held_seats :: "'s redis \<Rightarrow> unicode \<Rightarrow> time \<Rightarrow> string \<Rightarrow> 's \<Rightarrow> seat list" where
  "redis_held_seats R ut now screeningID s =
     List.map_filter (parse_seat_key ut screeningID) (rd_scan R now (seatPrefix @ screeningID @ '':*'') s)"

section \<open>Invariant\<close>

text \<open>The fields that the script writes, and what reading them back gives.\<close>

definition session_fields :: "hold \<Rightarrow> (string, string) gomap" where
  "session_fields h =
     [(''screening_id'', h_ScreeningID h), (''row'', s_Row (h_Seat h)), (''num'', itoa (s_Number (h_Seat h))),
      (''user_id'', h_UserID h), (''hold_token'', h_HoldToken h),
      (''expires_at'', itoa (int64 (to_unix (h_ExpiresAt h))))]"

definition redis_stored :: "hold \<Rightarrow> hold" where
  "redis_stored h = h\<lparr>h_ExpiresAt := unix (int64 (to_unix (h_ExpiresAt h)))\<rparr>"

definition hold_key :: "hold \<Rightarrow> string" where
  "hold_key h = seat_key (h_ScreeningID h) (h_Seat h)"

definition bookable_seat :: "hold \<Rightarrow> bool" where
  "bookable_seat h \<longleftrightarrow> seat_well_formed (h_Seat h) \<and> int64_range (s_Number (h_Seat h))"

text \<open>The session key of \<open>h\<close> is there, with its fields, until \<open>d\<close>.\<close>

definition session_at :: "time \<Rightarrow> (string \<Rightarrow> rentry option) \<Rightarrow> hold \<Rightarrow> time \<Rightarrow> bool" where
  "session_at now m h d \<longleftrightarrow>
     seen now m (session_key (h_SessionID h)) = Some (RHash (session_fields h), Some d)"

definition seat_at :: "time \<Rightarrow> (string \<Rightarrow> rentry option) \<Rightarrow> hold \<Rightarrow> time \<Rightarrow> bool" where
  "seat_at now m h d \<longleftrightarrow> seen now m (hold_key h) = Some (RStr (h_HoldToken h), Some d)"

text \<open>
  A visible session key is that of some hold and comes with its seat key, of the same lifetime;
  a visible seat key belongs to such a session; tokens tell sessions apart; the two kinds of
  bookkeeping keys hold sorted sets.
\<close>

definition rh_sessions_ok :: "time \<Rightarrow> (string \<Rightarrow> rentry option) \<Rightarrow> bool" where
  "rh_sessions_ok now m \<longleftrightarrow> (\<forall>sid e. seen now m (session_key sid) = Some e \<longrightarrow>
     (\<exists>h d. h_SessionID h = sid \<and> e = (RHash (session_fields h), Some d) \<and> bookable_seat h \<and> seat_at now m h d))"

definition rh_seats_ok :: "time \<Rightarrow> (string \<Rightarrow> rentry option) \<Rightarrow> bool" where
  "rh_seats_ok now m \<longleftrightarrow> (\<forall>k e. seen now m (seatPrefix @ k) = Some e \<longrightarrow>
     (\<exists>h d. session_at now m h d \<and> bookable_seat h \<and> hold_key h = seatPrefix @ k))"

definition rh_tokens_ok :: "time \<Rightarrow> (string \<Rightarrow> rentry option) \<Rightarrow> bool" where
  "rh_tokens_ok now m \<longleftrightarrow> (\<forall>h h' d d'. session_at now m h d \<longrightarrow> session_at now m h' d' \<longrightarrow>
     h_HoldToken h = h_HoldToken h' \<longrightarrow> h_SessionID h = h_SessionID h')"

definition rh_zsets_ok :: "time \<Rightarrow> (string \<Rightarrow> rentry option) \<Rightarrow> bool" where
  "rh_zsets_ok now m \<longleftrightarrow> is_kind is_zset (seen now m globalHoldsKey) \<and>
     (\<forall>u. is_kind is_zset (seen now m (user_holds_key u)))"

definition rh_ok :: "time \<Rightarrow> (string \<Rightarrow> rentry option) \<Rightarrow> bool" where
  "rh_ok now m \<longleftrightarrow> rh_sessions_ok now m \<and> rh_seats_ok now m \<and> rh_tokens_ok now m \<and> rh_zsets_ok now m"

definition rh_live :: "unicode \<Rightarrow> time \<Rightarrow> (string \<Rightarrow> rentry option) \<Rightarrow> string \<Rightarrow> hold option" where
  "rh_live ut now m sid =
     (case seen now m (session_key sid) of
        Some (RHash fs, _) \<Rightarrow> (case decode_session ut sid fs of Inr h \<Rightarrow> Some h | Inl _ \<Rightarrow> None)
      | _ \<Rightarrow> None)"

text \<open>The session identifiers with an entry, lapsed or not, and the tokens in all hashes.\<close>

definition rh_used :: "(string \<Rightarrow> rentry option) \<Rightarrow> string set" where
  "rh_used m = {sid. m (session_key sid) \<noteq> None} \<union>
     {tok. \<exists>k fs d. m k = Some (RHash fs, d) \<and> gm_get fs ''hold_token'' = Some tok}"

section \<open>Keys and fields\<close>

lemma seat_key_mem: "seat_key scr seat = mem_seat_key scr seat"
  by (simp add: seat_key_def mem_seat_key_def seatPrefix_def)

lemma key_simps [simp]:
  "session_key a = session_key b \<longleftrightarrow> a = b" "user_holds_key u = user_holds_key v \<longleftrightarrow> u = v"
  "seatPrefix @ x \<noteq> session_key a" "session_key a \<noteq> seatPrefix @ x"
  "hold_key h \<noteq> session_key a" "session_key a \<noteq> hold_key h"
  "hold_key h \<noteq> user_holds_key u" "user_holds_key u \<noteq> hold_key h"
  "hold_key h \<noteq> globalHoldsKey" "globalHoldsKey \<noteq> hold_key h"
  "seatPrefix @ x \<noteq> user_holds_key u" "user_holds_key u \<noteq> seatPrefix @ x"
  "seatPrefix @ x \<noteq> globalHoldsKey" "globalHoldsKey \<noteq> seatPrefix @ x"
  "session_key a \<noteq> user_holds_key u" "user_holds_key u \<noteq> session_key a"
  "session_key a \<noteq> globalHoldsKey" "globalHoldsKey \<noteq> session_key a"
  "user_holds_key u \<noteq> globalHoldsKey" "globalHoldsKey \<noteq> user_holds_key u"
  by (auto simp: session_key_def user_holds_key_def hold_key_def seat_key_def seatPrefix_def sessionPrefix_def
      userHoldsPrefix_def globalHoldsKey_def)

lemma hold_key_seat: "hold_key h = seatPrefix @ (h_ScreeningID h @ '':'' @ s_Row (h_Seat h) @ '':'' @ itoa (s_Number (h_Seat h)))"
  by (simp add: hold_key_def seat_key_def)

lemma hold_key_inject:
  "bookable_seat h \<Longrightarrow> bookable_seat h' \<Longrightarrow> hold_key h = hold_key h' \<longleftrightarrow> same_seat h h'"
  using mem_key_of_inject [of h h'] well_formed_keyable [of "h_Seat h"] well_formed_keyable [of "h_Seat h'"]
  by (auto simp: bookable_seat_def hold_key_def seat_key_mem mem_key_of_def same_seat_def)

lemma session_fields_get [simp]:
  "gm_get (session_fields h) ''screening_id'' = Some (h_ScreeningID h)"
  "gm_get (session_fields h) ''row'' = Some (s_Row (h_Seat h))"
  "gm_get (session_fields h) ''num'' = Some (itoa (s_Number (h_Seat h)))"
  "gm_get (session_fields h) ''user_id'' = Some (h_UserID h)"
  "gm_get (session_fields h) ''hold_token'' = Some (h_HoldToken h)"
  "gm_get (session_fields h) ''expires_at'' = Some (itoa (int64 (to_unix (h_ExpiresAt h))))"
  by (simp_all add: gm_get_def session_fields_def)

lemma session_fields_put:
  "hash_put [] [(''screening_id'', h_ScreeningID h), (''row'', s_Row (h_Seat h)), (''num'', itoa (s_Number (h_Seat h))),
      (''user_id'', h_UserID h), (''hold_token'', h_HoldToken h),
      (''expires_at'', itoa (int64 (to_unix (h_ExpiresAt h))))] = session_fields h"
  by (simp add: hash_put_def session_fields_def gm_set_def)

lemma decode_stored:
  "bookable_seat h \<Longrightarrow> decode_session ut (h_SessionID h) (session_fields h) = Inr (redis_stored h)"
  by (simp add: decode_session_def field_def bookable_seat_def parse_int_itoa new_seat_well_formed redis_stored_def)

text \<open>The fields determine the hold that is read back.\<close>

lemma session_fields_inject:
  assumes "session_fields h = session_fields h'" "bookable_seat h" "bookable_seat h'"
  shows "same_seat h h'" "h_HoldToken h = h_HoldToken h'" "h_UserID h = h_UserID h'" "hold_key h = hold_key h'"
  using assms by (auto simp: session_fields_def same_seat_def bookable_seat_def itoa_inject hold_key_def seat_key_def
      intro: seat.equality)

section \<open>What the invariant gives\<close>

lemma rh_sessionD:
  assumes "rh_ok now m" "seen now m (session_key sid) = Some e"
  obtains h d where "h_SessionID h = sid" "e = (RHash (session_fields h), Some d)" "bookable_seat h"
    "seat_at now m h d"
  using assms unfolding rh_ok_def rh_sessions_ok_def by blast

lemma session_at_seat:
  assumes "rh_sessions_ok now m" "session_at now m h d" "bookable_seat h"
  shows "seat_at now m h d"
proof -
  obtain h' d' where "(RHash (session_fields h), Some d) = (RHash (session_fields h'), Some d')"
    "bookable_seat h'" "seat_at now m h' d'"
    using assms(1,2) unfolding rh_sessions_ok_def session_at_def by blast
  then show ?thesis
    using session_fields_inject [of h h'] assms(3) by (simp add: seat_at_def)
qed

lemma session_atD: "rh_ok now m \<Longrightarrow> session_at now m h d \<Longrightarrow> bookable_seat h \<Longrightarrow> seat_at now m h d"
  unfolding rh_ok_def using session_at_seat by blast

text \<open>Two visible sessions with one seat key are the same session.\<close>

lemma rh_exclusive:
  assumes ok: "rh_ok now m" and s: "session_at now m h d" "session_at now m h' d'"
    and b: "bookable_seat h" "bookable_seat h'" and k: "hold_key h = hold_key h'"
  shows "h_SessionID h = h_SessionID h'"
proof -
  have "h_HoldToken h = h_HoldToken h'"
    using session_atD [OF ok s(1) b(1)] session_atD [OF ok s(2) b(2)] k by (simp add: seat_at_def)
  with ok s show ?thesis unfolding rh_ok_def rh_tokens_ok_def by blast
qed

lemma rh_live_Some:
  assumes "rh_ok now m"
  shows "rh_live ut now m sid = Some k \<longleftrightarrow>
     (\<exists>h d. session_at now m h d \<and> h_SessionID h = sid \<and> bookable_seat h \<and> k = redis_stored h)"
proof
  assume l: "rh_live ut now m sid = Some k"
  then obtain e where e: "seen now m (session_key sid) = Some e"
    by (cases "seen now m (session_key sid)") (auto simp: rh_live_def)
  obtain h d where h: "h_SessionID h = sid" "e = (RHash (session_fields h), Some d)" "bookable_seat h"
    by (rule rh_sessionD [OF assms e])
  then have "k = redis_stored h"
    using l e decode_stored [of h ut] by (simp add: rh_live_def)
  with h e show "\<exists>h d. session_at now m h d \<and> h_SessionID h = sid \<and> bookable_seat h \<and> k = redis_stored h"
    by (auto simp: session_at_def)
next
  assume "\<exists>h d. session_at now m h d \<and> h_SessionID h = sid \<and> bookable_seat h \<and> k = redis_stored h"
  then obtain h d where "session_at now m h d" "h_SessionID h = sid" "bookable_seat h" "k = redis_stored h" by blast
  then show "rh_live ut now m sid = Some k"
    using decode_stored [of h ut] by (simp add: rh_live_def session_at_def)
qed

lemma rh_live_None: "rh_ok now m \<Longrightarrow> rh_live ut now m sid = None \<longleftrightarrow> seen now m (session_key sid) = None"
proof
  assume ok: "rh_ok now m" and n: "rh_live ut now m sid = None"
  show "seen now m (session_key sid) = None"
  proof (rule ccontr)
    assume "seen now m (session_key sid) \<noteq> None"
    then obtain e where e: "seen now m (session_key sid) = Some e" by blast
    obtain h d where "h_SessionID h = sid" "e = (RHash (session_fields h), Some d)" "bookable_seat h"
      by (rule rh_sessionD [OF ok e])
    with n e decode_stored [of h ut] show False by (simp add: rh_live_def)
  qed
qed (simp add: rh_live_def)

lemma seat_at_later:
  "now \<le> later \<Longrightarrow> session_at later m h d \<Longrightarrow> seat_at now m h d \<Longrightarrow> seat_at later m h d"
  unfolding session_at_def seat_at_def by (rule seen_together)

lemma session_at_later:
  "now \<le> later \<Longrightarrow> seat_at later m h d \<Longrightarrow> session_at now m h d \<Longrightarrow> session_at later m h d"
  unfolding session_at_def seat_at_def by (rule seen_together)

lemma rh_sessions_ok_later: "rh_sessions_ok now m \<Longrightarrow> now \<le> later \<Longrightarrow> rh_sessions_ok later m"
  unfolding rh_sessions_ok_def
proof (intro allI impI)
  fix sid e
  assume S: "\<forall>sid e. seen now m (session_key sid) = Some e \<longrightarrow> (\<exists>h d. h_SessionID h = sid \<and>
      e = (RHash (session_fields h), Some d) \<and> bookable_seat h \<and> seat_at now m h d)"
    and t: "now \<le> later" and e: "seen later m (session_key sid) = Some e"
  obtain h d where h: "h_SessionID h = sid" "e = (RHash (session_fields h), Some d)" "bookable_seat h" "seat_at now m h d"
    using S seen_later [OF t e] by blast
  have "session_at later m h d" using e h(1,2) by (simp add: session_at_def)
  from h(1-3) seat_at_later [OF t this h(4)]
  show "\<exists>h d. h_SessionID h = sid \<and> e = (RHash (session_fields h), Some d) \<and> bookable_seat h \<and> seat_at later m h d"
    by blast
qed

lemma rh_seats_ok_later:
  assumes S: "rh_sessions_ok now m" and K: "rh_seats_ok now m" and t: "now \<le> later"
  shows "rh_seats_ok later m"
  unfolding rh_seats_ok_def
proof (intro allI impI)
  fix k e assume e: "seen later m (seatPrefix @ k) = Some e"
  then obtain h d where h: "session_at now m h d" "bookable_seat h" "hold_key h = seatPrefix @ k"
    using K seen_later [OF t] unfolding rh_seats_ok_def by blast
  have "seat_at now m h d" by (rule session_at_seat [OF S h(1,2)])
  then have "seat_at later m h d"
    using e seen_later [OF t e] h(3) by (simp add: seat_at_def)
  from session_at_later [OF t this h(1)] h(2,3)
  show "\<exists>h d. session_at later m h d \<and> bookable_seat h \<and> hold_key h = seatPrefix @ k" by blast
qed

lemma rh_ok_later:
  assumes ok: "rh_ok now m" and t: "now \<le> later"
  shows "rh_ok later m"
proof -
  have "rh_tokens_ok later m"
    using ok seen_later [OF t] unfolding rh_ok_def rh_tokens_ok_def session_at_def by blast
  moreover have "is_kind is_zset (seen later m k)" if "is_kind is_zset (seen now m k)" for k
    using that seen_later [OF t, of m k] by (cases "seen later m k") auto
  then have "rh_zsets_ok later m" using ok by (simp add: rh_ok_def rh_zsets_ok_def)
  ultimately show ?thesis
    using ok rh_sessions_ok_later [OF _ t] rh_seats_ok_later [OF _ _ t] by (simp add: rh_ok_def)
qed

text \<open>A store in which nothing was ever written.\<close>

lemma rh_ok_empty: "rh_ok now Map.empty"
  by (simp add: rh_ok_def rh_sessions_ok_def rh_seats_ok_def rh_tokens_ok_def rh_zsets_ok_def session_at_def seen_def)

section \<open>Effects on the entries\<close>

text \<open>The entries after a granted hold and after a release by the owner.\<close>

definition hold_effect :: "hold \<Rightarrow> time \<Rightarrow> (string \<Rightarrow> rentry option) \<Rightarrow> (string \<Rightarrow> rentry option) \<Rightarrow> bool" where
  "hold_effect h d m m' \<longleftrightarrow> (\<exists>zu du zg dg. m' = m(hold_key h \<mapsto> (RStr (h_HoldToken h), Some d),
     session_key (h_SessionID h) \<mapsto> (RHash (session_fields h), Some d),
     user_holds_key (h_UserID h) \<mapsto> (RZset zu, du), globalHoldsKey \<mapsto> (RZset zg, dg)))"

definition release_effect :: "hold \<Rightarrow> (string \<Rightarrow> rentry option) \<Rightarrow> (string \<Rightarrow> rentry option) \<Rightarrow> bool" where
  "release_effect h m m' \<longleftrightarrow> (\<exists>zu du zg dg. m' = m(hold_key h := None, session_key (h_SessionID h) := None,
     user_holds_key (h_UserID h) := zset_put zu du, globalHoldsKey := zset_put zg dg))"

lemma hold_effectI:
  "m' = m(hold_key h \<mapsto> (RStr (h_HoldToken h), Some d),
     session_key (h_SessionID h) \<mapsto> (RHash (session_fields h), Some d),
     user_holds_key (h_UserID h) \<mapsto> (RZset zu, du), globalHoldsKey \<mapsto> (RZset zg, dg)) \<Longrightarrow> hold_effect h d m m'"
  unfolding hold_effect_def by blast

lemma release_effectI:
  "m' = m(hold_key h := None, session_key (h_SessionID h) := None,
     user_holds_key (h_UserID h) := zset_put zu du, globalHoldsKey := zset_put zg dg) \<Longrightarrow> release_effect h m m'"
  unfolding release_effect_def by blast

lemma is_kind_zset_put [simp]: "is_kind is_zset (seen now (\<lambda>_. zset_put z d) k)"
  by (simp add: zset_put_def seen_def split: option.split)

lemma is_kind_zset_seen [simp]: "is_kind is_zset (seen now (\<lambda>_. Some (RZset z, d)) k)"
  by (simp add: seen_def split: option.split)

lemma hold_effect_seen:
  assumes "hold_effect h d m m'" "now < d"
  shows "seen now m' (session_key sid) =
      (if sid = h_SessionID h then Some (RHash (session_fields h), Some d) else seen now m (session_key sid))"
    and "seen now m' (seatPrefix @ k) =
      (if seatPrefix @ k = hold_key h then Some (RStr (h_HoldToken h), Some d) else seen now m (seatPrefix @ k))"
    and "seen now m' (hold_key h') =
      (if hold_key h' = hold_key h then Some (RStr (h_HoldToken h), Some d) else seen now m (hold_key h'))"
  using assms by (auto simp: hold_effect_def)

lemma release_effect_seen:
  assumes "release_effect h m m'"
  shows "seen now m' (session_key sid) = (if sid = h_SessionID h then None else seen now m (session_key sid))"
    and "seen now m' (seatPrefix @ k) = (if seatPrefix @ k = hold_key h then None else seen now m (seatPrefix @ k))"
    and "seen now m' (hold_key h') = (if hold_key h' = hold_key h then None else seen now m (hold_key h'))"
  using assms by (auto simp: release_effect_def)

section \<open>Preservation\<close>

lemma session_fields_token: "session_fields h = session_fields h' \<Longrightarrow> h_HoldToken h = h_HoldToken h'"
  by (simp add: session_fields_def)

lemma rh_hold_keeps:
  assumes ok: "rh_ok now m" and b: "bookable_seat h" and d: "now < d" and eff: "hold_effect h d m m'"
    and seat: "seen now m (hold_key h) = None" and sess: "seen now m (session_key (h_SessionID h)) = None"
    and tok: "\<And>h' d'. session_at now m h' d' \<Longrightarrow> h_HoldToken h' \<noteq> h_HoldToken h"
  shows "rh_ok now m'"
proof -
  note v = hold_effect_seen [OF eff d]
  have "rh_sessions_ok now m'"
    unfolding rh_sessions_ok_def
  proof (intro allI impI)
    fix sid e assume e: "seen now m' (session_key sid) = Some e"
    show "\<exists>h d. h_SessionID h = sid \<and> e = (RHash (session_fields h), Some d) \<and> bookable_seat h \<and> seat_at now m' h d"
    proof (cases "sid = h_SessionID h")
      case True
      have "seat_at now m' h d" by (simp add: seat_at_def v)
      with True e b show ?thesis by (intro exI [of _ h] exI [of _ d]) (simp add: v)
    next
      case False
      with e have "seen now m (session_key sid) = Some e" by (simp add: v)
      then obtain h' d' where h': "h_SessionID h' = sid" "e = (RHash (session_fields h'), Some d')"
        "bookable_seat h'" "seat_at now m h' d'"
        by (rule rh_sessionD [OF ok])
      moreover have "hold_key h' \<noteq> hold_key h" using h'(4) seat by (auto simp: seat_at_def)
      ultimately have "seat_at now m' h' d'" by (simp add: seat_at_def v)
      with h' show ?thesis by blast
    qed
  qed
  moreover have "rh_seats_ok now m'"
    unfolding rh_seats_ok_def
  proof (intro allI impI)
    fix k e assume e: "seen now m' (seatPrefix @ k) = Some e"
    show "\<exists>h d. session_at now m' h d \<and> bookable_seat h \<and> hold_key h = seatPrefix @ k"
    proof (cases "seatPrefix @ k = hold_key h")
      case True
      have "session_at now m' h d" by (simp add: session_at_def v)
      with True b show ?thesis by auto
    next
      case False
      with e have "seen now m (seatPrefix @ k) = Some e" by (simp add: v)
      then obtain h' d' where h': "session_at now m h' d'" "bookable_seat h'" "hold_key h' = seatPrefix @ k"
        using ok unfolding rh_ok_def rh_seats_ok_def by blast
      then have "session_at now m' h' d'" using sess by (auto simp: session_at_def v)
      with h' show ?thesis by blast
    qed
  qed
  moreover have old: "session_at now m h' d' \<or> (h_SessionID h' = h_SessionID h \<and> h_HoldToken h' = h_HoldToken h)"
    if "session_at now m' h' d'" for h' d'
    using that session_fields_token [of h h'] by (auto simp: session_at_def v split: if_splits)
  have "rh_tokens_ok now m'"
    using ok old tok unfolding rh_ok_def rh_tokens_ok_def by metis
  moreover have "rh_zsets_ok now m'"
    using ok eff by (auto simp: rh_ok_def rh_zsets_ok_def hold_effect_def)
  ultimately show ?thesis by (simp add: rh_ok_def)
qed

lemma rh_release_keeps:
  assumes ok: "rh_ok now m" and b: "bookable_seat h" and at: "session_at now m h d" and eff: "release_effect h m m'"
  shows "rh_ok now m'"
proof -
  note v = release_effect_seen [OF eff]
  have other: "hold_key h' \<noteq> hold_key h \<longleftrightarrow> h_SessionID h' \<noteq> h_SessionID h"
    if "session_at now m h' d'" "bookable_seat h'" for h' d'
    using rh_exclusive [OF ok that(1) at that(2) b] that(1) at session_fields_inject(4) [OF _ that(2) b]
    by (auto simp: session_at_def)
  have "rh_sessions_ok now m'"
    unfolding rh_sessions_ok_def
  proof (intro allI impI)
    fix sid e assume e: "seen now m' (session_key sid) = Some e"
    then have e': "seen now m (session_key sid) = Some e" "sid \<noteq> h_SessionID h" by (simp_all add: v split: if_splits)
    obtain h' d' where h': "h_SessionID h' = sid" "e = (RHash (session_fields h'), Some d')"
      "bookable_seat h'" "seat_at now m h' d'"
      by (rule rh_sessionD [OF ok e'(1)])
    then have "session_at now m h' d'" using e'(1) by (simp add: session_at_def)
    with other h' e'(2) have "seat_at now m' h' d'" by (simp add: seat_at_def v)
    with h' show "\<exists>h d. h_SessionID h = sid \<and> e = (RHash (session_fields h), Some d) \<and> bookable_seat h \<and> seat_at now m' h d"
      by blast
  qed
  moreover have "rh_seats_ok now m'"
    unfolding rh_seats_ok_def
  proof (intro allI impI)
    fix k e assume e: "seen now m' (seatPrefix @ k) = Some e"
    then have e': "seen now m (seatPrefix @ k) = Some e" "seatPrefix @ k \<noteq> hold_key h" by (simp_all add: v split: if_splits)
    then obtain h' d' where h': "session_at now m h' d'" "bookable_seat h'" "hold_key h' = seatPrefix @ k"
      using ok unfolding rh_ok_def rh_seats_ok_def by blast
    with other e'(2) have "h_SessionID h' \<noteq> h_SessionID h" by metis
    with h'(1) have "session_at now m' h' d'" by (simp add: session_at_def v)
    with h' show "\<exists>h d. session_at now m' h d \<and> bookable_seat h \<and> hold_key h = seatPrefix @ k" by blast
  qed
  moreover have "session_at now m h' d'" if "session_at now m' h' d'" for h' d'
    using that by (simp add: session_at_def v split: if_splits)
  then have "rh_tokens_ok now m'"
    using ok unfolding rh_ok_def rh_tokens_ok_def by metis
  moreover have "rh_zsets_ok now m'"
    using ok eff by (auto simp: rh_ok_def rh_zsets_ok_def release_effect_def)
  ultimately show ?thesis by (simp add: rh_ok_def)
qed

text \<open>The live holds after an effect.\<close>

lemma rh_live_cong:
  "seen now m (session_key sid) = seen now m' (session_key sid) \<Longrightarrow> rh_live ut now m sid = rh_live ut now m' sid"
  by (simp add: rh_live_def)

lemma rh_live_hold:
  assumes "bookable_seat h" "now < d" "hold_effect h d m m'"
  shows "rh_live ut now m' sid = (if sid = h_SessionID h then Some (redis_stored h) else rh_live ut now m sid)"
  using hold_effect_seen(1) [OF assms(3,2), of sid] decode_stored [OF assms(1), of ut]
  by (simp add: rh_live_def)

lemma rh_live_release:
  assumes "release_effect h m m'"
  shows "rh_live ut now m' sid = (if sid = h_SessionID h then None else rh_live ut now m sid)"
  using release_effect_seen(1) [OF assms, of now sid] by (simp add: rh_live_def)

lemma rh_seat_free:
  assumes ok: "rh_ok now m" and b: "bookable_seat h" and free: "seen now m (hold_key h) = None"
    and l: "rh_live ut now m sid = Some k"
  shows "\<not> same_seat k h"
proof
  assume s: "same_seat k h"
  obtain h' d where h': "session_at now m h' d" "bookable_seat h'" "k = redis_stored h'"
    using l rh_live_Some [OF ok] by blast
  then have "hold_key h' = hold_key h"
    using s by (simp add: same_seat_def redis_stored_def hold_key_def)
  with session_atD [OF ok h'(1,2)] free show False by (simp add: seat_at_def)
qed

text \<open>The identifiers after an effect.\<close>

lemma rh_used_cases:
  assumes "x \<in> rh_used m"
  obtains (session) e where "m (session_key x) = Some e"
    | (token) k fs d where "m k = Some (RHash fs, d)" "gm_get fs ''hold_token'' = Some x"
  using assms unfolding rh_used_def by blast

lemma rh_usedI:
  "m (session_key x) = Some e \<Longrightarrow> x \<in> rh_used m"
  "m k = Some (RHash fs, d) \<Longrightarrow> gm_get fs ''hold_token'' = Some x \<Longrightarrow> x \<in> rh_used m"
  unfolding rh_used_def by blast+

lemma rh_used_hold:
  assumes eff: "hold_effect h d m m'"
  shows "rh_used m' \<subseteq> insert (h_SessionID h) (insert (h_HoldToken h) (rh_used m))"
proof
  fix x assume "x \<in> rh_used m'"
  then show "x \<in> insert (h_SessionID h) (insert (h_HoldToken h) (rh_used m))"
  proof (cases rule: rh_used_cases)
    case (session e)
    then have "x = h_SessionID h \<or> m (session_key x) = Some e"
      using eff by (auto simp: hold_effect_def split: if_splits)
    then show ?thesis by (auto intro: rh_usedI(1))
  next
    case (token k fs e)
    then have "fs = session_fields h \<or> m k = Some (RHash fs, e)"
      using eff by (auto simp: hold_effect_def split: if_splits)
    then show ?thesis using token(2) by (auto intro: rh_usedI(2))
  qed
qed

lemma zset_put_not_hash: "zset_put z d \<noteq> Some (RHash fs, e)"
  by (simp add: zset_put_def)

lemma rh_used_release:
  assumes eff: "release_effect h m m'"
  shows "rh_used m' \<subseteq> rh_used m"
proof
  fix x assume "x \<in> rh_used m'"
  then show "x \<in> rh_used m"
  proof (cases rule: rh_used_cases)
    case (session e)
    then have "m (session_key x) = Some e"
      using eff by (auto simp: release_effect_def split: if_splits)
    then show ?thesis by (rule rh_usedI(1))
  next
    case (token k fs e)
    then have "m k = Some (RHash fs, e)"
      using eff by (auto simp: release_effect_def zset_put_not_hash split: if_splits)
    then show ?thesis using token(2) by (rule rh_usedI(2))
  qed
qed

lemma rh_used_session: "session_at now m h d \<Longrightarrow> h_SessionID h \<in> rh_used m \<and> h_HoldToken h \<in> rh_used m"
proof -
  assume "session_at now m h d"
  then have "m (session_key (h_SessionID h)) = Some (RHash (session_fields h), Some d)"
    by (simp add: session_at_def seen_Some)
  then show ?thesis using session_fields_get(5) [of h] rh_usedI by blast
qed

section \<open>Seat keys read back\<close>

lemma has_prefix_iff: "has_prefix s p \<longleftrightarrow> (\<exists>r. s = p @ r)"
  by (auto simp: has_prefix_def strip_prefix_Some)

lemma strip_prefix_append [simp]: "strip_prefix p (p @ s) = Some s"
  by (simp add: strip_prefix_Some)

lemma parse_int_no_colon: "parse_int s = Some i \<Longrightarrow> CHR '':'' \<notin> set s"
proof -
  have "digits_value acc t = Some n \<Longrightarrow> CHR '':'' \<notin> set t" for acc t n
    by (induction t arbitrary: acc) (auto simp: is_digit_def byte_def split: if_splits)
  moreover assume "parse_int s = Some i"
  ultimately show ?thesis
    by (auto simp: parse_int_def parse_unsigned_def is_digit_def byte_def split: list.splits if_splits option.splits)
qed

text \<open>The parser inverts the key builder, and rejects the key of every other screening.\<close>

lemma parse_seat_key_own:
  "bookable_seat h \<Longrightarrow> parse_seat_key ut (h_ScreeningID h) (hold_key h) = Some (h_Seat h)"
proof -
  assume b: "bookable_seat h"
  then have "CHR '':'' \<notin> set (s_Row (h_Seat h))"
    using well_formed_keyable by (simp add: bookable_seat_def keyable_def)
  moreover have "strip_prefix (seatPrefix @ h_ScreeningID h @ '':'') (hold_key h) =
      Some (s_Row (h_Seat h) @ CHR '':'' # itoa (s_Number (h_Seat h)))"
    by (simp add: strip_prefix_Some hold_key_seat)
  ultimately show ?thesis
    using b by (simp add: parse_seat_key_def has_prefix_def trim_prefix_def cut_append bookable_seat_def
        parse_int_itoa new_seat_well_formed)
qed

lemma parse_seat_key_screening:
  assumes b: "bookable_seat h" and p: "parse_seat_key ut scr (hold_key h) = Some seat"
  shows "h_ScreeningID h = scr"
proof -
  have "has_prefix (hold_key h) (seatPrefix @ scr @ '':'')"
    using p by (simp add: parse_seat_key_def Let_def split: if_splits)
  then obtain rest where key: "hold_key h = (seatPrefix @ scr @ '':'') @ rest"
    unfolding has_prefix_iff by blast
  then have "trim_prefix (hold_key h) (seatPrefix @ scr @ '':'') = rest"
    unfolding trim_prefix_def by (simp only: strip_prefix_append option.case)
  with key p obtain row numStr num where r: "hold_key h = (seatPrefix @ scr @ '':'') @ rest"
    "cut CHR '':'' rest = Some (row, numStr)" "parse_int numStr = Some num"
    by (auto simp: parse_seat_key_def Let_def split: if_splits option.splits prod.splits)
  have rest: "rest = row @ CHR '':'' # numStr" "CHR '':'' \<notin> set row"
    using cut_SomeD [OF r(2)] by simp_all
  have eq: "(h_ScreeningID h @ CHR '':'' # s_Row (h_Seat h)) @ CHR '':'' # itoa (s_Number (h_Seat h)) =
      (scr @ CHR '':'' # row) @ CHR '':'' # numStr"
    using r(1) by (simp add: hold_key_seat rest)
  have "CHR '':'' \<notin> set (s_Row (h_Seat h))"
    using b well_formed_keyable by (simp add: bookable_seat_def keyable_def)
  with split_last_colon [OF itoa_no_colon parse_int_no_colon [OF r(3)] eq] rest(2) split_last_colon
  show ?thesis by blast
qed

section \<open>The contract\<close>

lemma ttl_seconds_range: "1 \<le> ttl_seconds (time_until t now) \<Longrightarrow> int64_range (ttl_seconds (time_until t now))"
proof -
  have "time_until t now div second \<le> 2 ^ 63 div second"
    by (rule zdiv_mono1) (simp_all add: time_until_def)
  then have "time_until t now div second < 2 ^ 62" by (simp add: second_def)
  moreover have "0 \<le> - time_until t now div second" if "\<not> 0 \<le> time_until t now"
    using that by (simp add: pos_imp_zdiv_nonneg_iff)
  moreover assume "1 \<le> ttl_seconds (time_until t now)"
  ultimately show ?thesis
    by (auto simp: ttl_seconds_def whole_seconds_def int64_range_def Let_def split: if_splits)
qed

locale redis_holds = redis R entries
  for R :: "'s redis" and entries :: "'s \<Rightarrow> string \<Rightarrow> rentry option" +
  fixes ut :: unicode and st :: redis_store
begin

text \<open>
  The hold script where the limit and the seat let it through: all four keys are written, the session joins the
  buyer's sorted set, which keeps its lifetime.
\<close>

lemma redis_hold_writes:
  fixes ukey now h
  defines "ukey \<equiv> user_holds_key (h_UserID h)" and "d \<equiv> now + ttl_seconds (time_until (h_ExpiresAt h) now) * second"
  assumes ok: "rh_ok now (entries s)" and f: "fresh_hold (rh_used (entries s)) h"
    and v: "hold_validate h checked = Inr ()" and t: "1 \<le> ttl_seconds (time_until (h_ExpiresAt h) now)"
    and room: "\<not> rd_zcard R now ukey s \<ge> tonumber (itoa (rs_maxHolds st))"
    and free: "seen now (entries s) (hold_key h) = None"
  shows "\<exists>s' score zg dg. redis_hold R st checked now h s = (Inr (), s') \<and>
     entries s' = (entries s)(hold_key h \<mapsto> (RStr (h_HoldToken h), Some d),
       session_key (h_SessionID h) \<mapsto> (RHash (session_fields h), Some d),
       ukey \<mapsto> (RZset (gm_set (h_SessionID h) score (zset_of (seen now (entries s) ukey))), lifetime_of (seen now (entries s) ukey)),
       globalHoldsKey \<mapsto> (RZset zg, dg))"
proof -
  let ?ttl = "ttl_seconds (time_until (h_ExpiresAt h) now)" and ?m = "entries s"
  have t: "tonumber (itoa ?ttl) = ?ttl" "0 < ?ttl"
    using t ttl_seconds_range [of "h_ExpiresAt h" now] by (simp_all add: tonumber_def parse_int_itoa)
  obtain s1 where s1: "rd_set_nx_ex R now (hold_key h) (h_HoldToken h) ?ttl s = (True, s1)"
    "entries s1 = ?m(hold_key h \<mapsto> (RStr (h_HoldToken h), Some d))"
    using set_free [of now s "hold_key h" ?ttl "h_HoldToken h"] free t(2) by (auto simp: d_def)
  have new: "seen now ?m (session_key (h_SessionID h)) = None"
    using f by (auto simp: fresh_hold_def rh_used_def seen_def split: option.splits)
  define fvs where "fvs = [(''screening_id'', h_ScreeningID h), (''row'', s_Row (h_Seat h)),
      (''num'', itoa (s_Number (h_Seat h))), (''user_id'', h_UserID h), (''hold_token'', h_HoldToken h),
      (''expires_at'', itoa (int64 (to_unix (h_ExpiresAt h))))]"
  define score where "score = itoa (int64 (to_unix (h_ExpiresAt h)))"
  define s2 where "s2 = rd_hset R now (session_key (h_SessionID h)) fvs s1"
  define s3 where "s3 = rd_expire R now (session_key (h_SessionID h)) ?ttl s2"
  define s4 where "s4 = rd_zadd R now ukey score (h_SessionID h) s3"
  define s5 where "s5 = rd_zadd R now globalHoldsKey score (h_SessionID h) s4"
  have s2: "entries s2 = (entries s1)(session_key (h_SessionID h) \<mapsto> (RHash (session_fields h), None))"
    using hset [of now s1 "session_key (h_SessionID h)" fvs] new session_fields_put [of h]
    by (simp add: s1(2) s2_def fvs_def)
  have s3: "entries s3 = (entries s2)(session_key (h_SessionID h) \<mapsto> (RHash (session_fields h), Some d))"
    unfolding s3_def d_def by (rule expire [OF _ t(2), where d = None]) (simp add: s2)
  have z: "is_kind is_zset (seen now ?m globalHoldsKey)" "is_kind is_zset (seen now ?m ukey)"
    using ok by (simp_all add: rh_ok_def rh_zsets_ok_def ukey_def)
  have "seen now (entries s3) ukey = seen now ?m ukey" by (simp add: s1(2) s2 s3 ukey_def)
  then have s4: "entries s4 = (entries s3)(ukey \<mapsto>
      (RZset (gm_set (h_SessionID h) score (zset_of (seen now ?m ukey))), lifetime_of (seen now ?m ukey)))"
    unfolding s4_def using zadd [of now s3 ukey] z(2) by simp
  then have "is_kind is_zset (seen now (entries s4) globalHoldsKey)"
    using z(1) by (simp add: s1(2) s2 s3 ukey_def)
  from zadd [OF this] obtain zg dg where s5: "entries s5 = (entries s4)(globalHoldsKey \<mapsto> (RZset zg, dg))"
    unfolding s5_def by blast
  have "redis_hold R st checked now h s = (Inr (), s5)"
    using v t room s1(1) unfolding s5_def s4_def s3_def s2_def fvs_def score_def ukey_def
    by (simp add: redis_hold_def hold_script_def Let_def hold_key_def)
  then show ?thesis
    by (intro exI [of _ s5] exI [of _ score] exI [of _ zg] exI [of _ dg]) (simp add: s5 s4 s3 s2 s1(2))
qed

text \<open>The hold script on fresh identifiers: refused without a write, or all four keys written.\<close>

lemma redis_hold_cases:
  assumes ok: "rh_ok now (entries s)" and f: "fresh_hold (rh_used (entries s)) h"
    and run: "redis_hold R st checked now h s = (r, s')"
  shows "(\<exists>e. r = Inl e \<and> s' = s) \<or>
     (r = Inr () \<and> seen now (entries s) (hold_key h) = None \<and>
      (\<exists>d. now < d \<and> hold_effect h d (entries s) (entries s')))"
proof (cases "hold_validate h checked = Inr () \<and> 1 \<le> ttl_seconds (time_until (h_ExpiresAt h) now) \<and>
    \<not> rd_zcard R now (user_holds_key (h_UserID h)) s \<ge> tonumber (itoa (rs_maxHolds st)) \<and>
    seen now (entries s) (hold_key h) = None")
  case False
  show ?thesis
  proof (cases "hold_validate h checked")
    case (Inl e)
    with run have "r = Inl e \<and> s' = s" by (auto simp: redis_hold_def)
    then show ?thesis by blast
  next
    case (Inr u)
    with False show ?thesis
      using run set_taken [of now s "hold_key h"]
      by (auto simp: redis_hold_def hold_script_def Let_def hold_key_def split: if_splits)
  qed
next
  case True
  let ?d = "now + ttl_seconds (time_until (h_ExpiresAt h) now) * second"
  have "now < ?d" using True by (simp add: second_def)
  moreover have "r = Inr () \<and> hold_effect h ?d (entries s) (entries s')"
    using redis_hold_writes [OF ok f, of checked] True run by (auto intro: hold_effectI)
  ultimately show ?thesis using True by blast
qed

text \<open>The release script: the outcome by the session key, and what a release by the owner writes.\<close>

lemma redis_hget_session:
  assumes "session_at now (entries s) h d"
  shows "rd_hget R now (session_key (h_SessionID h)) f s = gm_get (session_fields h) f"
  using hget [of now s "session_key (h_SessionID h)" f] assms by (simp add: session_at_def)

lemma redis_release_unknown:
  assumes "seen now (entries s) (session_key sid) = None"
  shows "redis_release R now sid uid s = (Inl ErrHoldNotFound, s)"
  using hget [of now s "session_key sid"] assms
  by (simp add: redis_release_def release_script_def Let_def)

lemma redis_release_foreign:
  assumes "session_at now (entries s) h d" "h_SessionID h = sid" "h_UserID h \<noteq> uid"
  shows "redis_release R now sid uid s = (Inl ErrNotHoldOwner, s)"
  using redis_hget_session [OF assms(1)] assms(2,3)
  by (simp add: redis_release_def release_script_def Let_def)

lemma redis_release_writes:
  assumes ok: "rh_ok now (entries s)" and at: "session_at now (entries s) h d" and b: "bookable_seat h"
    and id: "h_SessionID h = sid" "h_UserID h = uid"
  shows "\<exists>s' zg dg. redis_release R now sid uid s = (Inr (), s') \<and>
     entries s' = (entries s)(hold_key h := None, session_key sid := None,
       user_holds_key uid := zset_put (gm_del sid (zset_of (seen now (entries s) (user_holds_key uid))))
         (lifetime_of (seen now (entries s) (user_holds_key uid))),
       globalHoldsKey := zset_put zg dg)"
proof -
  define s1 where "s1 = rd_del R now (hold_key h) s"
  define s2 where "s2 = rd_del R now (session_key sid) s1"
  define s3 where "s3 = rd_zrem R now (user_holds_key uid) sid s2"
  define s4 where "s4 = rd_zrem R now globalHoldsKey sid s3"
  have seat: "rd_get R now (hold_key h) s = Some (h_HoldToken h)"
    using get_present session_atD [OF ok at b] by (simp add: seat_at_def)
  have s2: "entries s2 = (entries s)(hold_key h := None, session_key sid := None)"
    by (simp add: s2_def s1_def del)
  have z: "is_kind is_zset (seen now (entries s) globalHoldsKey)" "is_kind is_zset (seen now (entries s) (user_holds_key u))" for u
    using ok by (simp_all add: rh_ok_def rh_zsets_ok_def)
  have "seen now (entries s2) (user_holds_key uid) = seen now (entries s) (user_holds_key uid)" by (simp add: s2)
  then have s3: "entries s3 = (entries s2)(user_holds_key uid :=
      zset_put (gm_del sid (zset_of (seen now (entries s) (user_holds_key uid)))) (lifetime_of (seen now (entries s) (user_holds_key uid))))"
    unfolding s3_def using zrem [of now s2 "user_holds_key uid"] z(2) by simp
  then have "is_kind is_zset (seen now (entries s3) globalHoldsKey)"
    using z(1) by (simp add: s2)
  from zrem [OF this] obtain zg dg where s4: "entries s4 = (entries s3)(globalHoldsKey := zset_put zg dg)"
    unfolding s4_def by blast
  have "redis_release R now sid uid s = (Inr (), s4)"
    using redis_hget_session [OF at] seat id unfolding s4_def s3_def s2_def s1_def hold_key_def seat_key_def
    by (simp add: redis_release_def release_script_def Let_def seatPrefix_def)
  then show ?thesis by (intro exI [of _ s4] exI [of _ zg] exI [of _ dg]) (simp add: s4 s3 s2)
qed

lemma redis_release_owner:
  assumes ok: "rh_ok now (entries s)" and at: "session_at now (entries s) h d" and b: "bookable_seat h"
    and id: "h_SessionID h = sid" "h_UserID h = uid"
  shows "\<exists>s'. redis_release R now sid uid s = (Inr (), s') \<and> release_effect h (entries s) (entries s')"
  using redis_release_writes [OF assms] id by (auto intro: release_effectI)

lemma redis_get_live:
  assumes ok: "rh_ok now (entries s)"
  shows "redis_get R ut now sid s = (case rh_live ut now (entries s) sid of None \<Rightarrow> Inl ErrHoldNotFound | Some h \<Rightarrow> Inr h)"
proof (cases "seen now (entries s) (session_key sid)")
  case None
  then show ?thesis
    using hgetall [of now s "session_key sid"] by (simp add: redis_get_def rh_live_def)
next
  case (Some e)
  obtain h d where h: "h_SessionID h = sid" "e = (RHash (session_fields h), Some d)" "bookable_seat h"
    by (rule rh_sessionD [OF ok Some])
  have "rd_hgetall R now (session_key sid) s = session_fields h"
    using hgetall [of now s "session_key sid"] Some h(2) by simp
  then show ?thesis
    using Some h decode_stored [OF h(3), of ut] by (simp add: redis_get_def rh_live_def session_fields_def [of h])
qed

lemma redis_held_live:
  assumes ok: "rh_ok now (entries s)" and p: "plain_id scr"
  shows "set (redis_held_seats R ut now scr s) =
    {h_Seat h | sid h. rh_live ut now (entries s) sid = Some h \<and> h_ScreeningID h = scr}" (is "?L = ?R")
proof -
  have g: "glob_free (seatPrefix @ scr @ '':'')"
    using p by (simp add: glob_free_def plain_id_def seatPrefix_def list_all_iff)
  have keys: "set (rd_scan R now (seatPrefix @ scr @ '':*'') s) =
      {k. seen now (entries s) k \<noteq> None \<and> has_prefix k (seatPrefix @ scr @ '':'')}"
    using scan [OF g, of now s] by simp
  have "seat \<in> ?L \<longleftrightarrow> seat \<in> ?R" for seat
  proof
    assume "seat \<in> ?L"
    then have "\<exists>k \<in> set (rd_scan R now (seatPrefix @ scr @ '':*'') s). parse_seat_key ut scr k = Some seat"
      by (force simp: redis_held_seats_def map_filter_def)
    then obtain k where k: "seen now (entries s) k \<noteq> None" "parse_seat_key ut scr k = Some seat"
      "has_prefix k (seatPrefix @ scr @ '':'')"
      unfolding keys by blast
    then obtain e r where e: "seen now (entries s) k = Some e" "k = seatPrefix @ r"
      by (auto simp: has_prefix_iff)
    have "rh_seats_ok now (entries s)" using ok by (simp add: rh_ok_def)
    then obtain h d where h: "session_at now (entries s) h d" "bookable_seat h" "hold_key h = k"
      using e unfolding rh_seats_ok_def by blast
    have "h_ScreeningID h = scr" using parse_seat_key_screening [OF h(2)] k(2) h(3) by blast
    moreover from this have "h_Seat h = seat" using parse_seat_key_own [OF h(2), of ut] k(2) h(3) by simp
    moreover have "rh_live ut now (entries s) (h_SessionID h) = Some (redis_stored h)"
      using rh_live_Some [OF ok] h by blast
    ultimately have "rh_live ut now (entries s) (h_SessionID h) = Some (redis_stored h)"
      "h_ScreeningID (redis_stored h) = scr" "h_Seat (redis_stored h) = seat" by (simp_all add: redis_stored_def)
    then show "seat \<in> ?R" by blast
  next
    assume "seat \<in> ?R"
    then obtain sid k where "rh_live ut now (entries s) sid = Some k" "h_ScreeningID k = scr" "h_Seat k = seat" by blast
    then obtain h d where h: "session_at now (entries s) h d" "bookable_seat h" "h_ScreeningID h = scr" "h_Seat h = seat"
      using rh_live_Some [OF ok] by (auto simp: redis_stored_def)
    have "hold_key h \<in> set (rd_scan R now (seatPrefix @ scr @ '':*'') s)"
      using session_atD [OF ok h(1,2)] h(3) by (auto simp: keys seat_at_def has_prefix_iff hold_key_seat)
    then show "seat \<in> ?L"
      using parse_seat_key_own [OF h(2), of ut] h(3,4) by (force simp: redis_held_seats_def map_filter_def)
  qed
  then show ?thesis by blast
qed

end

context redis_holds
begin

lemma redis_fresh:
  assumes "fresh_hold (rh_used (entries s)) h"
  shows "bookable_seat h" "seen now (entries s) (session_key (h_SessionID h)) = None"
    "session_at now (entries s) h' d' \<Longrightarrow> h_HoldToken h' \<noteq> h_HoldToken h"
proof -
  show "bookable_seat h" using assms by (simp add: fresh_hold_def bookable_seat_def)
  have "entries s (session_key (h_SessionID h)) = None"
    using assms rh_usedI(1) [of "entries s" "h_SessionID h"] by (cases "entries s (session_key (h_SessionID h))")
      (auto simp: fresh_hold_def)
  then show "seen now (entries s) (session_key (h_SessionID h)) = None" by (simp add: seen_def)
  show "session_at now (entries s) h' d' \<Longrightarrow> h_HoldToken h' \<noteq> h_HoldToken h"
    using assms rh_used_session [of now "entries s" h' d'] by (auto simp: fresh_hold_def)
qed

lemma redis_hold_invar:
  assumes "rh_ok now (entries s)" "fresh_hold (rh_used (entries s)) h" "redis_hold R st checked now h s = (r, s')"
  shows "rh_ok now (entries s')"
proof -
  have tok: "\<And>h' d'. session_at now (entries s) h' d' \<Longrightarrow> h_HoldToken h' \<noteq> h_HoldToken h"
    by (rule redis_fresh(3) [OF assms(2)])
  from redis_hold_cases [OF assms] show ?thesis
  proof (elim disjE conjE exE)
    fix e assume "s' = s" then show ?thesis using assms(1) by simp
  next
    fix d assume d: "seen now (entries s) (hold_key h) = None" "now < d" "hold_effect h d (entries s) (entries s')"
    show ?thesis
      by (rule rh_hold_keeps [OF assms(1) redis_fresh(1) [OF assms(2)] d(2,3,1) redis_fresh(2) [OF assms(2)]])
         (rule tok)
  qed
qed

lemma redis_release_cases:
  assumes ok: "rh_ok now (entries s)" and run: "redis_release R now sid uid s = (r, s')"
  shows "s' = s \<or> (\<exists>h d. session_at now (entries s) h d \<and> bookable_seat h \<and> h_SessionID h = sid \<and>
     release_effect h (entries s) (entries s'))"
proof (cases "seen now (entries s) (session_key sid)")
  case None
  with redis_release_unknown [OF None] run show ?thesis by simp
next
  case (Some e)
  obtain h d where h: "h_SessionID h = sid" "e = (RHash (session_fields h), Some d)" "bookable_seat h"
    by (rule rh_sessionD [OF ok Some])
  then have at: "session_at now (entries s) h d" using Some by (simp add: session_at_def)
  show ?thesis
  proof (cases "h_UserID h = uid")
    case True
    with redis_release_owner [OF ok at h(3,1)] run at h show ?thesis by auto
  next
    case False
    with redis_release_foreign [OF at h(1)] run show ?thesis by simp
  qed
qed

end

sublocale redis_holds \<subseteq> rh: hold_store "\<lambda>now s. rh_ok now (entries s)" "\<lambda>now s. rh_live ut now (entries s)"
    redis_stored "\<lambda>s. rh_used (entries s)" "\<lambda>now. redis_hold R st now now" "redis_release R" "redis_get R ut"
    "redis_held_seats R ut"
proof
  fix now s h r s' sid uid scr a b h' later e
  show "rh_ok now (entries s) \<Longrightarrow> fresh_hold (rh_used (entries s)) h \<Longrightarrow> redis_hold R st now now h s = (r, s') \<Longrightarrow>
      rh_ok now (entries s')" by (rule redis_hold_invar)
  show "rh_ok now (entries s')" if "rh_ok now (entries s)" "redis_release R now sid uid s = (r, s')"
    using redis_release_cases [OF that] rh_release_keeps [OF that(1)] that(1) by blast
  show "rh_ok now (entries s) \<Longrightarrow> now \<le> later \<Longrightarrow> rh_ok later (entries s)" by (rule rh_ok_later)
  show "rh_used (entries s') \<subseteq> insert (h_SessionID h) (insert (h_HoldToken h) (rh_used (entries s)))"
    if "rh_ok now (entries s)" "fresh_hold (rh_used (entries s)) h" "redis_hold R st now now h s = (r, s')"
    using redis_hold_cases [OF that] rh_used_hold by blast
  show "rh_used (entries s') \<subseteq> rh_used (entries s)"
    if "rh_ok now (entries s)" "redis_release R now sid uid s = (r, s')"
    using redis_release_cases [OF that] rh_used_release by blast
  show "rh_live ut now (entries s) sid = Some h"
    if "rh_ok now (entries s)" "now \<le> later" "rh_live ut later (entries s) sid = Some h"
    using that(3) rh_live_Some [OF rh_ok_later [OF that(1,2)]] rh_live_Some [OF that(1)] seen_later [OF that(2)]
    unfolding session_at_def by meson
  show "same_seat (redis_stored h) h \<and> h_UserID (redis_stored h) = h_UserID h \<and>
      h_SessionID (redis_stored h) = h_SessionID h" by (simp add: same_seat_def redis_stored_def)
  show "h_SessionID h = sid \<and> keyable (h_Seat h)"
    if "rh_ok now (entries s)" "rh_live ut now (entries s) sid = Some h"
    using that rh_live_Some [OF that(1)] well_formed_keyable by (auto simp: redis_stored_def bookable_seat_def)
  show "rh_ok now (entries s) \<Longrightarrow> redis_get R ut now sid s =
      (case rh_live ut now (entries s) sid of None \<Rightarrow> Inl ErrHoldNotFound | Some h \<Rightarrow> Inr h)" by (rule redis_get_live)
  show "a = b" if ok: "rh_ok now (entries s)" and l: "rh_live ut now (entries s) a = Some h"
    "rh_live ut now (entries s) b = Some h'" "same_seat h h'"
  proof -
    obtain k d k' d' where k: "session_at now (entries s) k d" "bookable_seat k" "h_SessionID k = a" "h = redis_stored k"
      "session_at now (entries s) k' d'" "bookable_seat k'" "h_SessionID k' = b" "h' = redis_stored k'"
      using l(1,2) rh_live_Some [OF ok] by blast
    then have "hold_key k = hold_key k'" using l(3) by (simp add: same_seat_def redis_stored_def hold_key_def)
    with rh_exclusive [OF ok k(1,5,2,6)] k show ?thesis by simp
  qed
  show "(\<forall>sid. rh_live ut now (entries s') sid = (if sid = h_SessionID h then Some (redis_stored h) else rh_live ut now (entries s) sid)) \<and>
      (\<forall>sid h'. rh_live ut now (entries s) sid = Some h' \<longrightarrow> \<not> same_seat h' h)"
    if "rh_ok now (entries s)" "fresh_hold (rh_used (entries s)) h" "redis_hold R st now now h s = (Inr (), s')"
    using redis_hold_cases [OF that] rh_live_hold [OF redis_fresh(1) [OF that(2)]]
      rh_seat_free [OF that(1) redis_fresh(1) [OF that(2)]] by auto
  show "rh_live ut now (entries s) sid = Some h'"
    if "rh_ok now (entries s)" "fresh_hold (rh_used (entries s)) h" "\<not> now < h_ExpiresAt h"
      "redis_hold R st now now h s = (r, s')" "rh_live ut now (entries s') sid = Some h'"
    using redis_hold_cases [OF that(1,2,4)] that(3-5) hold_validate_ok [of h now]
    by (auto simp: redis_hold_def split: sum.splits)
  show "s' = s" if "rh_ok now (entries s)" "fresh_hold (rh_used (entries s)) h" "redis_hold R st now now h s = (Inl e, s')"
    using redis_hold_cases [OF that] by simp
  show "rh_ok now (entries s) \<Longrightarrow> rh_live ut now (entries s) sid = None \<Longrightarrow>
      redis_release R now sid uid s = (Inl ErrHoldNotFound, s)" by (simp add: rh_live_None redis_release_unknown)
  show "redis_release R now sid uid s = (Inl ErrNotHoldOwner, s)"
    if "rh_ok now (entries s)" "rh_live ut now (entries s) sid = Some h" "h_UserID h \<noteq> uid"
    using that redis_release_foreign rh_live_Some [OF that(1)] by (auto simp: redis_stored_def)
  show "\<exists>s'. redis_release R now sid uid s = (Inr (), s') \<and>
      (\<forall>sid'. rh_live ut now (entries s') sid' = (if sid' = sid then None else rh_live ut now (entries s) sid'))"
    if ok: "rh_ok now (entries s)" and l: "rh_live ut now (entries s) sid = Some h" and u: "h_UserID h = uid"
  proof -
    obtain k d where k: "session_at now (entries s) k d" "bookable_seat k" "h_SessionID k = sid" "h = redis_stored k"
      using l rh_live_Some [OF ok] by blast
    with redis_release_owner [OF ok k(1,2,3)] rh_live_release [of k] u show ?thesis
      by (fastforce simp: redis_stored_def)
  qed
  show "rh_ok now (entries s) \<Longrightarrow> plain_id scr \<Longrightarrow> set (redis_held_seats R ut now scr s) =
      {h_Seat h | sid h. rh_live ut now (entries s) sid = Some h \<and> h_ScreeningID h = scr}" by (rule redis_held_live)
qed

interpretation ks_hs: redis_holds ks_redis gm_get ut st
  for ut st by unfold_locales

end
