(* ===== verification/Postgres.thy ===== *)
theory Postgres
  imports DomainBooking
begin

text \<open>
  The PostgreSQL server. Tables, constraints and statements are code of this repository
  (\<open>migrations/*.sql\<close>, \<open>internal/adapters/postgres/sqlcgen\<close>) and are translated by the theories
  that follow; what the server decides by itself is a parameter: the reading of a UUID literal,
  which of several violated unique constraints it reports, the collation of text and its \<open>lower\<close>.
\<close>

record pg_env =
  pg_uuid :: "string \<Rightarrow> string option"
  pg_pick :: "string list \<Rightarrow> string"
  pg_collate :: "string \<Rightarrow> int"
  pg_lower :: "string \<Rightarrow> string"

text \<open>
  A UUID column accepts several spellings of one value (case, braces, missing hyphens) and
  gives back one of them; a unique violation names one of the indexes that are violated.
\<close>

locale postgres =
  fixes E :: pg_env
  assumes uuid_canonical: "pg_uuid E s = Some u \<Longrightarrow> pg_uuid E u = Some u"
    and uuid_nonempty: "pg_uuid E [] = None"
    and pick_violated: "xs \<noteq> [] \<Longrightarrow> pg_pick E xs \<in> set xs"
begin

lemma pick_single: "pg_pick E [x] = x"
  using pick_violated [of "[x]"] by simp

lemma pick_two: "pg_pick E [x, y] = x \<or> pg_pick E [x, y] = y"
  using pick_violated [of "[x, y]"] by simp

end

text \<open>\<open>now()\<close> in a \<open>TIMESTAMPTZ\<close> column: microseconds.\<close>

definition pg_now :: "time \<Rightarrow> time" where
  "pg_now now = now div 1000 * 1000"

definition unique_violation :: string where
  "unique_violation = ''23505''"

definition invalid_text :: error where
  "invalid_text = PgError ''22P02'' []"

definition pg_spell :: "pg_env \<Rightarrow> string \<Rightarrow> string" where
  "pg_spell E s = (case pg_uuid E s of Some u \<Rightarrow> u | None \<Rightarrow> s)"

text \<open>\<open>errors.As(err, &pgErr)\<close>: the first Postgres error in the chain.\<close>

fun as_pg_error :: "error \<Rightarrow> (string \<times> string) option"
  and as_pg_errors :: "error list \<Rightarrow> (string \<times> string) option" where
  "as_pg_error (PgError code con) = Some (code, con)"
| "as_pg_error (Errorf f as es) = as_pg_errors es"
| "as_pg_error e = None"
| "as_pg_errors [] = None"
| "as_pg_errors (e # es) = (case as_pg_error e of Some x \<Rightarrow> Some x | None \<Rightarrow> as_pg_errors es)"

lemma distinct_map_eqD: "distinct (map f xs) \<Longrightarrow> x \<in> set xs \<Longrightarrow> y \<in> set xs \<Longrightarrow> f x = f y \<Longrightarrow> x = y"
  by (simp add: distinct_map inj_on_def)

lemma find_key_unique: "distinct (map f xs) \<Longrightarrow> x \<in> set xs \<Longrightarrow> find (\<lambda>y. f y = f x) xs = Some x"
  by (induction xs) force+

section \<open>An instance\<close>

text \<open>A reading of UUID literals that skips the hyphens.\<close>

definition no_hyphens :: "string \<Rightarrow> string" where
  "no_hyphens s = filter (\<lambda>c. c \<noteq> CHR ''-'') s"

definition plain_pg :: pg_env where
  "plain_pg = \<lparr>pg_uuid = (\<lambda>s. if no_hyphens s = [] then None else Some (no_hyphens s)), pg_pick = hd,
     pg_collate = (\<lambda>s. foldl (\<lambda>a c. a * 256 + int (byte c)) 0 s), pg_lower = (\<lambda>s. s)\<rparr>"

interpretation plain: postgres plain_pg
  by unfold_locales (auto simp: plain_pg_def no_hyphens_def split: if_splits)

end
