(* ===== verification/PgBookingStore.thy ===== *)
theory PgBookingStore
  imports BookingStore Postgres
begin

text \<open>
  \<open>internal/adapters/postgres/repos_booking.go\<close> over the tables \<open>confirmed_bookings\<close> and
  \<open>outbox\<close> (\<open>migrations/00003\<close>, \<open>00004\<close>) and the statements of \<open>sqlcgen/bookings.sql.go\<close> and
  \<open>sqlcgen/outbox.sql.go\<close>. The contract \<open>booking_store\<close> is derived from the constraints.
\<close>

section \<open>Tables and statements\<close>

record confirmed_booking =
  cb_ID :: string
  cb_SessionID :: string
  cb_ScreeningID :: string
  cb_SeatRow :: string
  cb_SeatNumber :: int
  cb_UserID :: string
  cb_Status :: string
  cb_ConfirmedAt :: time
  cb_UpdatedAt :: time

record booking_confirmed_payload =
  bc_BookingID :: string
  bc_SessionID :: string
  bc_ScreeningID :: string
  bc_Row :: string
  bc_Number :: int
  bc_UserID :: string
  bc_ConfirmedAt :: time

record outbox_row =
  ob_EventID :: string
  ob_EventType :: string
  ob_Payload :: booking_confirmed_payload

text \<open>The two tables, and the keys of the tables they reference.\<close>

record pg_bookings =
  pb_rows :: "confirmed_booking list"
  pb_outbox :: "outbox_row list"
  pb_screenings :: "string list"
  pb_users :: "string list"

definition constraintSeatUnique :: string where
  "constraintSeatUnique = ''confirmed_bookings_seat_unique''"

definition constraintSessionUnique :: string where
  "constraintSessionUnique = ''confirmed_bookings_session_unique''"

definition bookingConfirmedEventType :: string where
  "bookingConfirmedEventType = ''BookingConfirmed''"

text \<open>The two unique indexes; the first is partial.\<close>

definition seat_index_hit :: "confirmed_booking \<Rightarrow> confirmed_booking \<Rightarrow> bool" where
  "seat_index_hit row r \<longleftrightarrow> cb_Status row = ''confirmed'' \<and> cb_Status r = ''confirmed'' \<and>
     cb_ScreeningID r = cb_ScreeningID row \<and> cb_SeatRow r = cb_SeatRow row \<and> cb_SeatNumber r = cb_SeatNumber row"

definition booking_clashes :: "confirmed_booking \<Rightarrow> confirmed_booking list \<Rightarrow> string list" where
  "booking_clashes row rs =
     (if list_ex (seat_index_hit row) rs then [constraintSeatUnique] else []) @
     (if list_ex (\<lambda>r. cb_SessionID r = cb_SessionID row) rs then [constraintSessionUnique] else [])"

text \<open>
  \<open>INSERT\<close>: UUID literals are read, then the \<open>CHECK\<close> constraints, the unique indexes and the
  foreign keys are tried, in that order. The server assigns the key, the status and the instants.
\<close>

definition insert_confirmed_booking ::
    "pg_env \<Rightarrow> string \<Rightarrow> time \<Rightarrow> string \<Rightarrow> string \<Rightarrow> string \<Rightarrow> int \<Rightarrow> string \<Rightarrow> pg_bookings \<Rightarrow>
      confirmed_booking res \<times> pg_bookings" where
  "insert_confirmed_booking E newID now sessionID screeningID seatRow seatNumber userID t =
     (case (pg_uuid E screeningID, pg_uuid E userID) of
        (Some scr, Some usr) \<Rightarrow>
          let row = \<lparr>cb_ID = newID, cb_SessionID = sessionID, cb_ScreeningID = scr, cb_SeatRow = seatRow,
                cb_SeatNumber = seatNumber, cb_UserID = usr, cb_Status = ''confirmed'',
                cb_ConfirmedAt = pg_now now, cb_UpdatedAt = pg_now now\<rparr> in
          if seatNumber \<le> 0 \<or> list_all (\<lambda>c. c = CHR '' '') seatRow
          then (Inl (PgError ''23514'' ''confirmed_bookings_seat_valid''), t)
          else if booking_clashes row (pb_rows t) \<noteq> []
          then (Inl (PgError unique_violation (pg_pick E (booking_clashes row (pb_rows t)))), t)
          else if scr \<notin> set (pb_screenings t)
          then (Inl (PgError ''23503'' ''confirmed_bookings_screening_id_fkey''), t)
          else if usr \<notin> set (pb_users t)
          then (Inl (PgError ''23503'' ''confirmed_bookings_user_id_fkey''), t)
          else (Inr row, t\<lparr>pb_rows := pb_rows t @ [row]\<rparr>)
      | _ \<Rightarrow> (Inl invalid_text, t))"

definition insert_outbox_event :: "pg_env \<Rightarrow> string \<Rightarrow> string \<Rightarrow> booking_confirmed_payload \<Rightarrow> pg_bookings \<Rightarrow> unit res \<times> pg_bookings" where
  "insert_outbox_event E eventID eventType payload t =
     (case pg_uuid E eventID of
        None \<Rightarrow> (Inl invalid_text, t)
      | Some ev \<Rightarrow>
          if list_ex (\<lambda>o'. ob_EventID o' = ev) (pb_outbox t)
          then (Inl (PgError unique_violation ''outbox_event_id_unique''), t)
          else (Inr (), t\<lparr>pb_outbox := pb_outbox t @
            [\<lparr>ob_EventID = ev, ob_EventType = eventType, ob_Payload = payload\<rparr>]\<rparr>))"

definition get_booking_by_session :: "string \<Rightarrow> pg_bookings \<Rightarrow> confirmed_booking res" where
  "get_booking_by_session sessionID t =
     (case find (\<lambda>r. cb_SessionID r = sessionID) (pb_rows t) of None \<Rightarrow> Inl ErrNoRows | Some r \<Rightarrow> Inr r)"

definition exists_confirmed_seat :: "pg_env \<Rightarrow> string \<Rightarrow> string \<Rightarrow> int \<Rightarrow> pg_bookings \<Rightarrow> bool res" where
  "exists_confirmed_seat E screeningID seatRow seatNumber t =
     (case pg_uuid E screeningID of
        None \<Rightarrow> Inl invalid_text
      | Some scr \<Rightarrow> Inr (list_ex (\<lambda>r. cb_ScreeningID r = scr \<and> cb_SeatRow r = seatRow \<and>
          cb_SeatNumber r = seatNumber \<and> cb_Status r = ''confirmed'') (pb_rows t)))"

definition list_confirmed_seats_by_screening :: "pg_env \<Rightarrow> string \<Rightarrow> pg_bookings \<Rightarrow> (string \<times> int) list res" where
  "list_confirmed_seats_by_screening E screeningID t =
     (case pg_uuid E screeningID of
        None \<Rightarrow> Inl invalid_text
      | Some scr \<Rightarrow> Inr (sort_key (\<lambda>(r, n). pg_collate E r) (sort_key snd
          (map (\<lambda>r. (cb_SeatRow r, cb_SeatNumber r))
            (filter (\<lambda>r. cb_ScreeningID r = scr \<and> cb_Status r = ''confirmed'') (pb_rows t))))))"

text \<open>\<open>UPDATE ... WHERE id = $1\<close>: the new row is checked against the others.\<close>

definition set_booking_status :: "pg_env \<Rightarrow> time \<Rightarrow> string \<Rightarrow> string \<Rightarrow> pg_bookings \<Rightarrow> confirmed_booking res \<times> pg_bookings" where
  "set_booking_status E now bookingID status t =
     (case pg_uuid E bookingID of
        None \<Rightarrow> (Inl invalid_text, t)
      | Some ident \<Rightarrow>
     (case find (\<lambda>r. cb_ID r = ident) (pb_rows t) of
        None \<Rightarrow> (Inl ErrNoRows, t)
      | Some r \<Rightarrow>
          let row = r\<lparr>cb_Status := status, cb_UpdatedAt := pg_now now\<rparr> in
          if status \<notin> {''confirmed'', ''cancelled''}
          then (Inl (PgError ''23514'' ''confirmed_bookings_status_known''), t)
          else if list_ex (\<lambda>r'. cb_ID r' \<noteq> ident \<and> seat_index_hit row r') (pb_rows t)
          then (Inl (PgError unique_violation constraintSeatUnique), t)
          else (Inr row, t\<lparr>pb_rows := map (\<lambda>r'. if cb_ID r' = ident then row else r') (pb_rows t)\<rparr>)))"

section \<open>Repository\<close>

definition booking_conflict_error :: "error \<Rightarrow> error option" where
  "booking_conflict_error err =
     (case as_pg_error err of
        None \<Rightarrow> None
      | Some (code, con) \<Rightarrow>
          if code \<noteq> unique_violation then None
          else if con = constraintSeatUnique then Some ErrSeatAlreadyBooked
          else if con = constraintSessionUnique then Some ErrSessionAlreadyConfirmed
          else None)"

definition booking_from_row :: "confirmed_booking \<Rightarrow> booking" where
  "booking_from_row row =
     \<lparr>b_ID = cb_ID row, b_SessionID = cb_SessionID row, b_ScreeningID = cb_ScreeningID row,
      b_Seat = \<lparr>s_Row = cb_SeatRow row, s_Number = cb_SeatNumber row\<rparr>, b_UserID = cb_UserID row,
      b_Status = cb_Status row, b_ConfirmedAt = cb_ConfirmedAt row\<rparr>"

text \<open>
  \<open>Confirm\<close>: the transaction works on \<open>t\<close>'s successors, and every return before the commit
  rolls back to \<open>t\<close>. \<open>eventID\<close> is the identifier minted for the event, \<open>newID\<close> the row's.
\<close>

definition pg_confirm :: "pg_env \<Rightarrow> string \<Rightarrow> string \<Rightarrow> time \<Rightarrow> booking \<Rightarrow> pg_bookings \<Rightarrow> booking res \<times> pg_bookings" where
  "pg_confirm E eventID newID now b t =
     (case insert_confirmed_booking E newID now (b_SessionID b) (b_ScreeningID b) (s_Row (b_Seat b))
             (int32 (s_Number (b_Seat b))) (b_UserID b) t of
        (Inl err, t1) \<Rightarrow>
          (case booking_conflict_error err of
             Some conflict \<Rightarrow> (Inl conflict, t)
           | None \<Rightarrow> (Inl (Errorf ''booking: confirm: insert: %w'' [] [err]), t))
      | (Inr row, t1) \<Rightarrow>
          let payload = \<lparr>bc_BookingID = cb_ID row, bc_SessionID = cb_SessionID row,
                bc_ScreeningID = cb_ScreeningID row, bc_Row = cb_SeatRow row, bc_Number = cb_SeatNumber row,
                bc_UserID = cb_UserID row, bc_ConfirmedAt = cb_ConfirmedAt row\<rparr> in
          (case insert_outbox_event E eventID bookingConfirmedEventType payload t1 of
             (Inl err, t2) \<Rightarrow> (Inl (Errorf ''booking: confirm: outbox: %w'' [] [err]), t)
           | (Inr _, t2) \<Rightarrow> (Inr (booking_from_row row), t2)))"

definition pg_by_session :: "string \<Rightarrow> pg_bookings \<Rightarrow> booking res" where
  "pg_by_session sessionID t =
     (case get_booking_by_session sessionID t of
        Inl err \<Rightarrow> if errors_is err ErrNoRows then Inl ErrBookingNotFound
                   else Inl (Errorf ''booking: get by session: %w'' [] [err])
      | Inr row \<Rightarrow> Inr (booking_from_row row))"

definition pg_seat_confirmed :: "pg_env \<Rightarrow> string \<Rightarrow> seat \<Rightarrow> pg_bookings \<Rightarrow> bool res" where
  "pg_seat_confirmed E screeningID seat t =
     (case exists_confirmed_seat E screeningID (s_Row seat) (int32 (s_Number seat)) t of
        Inl err \<Rightarrow> Inl (Errorf ''booking: seat confirmed: %w'' [] [err])
      | Inr x \<Rightarrow> Inr x)"

definition pg_confirmed_seats :: "pg_env \<Rightarrow> string \<Rightarrow> pg_bookings \<Rightarrow> seat list res" where
  "pg_confirmed_seats E screeningID t =
     (case list_confirmed_seats_by_screening E screeningID t of
        Inl err \<Rightarrow> Inl (Errorf ''booking: confirmed seats: %w'' [] [err])
      | Inr rows \<Rightarrow> Inr (map (\<lambda>(r, n). \<lparr>s_Row = r, s_Number = n\<rparr>) rows))"

section \<open>Invariant\<close>

definition pg_rows :: "pg_bookings \<Rightarrow> booking set" where
  "pg_rows t = booking_from_row ` set (pb_rows t)"

text \<open>What the constraints of the table say of its rows.\<close>

definition pg_bookings_ok :: "pg_env \<Rightarrow> pg_bookings \<Rightarrow> bool" where
  "pg_bookings_ok E t \<longleftrightarrow> distinct (map cb_SessionID (pb_rows t)) \<and>
     (\<forall>r \<in> set (pb_rows t). \<forall>r' \<in> set (pb_rows t). seat_index_hit r r' \<longrightarrow> r = r') \<and>
     (\<forall>r \<in> set (pb_rows t). pg_uuid E (cb_ScreeningID r) = Some (cb_ScreeningID r))"

text \<open>A row that the foreign keys and the checks let in, spelled as the columns keep it.\<close>

definition pg_bookable :: "pg_env \<Rightarrow> pg_bookings \<Rightarrow> booking \<Rightarrow> bool" where
  "pg_bookable E t b \<longleftrightarrow> keyable (b_Seat b) \<and>
     pg_uuid E (b_ScreeningID b) = Some (b_ScreeningID b) \<and> b_ScreeningID b \<in> set (pb_screenings t) \<and>
     pg_uuid E (b_UserID b) = Some (b_UserID b) \<and> b_UserID b \<in> set (pb_users t) \<and>
     1 \<le> s_Number (b_Seat b) \<and> s_Number (b_Seat b) < 2 ^ 31 \<and> \<not> list_all (\<lambda>c. c = CHR '' '') (s_Row (b_Seat b))"

definition pg_spelled :: "pg_env \<Rightarrow> booking \<Rightarrow> booking" where
  "pg_spelled E b = b\<lparr>b_ScreeningID := pg_spell E (b_ScreeningID b),
     b_Seat := \<lparr>s_Row = s_Row (b_Seat b), s_Number = int32 (s_Number (b_Seat b))\<rparr>,
     b_UserID := pg_spell E (b_UserID b)\<rparr>"

text \<open>The event identifier minted with \<open>i\<close> is a UUID that no event has.\<close>

definition pg_fresh :: "pg_env \<Rightarrow> (string \<Rightarrow> string) \<Rightarrow> pg_bookings \<Rightarrow> string \<Rightarrow> bool" where
  "pg_fresh E ev t i \<longleftrightarrow> (\<exists>u. pg_uuid E (ev i) = Some u \<and> u \<notin> ob_EventID ` set (pb_outbox t))"

definition new_pg_bookings :: "string list \<Rightarrow> string list \<Rightarrow> pg_bookings" where
  "new_pg_bookings screenings users =
     \<lparr>pb_rows = [], pb_outbox = [], pb_screenings = screenings, pb_users = users\<rparr>"

section \<open>Lemmas\<close>

lemma booking_from_row_simps [simp]:
  "b_SessionID (booking_from_row r) = cb_SessionID r" "b_ScreeningID (booking_from_row r) = cb_ScreeningID r"
  "b_Seat (booking_from_row r) = \<lparr>s_Row = cb_SeatRow r, s_Number = cb_SeatNumber r\<rparr>"
  "b_UserID (booking_from_row r) = cb_UserID r" "b_Status (booking_from_row r) = cb_Status r"
  by (simp_all add: booking_from_row_def)

lemma pg_session_taken: "session_taken (pg_rows t) sid \<longleftrightarrow> (\<exists>r \<in> set (pb_rows t). cb_SessionID r = sid)"
  by (auto simp: session_taken_def pg_rows_def)

lemma pg_seat_taken:
  "seat_taken (pg_rows t) scr seat \<longleftrightarrow> (\<exists>r \<in> set (pb_rows t). cb_ScreeningID r = scr \<and>
     cb_SeatRow r = s_Row seat \<and> cb_SeatNumber r = s_Number seat \<and> cb_Status r = ''confirmed'')"
  by (cases seat) (auto simp: seat_taken_def pg_rows_def StatusConfirmed_def)

lemma pg_arbiter: "pg_bookings_ok E t \<Longrightarrow> arbiter (pg_rows t)"
  unfolding arbiter_def
proof (intro conjI ballI impI)
  fix b b' assume ok: "pg_bookings_ok E t" and b: "b \<in> pg_rows t" "b' \<in> pg_rows t"
  obtain r r' where r: "r \<in> set (pb_rows t)" "r' \<in> set (pb_rows t)" "b = booking_from_row r" "b' = booking_from_row r'"
    using b by (auto simp: pg_rows_def)
  show "b = b'" if "b_SessionID b = b_SessionID b'"
    using that r ok distinct_map_eqD [of cb_SessionID "pb_rows t" r r'] by (simp add: pg_bookings_ok_def)
  show "b = b'" if "b_Status b = StatusConfirmed" "b_Status b' = StatusConfirmed" "same_booking_seat b b'"
  proof -
    have "seat_index_hit r r'"
      using that r(3,4) by (simp add: seat_index_hit_def same_booking_seat_def StatusConfirmed_def)
    with ok r show ?thesis by (auto simp: pg_bookings_ok_def)
  qed
qed

text \<open>The insert either leaves the tables alone or appends one row that hits no index.\<close>

lemma insert_cases:
  assumes "insert_confirmed_booking E i now sid scr row num uid t = (r, t')"
  obtains (refused) e where "r = Inl e" "t' = t"
  | (row) scr' uid' cb where "r = Inr cb" "t' = t\<lparr>pb_rows := pb_rows t @ [cb]\<rparr>" "booking_clashes cb (pb_rows t) = []"
    "pg_uuid E scr = Some scr'" "pg_uuid E uid = Some uid'"
    "cb = \<lparr>cb_ID = i, cb_SessionID = sid, cb_ScreeningID = scr', cb_SeatRow = row, cb_SeatNumber = num,
       cb_UserID = uid', cb_Status = ''confirmed'', cb_ConfirmedAt = pg_now now, cb_UpdatedAt = pg_now now\<rparr>"
proof (cases r)
  case (Inr cb)
  obtain scr' uid' where u: "pg_uuid E scr = Some scr'" "pg_uuid E uid = Some uid'"
    using assms Inr by (cases "pg_uuid E scr"; cases "pg_uuid E uid") (simp_all add: insert_confirmed_booking_def)
  let ?cb = "\<lparr>cb_ID = i, cb_SessionID = sid, cb_ScreeningID = scr', cb_SeatRow = row, cb_SeatNumber = num,
       cb_UserID = uid', cb_Status = ''confirmed'', cb_ConfirmedAt = pg_now now, cb_UpdatedAt = pg_now now\<rparr>"
  have "(r, t') = (Inr ?cb, t\<lparr>pb_rows := pb_rows t @ [?cb]\<rparr>) \<and> booking_clashes ?cb (pb_rows t) = []"
    using assms Inr u unfolding insert_confirmed_booking_def Let_def by (auto split: if_splits)
  with u show thesis using row by blast
next
  case (Inl e)
  have "t' = t"
    using assms Inl by (cases "pg_uuid E scr"; cases "pg_uuid E uid")
      (simp_all add: insert_confirmed_booking_def Let_def split: if_splits)
  with Inl show thesis using refused by blast
qed

lemma no_clashes:
  "booking_clashes cb rs = [] \<longleftrightarrow> (\<forall>r \<in> set rs. \<not> seat_index_hit cb r \<and> cb_SessionID r \<noteq> cb_SessionID cb)"
  by (auto simp: booking_clashes_def list_ex_iff)

lemma seat_index_hit_sym: "seat_index_hit r r' \<longleftrightarrow> seat_index_hit r' r"
  by (auto simp: seat_index_hit_def)

lemma pg_bookings_ok_append:
  assumes ok: "pg_bookings_ok E t" and new: "booking_clashes cb (pb_rows t) = []"
    and scr: "pg_uuid E (cb_ScreeningID cb) = Some (cb_ScreeningID cb)" and t': "pb_rows t' = pb_rows t @ [cb]"
  shows "pg_bookings_ok E t'"
  unfolding pg_bookings_ok_def t'
proof (intro conjI)
  have n: "\<not> seat_index_hit cb r \<and> \<not> seat_index_hit r cb \<and> cb_SessionID r \<noteq> cb_SessionID cb" if "r \<in> set (pb_rows t)" for r
    using new that seat_index_hit_sym [of cb r] by (simp add: no_clashes)
  show "distinct (map cb_SessionID (pb_rows t @ [cb]))"
    using ok n by (force simp: pg_bookings_ok_def)
  show "\<forall>r \<in> set (pb_rows t @ [cb]). \<forall>r' \<in> set (pb_rows t @ [cb]). seat_index_hit r r' \<longrightarrow> r = r'"
    using ok n by (simp add: pg_bookings_ok_def)
  show "\<forall>r \<in> set (pb_rows t @ [cb]). pg_uuid E (cb_ScreeningID r) = Some (cb_ScreeningID r)"
    using ok scr by (simp add: pg_bookings_ok_def)
qed

lemma outbox_cases:
  assumes "insert_outbox_event E ev ty pl t = (r, t')"
  shows "pb_rows t' = pb_rows t"
  using assms by (auto simp: insert_outbox_event_def split: option.splits if_splits)

context postgres
begin

text \<open>Confirm either changes nothing, or appends the row and its event together.\<close>

lemma pg_confirm_cases:
  assumes "pg_confirm E eventID i now b t = (r, t')"
  obtains (refused) e where "r = Inl e" "t' = t"
  | (row) cb where "r = Inr (booking_from_row cb)" "pb_rows t' = pb_rows t @ [cb]" "booking_clashes cb (pb_rows t) = []"
    "pg_uuid E (cb_ScreeningID cb) = Some (cb_ScreeningID cb)" "cb_SessionID cb = b_SessionID b" "cb_Status cb = ''confirmed''"
    "same_booking_seat (booking_from_row cb) (pg_spelled E b)" "cb_UserID cb = b_UserID (pg_spelled E b)"
proof -
  obtain r1 t1 where ins: "insert_confirmed_booking E i now (b_SessionID b) (b_ScreeningID b) (s_Row (b_Seat b))
      (int32 (s_Number (b_Seat b))) (b_UserID b) t = (r1, t1)" by force
  then show thesis
  proof (cases rule: insert_cases)
    case (refused e)
    then show thesis
      using assms ins that(1) by (auto simp: pg_confirm_def split: option.splits)
  next
    case (row scr' uid' cb)
    show thesis
    proof (cases r)
      case (Inl e)
      then have "t' = t" using assms ins row(1) by (auto simp: pg_confirm_def Let_def split: prod.splits sum.splits)
      with Inl that(1) show thesis by blast
    next
      case (Inr b')
      have "r = Inr (booking_from_row cb)" "pb_rows t' = pb_rows t @ [cb]"
        using assms ins row(1,2) Inr by (auto simp: pg_confirm_def Let_def split: prod.splits sum.splits dest!: outbox_cases)
      moreover have "pg_uuid E scr' = Some scr'" using uuid_canonical row(4) by blast
      ultimately show thesis
        using that(2) [of cb] row(3-6)
        by (simp add: same_booking_seat_def pg_spelled_def pg_spell_def)
    qed
  qed
qed

lemma pg_bookable_spelled: "pg_bookable E t b \<Longrightarrow> pg_spelled E b = b"
  by (cases b; cases "b_Seat b") (auto simp: pg_bookable_def pg_spelled_def pg_spell_def int32_id)

text \<open>The outcome for a bookable row, by the two indexes.\<close>

lemma pg_insert_bookable:
  assumes b: "pg_bookable E t b"
    and row: "row = \<lparr>cb_ID = i, cb_SessionID = b_SessionID b, cb_ScreeningID = b_ScreeningID b, cb_SeatRow = s_Row (b_Seat b),
    cb_SeatNumber = s_Number (b_Seat b), cb_UserID = b_UserID b, cb_Status = ''confirmed'',
    cb_ConfirmedAt = pg_now now, cb_UpdatedAt = pg_now now\<rparr>"
  shows "insert_confirmed_booking E i now (b_SessionID b) (b_ScreeningID b) (s_Row (b_Seat b))
      (int32 (s_Number (b_Seat b))) (b_UserID b) t =
    (if booking_clashes row (pb_rows t) = [] then (Inr row, t\<lparr>pb_rows := pb_rows t @ [row]\<rparr>)
     else (Inl (PgError unique_violation (pg_pick E (booking_clashes row (pb_rows t)))), t))"
  using b unfolding insert_confirmed_booking_def row pg_bookable_def
  by (simp add: int32_id Let_def)

lemma clashes_of_booking:
  assumes "cb_SessionID row = b_SessionID b" "cb_ScreeningID row = b_ScreeningID b" "cb_SeatRow row = s_Row (b_Seat b)"
    "cb_SeatNumber row = s_Number (b_Seat b)" "cb_Status row = ''confirmed''"
  shows "booking_clashes row (pb_rows t) =
    (if seat_taken (pg_rows t) (b_ScreeningID b) (b_Seat b) then [constraintSeatUnique] else []) @
    (if session_taken (pg_rows t) (b_SessionID b) then [constraintSessionUnique] else [])"
  using assms by (auto simp: booking_clashes_def pg_seat_taken pg_session_taken seat_index_hit_def list_ex_iff)

lemma pg_confirm_refused:
  assumes b: "pg_bookable E t b"
    and "seat_taken (pg_rows t) (b_ScreeningID b) (b_Seat b) \<or> session_taken (pg_rows t) (b_SessionID b)"
  shows "fst (pg_confirm E eventID i now b t) =
    Inl (if pg_pick E ((if seat_taken (pg_rows t) (b_ScreeningID b) (b_Seat b) then [constraintSeatUnique] else []) @
           (if session_taken (pg_rows t) (b_SessionID b) then [constraintSessionUnique] else [])) = constraintSeatUnique
         then ErrSeatAlreadyBooked else ErrSessionAlreadyConfirmed)"
proof -
  have ne: "constraintSeatUnique \<noteq> constraintSessionUnique"
    by (simp add: constraintSeatUnique_def constraintSessionUnique_def)
  show ?thesis
    using assms(2) ne pick_two [of constraintSeatUnique constraintSessionUnique]
    unfolding pg_confirm_def pg_insert_bookable [OF b refl]
    by (auto simp: clashes_of_booking [of _ b] booking_conflict_error_def pick_single)
qed

lemma pg_confirm_free:
  assumes b: "pg_bookable E t b" and f: "pg_fresh E ev t i"
    and "\<not> seat_taken (pg_rows t) (b_ScreeningID b) (b_Seat b)" "\<not> session_taken (pg_rows t) (b_SessionID b)"
  shows "\<exists>b' t'. pg_confirm E (ev i) i now b t = (Inr b', t')"
proof -
  obtain u where u: "pg_uuid E (ev i) = Some u" "\<not> list_ex (\<lambda>o'. ob_EventID o' = u) (pb_outbox t)"
    using f by (auto simp: pg_fresh_def list_ex_iff)
  then show ?thesis
    using assms(3,4) unfolding pg_confirm_def pg_insert_bookable [OF b refl]
    by (simp add: clashes_of_booking [of _ b] insert_outbox_event_def Let_def)
qed

lemma pg_seat_confirmed_bookable:
  "pg_bookable E t b \<Longrightarrow>
   pg_seat_confirmed E (b_ScreeningID b) (b_Seat b) t = Inr (seat_taken (pg_rows t) (b_ScreeningID b) (b_Seat b))"
  by (auto simp: pg_seat_confirmed_def exists_confirmed_seat_def pg_bookable_def int32_id pg_seat_taken list_ex_iff)

lemma pg_confirmed_seats_set:
  assumes "pg_uuid E scr = Some scr" "pg_confirmed_seats E scr t = Inr seats"
  shows "set seats = {seat. seat_taken (pg_rows t) scr seat}"
proof (rule set_eqI)
  fix seat
  show "seat \<in> set seats \<longleftrightarrow> seat \<in> {seat. seat_taken (pg_rows t) scr seat}"
    using assms by (cases seat)
      (auto simp: pg_confirmed_seats_def list_confirmed_seats_by_screening_def pg_seat_taken image_iff)
qed

lemma pg_by_session_found:
  assumes "pg_bookings_ok E t" "b \<in> pg_rows t"
  shows "pg_by_session (b_SessionID b) t = Inr b"
proof -
  obtain r where r: "r \<in> set (pb_rows t)" "b = booking_from_row r" using assms(2) by (auto simp: pg_rows_def)
  have "find (\<lambda>x. cb_SessionID x = cb_SessionID r) (pb_rows t) = Some r"
    using assms(1) r(1) find_key_unique [of cb_SessionID "pb_rows t" r] by (simp add: pg_bookings_ok_def)
  with r(2) show ?thesis by (simp add: pg_by_session_def get_booking_by_session_def)
qed

lemma pg_by_session_unknown:
  "\<not> session_taken (pg_rows t) sid \<Longrightarrow> pg_by_session sid t = Inl ErrBookingNotFound"
  by (auto simp: pg_by_session_def get_booking_by_session_def pg_session_taken find_None_iff split: option.splits
      dest!: find_member)

end

section \<open>The contract\<close>

text \<open>
  The store promises the booking store's contract: \<open>ev i\<close> is the event identifier minted in the
  transaction that is given the row identifier \<open>i\<close>.
\<close>

locale pg_booking = postgres E for E :: pg_env +
  fixes ev :: "string \<Rightarrow> string"

sublocale pg_booking \<subseteq> booking_store "pg_bookings_ok E" pg_rows "pg_bookable E" "pg_spelled E" "pg_fresh E ev"
  "\<lambda>i. pg_confirm E (ev i) i" pg_by_session "pg_seat_confirmed E" "pg_confirmed_seats E"
proof
  fix s s' :: pg_bookings and b b' :: booking and i sid :: string and now :: time and e :: error and r :: "booking res"
    and seats :: "seat list"
  show "arbiter (pg_rows s)" if "pg_bookings_ok E s" using that by (rule pg_arbiter)
  show "keyable (b_Seat b)" if "pg_bookable E s b" using that by (simp add: pg_bookable_def)
  show "same_booking_seat (pg_spelled E b) b \<and> b_UserID (pg_spelled E b) = b_UserID b" if "pg_bookable E s b"
    using pg_bookable_spelled [OF that] by (simp add: same_booking_seat_def)
  show "pg_bookings_ok E s'" if ok: "pg_bookings_ok E s" and c: "pg_confirm E (ev i) i now b s = (r, s')"
    using c
  proof (cases rule: pg_confirm_cases)
    case (row cb) show ?thesis by (rule pg_bookings_ok_append [OF ok row(3,4,2)])
  qed (use ok in simp)
  show "pg_rows s' = insert b' (pg_rows s) \<and> b_SessionID b' = b_SessionID b \<and> same_booking_seat b' (pg_spelled E b) \<and>
      b_UserID b' = b_UserID (pg_spelled E b) \<and> b_Status b' = StatusConfirmed"
    if "pg_confirm E (ev i) i now b s = (Inr b', s')"
    using that by (cases rule: pg_confirm_cases) (auto simp: pg_rows_def StatusConfirmed_def)
  show "pg_rows s' = pg_rows s" if "pg_confirm E (ev i) i now b s = (Inl e, s')"
    using that by (cases rule: pg_confirm_cases) auto
  show "\<exists>b' s'. pg_confirm E (ev i) i now b s = (Inr b', s')"
    if "pg_bookable E s b" "pg_fresh E ev s i" "\<not> session_taken (pg_rows s) (b_SessionID b)"
      "\<not> seat_taken (pg_rows s) (b_ScreeningID b) (b_Seat b)"
    using pg_confirm_free that by blast
  have ne: "constraintSessionUnique \<noteq> constraintSeatUnique"
    by (simp add: constraintSeatUnique_def constraintSessionUnique_def)
  show "fst (pg_confirm E (ev i) i now b s) = Inl ErrSessionAlreadyConfirmed"
    if "pg_bookable E s b" "session_taken (pg_rows s) (b_SessionID b)" "\<not> seat_taken (pg_rows s) (b_ScreeningID b) (b_Seat b)"
    using that ne by (simp add: pg_confirm_refused pick_single)
  show "fst (pg_confirm E (ev i) i now b s) = Inl ErrSeatAlreadyBooked"
    if "pg_bookable E s b" "\<not> session_taken (pg_rows s) (b_SessionID b)" "seat_taken (pg_rows s) (b_ScreeningID b) (b_Seat b)"
    using that by (simp add: pg_confirm_refused pick_single)
  show "fst (pg_confirm E (ev i) i now b s) \<in> {Inl ErrSessionAlreadyConfirmed, Inl ErrSeatAlreadyBooked}"
    if "pg_bookable E s b" "session_taken (pg_rows s) (b_SessionID b)" "seat_taken (pg_rows s) (b_ScreeningID b) (b_Seat b)"
    using that by (simp add: pg_confirm_refused)
  show "pg_by_session (b_SessionID b) s = Inr b" if "pg_bookings_ok E s" "b \<in> pg_rows s"
    using that by (rule pg_by_session_found)
  show "pg_by_session sid s = Inl ErrBookingNotFound" if "\<not> session_taken (pg_rows s) sid"
    using that by (rule pg_by_session_unknown)
  show "pg_seat_confirmed E (b_ScreeningID b) (b_Seat b) s = Inr (seat_taken (pg_rows s) (b_ScreeningID b) (b_Seat b))"
    if "pg_bookable E s b" using that by (rule pg_seat_confirmed_bookable)
  show "set seats = {seat. seat_taken (pg_rows s) (b_ScreeningID b) seat}"
    if "pg_bookable E s b" "pg_confirmed_seats E (b_ScreeningID b) s = Inr seats"
    using that by (simp add: pg_bookable_def pg_confirmed_seats_set)
qed

interpretation plain_bookings: pg_booking plain_pg ev for ev
  by unfold_locales

end
