(* ===== verification/PgPaymentStore.thy ===== *)
theory PgPaymentStore
  imports PaymentStore Postgres
begin

text \<open>
  \<open>internal/adapters/postgres/repos_payment.go\<close> over the table \<open>payments\<close>
  (\<open>migrations/00005\<close>, \<open>00009\<close>) and the statements of \<open>sqlcgen/payments.sql.go\<close>. The contract
  \<open>payment_store\<close> is derived from the two unique indexes and the guards of the updates.
\<close>

section \<open>Table and statements\<close>

record payment_row =
  pr_ID :: string
  pr_BookingSessionID :: string
  pr_Gateway :: string
  pr_IntentID :: string
  pr_Status :: string
  pr_AmountCents :: int
  pr_Currency :: string
  pr_CreatedAt :: time
  pr_UpdatedAt :: time

type_synonym pg_payments = "payment_row list"

definition constraintPaymentActiveSession :: string where
  "constraintPaymentActiveSession = ''payments_active_session_unique''"

definition constraintPaymentIntentUnique :: string where
  "constraintPaymentIntentUnique = ''payments_intent_unique''"

text \<open>The predicate of the partial index, and of \<open>GetActivePaymentBySession\<close>.\<close>

definition row_active :: "payment_row \<Rightarrow> bool" where
  "row_active r \<longleftrightarrow> pr_Status r \<notin> {''failed'', ''refunded''}"

definition payment_clashes :: "payment_row \<Rightarrow> pg_payments \<Rightarrow> string list" where
  "payment_clashes row t =
     (if list_ex (\<lambda>r. pr_IntentID r = pr_IntentID row) t then [constraintPaymentIntentUnique] else []) @
     (if row_active row \<and> list_ex (\<lambda>r. row_active r \<and> pr_BookingSessionID r = pr_BookingSessionID row) t
      then [constraintPaymentActiveSession] else [])"

definition insert_payment_intent ::
    "pg_env \<Rightarrow> string \<Rightarrow> time \<Rightarrow> string \<Rightarrow> string \<Rightarrow> string \<Rightarrow> int \<Rightarrow> string \<Rightarrow> pg_payments \<Rightarrow> payment_row res \<times> pg_payments" where
  "insert_payment_intent E newID now bookingSessionID gateway intentID amountCents currency t =
     (let row = \<lparr>pr_ID = newID, pr_BookingSessionID = bookingSessionID, pr_Gateway = gateway, pr_IntentID = intentID,
            pr_Status = ''intent'', pr_AmountCents = amountCents, pr_Currency = currency,
            pr_CreatedAt = pg_now now, pr_UpdatedAt = pg_now now\<rparr> in
      if gateway \<notin> {''fake'', ''stripe''} then (Inl (PgError ''23514'' ''payments_gateway_known''), t)
      else if amountCents < 0 then (Inl (PgError ''23514'' ''payments_amount_nonnegative''), t)
      else if payment_clashes row t \<noteq> [] then (Inl (PgError unique_violation (pg_pick E (payment_clashes row t))), t)
      else (Inr row, t @ [row]))"

text \<open>\<open>ORDER BY created_at DESC, id DESC LIMIT 1\<close>.\<close>

fun id_before :: "string \<Rightarrow> string \<Rightarrow> bool" where
  "id_before [] ys = (ys \<noteq> [])"
| "id_before (x # xs) [] = False"
| "id_before (x # xs) (y # ys) = (byte x < byte y \<or> byte x = byte y \<and> id_before xs ys)"

definition earlier :: "payment_row \<Rightarrow> payment_row \<Rightarrow> bool" where
  "earlier a b \<longleftrightarrow> pr_CreatedAt a < pr_CreatedAt b \<or> pr_CreatedAt a = pr_CreatedAt b \<and> id_before (pr_ID a) (pr_ID b)"

fun latest :: "payment_row list \<Rightarrow> payment_row option" where
  "latest [] = None"
| "latest (r # rs) = (case latest rs of None \<Rightarrow> Some r | Some l \<Rightarrow> if earlier l r then Some r else Some l)"

definition get_active_payment_by_session :: "string \<Rightarrow> pg_payments \<Rightarrow> payment_row res" where
  "get_active_payment_by_session bookingSessionID t =
     (case latest (filter (\<lambda>r. pr_BookingSessionID r = bookingSessionID \<and> row_active r) t) of
        None \<Rightarrow> Inl ErrNoRows | Some r \<Rightarrow> Inr r)"

definition get_payment_by_intent :: "string \<Rightarrow> pg_payments \<Rightarrow> payment_row res" where
  "get_payment_by_intent intentID t =
     (case find (\<lambda>r. pr_IntentID r = intentID) t of None \<Rightarrow> Inl ErrNoRows | Some r \<Rightarrow> Inr r)"

text \<open>
  The guarded updates. A row they touch is in the active index already and either stays or
  leaves, so no constraint is at stake.
\<close>

definition guard_matches :: "string \<Rightarrow> payment_row \<Rightarrow> bool" where
  "guard_matches intentID r \<longleftrightarrow> pr_IntentID r = intentID \<and> pr_Status r \<in> {''intent'', ''authorized''}"

definition move_row :: "string \<Rightarrow> time \<Rightarrow> payment_row \<Rightarrow> payment_row" where
  "move_row status now r = r\<lparr>pr_Status := status, pr_UpdatedAt := pg_now now\<rparr>"

definition guarded_update :: "string \<Rightarrow> time \<Rightarrow> string \<Rightarrow> pg_payments \<Rightarrow> payment_row res \<times> pg_payments" where
  "guarded_update status now intentID t =
     (case find (guard_matches intentID) t of
        None \<Rightarrow> (Inl ErrNoRows, t)
      | Some r \<Rightarrow> (Inr (move_row status now r),
          map (\<lambda>r. if guard_matches intentID r then move_row status now r else r) t))"

definition capture_payment :: "time \<Rightarrow> string \<Rightarrow> pg_payments \<Rightarrow> payment_row res \<times> pg_payments" where
  "capture_payment = guarded_update ''captured''"

definition fail_payment :: "time \<Rightarrow> string \<Rightarrow> pg_payments \<Rightarrow> payment_row res \<times> pg_payments" where
  "fail_payment = guarded_update ''failed''"

definition exists_captured_payment_for_session :: "string \<Rightarrow> pg_payments \<Rightarrow> bool res" where
  "exists_captured_payment_for_session bookingSessionID t =
     Inr (list_ex (\<lambda>r. pr_BookingSessionID r = bookingSessionID \<and> pr_Status r = ''captured'') t)"

section \<open>Repository\<close>

definition payment_conflict_error :: "error \<Rightarrow> error option" where
  "payment_conflict_error err =
     (case as_pg_error err of
        None \<Rightarrow> None
      | Some (code, con) \<Rightarrow>
          if code \<noteq> unique_violation then None
          else if con = constraintPaymentActiveSession then Some ErrPaymentIntentExists
          else None)"

definition payment_from_row :: "payment_row \<Rightarrow> payment" where
  "payment_from_row row =
     \<lparr>p_ID = pr_ID row, p_BookingSessionID = pr_BookingSessionID row, p_Gateway = pr_Gateway row,
      p_IntentID = pr_IntentID row, p_Status = pr_Status row, p_AmountCents = pr_AmountCents row,
      p_Currency = pr_Currency row, p_CreatedAt = pr_CreatedAt row, p_UpdatedAt = pr_UpdatedAt row\<rparr>"

definition pg_insert_intent :: "pg_env \<Rightarrow> string \<Rightarrow> time \<Rightarrow> payment \<Rightarrow> pg_payments \<Rightarrow> payment res \<times> pg_payments" where
  "pg_insert_intent E newID now p t =
     (case insert_payment_intent E newID now (p_BookingSessionID p) (p_Gateway p) (p_IntentID p)
             (int32 (p_AmountCents p)) (p_Currency p) t of
        (Inl err, t') \<Rightarrow>
          (case payment_conflict_error err of
             Some conflict \<Rightarrow> (Inl conflict, t')
           | None \<Rightarrow> (Inl (Errorf ''payment: insert intent: %w'' [] [err]), t'))
      | (Inr row, t') \<Rightarrow> (Inr (payment_from_row row), t'))"

definition pg_get_active :: "string \<Rightarrow> pg_payments \<Rightarrow> payment res" where
  "pg_get_active sessionID t =
     (case get_active_payment_by_session sessionID t of
        Inl err \<Rightarrow> if errors_is err ErrNoRows then Inl ErrPaymentNotFound
                   else Inl (Errorf ''payment: get active by session: %w'' [] [err])
      | Inr row \<Rightarrow> Inr (payment_from_row row))"

definition pg_get_by_intent :: "string \<Rightarrow> pg_payments \<Rightarrow> payment res" where
  "pg_get_by_intent intentID t =
     (case get_payment_by_intent intentID t of
        Inl err \<Rightarrow> if errors_is err ErrNoRows then Inl ErrPaymentNotFound
                   else Inl (Errorf ''payment: get by intent: %w'' [] [err])
      | Inr row \<Rightarrow> Inr (payment_from_row row))"

definition pg_capture :: "time \<Rightarrow> string \<Rightarrow> pg_payments \<Rightarrow> (payment \<times> bool) res \<times> pg_payments" where
  "pg_capture now intentID t =
     (case capture_payment now intentID t of
        (Inr row, t') \<Rightarrow> (Inr (payment_from_row row, True), t')
      | (Inl err, t') \<Rightarrow>
          if \<not> errors_is err ErrNoRows then (Inl (Errorf ''payment: capture: %w'' [] [err]), t')
          else (case get_payment_by_intent intentID t' of
             Inl err \<Rightarrow>
               if errors_is err ErrNoRows then (Inl ErrPaymentNotFound, t')
               else (Inl (Errorf ''payment: capture: classify: %w'' [] [err]), t')
           | Inr current \<Rightarrow>
               if pr_Status current = StatusCaptured then (Inr (payment_from_row current, False), t')
               else (Inl (Errorf ''payment: capture: intent %s is in status %q: %w''
                       [ArgS intentID, ArgS (pr_Status current)] [ErrPaymentInvalidTransition]), t')))"

definition pg_mark_failed :: "time \<Rightarrow> string \<Rightarrow> pg_payments \<Rightarrow> payment res \<times> pg_payments" where
  "pg_mark_failed now intentID t =
     (case fail_payment now intentID t of
        (Inr row, t') \<Rightarrow> (Inr (payment_from_row row), t')
      | (Inl err, t') \<Rightarrow>
          if \<not> errors_is err ErrNoRows then (Inl (Errorf ''payment: mark failed: %w'' [] [err]), t')
          else (case get_payment_by_intent intentID t' of
             Inl err \<Rightarrow>
               if errors_is err ErrNoRows then (Inl ErrPaymentNotFound, t')
               else (Inl (Errorf ''payment: mark failed: classify: %w'' [] [err]), t')
           | Inr current \<Rightarrow>
               if pr_Status current = StatusFailed then (Inr (payment_from_row current), t')
               else (Inl (Errorf ''payment: mark failed: intent %s is in status %q: %w''
                       [ArgS intentID, ArgS (pr_Status current)] [ErrPaymentInvalidTransition]), t')))"

definition pg_has_captured :: "string \<Rightarrow> pg_payments \<Rightarrow> bool res" where
  "pg_has_captured sessionID t =
     (case exists_captured_payment_for_session sessionID t of
        Inl err \<Rightarrow> Inl (Errorf ''payment: has captured payment: %w'' [] [err])
      | Inr x \<Rightarrow> Inr x)"

section \<open>Invariant\<close>

definition pg_payment_rows :: "pg_payments \<Rightarrow> string \<rightharpoonup> payment" where
  "pg_payment_rows t i = map_option payment_from_row (find (\<lambda>r. pr_IntentID r = i) t)"

text \<open>What the two indexes say of the rows.\<close>

definition pg_payments_ok :: "pg_payments \<Rightarrow> bool" where
  "pg_payments_ok t \<longleftrightarrow> distinct (map pr_IntentID t) \<and> distinct (map pr_BookingSessionID (filter row_active t))"

definition pg_insertable :: "pg_payments \<Rightarrow> payment \<Rightarrow> bool" where
  "pg_insertable t p \<longleftrightarrow> p_Gateway p \<in> {''fake'', ''stripe''} \<and> 0 \<le> p_AmountCents p \<and> p_AmountCents p < 2 ^ 31"

section \<open>Lemmas\<close>

lemma payment_from_row_simps [simp]:
  "p_ID (payment_from_row r) = pr_ID r" "p_BookingSessionID (payment_from_row r) = pr_BookingSessionID r"
  "p_Gateway (payment_from_row r) = pr_Gateway r" "p_IntentID (payment_from_row r) = pr_IntentID r"
  "p_Status (payment_from_row r) = pr_Status r" "p_AmountCents (payment_from_row r) = pr_AmountCents r"
  "p_Currency (payment_from_row r) = pr_Currency r" "p_CreatedAt (payment_from_row r) = pr_CreatedAt r"
  by (simp_all add: payment_from_row_def)

lemma move_row_simps [simp]:
  "pr_ID (move_row st now r) = pr_ID r" "pr_BookingSessionID (move_row st now r) = pr_BookingSessionID r"
  "pr_Gateway (move_row st now r) = pr_Gateway r" "pr_IntentID (move_row st now r) = pr_IntentID r"
  "pr_Status (move_row st now r) = st" "pr_AmountCents (move_row st now r) = pr_AmountCents r"
  "pr_Currency (move_row st now r) = pr_Currency r" "pr_CreatedAt (move_row st now r) = pr_CreatedAt r"
  by (simp_all add: move_row_def)

lemma row_active_status: "row_active r \<longleftrightarrow> active_status (pr_Status r)"
  by (auto simp: row_active_def active_status_def payment_status_defs)

lemma pg_row_member:
  assumes "pg_payments_ok t" "r \<in> set t"
  shows "find (\<lambda>x. pr_IntentID x = pr_IntentID r) t = Some r"
  using assms find_key_unique [of pr_IntentID t r] by (simp add: pg_payments_ok_def)

lemma pg_payment_rows_Some:
  "pg_payments_ok t \<Longrightarrow> pg_payment_rows t i = Some p \<longleftrightarrow> (\<exists>r \<in> set t. pr_IntentID r = i \<and> p = payment_from_row r)"
  using pg_row_member by (auto simp: pg_payment_rows_def dest: find_member)

lemma pg_payment_rows_None: "pg_payment_rows t i = None \<longleftrightarrow> (\<forall>r \<in> set t. pr_IntentID r \<noteq> i)"
  by (auto simp: pg_payment_rows_def find_None_iff)

lemma pg_active_row:
  "pg_payments_ok t \<Longrightarrow> active_row (pg_payment_rows t) sid p \<longleftrightarrow>
     (\<exists>r \<in> set t. p = payment_from_row r \<and> pr_BookingSessionID r = sid \<and> row_active r)"
  by (auto simp: active_row_def pg_payment_rows_Some row_active_status)

lemma pg_paid:
  "pg_payments_ok t \<Longrightarrow> paid (pg_payment_rows t) sid \<longleftrightarrow>
     (\<exists>r \<in> set t. pr_BookingSessionID r = sid \<and> pr_Status r = StatusCaptured)"
  unfolding paid_def by (force simp: pg_payment_rows_Some)

lemma pg_rows_ok: "pg_payments_ok t \<Longrightarrow> payments_ok (pg_payment_rows t)"
  unfolding payments_ok_def
  by (auto simp: pg_payment_rows_Some pg_active_row)
     (auto simp: pg_payments_ok_def dest: distinct_map_eqD)

lemma latest_unique: "latest rs = None \<longleftrightarrow> rs = []" "latest rs = Some r \<Longrightarrow> r \<in> set rs"
  by (induction rs arbitrary: r) (auto split: option.splits if_splits)

lemma find_map_key: "(\<And>x. P (f x) \<longleftrightarrow> P x) \<Longrightarrow> find P (map f xs) = map_option f (find P xs)"
  by (induction xs) auto

lemma distinct_filter_map:
  assumes "\<And>x. g (f x) = g x" "\<And>x. A (f x) \<Longrightarrow> A x"
  shows "distinct (map g (filter A xs)) \<Longrightarrow> distinct (map g (filter A (map f xs)))"
proof (induction xs)
  case (Cons x xs)
  have "g ` {y \<in> f ` set xs. A y} \<subseteq> g ` {y \<in> set xs. A y}" using assms by force
  then have "g x \<notin> g ` {y \<in> f ` set xs. A y}" if "A x"
    using Cons.prems that by auto
  then show ?case using Cons assms by (cases "A x") auto
qed simp

text \<open>The insert either leaves the table alone or appends one row that hits no index.\<close>

lemma no_payment_clashes:
  "payment_clashes row t = [] \<longleftrightarrow> (\<forall>r \<in> set t. pr_IntentID r \<noteq> pr_IntentID row \<and>
     (row_active row \<longrightarrow> row_active r \<longrightarrow> pr_BookingSessionID r \<noteq> pr_BookingSessionID row))"
  by (auto simp: payment_clashes_def list_ex_iff)

lemma pg_payments_ok_append:
  assumes "pg_payments_ok t" "payment_clashes row t = []"
  shows "pg_payments_ok (t @ [row])"
proof -
  have n: "pr_IntentID r \<noteq> pr_IntentID row \<and>
      (row_active row \<longrightarrow> row_active r \<longrightarrow> pr_BookingSessionID r \<noteq> pr_BookingSessionID row)" if "r \<in> set t" for r
    using assms(2) that by (simp add: no_payment_clashes)
  have "pr_IntentID row \<notin> pr_IntentID ` set t" using n by force
  moreover have "row_active row \<Longrightarrow> pr_BookingSessionID row \<notin> pr_BookingSessionID ` {r \<in> set t. row_active r}"
    using n by force
  ultimately show ?thesis using assms(1) by (simp add: pg_payments_ok_def)
qed

lemma pg_payment_rows_append:
  "payment_clashes row t = [] \<Longrightarrow>
   pg_payment_rows (t @ [row]) = (pg_payment_rows t)(pr_IntentID row \<mapsto> payment_from_row row)"
  by (induction t) (auto simp: pg_payment_rows_def fun_eq_iff no_payment_clashes)

lemma insert_intent_shape:
  "insert_payment_intent E i now sid gw iid amt cur t = (Inl e, t') \<Longrightarrow> t' = t"
  "insert_payment_intent E i now sid gw iid amt cur t = (Inr row, t') \<Longrightarrow>
     t' = t @ [row] \<and> payment_clashes row t = [] \<and> pr_IntentID row = iid \<and>
     pr_BookingSessionID row = sid \<and> pr_Status row = StatusIntent \<and> pr_AmountCents row = amt"
  by (auto simp: insert_payment_intent_def Let_def StatusIntent_def split: if_splits)

lemma pg_insert_Inl: "pg_insert_intent E i now p t = (Inl e, t') \<Longrightarrow> t' = t"
  by (auto simp: pg_insert_intent_def insert_intent_shape(1) split: prod.splits sum.splits option.splits)

lemma pg_insert_Inr:
  assumes "pg_insert_intent E i now p t = (Inr q, t')"
  obtains row where "q = payment_from_row row" "t' = t @ [row]" "payment_clashes row t = []"
    "pr_IntentID row = p_IntentID p" "pr_BookingSessionID row = p_BookingSessionID p" "pr_Status row = StatusIntent"
    "pr_AmountCents row = int32 (p_AmountCents p)"
  using assms by (auto simp: pg_insert_intent_def split: prod.splits sum.splits option.splits dest!: insert_intent_shape(2))

text \<open>The guarded update: one row moves along its edge, or no row matches.\<close>

lemma update_none:
  "\<forall>r \<in> set t. \<not> guard_matches i r \<Longrightarrow> guarded_update st now i t = (Inl ErrNoRows, t)"
  by (simp add: guarded_update_def find_None_iff [THEN iffD2])

lemma update_one:
  assumes ok: "pg_payments_ok t" and r: "r \<in> set t" "guard_matches i r"
  shows "\<exists>t'. guarded_update st now i t = (Inr (move_row st now r), t') \<and> pg_payments_ok t' \<and>
     pg_payment_rows t' = (pg_payment_rows t)(i \<mapsto> payment_from_row (move_row st now r))"
proof -
  let ?f = "\<lambda>r. if guard_matches i r then move_row st now r else r"
  have i: "pr_IntentID r = i" using r(2) by (simp add: guard_matches_def)
  have same: "x = r" if "x \<in> set t" "pr_IntentID x = i" for x
    using ok that r(1) i distinct_map_eqD [of pr_IntentID t x r] by (simp add: pg_payments_ok_def)
  obtain x where "find (guard_matches i) t = Some x"
    using r by (metis find_None_iff not_None_eq)
  then have found: "find (guard_matches i) t = Some r"
    using same [of x] find_member [of "guard_matches i" t x] by (simp add: guard_matches_def)
  have "pg_payments_ok (map ?f t)"
    unfolding pg_payments_ok_def
  proof
    show "distinct (map pr_IntentID (map ?f t))"
      using ok by (simp add: pg_payments_ok_def comp_def if_distrib [of pr_IntentID] cong: if_cong)
    show "distinct (map pr_BookingSessionID (filter row_active (map ?f t)))"
      using ok unfolding pg_payments_ok_def
      by (intro distinct_filter_map) (auto simp: guard_matches_def row_active_def split: if_splits)
  qed
  moreover have "pg_payment_rows (map ?f t) = (pg_payment_rows t)(i \<mapsto> payment_from_row (move_row st now r))"
  proof
    fix j
    have m: "find (\<lambda>x. pr_IntentID x = j) (map ?f t) = map_option ?f (find (\<lambda>x. pr_IntentID x = j) t)"
      by (rule find_map_key) auto
    show "pg_payment_rows (map ?f t) j = ((pg_payment_rows t)(i \<mapsto> payment_from_row (move_row st now r))) j"
    proof (cases "j = i")
      case True
      then show ?thesis using pg_row_member [OF ok r(1)] i r(2) m by (simp add: pg_payment_rows_def)
    next
      case False
      then have "\<not> guard_matches i x" if "find (\<lambda>x. pr_IntentID x = j) t = Some x" for x
        using find_member [OF that] by (simp add: guard_matches_def)
      with False m show ?thesis
        by (cases "find (\<lambda>x. pr_IntentID x = j) t") (simp_all add: pg_payment_rows_def)
    qed
  qed
  ultimately show ?thesis using found by (simp add: guarded_update_def)
qed

lemma guard_open: "guard_matches i r \<longleftrightarrow> pr_IntentID r = i \<and> open_status (pr_Status r)"
  by (auto simp: guard_matches_def open_status_def payment_status_defs)

lemma update_open:
  assumes ok: "pg_payments_ok t" and p: "pg_payment_rows t i = Some p" and o: "open_status (p_Status p)"
  shows "\<exists>row t'. guarded_update st now i t = (Inr row, t') \<and> pg_payments_ok t' \<and>
     pg_payment_rows t' = (pg_payment_rows t)(i \<mapsto> payment_from_row row) \<and> pr_Status row = st \<and>
     same_charge (payment_from_row row) p"
proof -
  obtain r where r: "r \<in> set t" "pr_IntentID r = i" "p = payment_from_row r"
    using p pg_payment_rows_Some [OF ok] by auto
  then have "guard_matches i r" using o by (simp add: guard_open)
  from update_one [OF ok r(1) this, of st now] r(3) show ?thesis by (auto simp: same_charge_def)
qed

lemma update_closed:
  assumes ok: "pg_payments_ok t" and "\<And>p. pg_payment_rows t i = Some p \<Longrightarrow> \<not> open_status (p_Status p)"
  shows "guarded_update st now i t = (Inl ErrNoRows, t)"
proof (rule update_none, rule ballI)
  fix r assume "r \<in> set t"
  then show "\<not> guard_matches i r"
    using assms(2) [of "payment_from_row r"] pg_payment_rows_Some [OF ok, of i] by (auto simp: guard_open)
qed

lemma update_ok:
  assumes ok: "pg_payments_ok t" and u: "guarded_update st now i t = (r, t')"
  shows "pg_payments_ok t'"
proof (cases "\<exists>p. pg_payment_rows t i = Some p \<and> open_status (p_Status p)")
  case True
  then show ?thesis using update_open [OF ok, of i _ st now] u by auto
next
  case False
  then show ?thesis using update_closed [OF ok, of i st now] ok u by auto
qed

lemma get_row_by_intent:
  "pg_payment_rows t i = Some p \<Longrightarrow> \<exists>r. get_payment_by_intent i t = Inr r \<and> p = payment_from_row r"
  by (auto simp: get_payment_by_intent_def pg_payment_rows_def)

lemma get_row_unknown: "pg_payment_rows t i = None \<Longrightarrow> get_payment_by_intent i t = Inl ErrNoRows"
  by (simp add: get_payment_by_intent_def pg_payment_rows_def)

section \<open>The contract\<close>

sublocale postgres \<subseteq> pg_payments: payment_store pg_payments_ok pg_payment_rows pg_insertable "pg_insert_intent E"
  pg_get_active pg_get_by_intent pg_capture pg_mark_failed pg_has_captured
proof
  fix s s' :: pg_payments and n i sid :: string and now :: time and p q :: payment and r :: "payment res"
    and cr :: "(payment \<times> bool) res"
  assume ok: "pg_payments_ok s"
  have closed_none: "guarded_update st now i s = (Inl ErrNoRows, s)" if "pg_payment_rows s i = None" for st
    using update_closed [OF ok, of i st now] that by simp
  have closed_some: "guarded_update st now i s = (Inl ErrNoRows, s)"
    if "pg_payment_rows s i = Some p" "\<not> open_status (p_Status p)" for st
    using update_closed [OF ok, of i st now] that by simp
  show "payments_ok (pg_payment_rows s)" using ok by (rule pg_rows_ok)
  show "pg_payments_ok s'" if "pg_insert_intent E n now p s = (r, s')"
    using that ok by (cases r) (auto dest: pg_insert_Inl elim!: pg_insert_Inr intro: pg_payments_ok_append)
  show "pg_payment_rows s' = pg_payment_rows s \<or>
      (\<exists>row. r = Inr row \<and> pg_payment_rows s (p_IntentID p) = None \<and>
         pg_payment_rows s' = (pg_payment_rows s)(p_IntentID p \<mapsto> row) \<and> p_Status row = StatusIntent)"
    if "pg_insert_intent E n now p s = (r, s')"
  proof (cases r)
    case (Inr q)
    with that show ?thesis
      by (auto elim!: pg_insert_Inr simp: pg_payment_rows_append pg_payment_rows_None no_payment_clashes)
  qed (use that in \<open>auto dest: pg_insert_Inl\<close>)
  show "pg_payments_ok s'" if "pg_capture now i s = (cr, s')"
    using that update_ok [OF ok, of "''captured''" now i]
    by (auto simp: pg_capture_def capture_payment_def split: prod.splits sum.splits if_splits)
  show "pg_payments_ok s'" if "pg_mark_failed now i s = (r, s')"
    using that update_ok [OF ok, of "''failed''" now i]
    by (auto simp: pg_mark_failed_def fail_payment_def split: prod.splits sum.splits if_splits)
  show "pg_get_by_intent i s = (case pg_payment_rows s i of None \<Rightarrow> Inl ErrPaymentNotFound | Some p \<Rightarrow> Inr p)"
    by (auto simp: pg_get_by_intent_def get_payment_by_intent_def pg_payment_rows_def split: option.splits)
  show "pg_capture now i s = (Inl ErrPaymentNotFound, s)" if "pg_payment_rows s i = None"
    using closed_none [OF that] get_row_unknown [OF that] by (simp add: pg_capture_def capture_payment_def)
  show "\<exists>row s'. pg_capture now i s = (Inr (row, True), s') \<and> pg_payment_rows s' = (pg_payment_rows s)(i \<mapsto> row) \<and>
      same_charge row p \<and> p_Status row = StatusCaptured"
    if "pg_payment_rows s i = Some p" "open_status (p_Status p)"
    using update_open [OF ok that, of "''captured''" now]
    by (auto simp: pg_capture_def capture_payment_def StatusCaptured_def)
  show "pg_capture now i s = (Inr (p, False), s)" if "pg_payment_rows s i = Some p" "p_Status p = StatusCaptured"
    using closed_some [OF that(1)] that(2) get_row_by_intent [OF that(1)]
    by (auto simp: pg_capture_def capture_payment_def open_status_def)
  show "\<exists>e. pg_capture now i s = (Inl e, s) \<and> errors_is e ErrPaymentInvalidTransition"
    if "pg_payment_rows s i = Some p" "\<not> open_status (p_Status p)" "p_Status p \<noteq> StatusCaptured"
    using closed_some [OF that(1,2)] that(3) get_row_by_intent [OF that(1)]
    by (auto simp: pg_capture_def capture_payment_def)
  show "pg_mark_failed now i s = (Inl ErrPaymentNotFound, s)" if "pg_payment_rows s i = None"
    using closed_none [OF that] get_row_unknown [OF that] by (simp add: pg_mark_failed_def fail_payment_def)
  show "\<exists>row s'. pg_mark_failed now i s = (Inr row, s') \<and> pg_payment_rows s' = (pg_payment_rows s)(i \<mapsto> row) \<and>
      same_charge row p \<and> p_Status row = StatusFailed"
    if "pg_payment_rows s i = Some p" "open_status (p_Status p)"
    using update_open [OF ok that, of "''failed''" now]
    by (auto simp: pg_mark_failed_def fail_payment_def StatusFailed_def)
  show "pg_mark_failed now i s = (Inr p, s)" if "pg_payment_rows s i = Some p" "p_Status p = StatusFailed"
    using closed_some [OF that(1)] that(2) get_row_by_intent [OF that(1)]
    by (auto simp: pg_mark_failed_def fail_payment_def open_status_def)
  show "\<exists>e. pg_mark_failed now i s = (Inl e, s) \<and> errors_is e ErrPaymentInvalidTransition"
    if "pg_payment_rows s i = Some p" "\<not> open_status (p_Status p)" "p_Status p \<noteq> StatusFailed"
    using closed_some [OF that(1,2)] that(3) get_row_by_intent [OF that(1)]
    by (auto simp: pg_mark_failed_def fail_payment_def)
  show "pg_has_captured sid s = Inr (paid (pg_payment_rows s) sid)"
    using pg_paid [OF ok, of sid]
    by (simp add: pg_has_captured_def exists_captured_payment_for_session_def list_ex_iff Bex_def StatusCaptured_def)
  show "pg_get_active sid s = Inr p" if "active_row (pg_payment_rows s) sid p"
  proof -
    from that obtain r where r: "r \<in> set s" "p = payment_from_row r" "pr_BookingSessionID r = sid" "row_active r"
      using pg_active_row [OF ok] by auto
    let ?rs = "filter (\<lambda>r. pr_BookingSessionID r = sid \<and> row_active r) s"
    have "x = r" if "x \<in> set ?rs" for x
      using ok that r distinct_map_eqD [of pr_BookingSessionID "filter row_active s" x r] by (simp add: pg_payments_ok_def)
    moreover have "?rs \<noteq> []" using r by (auto simp: filter_empty_conv)
    ultimately have "latest ?rs = Some r" using latest_unique [of ?rs] by fastforce
    with r(2) show ?thesis by (simp add: pg_get_active_def get_active_payment_by_session_def)
  qed
  show "pg_get_active sid s = Inl ErrPaymentNotFound" if "\<forall>p. \<not> active_row (pg_payment_rows s) sid p"
  proof -
    have "filter (\<lambda>r. pr_BookingSessionID r = sid \<and> row_active r) s = []"
      using that pg_active_row [OF ok] by (auto simp: filter_empty_conv)
    then show ?thesis by (simp add: pg_get_active_def get_active_payment_by_session_def)
  qed
  let ?new = "\<lambda>r. pr_BookingSessionID r = p_BookingSessionID p \<and> pr_IntentID r = p_IntentID p \<and> pr_Status r = ''intent''"
  have clashes: "payment_clashes r s =
      (if \<exists>q. active_row (pg_payment_rows s) (p_BookingSessionID p) q then [constraintPaymentActiveSession] else [])"
    if "pg_payment_rows s (p_IntentID p) = None" "?new r" for r
    using that by (auto simp: payment_clashes_def pg_payment_rows_None pg_active_row [OF ok] list_ex_iff row_active_def)
  have ins: "int32 (p_AmountCents p) = p_AmountCents p" if "pg_insertable s p"
    using that by (simp add: pg_insertable_def int32_id)
  let ?row = "\<lparr>pr_ID = n, pr_BookingSessionID = p_BookingSessionID p, pr_Gateway = p_Gateway p, pr_IntentID = p_IntentID p,
     pr_Status = ''intent'', pr_AmountCents = p_AmountCents p, pr_Currency = p_Currency p,
     pr_CreatedAt = pg_now now, pr_UpdatedAt = pg_now now\<rparr>"
  have insert: "insert_payment_intent E n now (p_BookingSessionID p) (p_Gateway p) (p_IntentID p)
      (int32 (p_AmountCents p)) (p_Currency p) s =
    (if payment_clashes ?row s = [] then (Inr ?row, s @ [?row])
     else (Inl (PgError unique_violation (pg_pick E (payment_clashes ?row s))), s))" if "pg_insertable s p"
    using that ins [OF that] by (simp add: insert_payment_intent_def pg_insertable_def Let_def not_less)
  show "\<exists>row s'. pg_insert_intent E n now p s = (Inr row, s') \<and> pg_payment_rows s' = (pg_payment_rows s)(p_IntentID p \<mapsto> row) \<and>
      p_Status row = StatusIntent \<and> p_BookingSessionID row = p_BookingSessionID p \<and> p_IntentID row = p_IntentID p \<and>
      p_AmountCents row = p_AmountCents p"
    if p: "pg_insertable s p" and i: "pg_payment_rows s (p_IntentID p) = None"
      and free: "\<forall>q. \<not> active_row (pg_payment_rows s) (p_BookingSessionID p) q"
  proof -
    obtain q s' where "pg_insert_intent E n now p s = (Inr q, s')"
      using insert [OF p] clashes [OF i, of ?row] free by (simp add: pg_insert_intent_def)
    then show ?thesis
      using ins [OF p] by (auto elim!: pg_insert_Inr simp: pg_payment_rows_append)
  qed
  show "\<exists>s'. pg_insert_intent E n now p s = (Inl ErrPaymentIntentExists, s') \<and> pg_payment_rows s' = pg_payment_rows s"
    if p: "pg_insertable s p" and i: "pg_payment_rows s (p_IntentID p) = None"
      and a: "active_row (pg_payment_rows s) (p_BookingSessionID p) q"
  proof -
    have "payment_clashes ?row s = [constraintPaymentActiveSession]"
      using clashes [OF i, of ?row] a by auto
    then show ?thesis
      using insert [OF p] by (simp add: pg_insert_intent_def pick_single payment_conflict_error_def)
  qed
qed

end
