(* ===== verification/ProductionServer.thy ===== *)
theory ProductionServer
  imports ServerProgress RedisHoldStore PgBookingStore PgPaymentStore
begin

text \<open>
  The server that \<open>cmd/api/main.go\<close> composes: holds in Redis, bookings and payments in
  Postgres, the sandbox gateway. The \<open>server\<close> locale is interpreted on it for every Redis and
  every Postgres that keep their documented laws.
\<close>

definition production_stores ::
    "'s redis \<Rightarrow> redis_store \<Rightarrow> unicode \<Rightarrow> pg_env \<Rightarrow> (string \<Rightarrow> string) \<Rightarrow> ('s, pg_bookings, pg_payments) stores" where
  "production_stores R st ut E ev = \<lparr>
     st_hold = (\<lambda>now. redis_hold R st now now), st_release = redis_release R, st_get = redis_get R ut,
     st_held = redis_held_seats R ut,
     st_confirm = (\<lambda>i. pg_confirm E (ev i) i), st_by_session = pg_by_session,
     st_seat_confirmed = pg_seat_confirmed E, st_confirmed_seats = pg_confirmed_seats E,
     st_insert = pg_insert_intent E, st_get_active = pg_get_active, st_get_intent = pg_get_by_intent,
     st_capture = pg_capture, st_fail = pg_mark_failed, st_has_captured = pg_has_captured\<rparr>"

lemma production_stores_fields:
  "st_hold (production_stores R st ut E ev) = (\<lambda>now. redis_hold R st now now)"
  "st_release (production_stores R st ut E ev) = redis_release R"
  "st_get (production_stores R st ut E ev) = redis_get R ut"
  "st_held (production_stores R st ut E ev) = redis_held_seats R ut"
  "st_confirm (production_stores R st ut E ev) = (\<lambda>i. pg_confirm E (ev i) i)"
  "st_by_session (production_stores R st ut E ev) = pg_by_session"
  "st_seat_confirmed (production_stores R st ut E ev) = pg_seat_confirmed E"
  "st_confirmed_seats (production_stores R st ut E ev) = pg_confirmed_seats E"
  "st_insert (production_stores R st ut E ev) = pg_insert_intent E"
  "st_get_active (production_stores R st ut E ev) = pg_get_active"
  "st_get_intent (production_stores R st ut E ev) = pg_get_by_intent"
  "st_capture (production_stores R st ut E ev) = pg_capture"
  "st_fail (production_stores R st ut E ev) = pg_mark_failed"
  "st_has_captured (production_stores R st ut E ev) = pg_has_captured"
  by (simp_all add: production_stores_def)

definition production_start ::
    "'s \<Rightarrow> string list \<Rightarrow> string list \<Rightarrow> time \<Rightarrow> (nat \<Rightarrow> string) \<Rightarrow> (string \<Rightarrow> screening res) \<Rightarrow> fake_gateway \<Rightarrow>
      ('s, pg_bookings, pg_payments) world" where
  "production_start s0 scrs users now uuid screenings gw = \<lparr>w_now = now, w_uuid = uuid, w_next = 0,
     w_holds = s0, w_bookings = new_pg_bookings scrs users, w_payments = [],
     w_screenings = screenings, w_gateway = gw\<rparr>"

locale production =
  redis_holds R entries ut st + pg_booking E ev
  for R :: "'s redis" and entries ut st E ev

sublocale production \<subseteq> prod: server "production_stores R st ut E ev"
    "\<lambda>now s. rh_ok now (entries s)" "\<lambda>now s. rh_live ut now (entries s)" redis_stored "\<lambda>s. rh_used (entries s)"
    "pg_bookings_ok E" pg_rows "pg_bookable E" "pg_spelled E" "pg_fresh E ev" pg_payments_ok pg_payment_rows pg_insertable
  unfolding server_def production_stores_fields
  by (intro conjI rh.hold_store_axioms booking_store_axioms pg_payments.payment_store_axioms)

text \<open>The state invariant of the composition.\<close>

definition production_ok ::
    "('s \<Rightarrow> string \<Rightarrow> rentry option) \<Rightarrow> pg_env \<Rightarrow> ('s, pg_bookings, pg_payments) world \<Rightarrow> bool" where
  "production_ok entries E w \<longleftrightarrow> rh_ok (w_now w) (entries (w_holds w)) \<and> pg_bookings_ok E (w_bookings w) \<and>
     pg_payments_ok (w_payments w) \<and> rh_used (entries (w_holds w)) \<subseteq> w_uuid w ` {..<w_next w} \<and> inj (w_uuid w)"

context production
begin

lemma world_inv_ok: "prod.world_inv w \<longleftrightarrow> production_ok entries E w"
  unfolding prod.world_inv_def prod.minted_def by (simp add: production_ok_def)

lemma start_inv:
  assumes "entries s0 = Map.empty" "inj uuid"
  shows "prod.world_inv (production_start s0 scrs users now uuid scr gw)"
    and "prod.live_holds (production_start s0 scrs users now uuid scr gw) = {}"
    and "pg_rows (w_bookings (production_start s0 scrs users now uuid scr gw)) = {}"
proof -
  have live: "rh_live ut now (entries s0) sid = None" for sid
    using rh_live_None [of now "entries s0"] rh_ok_empty [of now] assms(1) by (simp add: seen_def)
  show "prod.world_inv (production_start s0 scrs users now uuid scr gw)"
    using assms rh_ok_empty [of now] unfolding prod.world_inv_def
    by (simp add: production_start_def rh_used_def new_pg_bookings_def pg_bookings_ok_def pg_payments_ok_def)
  show "prod.live_holds (production_start s0 scrs users now uuid scr gw) = {}"
    using live unfolding prod.live_holds_def by (simp add: production_start_def)
  show "pg_rows (w_bookings (production_start s0 scrs users now uuid scr gw)) = {}"
    by (simp add: production_start_def new_pg_bookings_def pg_rows_def)
qed

lemma run_config:
  assumes "entries s0 = Map.empty" "inj uuid"
    and "server_run ttl (world_ports (production_stores R st ut E ev))
      (production_start s0 scrs users now uuid scr gw, {}, []) (w, H, ts)"
  shows "arbiter (pg_rows (w_bookings w))"
    and "b \<in> pg_rows (w_bookings w) \<Longrightarrow> paid (pg_payment_rows (w_payments w)) (b_SessionID b) \<and> (\<exists>h \<in> H. prod.sale_of h b)"
  using prod.run_no_double_sale [of ttl "production_start s0 scrs users now uuid scr gw"]
    prod.run_backed [of ttl "production_start s0 scrs users now uuid scr gw"]
    start_inv [OF assms(1,2), of scrs users now scr gw] assms(3) by auto

text \<open>A sale of a hold, with every identifier spelled as its UUID column spells it.\<close>

lemma sale_spelled:
  "prod.sale_of h b \<Longrightarrow> b_SessionID b = h_SessionID h \<and> b_ScreeningID b = pg_spell E (h_ScreeningID h) \<and>
     s_Row (b_Seat b) = s_Row (h_Seat h) \<and> s_Number (b_Seat b) = int32 (s_Number (h_Seat h)) \<and>
     b_UserID b = pg_spell E (h_UserID h)"
  by (auto simp: prod.sale_of_def booking_of_def same_booking_seat_def pg_spelled_def)

text \<open>What a buyer needs for the three requests from the hold to the booking.\<close>

lemma can_buy:
  assumes "production_ok entries E w"
    and "rh_live ut (w_now w) (entries (w_holds w)) sid = Some h" "h_UserID h = uid" "w_now w < h_ExpiresAt h"
    and "\<forall>p. \<not> active_row (pg_payment_rows (w_payments w)) sid p"
    and "\<not> session_taken (pg_rows (w_bookings w)) sid" "\<not> seat_taken (pg_rows (w_bookings w)) (h_ScreeningID h) (h_Seat h)"
    and "pg_bookable E (w_bookings w) b" "b_ScreeningID b = h_ScreeningID h" "b_Seat b = h_Seat h" "b_UserID b = uid"
    and "w_screenings w (h_ScreeningID h) = Inr sc" "0 < sc_PriceCents sc" "sc_PriceCents sc < 2 ^ 31"
    and "fg_failCreate (w_gateway w) = None" "fg_failCapture (w_gateway w) = None"
    and "pg_payment_rows (w_payments w) (fakeIntentPrefix @ w_uuid w (w_next w)) = None"
    and "pg_fresh E ev (w_bookings w) (w_uuid w (w_next w + 2))"
  shows "prod.ready_to_buy w uid sid h sc"
proof -
  have "h_SessionID h = sid"
    using rh.live_session [of "w_now w" "w_holds w" sid h] assms(1,2) by (simp add: production_ok_def)
  moreover have "pg_bookable E (w_bookings w) (prod.row_of h)"
    using assms(3,8-11) by (simp add: pg_bookable_def)
  ultimately show ?thesis
    unfolding prod.ready_to_buy_def prod.gate_open_def prod.sale_free_def
    using assms by (simp add: pg_insertable_def fg_provider_def)
qed

lemma buys:
  assumes "production_ok entries E w" "prod.ready_to_buy w uid sid h sc"
  shows "\<exists>p q b w'. run_all ttl (world_ports (production_stores R st ut E ev))
        [ReqCreateIntent uid sid, ReqPay uid sid, ReqConfirm uid sid] w =
      ([OutIntent (Inr p), OutPay (Inr q), OutConfirm (Inr \<lparr>cr_Booking = b, cr_Created = True\<rparr>)], w') \<and>
    booking_of h b \<and> pg_rows (w_bookings w') = insert b (pg_rows (w_bookings w)) \<and> production_ok entries E w'"
proof -
  note w = assms(1) [folded world_inv_ok]
  from prod.purchase_completes [OF w assms(2), of ttl] show ?thesis
    unfolding world_inv_ok by metis
qed

end

section \<open>Spellings of one identifier\<close>

context postgres
begin

text \<open>After a sale, the same seat under another spelling of the screening is refused as sold.\<close>

lemma label_not_blank: "row_label r \<Longrightarrow> \<not> list_all (\<lambda>c. c = CHR '' '') r"
  by (cases r) (auto simp: row_label_def is_upper_letter_def byte_def)

lemma other_spelling_refused:
  assumes first: "pg_confirm E ev1 i1 now b t = (Inr b1, t')"
    and scr: "pg_uuid E (b_ScreeningID b) = Some u" "pg_uuid E (b_ScreeningID c) = Some u" and seat: "b_Seat c = b_Seat b"
    and ok: "seat_well_formed (b_Seat c)" "s_Number (b_Seat c) < 2 ^ 31"
    and usr: "pg_uuid E (b_UserID c) = Some v" and new: "\<not> session_taken (pg_rows t') (b_SessionID c)"
  shows "pg_confirm E ev2 i2 later c t' = (Inl ErrSeatAlreadyBooked, t')"
  using first
proof (cases rule: pg_confirm_cases)
  case (row cb)
  have n: "int32 (s_Number (b_Seat c)) = s_Number (b_Seat c)" "\<not> s_Number (b_Seat c) \<le> 0"
    "\<not> list_all (\<lambda>c. c = CHR '' '') (s_Row (b_Seat c))"
    using ok label_not_blank by (simp_all add: int32_id seat_well_formed_def)
  let ?row = "\<lparr>cb_ID = i2, cb_SessionID = b_SessionID c, cb_ScreeningID = u, cb_SeatRow = s_Row (b_Seat c),
    cb_SeatNumber = s_Number (b_Seat c), cb_UserID = v, cb_Status = ''confirmed'',
    cb_ConfirmedAt = pg_now later, cb_UpdatedAt = pg_now later\<rparr>"
  have "seat_index_hit ?row cb"
    using row(6,7) scr seat n(1) by (simp add: seat_index_hit_def same_booking_seat_def pg_spelled_def pg_spell_def)
  moreover have "cb \<in> set (pb_rows t')" using row(2) by simp
  moreover have "\<not> list_ex (\<lambda>r. cb_SessionID r = b_SessionID c) (pb_rows t')"
    using new by (simp add: pg_session_taken list_ex_iff)
  ultimately have cl: "booking_clashes ?row (pb_rows t') = [constraintSeatUnique]"
    by (auto simp: booking_clashes_def list_ex_iff)
  have "insert_confirmed_booking E i2 later (b_SessionID c) (b_ScreeningID c) (s_Row (b_Seat c))
      (int32 (s_Number (b_Seat c))) (b_UserID c) t' = (Inl (PgError unique_violation constraintSeatUnique), t')"
    using scr(2) usr n cl by (simp add: insert_confirmed_booking_def Let_def pick_single)
  then show ?thesis by (simp add: pg_confirm_def booking_conflict_error_def)
qed simp

end

end
