(* ===== verification/HoldRefinement.thy ===== *)
theory HoldRefinement
  imports RedisHoldStore MemHoldStore
begin

text \<open>
  What a hold store promises, as operations on the map from sessions to their holds, and the
  refinements: the Lua scripts over the Redis keys and the maps of the in-memory store both
  implement it. \<open>full\<close> is whether the buyer's bookkeeping is at the limit, \<open>kept\<close> the form in
  which a store keeps a hold.
\<close>

section \<open>Specification\<close>

definition seat_held :: "(string \<rightharpoonup> hold) \<Rightarrow> hold \<Rightarrow> bool" where
  "seat_held L h \<longleftrightarrow> (\<exists>sid k. L sid = Some k \<and> same_seat k h)"

definition spec_hold :: "(hold \<Rightarrow> hold) \<Rightarrow> bool \<Rightarrow> hold \<Rightarrow> (string \<rightharpoonup> hold) \<Rightarrow> unit res \<times> (string \<rightharpoonup> hold)" where
  "spec_hold kept full h L =
     (if full then (Inl ErrHoldLimitExceeded, L)
      else if seat_held L h then (Inl ErrSeatAlreadyHeld, L)
      else (Inr (), L(h_SessionID h \<mapsto> kept h)))"

definition spec_release :: "string \<Rightarrow> string \<Rightarrow> (string \<rightharpoonup> hold) \<Rightarrow> unit res \<times> (string \<rightharpoonup> hold)" where
  "spec_release sid uid L =
     (case L sid of
        None \<Rightarrow> (Inl ErrHoldNotFound, L)
      | Some h \<Rightarrow> if h_UserID h \<noteq> uid then (Inl ErrNotHoldOwner, L) else (Inr (), L(sid := None)))"

definition spec_get :: "string \<Rightarrow> (string \<rightharpoonup> hold) \<Rightarrow> hold res" where
  "spec_get sid L = (case L sid of None \<Rightarrow> Inl ErrHoldNotFound | Some h \<Rightarrow> Inr h)"

section \<open>Every store of the contract\<close>

text \<open>A step on a store, seen through the map.\<close>

definition seen_as :: "('s \<Rightarrow> string \<rightharpoonup> hold) \<Rightarrow> unit res \<times> 's \<Rightarrow> unit res \<times> (string \<rightharpoonup> hold)" where
  "seen_as L x = (fst x, L (snd x))"

context hold_store
begin

lemma release_refines:
  assumes "invar now s"
  shows "seen_as (live now) (release_op now sid uid s) = spec_release sid uid (live now s)"
proof (cases "live now s sid")
  case None
  with release_unknown [OF assms] show ?thesis by (simp add: seen_as_def spec_release_def)
next
  case (Some h)
  show ?thesis
  proof (cases "h_UserID h = uid")
    case True
    with release_owner [OF assms Some] Some show ?thesis by (auto simp: seen_as_def spec_release_def fun_eq_iff)
  next
    case False
    with release_foreign [OF assms Some] Some show ?thesis by (simp add: seen_as_def spec_release_def)
  qed
qed

lemma get_refines: "invar now s \<Longrightarrow> get_op now sid s = spec_get sid (live now s)"
  by (simp add: get_live spec_get_def)

text \<open>For the hold, the answer decides: what it does to the map follows from the contract.\<close>

lemma hold_refines:
  assumes "invar now s" "fresh_hold (used s) h" "now < h_ExpiresAt h"
    and "fst (hold_op now h s) = fst (spec_hold stored full h (live now s))"
  shows "seen_as (live now) (hold_op now h s) = spec_hold stored full h (live now s)"
proof -
  obtain r s' where x: "hold_op now h s = (r, s')" by force
  show ?thesis
  proof (cases r)
    case (Inl e)
    with hold_err [OF assms(1,2)] x assms(4) show ?thesis
      by (auto simp: seen_as_def spec_hold_def split: if_splits)
  next
    case (Inr u)
    with hold_ok [OF assms(1,2,3)] x assms(4) show ?thesis
      by (auto simp: seen_as_def spec_hold_def fun_eq_iff split: if_splits)
  qed
qed

end

section \<open>Redis\<close>

lemma ttl_seconds_pos:
  assumes "now < t" shows "1 \<le> ttl_seconds (time_until t now)"
proof -
  have d: "0 < time_until t now" using assms by (simp add: time_until_def)
  then have "0 \<le> time_until t now div second" by (simp add: second_def pos_imp_zdiv_nonneg_iff)
  with d show ?thesis
    by (cases "time_until t now div second = 0") (auto simp: ttl_seconds_def whole_seconds_def Let_def)
qed

text \<open>\<open>ZCARD\<close> of the buyer's bookkeeping is at the limit.\<close>

definition redis_full :: "redis_store \<Rightarrow> time \<Rightarrow> hold \<Rightarrow> (string \<Rightarrow> rentry option) \<Rightarrow> bool" where
  "redis_full st now h m \<longleftrightarrow>
     rs_maxHolds st \<le> int (length (zset_of (seen now m (user_holds_key (h_UserID h)))))"

lemma hold_script_answer:
  "fst (hold_script R now KEYS ARGV s) =
     (if rd_zcard R now (KEYS ! 2) s \<ge> tonumber (ARGV ! 3) then ''LIMIT''
      else if fst (rd_set_nx_ex R now (KEYS ! 0) (ARGV ! 0) (tonumber (ARGV ! 1)) s) then ''OK'' else ''TAKEN'')"
  by (cases "rd_set_nx_ex R now (KEYS ! 0) (ARGV ! 0) (tonumber (ARGV ! 1)) s"; cases "fst (rd_set_nx_ex R now (KEYS ! 0) (ARGV ! 0) (tonumber (ARGV ! 1)) s)")
     (simp_all add: hold_script_def Let_def)

context redis_holds
begin

lemma seat_held_key:
  assumes ok: "rh_ok now (entries s)" and b: "bookable_seat h"
  shows "seat_held (rh_live ut now (entries s)) h \<longleftrightarrow> seen now (entries s) (hold_key h) \<noteq> None"
proof
  assume "seat_held (rh_live ut now (entries s)) h"
  then obtain sid k where "rh_live ut now (entries s) sid = Some k" "same_seat k h" by (auto simp: seat_held_def)
  with rh_seat_free [OF ok b] show "seen now (entries s) (hold_key h) \<noteq> None" by blast
next
  assume "seen now (entries s) (hold_key h) \<noteq> None"
  then obtain k d where k: "session_at now (entries s) k d" "bookable_seat k" "hold_key k = hold_key h"
    using ok unfolding rh_ok_def rh_seats_ok_def hold_key_seat by blast
  have "same_seat (redis_stored k) h"
    using hold_key_inject [OF k(2) b] k(3) by (simp add: same_seat_def redis_stored_def)
  then show "seat_held (rh_live ut now (entries s)) h"
    unfolding seat_held_def using rh_live_Some [OF ok] k(1,2) by blast
qed

lemma redis_hold_answer:
  assumes ok: "rh_ok now (entries s)" and f: "fresh_hold (rh_used (entries s)) h"
    and v: "hold_validate h now = Inr ()" and m: "int64_range (rs_maxHolds st)"
  shows "fst (redis_hold R st now now h s) = fst (spec_hold redis_stored (redis_full st now h (entries s)) h (rh_live ut now (entries s)))"
proof -
  have t: "1 \<le> ttl_seconds (time_until (h_ExpiresAt h) now)"
    using v by (simp add: hold_validate_ok ttl_seconds_pos)
  then have "tonumber (itoa (ttl_seconds (time_until (h_ExpiresAt h) now))) = ttl_seconds (time_until (h_ExpiresAt h) now)"
    using ttl_seconds_range by (simp add: tonumber_def parse_int_itoa)
  moreover have "tonumber (itoa (rs_maxHolds st)) = rs_maxHolds st" using m by (simp add: tonumber_def parse_int_itoa)
  moreover have "rd_zcard R now (user_holds_key (h_UserID h)) s =
      int (length (zset_of (seen now (entries s) (user_holds_key (h_UserID h)))))"
    using ok by (intro zcard) (simp add: rh_ok_def rh_zsets_ok_def)
  moreover have "fst (rd_set_nx_ex R now (hold_key h) tok (ttl_seconds (time_until (h_ExpiresAt h) now)) s)
      \<longleftrightarrow> seen now (entries s) (hold_key h) = None" for tok
  proof (cases "seen now (entries s) (hold_key h) = None")
    case True
    with set_free [OF True, of "ttl_seconds (time_until (h_ExpiresAt h) now)" tok] t show ?thesis by auto
  qed (simp add: set_taken)
  moreover have "seat_held (rh_live ut now (entries s)) h \<longleftrightarrow> seen now (entries s) (hold_key h) \<noteq> None"
    using seat_held_key [OF ok redis_fresh(1) [OF f]] .
  ultimately show ?thesis
    using v t hold_script_answer [of R now
        "[seat_key (h_ScreeningID h) (h_Seat h), session_key (h_SessionID h), user_holds_key (h_UserID h), globalHoldsKey]"]
    by (simp add: redis_hold_def spec_hold_def redis_full_def Let_def hold_key_def case_prod_unfold)
qed

lemma redis_stores:
  "rh_ok now (entries s) \<Longrightarrow> fresh_hold (rh_used (entries s)) h \<Longrightarrow> now < h_ExpiresAt h \<Longrightarrow>
   redis_hold R st now now h s = (Inr (), s') \<Longrightarrow> rh_live ut now (entries s') (h_SessionID h) = Some (redis_stored h)"
  using rh.hold_ok by simp

lemma redis_refines:
  assumes ok: "rh_ok now (entries s)"
  shows "fresh_hold (rh_used (entries s)) h \<and> hold_validate h now = Inr () \<and> int64_range (rs_maxHolds st) \<Longrightarrow>
     seen_as (\<lambda>s. rh_live ut now (entries s)) (redis_hold R st now now h s) =
       spec_hold redis_stored (redis_full st now h (entries s)) h (rh_live ut now (entries s))"
    and "seen_as (\<lambda>s. rh_live ut now (entries s)) (redis_release R now sid uid s) =
       spec_release sid uid (rh_live ut now (entries s))"
    and "redis_get R ut now sid s = spec_get sid (rh_live ut now (entries s))"
proof -
  assume h: "fresh_hold (rh_used (entries s)) h \<and> hold_validate h now = Inr () \<and> int64_range (rs_maxHolds st)"
  show "seen_as (\<lambda>s. rh_live ut now (entries s)) (redis_hold R st now now h s) =
       spec_hold redis_stored (redis_full st now h (entries s)) h (rh_live ut now (entries s))"
    using rh.hold_refines [OF ok] redis_hold_answer [OF ok] h by (simp add: hold_validate_ok)
qed (use rh.release_refines [OF ok] rh.get_refines [OF ok] in simp_all)

end

section \<open>The two stores\<close>

lemma mem_hold_answer:
  "mem_holds_ok now s \<Longrightarrow> fresh_hold (mem_used s) h \<Longrightarrow>
   fst (mem_hold now h s) =
     fst (spec_hold id (mh_maxHolds s \<le> int (length (user_holds s (h_UserID h)))) h (mem_live now s))"
  unfolding mem_hold_outcome [OF _ fresh_mem_fresh] spec_hold_def seat_held_def by auto

lemma mem_refines:
  assumes ok: "mem_holds_ok now s"
  shows "fresh_hold (mem_used s) h \<and> now < h_ExpiresAt h \<Longrightarrow>
     seen_as (mem_live now) (mem_hold now h s) =
       spec_hold id (mh_maxHolds s \<le> int (length (user_holds s (h_UserID h)))) h (mem_live now s)"
    and "seen_as (mem_live now) (mem_release now sid uid s) = spec_release sid uid (mem_live now s)"
    and "mem_get now sid s = spec_get sid (mem_live now s)"
proof -
  assume h: "fresh_hold (mem_used s) h \<and> now < h_ExpiresAt h"
  show "seen_as (mem_live now) (mem_hold now h s) =
       spec_hold id (mh_maxHolds s \<le> int (length (user_holds s (h_UserID h)))) h (mem_live now s)"
    using mem_hs.hold_refines [OF ok] mem_hold_answer [OF ok] h by (simp add: id_def)
qed (use mem_hs.release_refines [OF ok] mem_hs.get_refines [OF ok] in simp_all)

text \<open>The holds of the one are those of the other, as Redis writes them down.\<close>

definition as_redis :: "(string \<rightharpoonup> hold) \<Rightarrow> (string \<rightharpoonup> hold)" where
  "as_redis L sid = map_option redis_stored (L sid)"

lemma redis_stored_simps [simp]:
  "h_SessionID (redis_stored h) = h_SessionID h" "h_UserID (redis_stored h) = h_UserID h"
  "same_seat (redis_stored h) k \<longleftrightarrow> same_seat h k"
  by (simp_all add: redis_stored_def same_seat_def)

lemma spec_as_redis:
  "spec_hold redis_stored full h (as_redis L) = (fst (spec_hold id full h L), as_redis (snd (spec_hold id full h L)))"
  "spec_release sid uid (as_redis L) = (fst (spec_release sid uid L), as_redis (snd (spec_release sid uid L)))"
proof -
  have "seat_held (as_redis L) h \<longleftrightarrow> seat_held L h" unfolding seat_held_def as_redis_def map_option_eq_Some by (metis redis_stored_simps(3))
  then show "spec_hold redis_stored full h (as_redis L) = (fst (spec_hold id full h L), as_redis (snd (spec_hold id full h L)))"
    by (auto simp: spec_hold_def as_redis_def fun_eq_iff)
  show "spec_release sid uid (as_redis L) = (fst (spec_release sid uid L), as_redis (snd (spec_release sid uid L)))"
    by (cases "L sid") (auto simp: spec_release_def as_redis_def fun_eq_iff)
qed

end
