(* ===== verification/HoldHistory.thy ===== *)
theory HoldHistory
  imports HoldRefinement
begin

text \<open>
  Whole histories of a hold store: a list of calls, each made some time after the one before, and their answers. A
  simulation between the in-memory and the Redis store shows that from the empty stores on every history gets the same
  answers from both; and the bookkeeping behind the limit is counted over a history.
\<close>

section \<open>Histories\<close>

datatype hold_call =
    CallHold hold
  | CallRelease string string
  | CallGet string
  | CallHeldSeats string
  | CallWait duration

datatype hold_answer =
    Done "unit res"
  | Found "hold res"
  | Seats "seat set"
  | Waited

fun call_time :: "hold_call \<Rightarrow> duration" where
  "call_time (CallWait d) = d"
| "call_time c = 0"

definition elapsed :: "hold_call list \<Rightarrow> duration" where
  "elapsed cs = sum_list (map call_time cs)"

fun run_calls :: "(time \<Rightarrow> hold_call \<Rightarrow> 's \<Rightarrow> hold_answer \<times> 's) \<Rightarrow> time \<Rightarrow> hold_call list \<Rightarrow> 's \<Rightarrow> hold_answer list \<times> 's" where
  "run_calls call now [] s = ([], s)"
| "run_calls call now (c # cs) s =
     (case call now c s of (a, s1) \<Rightarrow>
      case run_calls call (now + call_time c) cs s1 of (as, s2) \<Rightarrow> (a # as, s2))"

fun mem_call :: "time \<Rightarrow> hold_call \<Rightarrow> mem_holds \<Rightarrow> hold_answer \<times> mem_holds" where
  "mem_call now (CallHold h) m = apfst Done (mem_hold now h m)"
| "mem_call now (CallRelease sid uid) m = apfst Done (mem_release now sid uid m)"
| "mem_call now (CallGet sid) m = (Found (mem_get now sid m), m)"
| "mem_call now (CallHeldSeats scr) m = (Seats (set (mem_held_seats now scr m)), m)"
| "mem_call now (CallWait d) m = (Waited, m)"

fun redis_call :: "'s redis \<Rightarrow> unicode \<Rightarrow> redis_store \<Rightarrow> time \<Rightarrow> hold_call \<Rightarrow> 's \<Rightarrow> hold_answer \<times> 's" where
  "redis_call R ut st now (CallHold h) s = apfst Done (redis_hold R st now now h s)"
| "redis_call R ut st now (CallRelease sid uid) s = apfst Done (redis_release R now sid uid s)"
| "redis_call R ut st now (CallGet sid) s = (Found (redis_get R ut now sid s), s)"
| "redis_call R ut st now (CallHeldSeats scr) s = (Seats (set (redis_held_seats R ut now scr s)), s)"
| "redis_call R ut st now (CallWait d) s = (Waited, s)"

text \<open>The identifiers that the holds of a history bring, added to those before it.\<close>

fun call_ids :: "string set \<Rightarrow> hold_call \<Rightarrow> string set" where
  "call_ids U (CallHold h) = insert (h_SessionID h) (insert (h_HoldToken h) U)"
| "call_ids U c = U"

text \<open>
  What the service sees to: a hold has fresh identifiers and passes its validation. Its lifetime is a whole number of
  seconds, since Redis keeps keys for whole seconds (and fits a \<open>Duration\<close>); a screening has no glob characters.
\<close>

fun call_ok :: "time \<Rightarrow> string set \<Rightarrow> hold_call \<Rightarrow> bool" where
  "call_ok now U (CallHold h) \<longleftrightarrow> fresh_hold U h \<and> hold_validate h now = Inr () \<and>
     (h_ExpiresAt h - now) mod second = 0 \<and> h_ExpiresAt h - now < 2 ^ 63"
| "call_ok now U (CallHeldSeats scr) \<longleftrightarrow> plain_id scr"
| "call_ok now U (CallWait d) \<longleftrightarrow> 0 \<le> d"
| "call_ok now U c \<longleftrightarrow> True"

fun calls_ok :: "time \<Rightarrow> string set \<Rightarrow> hold_call list \<Rightarrow> bool" where
  "calls_ok now U [] \<longleftrightarrow> True"
| "calls_ok now U (c # cs) \<longleftrightarrow> call_ok now U c \<and> calls_ok (now + call_time c) (call_ids U c) cs"

text \<open>Redis gives an expiry back without its fraction of a second.\<close>

fun in_seconds :: "hold_answer \<Rightarrow> hold_answer" where
  "in_seconds (Found r) = Found (map_sum id redis_stored r)"
| "in_seconds a = a"

lemma in_seconds_Done [simp]: "in_seconds (Done r) = Done r"
  by simp

lemma call_time_ge: "call_ok now U c \<Longrightarrow> 0 \<le> call_time c"
  by (cases c) simp_all

lemma call_ids_mono: "U \<subseteq> call_ids U c"
  by (cases c) auto

lemma elapsed_simps [simp]: "elapsed [] = 0" "elapsed (c # cs) = call_time c + elapsed cs"
  by (simp_all add: elapsed_def)

lemma calls_ok_append:
  "calls_ok now U (cs @ ds) \<longleftrightarrow> calls_ok now U cs \<and> calls_ok (now + elapsed cs) (foldl call_ids U cs) ds"
  by (induction cs arbitrary: now U) (simp_all add: add.assoc)

lemma run_calls_append:
  "run_calls call now (cs @ ds) s =
     (case run_calls call now cs s of (as, s1) \<Rightarrow>
      case run_calls call (now + elapsed cs) ds s1 of (bs, s2) \<Rightarrow> (as @ bs, s2))"
  by (induction cs arbitrary: now s) (simp_all add: add.assoc split: prod.split)

lemma run_calls_length: "run_calls call now cs s = (as, s') \<Longrightarrow> length as = length cs"
  by (induction cs arbitrary: now s as) (auto split: prod.splits)

section \<open>Counting what is behind the limit\<close>

text \<open>The holds granted to a user less the holds that user gave back.\<close>

fun counted :: "string \<Rightarrow> hold_call \<times> hold_answer \<Rightarrow> int" where
  "counted u (CallHold h, Done (Inr x)) = (if h_UserID h = u then 1 else 0)"
| "counted u (CallRelease sid uid, Done (Inr x)) = (if uid = u then -1 else 0)"
| "counted u e = 0"

definition not_returned :: "string \<Rightarrow> (hold_call \<times> hold_answer) list \<Rightarrow> int" where
  "not_returned u log = sum_list (map (counted u) log)"

lemma counted_other [simp]:
  "counted u (CallHold h, Done (Inl e)) = 0" "counted u (CallRelease sid uid, Done (Inl e)) = 0"
  "counted u (CallGet sid, a) = 0" "counted u (CallHeldSeats scr, a) = 0" "counted u (CallWait d, a) = 0"
  by simp_all

lemma not_returned_simps [simp]:
  "not_returned u [] = 0" "not_returned u (e # log) = counted u e + not_returned u log"
  by (simp_all add: not_returned_def)

text \<open>The sessions in the bookkeeping are among those of the history.\<close>

definition books_within :: "string set \<Rightarrow> mem_holds \<Rightarrow> bool" where
  "books_within U m \<longleftrightarrow> (\<forall>u sid. gm_get (user_holds m u) sid \<noteq> None \<longrightarrow> sid \<in> U)"

lemma mem_call_counts:
  assumes ok: "mem_holds_ok now m" and c: "call_ok now U c" and b: "books_within U m" and r: "mem_call now c m = (a, m')"
  shows "int (length (user_holds m' u)) = int (length (user_holds m u)) + counted u (c, a)" "books_within (call_ids U c) m'"
proof -
  have "int (length (user_holds m' u)) = int (length (user_holds m u)) + counted u (c, a) \<and> books_within (call_ids U c) m'"
  proof (cases c)
    case (CallHold h)
    obtain x where x: "mem_hold now h m = (x, m')" "a = Done x" using r CallHold by (cases "mem_hold now h m") simp
    show ?thesis
    proof (cases x)
      case (Inl e)
      with x mem_hold_err [of now h m e m'] b CallHold show ?thesis by (auto simp: books_within_def)
    next
      case (Inr y)
      then have h: "mem_hold now h m = (Inr (), m')" using x by simp
      have "h_SessionID h \<notin> U" using c CallHold by (simp add: fresh_hold_def)
      then have "gm_get (user_holds m (h_UserID h)) (h_SessionID h) = None"
        using b unfolding books_within_def by blast
      with mem_hold_ok_state(1) [OF h] b CallHold x Inr show ?thesis
        by (auto simp: gm_length_set books_within_def split: if_splits)
    qed
  next
    case (CallRelease sid uid)
    obtain x where x: "mem_release now sid uid m = (x, m')" "a = Done x" using r CallRelease by (cases "mem_release now sid uid m") simp
    show ?thesis
    proof (cases x)
      case (Inl e)
      with x mem_release_err [of now sid uid m e m'] b CallRelease show ?thesis by (auto simp: books_within_def)
    next
      case (Inr y)
      then have "mem_release now sid uid m = (Inr (), m')" using x by simp
      then obtain h where h: "gm_get (mh_sessions m) sid = Some h" "h_UserID h = uid"
        and users: "\<And>u. user_holds m' u = (if u = uid then gm_del sid (user_holds m u) else user_holds m u)"
        by (rule mem_release_ok_state) blast
      have "mem_users_ok m" using ok by (simp add: mem_holds_ok_def)
      with mem_userD [OF this h(1)] h(2) have mine: "gm_get (user_holds m uid) sid = Some ()" "gm_wf (user_holds m uid)"
        by (simp_all add: mem_users_ok_def)
      then have "user_holds m uid \<noteq> []" by auto
      with mine users b CallRelease x Inr show ?thesis
        by (auto simp: gm_length_del books_within_def of_nat_diff Suc_leI)
    qed
  qed (use r b in auto)
  then show "int (length (user_holds m' u)) = int (length (user_holds m u)) + counted u (c, a)" "books_within (call_ids U c) m'"
    by simp_all
qed

lemma mem_call_ok:
  assumes ok: "mem_holds_ok now m" and c: "call_ok now U c" and U: "mem_used m \<subseteq> U" and r: "mem_call now c m = (a, m')"
  shows "mem_holds_ok (now + call_time c) m'" "mem_used m' \<subseteq> call_ids U c" "mh_maxHolds m' = mh_maxHolds m"
proof -
  have later: "mem_holds_ok (now + call_time c) x" if "mem_holds_ok now x" for x
    using mem_holds_ok_later [OF that] call_time_ge [OF c] by simp
  have "mem_holds_ok now m' \<and> mem_used m' \<subseteq> call_ids U c \<and> mh_maxHolds m' = mh_maxHolds m"
  proof (cases c)
    case (CallHold h)
    then obtain x where x: "mem_hold now h m = (x, m')" using r by (cases "mem_hold now h m") simp
    have "fresh_hold (mem_used m) h" using c CallHold U by (auto simp: fresh_hold_def)
    from mem_hs.invar_hold [OF ok this x] mem_hs.used_hold [OF ok this x] U CallHold show ?thesis
      using x by (auto simp: mem_hold_def Let_def split: if_splits)
  next
    case (CallRelease sid uid)
    then obtain x where x: "mem_release now sid uid m = (x, m')" using r by (cases "mem_release now sid uid m") simp
    have "mh_maxHolds m' = mh_maxHolds m"
      using x by (auto simp: mem_release_def Let_def split: option.splits if_splits)
    with mem_hs.invar_release [OF ok x] mem_hs.used_release [OF ok x] U CallRelease show ?thesis by auto
  qed (use r ok U in auto)
  with later show "mem_holds_ok (now + call_time c) m'" "mem_used m' \<subseteq> call_ids U c" "mh_maxHolds m' = mh_maxHolds m"
    by simp_all
qed

lemma mem_run_counts:
  assumes "mem_holds_ok now m" "calls_ok now U cs" "books_within U m" "mem_used m \<subseteq> U" "run_calls mem_call now cs m = (as, m')"
  shows "(\<forall>u. int (length (user_holds m' u)) = int (length (user_holds m u)) + not_returned u (zip cs as)) \<and>
    mem_holds_ok (now + elapsed cs) m' \<and> mem_used m' \<subseteq> foldl call_ids U cs \<and> mh_maxHolds m' = mh_maxHolds m"
  using assms
proof (induction cs arbitrary: now U m as)
  case (Cons c cs)
  obtain a m1 where c: "mem_call now c m = (a, m1)" by force
  obtain bs where r: "run_calls mem_call (now + call_time c) cs m1 = (bs, m')" and as: "as = a # bs"
    using Cons.prems(5) c by (auto split: prod.splits)
  have ok: "call_ok now U c" "calls_ok (now + call_time c) (call_ids U c) cs" using Cons.prems(2) by simp_all
  note m1 = mem_call_ok [OF Cons.prems(1) ok(1) Cons.prems(4) c] mem_call_counts [OF Cons.prems(1) ok(1) Cons.prems(3) c]
  from Cons.IH [OF m1(1) ok(2) m1(5) m1(2) r] m1(3,4) as show ?case by (simp add: add.assoc)
qed simp

lemma counted_in_seconds: "counted u (c, in_seconds a) = counted u (c, a)"
  by (cases "(u, c, a)" rule: prod_cases3; cases c; cases a) simp_all

lemma not_returned_in_seconds: "not_returned u (zip cs (map in_seconds as)) = not_returned u (zip cs as)"
  by (induction cs as rule: list_induct2') (simp_all add: counted_in_seconds)

text \<open>Every session of the in-memory store is that of a hold of the history.\<close>

lemma mem_call_sessions:
  assumes "mem_call now c m = (a, m')" "gm_get (mh_sessions m') sid = Some h"
  shows "gm_get (mh_sessions m) sid = Some h \<or> c = CallHold h"
proof (cases c)
  case (CallHold k)
  with assms show ?thesis by (auto simp: mem_hold_def Let_def apfst_def map_prod_def split: if_splits)
next
  case (CallRelease sid' uid)
  with assms show ?thesis by (auto simp: mem_release_def Let_def apfst_def map_prod_def split: if_splits option.splits)
qed (use assms in auto)

lemma mem_run_sessions:
  "run_calls mem_call now cs m = (as, m') \<Longrightarrow> gm_get (mh_sessions m') sid = Some h \<Longrightarrow>
   gm_get (mh_sessions m) sid = Some h \<or> CallHold h \<in> set cs"
proof (induction cs arbitrary: now m as)
  case (Cons c cs)
  obtain a m1 bs where c: "mem_call now c m = (a, m1)" "run_calls mem_call (now + call_time c) cs m1 = (bs, m')"
    using Cons.prems(1) by (auto split: prod.splits)
  from Cons.IH [OF c(2) Cons.prems(2)] mem_call_sessions [OF c(1), of sid h] show ?case by auto
qed simp

section \<open>The two stores on one history\<close>

text \<open>A sorted set without a lifetime, absent when empty, has the members of a map of the in-memory store.\<close>

definition same_book :: "rentry option \<Rightarrow> (string, unit) gomap \<Rightarrow> bool" where
  "same_book e b \<longleftrightarrow> (\<exists>z. e = zset_put z None \<and> gm_wf z \<and> gm_wf b \<and> (\<forall>sid. gm_get z sid = None \<longleftrightarrow> gm_get b sid = None))"

lemma gm_keys: "gm_get m k \<noteq> None \<longleftrightarrow> k \<in> set (map fst m)"
  by (simp add: gm_get_def map_of_eq_None_iff del: not_None_eq)

lemma zset_put_None [simp]:
  "seen now (\<lambda>_. zset_put z None) k = zset_put z None" "zset_of (zset_put z None) = z" "lifetime_of (zset_put z None) = None"
  by (simp_all add: zset_put_def)

lemma seen_zset_put: "m k = zset_put z None \<Longrightarrow> seen now m k = zset_put z None"
  by (simp add: seen_def zset_put_def split: option.split)

lemma same_book_length:
  assumes "same_book (m k) b"
  shows "length (zset_of (seen now m k)) = length b"
proof -
  obtain z where z: "m k = zset_put z None" "distinct (map fst z)" "distinct (map fst b)"
    "\<forall>sid. gm_get z sid = None \<longleftrightarrow> gm_get b sid = None"
    using assms unfolding same_book_def gm_wf_def by blast
  have "set (map fst z) = set (map fst b)"
    using z(4) gm_keys [of z] gm_keys [of b] by blast
  then have "length (map fst z) = length (map fst b)" using z(2,3) distinct_card by metis
  then show ?thesis using seen_zset_put [of m k z now] z(1) by simp
qed

lemma same_book_add:
  assumes "same_book (m k) b" "m' k = Some (RZset (gm_set sid score (zset_of (seen now m k))), lifetime_of (seen now m k))"
  shows "same_book (m' k) (gm_set sid () b)"
proof -
  obtain z where z: "m k = zset_put z None" "gm_wf z" "gm_wf b" "\<forall>sid. gm_get z sid = None \<longleftrightarrow> gm_get b sid = None"
    using assms(1) unfolding same_book_def by blast
  have ne: "gm_set sid score z \<noteq> []"
  proof
    assume "gm_set sid score z = []"
    then have "gm_get (gm_set sid score z) sid = None" by simp
    then show False by simp
  qed
  have "m' k = zset_put (gm_set sid score z) None"
    using assms(2) seen_zset_put [of m k z now] z(1) ne by (simp add: zset_put_def)
  moreover have "gm_get (gm_set sid score z) x = None \<longleftrightarrow> gm_get (gm_set sid () b) x = None" for x using z(4) by simp
  ultimately show ?thesis
    unfolding same_book_def using z(2,3) by (intro exI [of _ "gm_set sid score z"]) simp
qed

lemma same_book_remove:
  assumes "same_book (m k) b" "m' k = zset_put (gm_del sid (zset_of (seen now m k))) (lifetime_of (seen now m k))"
  shows "same_book (m' k) (gm_del sid b)"
proof -
  obtain z where z: "m k = zset_put z None" "gm_wf z" "gm_wf b" "\<forall>sid. gm_get z sid = None \<longleftrightarrow> gm_get b sid = None"
    using assms(1) unfolding same_book_def by blast
  have "m' k = zset_put (gm_del sid z) None"
    using assms(2) seen_zset_put [of m k z now] z(1) by simp
  then show ?thesis
    unfolding same_book_def using z(2-4) by (intro exI [of _ "gm_del sid z"]) simp
qed

text \<open>The simulation: both invariants, the same limit, the same live holds now and later, and the same bookkeeping.\<close>

definition hold_sim ::
    "unicode \<Rightarrow> redis_store \<Rightarrow> string set \<Rightarrow> time \<Rightarrow> (string \<Rightarrow> rentry option) \<Rightarrow> mem_holds \<Rightarrow> bool" where
  "hold_sim ut st U now e m \<longleftrightarrow> rh_ok now e \<and> mem_holds_ok now m \<and> rs_maxHolds st = mh_maxHolds m \<and> rh_used e \<union> mem_used m \<subseteq> U \<and>
     (\<forall>later. now \<le> later \<longrightarrow> rh_live ut later e = as_redis (mem_live later m)) \<and>
     (\<forall>u. same_book (e (user_holds_key u)) (user_holds m u))"

lemma hold_sim_start:
  assumes "rs_maxHolds st = n"
  shows "hold_sim ut st {} now Map.empty (new_mem_holds n)"
proof -
  have "rh_live ut later Map.empty = as_redis (mem_live later (new_mem_holds n))" for later
    by (simp add: fun_eq_iff rh_live_def seen_def as_redis_def mem_live_def new_mem_holds_def)
  moreover have "same_book None []" unfolding same_book_def by (intro exI [of _ "[]"]) (simp add: zset_put_def)
  ultimately show ?thesis
    using assms rh_ok_empty [of now] new_mem_holds_ok [of now n]
    by (simp add: hold_sim_def rh_used_def mem_used_def new_mem_holds_def user_holds_def)
qed

lemma hold_sim_later:
  "hold_sim ut st U now e m \<Longrightarrow> now \<le> later \<Longrightarrow> hold_sim ut st U later e m"
  unfolding hold_sim_def by (blast intro: rh_ok_later mem_holds_ok_later order_trans)

lemma fresh_hold_mono: "fresh_hold U h \<Longrightarrow> V \<subseteq> U \<Longrightarrow> fresh_hold V h"
  by (auto simp: fresh_hold_def)

text \<open>A lifetime of whole seconds is the key's lifetime.\<close>

lemma whole_lifetime:
  assumes "now < t" "(t - now) mod second = 0" "t - now < 2 ^ 63"
  shows "now + ttl_seconds (time_until t now) * second = t"
proof -
  have u: "time_until t now = t - now" using assms by (simp add: time_until_def)
  have "(t - now) div second * second = t - now" using assms(2) by (simp add: minus_mod_eq_div_mult [symmetric])
  then show ?thesis using assms(1) u by (simp add: ttl_seconds_def whole_seconds_def Let_def)
qed

context redis_holds
begin

lemma sim_hold:
  assumes sim: "hold_sim ut st U now (entries s) m" and max: "int64_range (rs_maxHolds st)"
    and c: "call_ok now U (CallHold h)"
    and r: "redis_hold R st now now h s = (r, s')" and q: "mem_hold now h m = (q, m')"
  shows "r = q" "hold_sim ut st (call_ids U (CallHold h)) now (entries s') m'"
proof -
  have ok: "rh_ok now (entries s)" "mem_holds_ok now m" "rs_maxHolds st = mh_maxHolds m"
    and used: "rh_used (entries s) \<subseteq> U" "mem_used m \<subseteq> U"
    and live: "\<And>later. now \<le> later \<Longrightarrow> rh_live ut later (entries s) = as_redis (mem_live later m)"
    and books: "\<And>u. same_book (entries s (user_holds_key u)) (user_holds m u)"
    using sim by (simp_all add: hold_sim_def)
  have book_length: "length (zset_of (seen now (entries s) (user_holds_key u))) = length (user_holds m u)" for u
    by (rule same_book_length) (rule books)
  have h: "fresh_hold U h" "hold_validate h now = Inr ()" "(h_ExpiresAt h - now) mod second = 0" "h_ExpiresAt h - now < 2 ^ 63"
    using c by simp_all
  have f: "fresh_hold (rh_used (entries s)) h" "fresh_hold (mem_used m) h"
    using fresh_hold_mono [OF h(1)] used by blast+
  have t: "now < h_ExpiresAt h" using h(2) by (simp add: hold_validate_ok)
  have full: "redis_full st now h (entries s) \<longleftrightarrow> mh_maxHolds m \<le> int (length (user_holds m (h_UserID h)))"
    using book_length ok(3) by (simp add: redis_full_def)
  have same: "fst (redis_hold R st now now h s) = fst (mem_hold now h m)"
    using redis_refines(1) [OF ok(1), of h] mem_refines(1) [OF ok(2), of h] f h(2) t max
    unfolding full live [OF order_refl] spec_as_redis by (simp add: seen_as_def prod_eq_iff)
  then show "r = q" using r q by simp
  have inv: "rh_ok now (entries s')" "mem_holds_ok now m'"
    "rh_used (entries s') \<union> mem_used m' \<subseteq> call_ids U (CallHold h)"
    using redis_hold_invar [OF ok(1) f(1) r] mem_hs.invar_hold [OF ok(2) f(2) q] rh.used_hold [OF ok(1) f(1) r]
      mem_hs.used_hold [OF ok(2) f(2) q] used by auto
  show "hold_sim ut st (call_ids U (CallHold h)) now (entries s') m'"
  proof (cases q)
    case (Inl e)
    then have "s' = s" "m' = m" using \<open>r = q\<close> rh.hold_err [OF ok(1) f(1)] r mem_hold_err [of now h m e m'] q by simp_all
    with inv ok live books show ?thesis by (simp add: hold_sim_def)
  next
    case (Inr x)
    note m' = mem_hold_ok_state(1) [OF q [unfolded Inr, simplified]]
    have ttl: "1 \<le> ttl_seconds (time_until (h_ExpiresAt h) now)" using ttl_seconds_pos [OF t] .
    have room: "\<not> rd_zcard R now (user_holds_key (h_UserID h)) s \<ge> tonumber (itoa (rs_maxHolds st))"
    proof -
      have "is_kind is_zset (seen now (entries s) (user_holds_key (h_UserID h)))" using ok(1) by (simp add: rh_ok_def rh_zsets_ok_def)
      moreover have "tonumber (itoa (rs_maxHolds st)) = rs_maxHolds st" using max by (simp add: tonumber_def parse_int_itoa)
      ultimately show ?thesis
        using zcard book_length mem_hold_ok_state(2) [of now h m m'] q Inr ok(3) by simp
    qed
    have free: "seen now (entries s) (hold_key h) = None"
      using redis_hold_cases [OF ok(1) f(1) r] Inr \<open>r = q\<close> by auto
    from redis_hold_writes [OF ok(1) f(1) h(2) ttl room free] r obtain score zg dg where
      e: "entries s' = (entries s)(hold_key h \<mapsto> (RStr (h_HoldToken h), Some (h_ExpiresAt h)),
         session_key (h_SessionID h) \<mapsto> (RHash (session_fields h), Some (h_ExpiresAt h)),
         user_holds_key (h_UserID h) \<mapsto> (RZset (gm_set (h_SessionID h) score (zset_of (seen now (entries s) (user_holds_key (h_UserID h))))),
           lifetime_of (seen now (entries s) (user_holds_key (h_UserID h)))),
         globalHoldsKey \<mapsto> (RZset zg, dg))"
      unfolding whole_lifetime [OF t h(3,4)] by auto
    have "rh_live ut later (entries s') = as_redis (mem_live later m')" if "now \<le> later" for later
    proof
      fix sid
      show "rh_live ut later (entries s') sid = as_redis (mem_live later m') sid"
        using fun_cong [OF live [OF that], of sid] decode_stored [OF redis_fresh(1) [OF f(1)], of ut]
        by (cases "sid = h_SessionID h") (simp_all add: rh_live_def e as_redis_def mem_live_def m' seen_def)
    qed
    moreover have "same_book (entries s' (user_holds_key u)) (user_holds m' u)" for u
    proof (cases "u = h_UserID h")
      case True
      have "entries s' (user_holds_key u) = Some (RZset (gm_set (h_SessionID h) score (zset_of (seen now (entries s) (user_holds_key u)))),
          lifetime_of (seen now (entries s) (user_holds_key u)))"
        using True by (simp add: e)
      from same_book_add [where m' = "entries s'" and m = "entries s", OF books [of u] this] True show ?thesis by (simp add: m')
    next
      case False
      then have "entries s' (user_holds_key u) = entries s (user_holds_key u)" by (simp add: e)
      with books [of u] False show ?thesis by (simp add: m')
    qed
    ultimately show ?thesis using inv ok(3) by (simp add: hold_sim_def m')
  qed
qed

lemma sim_release:
  assumes sim: "hold_sim ut st U now (entries s) m"
    and r: "redis_release R now sid uid s = (r, s')" and q: "mem_release now sid uid m = (q, m')"
  shows "r = q" "hold_sim ut st U now (entries s') m'"
proof -
  have ok: "rh_ok now (entries s)" "mem_holds_ok now m" "rs_maxHolds st = mh_maxHolds m"
    and used: "rh_used (entries s) \<subseteq> U" "mem_used m \<subseteq> U"
    and live: "\<And>later. now \<le> later \<Longrightarrow> rh_live ut later (entries s) = as_redis (mem_live later m)"
    and books: "\<And>u. same_book (entries s (user_holds_key u)) (user_holds m u)"
    using sim by (simp_all add: hold_sim_def)
  have same: "fst (redis_release R now sid uid s) = fst (mem_release now sid uid m)"
    using redis_refines(2) [OF ok(1), of sid uid] mem_refines(2) [OF ok(2), of sid uid]
    unfolding live [OF order_refl] spec_as_redis by (simp add: seen_as_def prod_eq_iff)
  then show "r = q" using r q by simp
  have inv: "rh_ok now (entries s')" "mem_holds_ok now m'" "rh_used (entries s') \<union> mem_used m' \<subseteq> U"
    using rh.invar_release [OF ok(1) r] mem_hs.invar_release [OF ok(2) q] rh.used_release [OF ok(1) r]
      mem_hs.used_release [OF ok(2) q] used by auto
  show "hold_sim ut st U now (entries s') m'"
  proof (cases q)
    case (Inl e)
    then have m': "m' = m" using mem_release_err q by simp
    have "s' = s"
    proof (cases "rh_live ut now (entries s) sid")
      case None
      with rh.release_unknown [OF ok(1) None, of uid] r show ?thesis by simp
    next
      case (Some h)
      then have "h_UserID h \<noteq> uid"
        using rh.release_owner [OF ok(1) Some, of uid] r Inl \<open>r = q\<close> by auto
      with rh.release_foreign [OF ok(1) Some] r show ?thesis by simp
    qed
    with m' sim show ?thesis by simp
  next
    case (Inr x)
    then have q': "mem_release now sid uid m = (Inr (), m')" using q by simp
    then obtain k where k: "gm_get (mh_sessions m) sid = Some k" "now < h_ExpiresAt k" "h_UserID k = uid"
      and sess: "mh_sessions m' = gm_del sid (mh_sessions m)"
      and users: "\<And>u. user_holds m' u = (if u = uid then gm_del sid (user_holds m u) else user_holds m u)"
      and max: "mh_maxHolds m' = mh_maxHolds m"
      by (rule mem_release_ok_state) blast
    have "rh_live ut now (entries s) sid = Some (redis_stored k)"
      using k live [OF order_refl] by (simp add: as_redis_def mem_live_Some)
    then obtain h d where h: "session_at now (entries s) h d" "bookable_seat h" "h_SessionID h = sid" "h_UserID h = uid"
      using rh_live_Some [OF ok(1)] k(3) redis_stored_simps(2) by metis
    from redis_release_writes [OF ok(1) h] r obtain zg dg where
      e: "entries s' = (entries s)(hold_key h := None, session_key sid := None,
         user_holds_key uid := zset_put (gm_del sid (zset_of (seen now (entries s) (user_holds_key uid))))
           (lifetime_of (seen now (entries s) (user_holds_key uid))),
         globalHoldsKey := zset_put zg dg)"
      by auto
    have "rh_live ut later (entries s') = as_redis (mem_live later m')" if "now \<le> later" for later
    proof
      fix x
      show "rh_live ut later (entries s') x = as_redis (mem_live later m') x"
        using fun_cong [OF live [OF that], of x]
        by (cases "x = sid") (simp_all add: rh_live_def e as_redis_def mem_live_def sess)
    qed
    moreover have "same_book (entries s' (user_holds_key u)) (user_holds m' u)" for u
    proof (cases "u = uid")
      case True
      have "entries s' (user_holds_key u) = zset_put (gm_del sid (zset_of (seen now (entries s) (user_holds_key u))))
           (lifetime_of (seen now (entries s) (user_holds_key u)))"
        using True by (simp add: e)
      from same_book_remove [where m' = "entries s'" and m = "entries s", OF books [of u] this] True
      show ?thesis by (simp add: users)
    next
      case False
      then have "entries s' (user_holds_key u) = entries s (user_holds_key u)" by (simp add: e)
      with books [of u] False show ?thesis by (simp add: users)
    qed
    ultimately show ?thesis using inv ok(3) by (simp add: hold_sim_def max)
  qed
qed

lemma sim_lookups:
  assumes sim: "hold_sim ut st U now (entries s) m"
  shows "redis_get R ut now sid s = map_sum id redis_stored (mem_get now sid m)"
    and "plain_id scr \<Longrightarrow> set (redis_held_seats R ut now scr s) = set (mem_held_seats now scr m)"
proof -
  have ok: "rh_ok now (entries s)" "mem_holds_ok now m" and live: "rh_live ut now (entries s) = as_redis (mem_live now m)"
    using sim by (simp_all add: hold_sim_def)
  show "redis_get R ut now sid s = map_sum id redis_stored (mem_get now sid m)"
    unfolding redis_refines(3) [OF ok(1)] mem_refines(3) [OF ok(2)] live
    by (simp add: spec_get_def as_redis_def split: option.split)
  show "set (redis_held_seats R ut now scr s) = set (mem_held_seats now scr m)" if "plain_id scr"
  proof -
    have k: "h_Seat (redis_stored k) = h_Seat k" "h_ScreeningID (redis_stored k) = h_ScreeningID k" for k
      by (simp_all add: redis_stored_def)
    have "(\<exists>sid h. seat = h_Seat h \<and> as_redis L sid = Some h \<and> h_ScreeningID h = scr) \<longleftrightarrow>
        (\<exists>sid h. seat = h_Seat h \<and> L sid = Some h \<and> h_ScreeningID h = scr)" for seat L
    proof
      assume "\<exists>sid h. seat = h_Seat h \<and> L sid = Some h \<and> h_ScreeningID h = scr"
      then obtain sid h where "seat = h_Seat h" "L sid = Some h" "h_ScreeningID h = scr" by blast
      then show "\<exists>sid h. seat = h_Seat h \<and> as_redis L sid = Some h \<and> h_ScreeningID h = scr"
        by (intro exI [of _ sid] exI [of _ "redis_stored h"]) (simp add: as_redis_def k)
    qed (fastforce simp: as_redis_def k)
    then show ?thesis unfolding redis_held_live [OF ok(1) that] mem_held_live [OF ok(2)] live by simp
  qed
qed

lemma sim_call:
  assumes sim: "hold_sim ut st U now (entries s) m" and max: "int64_range (rs_maxHolds st)" and c: "call_ok now U c"
    and r: "redis_call R ut st now c s = (a, s')" and q: "mem_call now c m = (b, m')"
  shows "a = in_seconds b \<and> hold_sim ut st (call_ids U c) (now + call_time c) (entries s') m'"
proof (cases c)
  case (CallHold h)
  obtain x y where x: "redis_hold R st now now h s = (x, s')" "a = Done x" and y: "mem_hold now h m = (y, m')" "b = Done y"
    using r q CallHold by (cases "redis_hold R st now now h s"; cases "mem_hold now h m") simp
  from sim_hold [OF sim max c [unfolded CallHold] x(1) y(1)] x(2) y(2) CallHold show ?thesis by simp
next
  case (CallRelease sid uid)
  obtain x y where x: "redis_release R now sid uid s = (x, s')" "a = Done x" and y: "mem_release now sid uid m = (y, m')" "b = Done y"
    using r q CallRelease by (cases "redis_release R now sid uid s"; cases "mem_release now sid uid m") simp
  from sim_release [OF sim x(1) y(1)] x(2) y(2) CallRelease show ?thesis by simp
next
  case (CallGet sid)
  with r q sim sim_lookups(1) [OF sim] show ?thesis by auto
next
  case (CallHeldSeats scr)
  with r q c sim sim_lookups(2) [OF sim, of scr] show ?thesis by auto
next
  case (CallWait d)
  with r q c sim hold_sim_later [OF sim, of "now + d"] show ?thesis by auto
qed

text \<open>Every history has the same answers from both stores and leaves them in the simulation.\<close>

lemma sim_run:
  assumes "hold_sim ut st U now (entries s) m" "int64_range (rs_maxHolds st)" "calls_ok now U cs"
    and "run_calls (redis_call R ut st) now cs s = (as, s')" "run_calls mem_call now cs m = (bs, m')"
  shows "as = map in_seconds bs \<and> hold_sim ut st (foldl call_ids U cs) (now + elapsed cs) (entries s') m'"
  using assms
proof (induction cs arbitrary: now U s m as bs)
  case (Cons c cs)
  obtain a s1 b m1 where c: "redis_call R ut st now c s = (a, s1)" "mem_call now c m = (b, m1)"
    by (cases "redis_call R ut st now c s"; cases "mem_call now c m") simp
  obtain as' bs' where r: "run_calls (redis_call R ut st) (now + call_time c) cs s1 = (as', s')" "as = a # as'"
    "run_calls mem_call (now + call_time c) cs m1 = (bs', m')" "bs = b # bs'"
    using Cons.prems(4,5) c by (auto split: prod.splits)
  have ok: "call_ok now U c" "calls_ok (now + call_time c) (call_ids U c) cs" using Cons.prems(3) by simp_all
  from sim_call [OF Cons.prems(1,2) ok(1) c]
  have s1: "a = in_seconds b" "hold_sim ut st (call_ids U c) (now + call_time c) (entries s1) m1" by simp_all
  from Cons.IH [OF s1(2) Cons.prems(2) ok(2) r(1,3)] s1(1) r(2,4) show ?case by (simp add: add.assoc)
qed simp

text \<open>From the empty stores, and with the count behind the limit.\<close>

lemma same_history:
  assumes "entries s = Map.empty" "rs_maxHolds st = n" "int64_range n" "calls_ok now {} cs"
    and "run_calls (redis_call R ut st) now cs s = (as, s')" "run_calls mem_call now cs (new_mem_holds n) = (bs, m')"
  shows "as = map in_seconds bs" "hold_sim ut st (foldl call_ids {} cs) (now + elapsed cs) (entries s') m'"
    "int (length (user_holds m' u)) = not_returned u (zip cs bs)" "mh_maxHolds m' = n"
proof -
  have sim: "hold_sim ut st {} now (entries s) (new_mem_holds n)" using hold_sim_start [OF assms(2)] assms(1) by simp
  from sim_run [OF sim _ assms(4-6)] assms(2,3)
  show "as = map in_seconds bs" "hold_sim ut st (foldl call_ids {} cs) (now + elapsed cs) (entries s') m'" by simp_all
  have "books_within {} (new_mem_holds n)" "mem_used (new_mem_holds n) \<subseteq> {}" "user_holds (new_mem_holds n) u = []"
    by (simp_all add: books_within_def mem_used_def new_mem_holds_def user_holds_def)
  with mem_run_counts [OF new_mem_holds_ok assms(4) _ _ assms(6)]
  show "int (length (user_holds m' u)) = not_returned u (zip cs bs)" "mh_maxHolds m' = n"
    by (simp_all add: new_mem_holds_def)
qed

text \<open>At the limit by that count, a hold is refused; below it, it is not refused for the limit.\<close>

lemma limit_counts:
  assumes "entries s = Map.empty" "rs_maxHolds st = n" "int64_range n" "calls_ok now {} (cs @ [CallHold h])"
    and "run_calls (redis_call R ut st) now cs s = (as, s')" "run_calls mem_call now cs (new_mem_holds n) = (bs, m')"
  shows "fst (mem_hold (now + elapsed cs) h m') = Inl ErrHoldLimitExceeded \<longleftrightarrow> n \<le> not_returned (h_UserID h) (zip cs bs)"
    "fst (redis_hold R st (now + elapsed cs) (now + elapsed cs) h s') = fst (mem_hold (now + elapsed cs) h m')"
proof -
  have ok: "calls_ok now {} cs" "call_ok (now + elapsed cs) (foldl call_ids {} cs) (CallHold h)"
    using assms(4) by (simp_all add: calls_ok_append)
  note sh = same_history [OF assms(1-3) ok(1) assms(5,6)]
  show "fst (mem_hold (now + elapsed cs) h m') = Inl ErrHoldLimitExceeded \<longleftrightarrow> n \<le> not_returned (h_UserID h) (zip cs bs)"
    using sh(3) [of "h_UserID h"] sh(4) by (simp add: mem_hold_def Let_def)
  obtain r t q m where r: "redis_hold R st (now + elapsed cs) (now + elapsed cs) h s' = (r, t)" "mem_hold (now + elapsed cs) h m' = (q, m)"
    by (cases "redis_hold R st (now + elapsed cs) (now + elapsed cs) h s'"; cases "mem_hold (now + elapsed cs) h m'") simp
  have max: "int64_range (rs_maxHolds st)" using assms(2,3) by simp
  from sim_hold(1) [OF sh(2) max ok(2) r] r
  show "fst (redis_hold R st (now + elapsed cs) (now + elapsed cs) h s') = fst (mem_hold (now + elapsed cs) h m')" by simp
qed

lemma all_lapsed:
  assumes "entries s = Map.empty" "rs_maxHolds st = n" "int64_range n" "calls_ok now {} cs"
    and "run_calls (redis_call R ut st) now cs s = (as, s')" "run_calls mem_call now cs (new_mem_holds n) = (bs, m')"
    and "\<forall>k. CallHold k \<in> set cs \<longrightarrow> h_ExpiresAt k \<le> now + elapsed cs"
  shows "mem_live (now + elapsed cs) m' = Map.empty" "rh_live ut (now + elapsed cs) (entries s') = Map.empty"
proof -
  have "mem_live (now + elapsed cs) m' sid = None" for sid
  proof (cases "gm_get (mh_sessions m') sid")
    case (Some k)
    have "CallHold k \<in> set cs" using mem_run_sessions [OF assms(6) Some] by (simp add: new_mem_holds_def)
    with assms(7) Some show ?thesis by (simp add: mem_live_def leD)
  qed (simp add: mem_live_def)
  then show m: "mem_live (now + elapsed cs) m' = Map.empty" by blast
  then show "rh_live ut (now + elapsed cs) (entries s') = Map.empty"
    using same_history(2) [OF assms(1-6)] by (simp add: hold_sim_def as_redis_def fun_eq_iff)
qed

end

end
