(* ===== verification/LedgerRefinement.thy ===== *)
theory LedgerRefinement
  imports MemBookingStore PgBookingStore MemPaymentStore PgPaymentStore
begin

text \<open>
  What the booking and the payment stores promise, as operations on the set of sales and on the map from intents to
  charges: what is left of a row without the identities and instants a store assigns. Every store of either contract
  implements them, so the stores of the tests and of production are interchangeable.
\<close>

section \<open>Sales\<close>

record sale =
  sl_Session :: string
  sl_Screening :: string
  sl_Seat :: seat
  sl_User :: string
  sl_Status :: booking_status

definition sale_of :: "booking \<Rightarrow> sale" where
  "sale_of b = \<lparr>sl_Session = b_SessionID b, sl_Screening = b_ScreeningID b, sl_Seat = b_Seat b, sl_User = b_UserID b, sl_Status = b_Status b\<rparr>"

definition session_sold :: "sale set \<Rightarrow> string \<Rightarrow> bool" where
  "session_sold S sid \<longleftrightarrow> (\<exists>x \<in> S. sl_Session x = sid)"

definition seat_sold :: "sale set \<Rightarrow> string \<Rightarrow> seat \<Rightarrow> bool" where
  "seat_sold S scr seat \<longleftrightarrow> (\<exists>x \<in> S. sl_Screening x = scr \<and> sl_Seat x = seat \<and> sl_Status x = StatusConfirmed)"

definition spec_sell :: "booking \<Rightarrow> sale set \<Rightarrow> sale res \<times> sale set" where
  "spec_sell b S =
     (if session_sold S (b_SessionID b) then (Inl ErrSessionAlreadyConfirmed, S)
      else if seat_sold S (b_ScreeningID b) (b_Seat b) then (Inl ErrSeatAlreadyBooked, S)
      else let x = sale_of (b\<lparr>b_Status := StatusConfirmed\<rparr>) in (Inr x, insert x S))"

lemma sale_fields [simp]:
  "sl_Session (sale_of b) = b_SessionID b" "sl_Screening (sale_of b) = b_ScreeningID b" "sl_Seat (sale_of b) = b_Seat b"
  "sl_User (sale_of b) = b_UserID b" "sl_Status (sale_of b) = b_Status b"
  by (simp_all add: sale_of_def)

lemma sale_eq_iff:
  "sale_of b = sale_of b' \<longleftrightarrow> b_SessionID b = b_SessionID b' \<and> same_booking_seat b b' \<and> b_UserID b = b_UserID b' \<and> b_Status b = b_Status b'"
  by (auto simp: sale_of_def same_booking_seat_def)

lemma sold_taken [simp]:
  "session_sold (sale_of ` R) sid = session_taken R sid" "seat_sold (sale_of ` R) scr seat = seat_taken R scr seat"
  by (auto simp: session_sold_def session_taken_def seat_sold_def seat_taken_def)

text \<open>A step on a store, seen through the sales.\<close>

definition as_sales :: "('s \<Rightarrow> booking set) \<Rightarrow> booking res \<times> 's \<Rightarrow> sale res \<times> sale set" where
  "as_sales rows x = (map_sum id sale_of (fst x), sale_of ` rows (snd x))"

definition both_taken :: "booking set \<Rightarrow> booking \<Rightarrow> bool" where
  "both_taken R b \<longleftrightarrow> session_taken R (b_SessionID b) \<and> seat_taken R (b_ScreeningID b) (b_Seat b)"

context booking_store
begin

lemma confirm_refines:
  assumes "invar s" "bookable s b" "fresh_id s i" "\<not> both_taken (rows s) b"
  shows "as_sales rows (confirm_op i now b s) = spec_sell b (sale_of ` rows s)"
proof (cases "session_taken (rows s) (b_SessionID b) \<or> seat_taken (rows s) (b_ScreeningID b) (b_Seat b)")
  case False
  obtain b' s' where c: "confirm_op i now b s = (Inr b', s')" using confirm_free [OF assms(1-3)] False by blast
  have "sale_of b' = sale_of (b\<lparr>b_Status := StatusConfirmed\<rparr>)" "rows s' = insert b' (rows s)"
    using confirm_row [OF assms(1) bookable_keyable [OF assms(2)] c] bookable_spell [OF assms(2)]
    by (auto simp: sale_eq_iff same_booking_seat_def)
  with False c show ?thesis by (simp add: as_sales_def spec_sell_def Let_def)
next
  case True
  obtain r s' where c: "confirm_op i now b s = (r, s')" by force
  have "r = Inl (if session_taken (rows s) (b_SessionID b) then ErrSessionAlreadyConfirmed else ErrSeatAlreadyBooked)"
    using True assms(4) c confirm_session [OF assms(1,2), of i now] confirm_seat [OF assms(1,2), of i now]
    by (auto simp: both_taken_def)
  with c confirm_err [OF assms(1), of i now b] True show ?thesis by (auto simp: as_sales_def spec_sell_def)
qed

lemma confirm_refuses_both:
  assumes "invar s" "bookable s b" "both_taken (rows s) b"
  shows "fst (confirm_op i now b s) \<in> {Inl ErrSessionAlreadyConfirmed, Inl ErrSeatAlreadyBooked}"
    and "rows (snd (confirm_op i now b s)) = rows s"
  using assms confirm_both [OF assms(1,2), of i now] confirm_err [OF assms(1), of i now b]
  by (cases "confirm_op i now b s", auto simp: both_taken_def)+

lemma by_session_refines:
  assumes "invar s" "x \<in> sale_of ` rows s" shows "map_sum id sale_of (by_session_op (sl_Session x) s) = Inr x"
  using assms by_session_found by force

end

section \<open>Charges\<close>

record charge =
  ch_Intent :: string
  ch_Session :: string
  ch_AmountCents :: int
  ch_Status :: payment_status

definition charge_of :: "payment \<Rightarrow> charge" where
  "charge_of p = \<lparr>ch_Intent = p_IntentID p, ch_Session = p_BookingSessionID p, ch_AmountCents = p_AmountCents p, ch_Status = p_Status p\<rparr>"

definition charges :: "(string \<rightharpoonup> payment) \<Rightarrow> string \<rightharpoonup> charge" where
  "charges R i = map_option charge_of (R i)"

definition active_charge :: "(string \<rightharpoonup> charge) \<Rightarrow> string \<Rightarrow> charge \<Rightarrow> bool" where
  "active_charge C sid c \<longleftrightarrow> (\<exists>i. C i = Some c) \<and> ch_Session c = sid \<and> active_status (ch_Status c)"

definition settled :: "(string \<rightharpoonup> charge) \<Rightarrow> string \<Rightarrow> bool" where
  "settled C sid \<longleftrightarrow> (\<exists>i c. C i = Some c \<and> ch_Session c = sid \<and> ch_Status c = StatusCaptured)"

definition spec_insert :: "payment \<Rightarrow> (string \<rightharpoonup> charge) \<Rightarrow> charge res \<times> (string \<rightharpoonup> charge)" where
  "spec_insert p C =
     (if \<exists>c. active_charge C (p_BookingSessionID p) c then (Inl ErrPaymentIntentExists, C)
      else let c = charge_of (p\<lparr>p_Status := StatusIntent\<rparr>) in (Inr c, C(p_IntentID p \<mapsto> c)))"

text \<open>An edge of the status machine: taken once, repeated for nothing, refused from elsewhere.\<close>

definition spec_move :: "payment_status \<Rightarrow> string \<Rightarrow> (string \<rightharpoonup> charge) \<Rightarrow> (charge \<times> bool) res \<times> (string \<rightharpoonup> charge)" where
  "spec_move st i C =
     (case C i of
        None \<Rightarrow> (Inl ErrPaymentNotFound, C)
      | Some c \<Rightarrow>
          if open_status (ch_Status c) then let c' = c\<lparr>ch_Status := st\<rparr> in (Inr (c', True), C(i \<mapsto> c'))
          else if ch_Status c = st then (Inr (c, False), C)
          else (Inl ErrPaymentInvalidTransition, C))"

definition spec_fail :: "string \<Rightarrow> (string \<rightharpoonup> charge) \<Rightarrow> charge res \<times> (string \<rightharpoonup> charge)" where
  "spec_fail i C = (case spec_move StatusFailed i C of (r, C') \<Rightarrow> (map_sum id fst r, C'))"

text \<open>Errors up to the text around a refused transition.\<close>

definition error_kind :: "error \<Rightarrow> error" where
  "error_kind e = (if errors_is e ErrPaymentInvalidTransition then ErrPaymentInvalidTransition else e)"

definition as_charges :: "('s \<Rightarrow> string \<rightharpoonup> payment) \<Rightarrow> ('a \<Rightarrow> 'c) \<Rightarrow> 'a res \<times> 's \<Rightarrow> 'c res \<times> (string \<rightharpoonup> charge)" where
  "as_charges rows f x = (map_sum error_kind f (fst x), charges (rows (snd x)))"

lemma error_kinds [simp]:
  "error_kind ErrPaymentNotFound = ErrPaymentNotFound" "error_kind ErrPaymentIntentExists = ErrPaymentIntentExists"
  "errors_is e ErrPaymentInvalidTransition \<Longrightarrow> error_kind e = ErrPaymentInvalidTransition"
  by (simp_all add: error_kind_def)

lemma charge_fields [simp]:
  "ch_Intent (charge_of p) = p_IntentID p" "ch_Session (charge_of p) = p_BookingSessionID p"
  "ch_AmountCents (charge_of p) = p_AmountCents p" "ch_Status (charge_of p) = p_Status p"
  by (simp_all add: charge_of_def)

lemma charges_upd [simp]: "charges (R(i \<mapsto> p)) = (charges R)(i \<mapsto> charge_of p)"
  by (simp add: charges_def fun_eq_iff)

lemma moved_charge: "same_charge row p \<Longrightarrow> charge_of row = (charge_of p)\<lparr>ch_Status := p_Status row\<rparr>"
  by (simp add: charge_of_def same_charge_def)

lemma active_charges: "active_charge (charges R) sid c \<longleftrightarrow> (\<exists>p. active_row R sid p \<and> charge_of p = c)"
  by (auto simp: active_charge_def active_row_def charges_def)

lemma settled_paid [simp]: "settled (charges R) sid = paid R sid"
  unfolding settled_def paid_def charges_def by (force simp: map_option_case split: option.splits)

context payment_store
begin

lemma insert_refines:
  assumes "invar s" "insertable s p" "rows s (p_IntentID p) = None"
  shows "as_charges rows charge_of (insert_op n now p s) = spec_insert p (charges (rows s))"
proof (cases "\<exists>q. active_row (rows s) (p_BookingSessionID p) q")
  case True
  then obtain q where "active_row (rows s) (p_BookingSessionID p) q" by blast
  from insert_conflict [OF assms this, of n now] True show ?thesis
    by (auto simp: as_charges_def spec_insert_def active_charges)
next
  case False
  then obtain row s' where "insert_op n now p s = (Inr row, s')" "rows s' = (rows s)(p_IntentID p \<mapsto> row)"
    "charge_of row = charge_of (p\<lparr>p_Status := StatusIntent\<rparr>)"
    using insert_free [OF assms, of n now] by (auto simp: charge_of_def)
  with False show ?thesis by (simp add: as_charges_def spec_insert_def active_charges Let_def)
qed

lemma capture_refines:
  assumes "invar s"
  shows "as_charges rows (map_prod charge_of id) (capture_op now i s) = spec_move StatusCaptured i (charges (rows s))"
proof (cases "rows s i")
  case None
  with capture_unknown [OF assms None, of now] show ?thesis by (simp add: as_charges_def spec_move_def charges_def)
next
  case (Some p)
  have c: "charges (rows s) i = Some (charge_of p)" using Some by (simp add: charges_def)
  consider "open_status (p_Status p)" | "\<not> open_status (p_Status p)" "p_Status p = StatusCaptured"
    | "\<not> open_status (p_Status p)" "p_Status p \<noteq> StatusCaptured" by blast
  then show ?thesis
  proof cases
    case 1
    then obtain row s' where "capture_op now i s = (Inr (row, True), s')" "rows s' = (rows s)(i \<mapsto> row)"
      "charge_of row = (charge_of p)\<lparr>ch_Status := StatusCaptured\<rparr>"
      using capture_open [OF assms Some, of now] moved_charge by auto
    then show ?thesis using 1 c by (simp add: as_charges_def spec_move_def Let_def)
  next
    case 2
    then show ?thesis using capture_replay [OF assms Some, of now] c by (simp add: as_charges_def spec_move_def)
  next
    case 3
    then obtain e where "capture_op now i s = (Inl e, s)" "errors_is e ErrPaymentInvalidTransition"
      using capture_closed [OF assms Some, of now] by blast
    then show ?thesis using 3 c by (simp add: as_charges_def spec_move_def)
  qed
qed

lemma fail_refines:
  assumes "invar s"
  shows "as_charges rows charge_of (fail_op now i s) = spec_fail i (charges (rows s))"
proof (cases "rows s i")
  case None
  with fail_unknown [OF assms None, of now] show ?thesis by (simp add: as_charges_def spec_fail_def spec_move_def charges_def)
next
  case (Some p)
  have c: "charges (rows s) i = Some (charge_of p)" using Some by (simp add: charges_def)
  consider "open_status (p_Status p)" | "\<not> open_status (p_Status p)" "p_Status p = StatusFailed"
    | "\<not> open_status (p_Status p)" "p_Status p \<noteq> StatusFailed" by blast
  then show ?thesis
  proof cases
    case 1
    then obtain row s' where "fail_op now i s = (Inr row, s')" "rows s' = (rows s)(i \<mapsto> row)"
      "charge_of row = (charge_of p)\<lparr>ch_Status := StatusFailed\<rparr>"
      using fail_open [OF assms Some, of now] moved_charge by auto
    then show ?thesis using 1 c by (simp add: as_charges_def spec_fail_def spec_move_def Let_def)
  next
    case 2
    then show ?thesis using fail_replay [OF assms Some, of now] c by (simp add: as_charges_def spec_fail_def spec_move_def)
  next
    case 3
    then obtain e where "fail_op now i s = (Inl e, s)" "errors_is e ErrPaymentInvalidTransition"
      using fail_closed [OF assms Some, of now] by blast
    then show ?thesis using 3 c by (simp add: as_charges_def spec_fail_def spec_move_def)
  qed
qed

lemma get_active_refines:
  assumes "invar s"
  shows "active_charge (charges (rows s)) sid c \<Longrightarrow> map_sum id charge_of (get_active_op sid s) = Inr c"
    and "\<forall>c. \<not> active_charge (charges (rows s)) sid c \<Longrightarrow> get_active_op sid s = Inl ErrPaymentNotFound"
  using get_active_found [OF assms, of sid] get_active_none [OF assms, of sid] by (auto simp: active_charges)

lemma get_intent_refines:
  "invar s \<Longrightarrow> map_sum id charge_of (get_intent_op i s) =
     (case charges (rows s) i of None \<Rightarrow> Inl ErrPaymentNotFound | Some c \<Rightarrow> Inr c)"
  using get_intent [of s i] by (simp add: charges_def split: option.split)

end

section \<open>The stores of production\<close>

context pg_booking
begin

lemma ledger: "booking_store (pg_bookings_ok E) pg_rows (pg_bookable E) (pg_spelled E) (pg_fresh E ev)
  (\<lambda>i. pg_confirm E (ev i) i) pg_by_session (pg_seat_confirmed E) (pg_confirmed_seats E)"
  by (rule booking_store_axioms)

end

context postgres
begin

lemma payment_ledger: "payment_store pg_payments_ok pg_payment_rows pg_insertable (pg_insert_intent E)
  pg_get_active pg_get_by_intent pg_capture pg_mark_failed pg_has_captured"
  by (rule pg_payments.payment_store_axioms)

end

lemmas pg_booking_store = pg_booking.ledger [OF pg_booking.intro]
lemmas pg_payment_store = postgres.payment_ledger

lemma mem_insertable_free: "mem_insertable s p \<Longrightarrow> mem_payment_rows s (p_IntentID p) = None"
  by (simp add: mem_insertable_def mem_payment_rows_None)

end
