(* ===== verification/ProductionProperties.thy ===== *)
theory ProductionProperties
  imports ProductionServer MemoryServer HoldHistory LedgerRefinement
begin

text \<open>
  The properties of the production composition: every Redis and every Postgres that keep their
  laws, every interleaving of requests. The witnesses run on a keyspace and on \<open>plain_pg\<close>.
\<close>

section \<open>A concrete server\<close>

definition demo_ut :: unicode where
  "demo_ut = \<lparr>ut_upper = (\<lambda>r. r), ut_lower = (\<lambda>r. r)\<rparr>"

definition demo_st :: redis_store where
  "demo_st = new_redis_store (900 * second) 4"

abbreviation demo_stores :: "(keyspace, pg_bookings, pg_payments) stores" where
  "demo_stores \<equiv> production_stores ks_redis demo_st demo_ut plain_pg id"

abbreviation demo_prod_start :: "(keyspace, pg_bookings, pg_payments) world" where
  "demo_prod_start \<equiv> production_start [] [''scr''] [''bob''] 0 demo_uuid demo_screenings demo_gateway"

definition demo_held :: "(keyspace, pg_bookings, pg_payments) world" where
  "demo_held = snd (run_all (900 * second) (world_ports demo_stores) [ReqHold ''bob'' ''scr'' demo_seat] demo_prod_start)"

lemma demo_production: "production ks_redis gm_get plain_pg"
  by unfold_locales

lemma demo_hold_result:
  "fst (run (world_ports demo_stores) (booking_hold (900 * second) ''bob'' ''scr'' demo_seat) demo_prod_start) = Inr demo_hold"
  by code_simp

interpretation demo_srv: production ks_redis gm_get demo_ut demo_st plain_pg id
  by unfold_locales

lemma demo_held_run:
  "run (world_ports demo_stores) (booking_hold (900 * second) ''bob'' ''scr'' demo_seat) demo_prod_start = (Inr demo_hold, demo_held)"
  using demo_hold_result by (simp add: demo_held_def run_map_prog prod_eq_iff)

lemma demo_bookable:
  "b_ScreeningID b = ''scr'' \<Longrightarrow> b_Seat b = demo_seat \<Longrightarrow> b_UserID b = ''bob'' \<Longrightarrow>
   pg_bookable plain_pg (new_pg_bookings [''scr''] [''bob'']) b"
  using well_formed_keyable [OF demo_seat_ok]
  by (simp add: pg_bookable_def plain_pg_def no_hyphens_def new_pg_bookings_def demo_seat_def)

lemma demo_stored: "redis_stored demo_hold = demo_hold"
  by code_simp

lemma demo_held_facts:
  "demo_srv.prod.world_inv demo_held" "rh_live demo_ut 0 (gm_get (w_holds demo_held)) ''x'' = Some demo_hold"
  "w_now demo_held = 0" "w_bookings demo_held = new_pg_bookings [''scr''] [''bob'']" "w_payments demo_held = []"
  "w_screenings demo_held = demo_screenings" "w_gateway demo_held = demo_gateway" "w_uuid demo_held = demo_uuid"
  "w_next demo_held = 2"
proof -
  let ?b = "\<lparr>b_ID = [], b_SessionID = [], b_ScreeningID = ''scr'', b_Seat = demo_seat, b_UserID = ''bob'',
     b_Status = [], b_ConfirmedAt = 0\<rparr>"
  have b: "pg_bookable plain_pg (w_bookings demo_prod_start) ?b"
    using demo_bookable [of ?b] by (simp add: production_start_def)
  have i: "demo_srv.prod.world_inv demo_prod_start"
    by (rule demo_srv.start_inv) (simp_all add: fun_eq_iff gm_get_def demo_uuid_inj)
  note g = demo_srv.prod.hold_granted [OF i demo_seat_ok b _ _ demo_held_run]
  show "demo_srv.prod.world_inv demo_held" "w_bookings demo_held = new_pg_bookings [''scr''] [''bob'']"
    "w_payments demo_held = []" "w_now demo_held = 0" "w_screenings demo_held = demo_screenings"
    "w_gateway demo_held = demo_gateway" "w_uuid demo_held = demo_uuid" "w_next demo_held = 2"
    "rh_live demo_ut 0 (gm_get (w_holds demo_held)) ''x'' = Some demo_hold"
    using g by (simp_all add: production_start_def demo_stored) (simp add: demo_hold_def)
qed

lemma demo_ready: "demo_srv.prod.ready_to_buy demo_held ''bob'' ''x'' demo_hold demo_screening"
  unfolding demo_srv.prod.ready_to_buy_def demo_srv.prod.gate_open_def demo_srv.prod.sale_free_def
  using demo_bookable [of "demo_srv.prod.row_of demo_hold"] demo_held_facts
  by (simp add: demo_hold_def demo_screening_def demo_screenings_def demo_gateway_def pg_rows_def new_pg_bookings_def
      session_taken_def seat_taken_def active_row_def pg_payment_rows_def pg_insertable_def fg_provider_def
      pg_fresh_def plain_pg_def no_hyphens_def demo_uuid_def)

lemma production_laws: "redis R entries \<Longrightarrow> postgres E \<Longrightarrow> production R entries E"
  by (intro production.intro redis_holds.intro pg_booking.intro)

text \<open>The buyer of the held seat pays and confirms.\<close>

lemma demo_prod_sale:
  obtains w H ts b where
    "server_run (900 * second) (world_ports demo_stores) (demo_prod_start, {}, []) (w, H, ts)"
    "b \<in> pg_rows (w_bookings w)" "b_SessionID b = ''x''"
proof -
  obtain p q b w where run: "run_all (900 * second) (world_ports demo_stores)
      [ReqCreateIntent ''bob'' ''x'', ReqPay ''bob'' ''x'', ReqConfirm ''bob'' ''x''] demo_held =
      ([OutIntent (Inr p), OutPay (Inr q), OutConfirm (Inr \<lparr>cr_Booking = b, cr_Created = True\<rparr>)], w)"
    and b: "booking_of demo_hold b" "pg_rows (w_bookings w) = insert b (pg_rows (w_bookings demo_held))"
    by (rule demo_srv.prod.purchase_completes [OF demo_held_facts(1) demo_ready])
  let ?rs = "[ReqHold ''bob'' ''scr'' demo_seat, ReqCreateIntent ''bob'' ''x'', ReqPay ''bob'' ''x'', ReqConfirm ''bob'' ''x'']"
  have "snd (run_all (900 * second) (world_ports demo_stores) ?rs demo_prod_start) = w"
    using run demo_held_run by (simp add: run_map_prog split: prod.splits)
  moreover have "\<forall>r \<in> set ?rs. request_ok r" using demo_seat_ok by simp
  ultimately obtain H ts where "server_run (900 * second) (world_ports demo_stores) (demo_prod_start, {}, []) (w, H, ts)"
    using run_all_reaches [of ?rs "900 * second" "world_ports demo_stores" demo_prod_start "{}" "[]"] by auto
  then show thesis
    using that [of w H ts b] b by (simp add: booking_of_def demo_hold_def)
qed

section \<open>Every interleaving\<close>

text \<open>C3: in production, however the requests interleave, with calls failing before or after they took
  effect and time passing, two confirmed bookings of one seat are the same booking, and a session has at
  most one; whatever Redis and Postgres keep their documented laws.\<close>

theorem production_no_double_sale:
  assumes "redis R entries" "postgres E" "entries s0 = Map.empty" "inj uuid"
    and "server_run ttl (world_ports (production_stores R st ut E ev))
      (production_start s0 scrs users now uuid screenings gw, {}, []) (w, H, ts)"
    and "b \<in> pg_rows (w_bookings w)" "b' \<in> pg_rows (w_bookings w)"
  shows "(b_SessionID b = b_SessionID b' \<longrightarrow> b = b') \<and>
     (b_Status b = StatusConfirmed \<and> b_Status b' = StatusConfirmed \<and>
      b_ScreeningID b = b_ScreeningID b' \<and> b_Seat b = b_Seat b' \<longrightarrow> b = b')"
  using production.run_config(1) [OF production_laws [OF assms(1,2)] assms(3,4,5)] assms(6,7)
  by (auto simp: arbiter_def same_booking_seat_def)

theorem production_no_double_sale_witness:
  "\<exists>w H ts b. server_run (900 * second) (world_ports demo_stores) (demo_prod_start, {}, []) (w, H, ts) \<and>
     b \<in> pg_rows (w_bookings w) \<and> (\<forall>b' \<in> pg_rows (w_bookings w). b_SessionID b' = b_SessionID b \<longrightarrow> b' = b)"
proof -
  obtain w H ts b where r: "server_run (900 * second) (world_ports demo_stores) (demo_prod_start, {}, []) (w, H, ts)"
    and b: "b \<in> pg_rows (w_bookings w)" by (rule demo_prod_sale)
  have "gm_get [] = Map.empty" by (simp add: gm_get_def fun_eq_iff)
  from production_no_double_sale [OF ks.redis_axioms plain.postgres_axioms this demo_uuid_inj r _ b] r b
  show ?thesis by blast
qed

text \<open>C4: in production, every booking belongs to a session with a captured payment and is the sale of a
  hold that was readable earlier in the run: the same buyer, seat and screening, each identifier spelled as
  its UUID column spells it.\<close>

theorem production_sales_are_backed:
  assumes "redis R entries" "postgres E" "entries s0 = Map.empty" "inj uuid"
    and "server_run ttl (world_ports (production_stores R st ut E ev))
      (production_start s0 scrs users now uuid screenings gw, {}, []) (w, H, ts)"
    and "b \<in> pg_rows (w_bookings w)"
  shows "paid (pg_payment_rows (w_payments w)) (b_SessionID b) \<and>
     (\<exists>h \<in> H. b_SessionID b = h_SessionID h \<and> b_ScreeningID b = pg_spell E (h_ScreeningID h) \<and>
        s_Row (b_Seat b) = s_Row (h_Seat h) \<and> s_Number (b_Seat b) = int32 (s_Number (h_Seat h)) \<and>
        b_UserID b = pg_spell E (h_UserID h))"
  using production.run_config(2) [OF production_laws [OF assms(1,2)] assms(3,4,5,6)]
    production.sale_spelled [OF production_laws [OF assms(1,2)]] by blast

theorem production_sales_are_backed_witness:
  "\<exists>(w :: (keyspace, pg_bookings, pg_payments) world) b. b \<in> pg_rows (w_bookings w) \<and> b_SessionID b = ''x'' \<and> paid (pg_payment_rows (w_payments w)) ''x''"
proof -
  obtain w H ts b where r: "server_run (900 * second) (world_ports demo_stores) (demo_prod_start, {}, []) (w, H, ts)"
    and b: "b \<in> pg_rows (w_bookings w)" "b_SessionID b = ''x''" by (rule demo_prod_sale)
  have "gm_get [] = Map.empty" by (simp add: gm_get_def fun_eq_iff)
  from production_sales_are_backed [OF ks.redis_axioms plain.postgres_axioms this demo_uuid_inj r b(1)] b(2)
  have "paid (pg_payment_rows (w_payments w)) ''x''" by simp
  with b show ?thesis by blast
qed

section \<open>Hold stores\<close>

text \<open>C12: the Redis hold store refines the hold specification: read through the live holds, a valid hold
  with fresh identifiers, a release and a lookup answer and do exactly what the specification says, whatever
  the Lua scripts do to their keys.\<close>

theorem redis_refines_holds:
  assumes "redis R entries" "rh_ok now (entries s)"
  shows "(fresh_hold (rh_used (entries s)) h \<and> hold_validate h now = Inr () \<and> int64_range (rs_maxHolds st) \<longrightarrow>
       seen_as (\<lambda>s. rh_live ut now (entries s)) (redis_hold R st now now h s) =
         spec_hold redis_stored (redis_full st now h (entries s)) h (rh_live ut now (entries s))) \<and>
     seen_as (\<lambda>s. rh_live ut now (entries s)) (redis_release R now sid uid s) =
       spec_release sid uid (rh_live ut now (entries s)) \<and>
     redis_get R ut now sid s = spec_get sid (rh_live ut now (entries s))"
  using redis_holds.redis_refines [OF redis_holds.intro [OF assms(1)] assms(2)] by blast

theorem redis_refines_holds_witness:
  "redis_hold ks_redis demo_st 0 0 demo_hold [] = (Inr (), snd (redis_hold ks_redis demo_st 0 0 demo_hold [])) \<and>
   rh_live demo_ut 0 (gm_get (snd (redis_hold ks_redis demo_st 0 0 demo_hold []))) ''x'' = Some demo_hold"
proof -
  have e: "gm_get ([] :: keyspace) = Map.empty" by (simp add: gm_get_def fun_eq_iff)
  have "fresh_hold (rh_used (gm_get ([] :: keyspace))) demo_hold"
    using demo_hold_fresh by (simp add: e rh_used_def fresh_hold_def)
  moreover have "hold_validate demo_hold 0 = Inr ()" "int64_range (rs_maxHolds demo_st)"
    by (simp_all add: hold_validate_def demo_hold_def demo_seat_def zero_time_def second_def demo_st_def new_redis_store_def int64_range_def)
  moreover have "rh_live demo_ut 0 (gm_get ([] :: keyspace)) sid = None" for sid
    by (simp add: e rh_live_def seen_def)
  moreover have "\<not> redis_full demo_st 0 demo_hold (gm_get [])"
    by (simp add: redis_full_def e seen_def demo_st_def new_redis_store_def)
  moreover have "h_SessionID demo_hold = ''x''" by (simp add: demo_hold_def)
  ultimately show ?thesis
    using redis_refines_holds [OF ks.redis_axioms, of 0 "[]" demo_hold demo_st demo_ut] rh_ok_empty [of 0]
    by (auto simp: e seen_as_def spec_hold_def seat_held_def prod_eq_iff demo_stored)
qed

text \<open>C13: the in-memory and the Redis hold store are interchangeable. Take any history of holds, releases, lookups,
  listings and waiting, from any number of buyers, that begins with both stores empty and with the same limit: every
  call gets the same answer from both, refusals for the limit and for a taken seat included, and the same sessions stay
  live at every later instant. A hold brings fresh identifiers, passes its own validation and lives for a whole number
  of seconds; what Redis gives back of it lacks the fraction of a second of its expiry.\<close>

theorem hold_stores_agree:
  assumes "redis R entries" "entries s = Map.empty" "rs_maxHolds st = n" "int64_range n" "calls_ok now {} cs"
    and "run_calls (redis_call R ut st) now cs s = (as, s')" "run_calls mem_call now cs (new_mem_holds n) = (bs, m')"
  shows "as = map in_seconds bs \<and>
     (\<forall>later. now + elapsed cs \<le> later \<longrightarrow> rh_live ut later (entries s') = as_redis (mem_live later m'))"
  using redis_holds.same_history(1,2) [OF redis_holds.intro [OF assms(1)] assms(2-7)] by (simp add: hold_sim_def)

text \<open>Bob may have one hold. Eve wants his seat and is refused, he wants another and is refused, also when the first has
  lapsed; Eve then gets the seat, which is listed, and gives it back.\<close>

definition eve_hold :: hold where
  "eve_hold = demo_hold\<lparr>h_SessionID := ''y'', h_HoldToken := ''yy'', h_UserID := ''eve''\<rparr>"

definition demo_calls :: "hold_call list" where
  "demo_calls = [CallHold demo_hold, CallHold eve_hold, CallHold (demo_hold\<lparr>h_SessionID := ''z'', h_HoldToken := ''zz''\<rparr>),
     CallGet ''x'', CallWait (900 * second), CallGet ''x'', CallRelease ''x'' ''bob'',
     CallHold (eve_hold\<lparr>h_SessionID := ''v'', h_HoldToken := ''vv'', h_ExpiresAt := 1800 * second\<rparr>),
     CallHeldSeats ''scr'', CallRelease ''v'' ''eve'']"

definition late_hold :: hold where
  "late_hold = demo_hold\<lparr>h_SessionID := ''w'', h_HoldToken := ''ww'', h_ExpiresAt := 1800 * second\<rparr>"

lemma demo_calls_ok: "calls_ok 0 {} (demo_calls @ [CallHold late_hold])"
  using demo_seat_ok
  by (simp add: demo_calls_def late_hold_def eve_hold_def demo_hold_def demo_seat_def fresh_hold_def hold_validate_def zero_time_def
      second_def plain_id_def Let_def)

lemma demo_calls_before_ok: "calls_ok 0 {} demo_calls"
  using demo_calls_ok by (simp add: calls_ok_append)

lemma demo_calls_answers:
  "fst (run_calls mem_call 0 demo_calls (new_mem_holds 1)) =
    [Done (Inr ()), Done (Inl ErrSeatAlreadyHeld), Done (Inl ErrHoldLimitExceeded), Found (Inr demo_hold), Waited,
     Found (Inl ErrHoldNotFound), Done (Inl ErrHoldNotFound), Done (Inr ()), Seats {demo_seat}, Done (Inr ())]"
  by code_simp


theorem hold_stores_agree_witness:
  "fst (run_calls (redis_call ks_redis demo_ut (new_redis_store 0 1)) 0 demo_calls []) =
    [Done (Inr ()), Done (Inl ErrSeatAlreadyHeld), Done (Inl ErrHoldLimitExceeded), Found (Inr demo_hold), Waited,
     Found (Inl ErrHoldNotFound), Done (Inl ErrHoldNotFound), Done (Inr ()), Seats {demo_seat}, Done (Inr ())]"
proof -
  have e: "gm_get ([] :: keyspace) = Map.empty" by (simp add: gm_get_def fun_eq_iff)
  have n: "rs_maxHolds (new_redis_store 0 1) = 1" "int64_range 1" by (simp_all add: new_redis_store_def int64_range_def)
  from hold_stores_agree [OF ks.redis_axioms e n demo_calls_before_ok prod.collapse [symmetric] prod.collapse [symmetric], of demo_ut]
  show ?thesis by (simp add: demo_calls_answers demo_stored)
qed



section \<open>Booking and payment stores\<close>

text \<open>
  A confirm and a lookup of raw identifiers are those of the spelling that the UUID columns keep, and a row that the
  columns, checks and foreign keys do not let in is refused and rolled back.
\<close>

lemma keyable_int32: "CHR '':'' \<notin> set (s_Row seat) \<Longrightarrow> keyable \<lparr>s_Row = s_Row seat, s_Number = int32 n\<rparr>"
  using sint_lt [of "word_of_int n :: 32 word"] sint_ge [of "word_of_int n :: 32 word"]
  by (simp add: keyable_def int64_range_def int32_def)

context postgres
begin

lemma int32_again [simp]: "int32 (int32 n) = int32 n"
  by (simp add: int32_def)

lemma uuid_spelled: "pg_uuid E (pg_spell E i) = pg_uuid E i"
  using uuid_canonical by (cases "pg_uuid E i") (simp_all add: pg_spell_def)

lemma confirm_spelled: "pg_confirm E eventID n now (pg_spelled E b) t = pg_confirm E eventID n now b t"
proof -
  have "b_SessionID (pg_spelled E b) = b_SessionID b" "b_ScreeningID (pg_spelled E b) = pg_spell E (b_ScreeningID b)"
    "b_UserID (pg_spelled E b) = pg_spell E (b_UserID b)" "s_Row (b_Seat (pg_spelled E b)) = s_Row (b_Seat b)"
    "s_Number (b_Seat (pg_spelled E b)) = int32 (s_Number (b_Seat b))"
    by (simp_all add: pg_spelled_def)
  then show ?thesis unfolding pg_confirm_def insert_confirmed_booking_def by (simp only: uuid_spelled int32_again)
qed

lemma confirm_not_bookable:
  assumes "CHR '':'' \<notin> set (s_Row (b_Seat b))" "\<not> pg_bookable E t (pg_spelled E b)"
  shows "\<exists>e. pg_confirm E eventID n now b t = (Inl e, t)"
proof -
  have "\<exists>e. insert_confirmed_booking E n now (b_SessionID b) (b_ScreeningID b) (s_Row (b_Seat b))
      (int32 (s_Number (b_Seat b))) (b_UserID b) t = (Inl e, t)"
  proof (cases "pg_uuid E (b_ScreeningID b)"; cases "pg_uuid E (b_UserID b)")
    fix scr usr assume u: "pg_uuid E (b_ScreeningID b) = Some scr" "pg_uuid E (b_UserID b) = Some usr"
    have "int32 (s_Number (b_Seat b)) < 2 ^ 31"
      using sint_lt [of "word_of_int (s_Number (b_Seat b)) :: 32 word"] by (simp add: int32_def)
    then have "scr \<notin> set (pb_screenings t) \<or> usr \<notin> set (pb_users t) \<or> int32 (s_Number (b_Seat b)) \<le> 0 \<or>
        list_all (\<lambda>c. c = CHR '' '') (s_Row (b_Seat b))"
      using assms keyable_int32 [OF assms(1), of "s_Number (b_Seat b)"] u uuid_canonical [OF u(1)] uuid_canonical [OF u(2)]
      unfolding pg_bookable_def pg_spelled_def pg_spell_def by auto
    with u show ?thesis unfolding insert_confirmed_booking_def Let_def by auto
  qed (simp_all add: insert_confirmed_booking_def)
  then show ?thesis by (auto simp: pg_confirm_def split: option.split)
qed

lemma seat_lookup_spelled:
  "pg_seat_confirmed E scr seat t =
     (case pg_uuid E scr of
        None \<Rightarrow> Inl (Errorf ''booking: seat confirmed: %w'' [] [invalid_text])
      | Some u \<Rightarrow> Inr (seat_taken (pg_rows t) u \<lparr>s_Row = s_Row seat, s_Number = int32 (s_Number seat)\<rparr>))"
  by (auto simp: pg_seat_confirmed_def exists_confirmed_seat_def pg_seat_taken list_ex_iff split: option.split)

lemma seats_lookup_spelled:
  "(case pg_uuid E scr of
      None \<Rightarrow> \<exists>e. pg_confirmed_seats E scr t = Inl e
    | Some u \<Rightarrow> \<exists>ys. pg_confirmed_seats E scr t = Inr ys \<and> set ys = {seat. seat_taken (pg_rows t) u seat})"
proof (cases "pg_uuid E scr")
  case (Some u)
  then have "pg_confirmed_seats E scr t = pg_confirmed_seats E u t"
    using uuid_canonical [OF Some] by (simp add: pg_confirmed_seats_def list_confirmed_seats_by_screening_def)
  moreover obtain ys where "pg_confirmed_seats E u t = Inr ys"
    using uuid_canonical [OF Some] by (auto simp: pg_confirmed_seats_def list_confirmed_seats_by_screening_def)
  ultimately show ?thesis using pg_confirmed_seats_set [OF uuid_canonical [OF Some]] Some by simp
qed (simp add: pg_confirmed_seats_def list_confirmed_seats_by_screening_def)

end

text \<open>C14: the in-memory and the PostgreSQL booking store are interchangeable up to what PostgreSQL does to identifiers.
  Take the same sales in both and any booking to confirm, as raw as a request brings it, with a seat row free of colons,
  and a new event identifier for the outbox.
  If its identifiers are UUIDs of an existing screening and user, its row is not blank and its seat number, cut to the
  column's 32 bits, is positive, PostgreSQL answers and does what the in-memory store answers and does for the booking as the columns spell it
  (when both its session and its seat are taken, each refuses with one of the two conflicts); otherwise PostgreSQL refuses it
  and nothing changes. Lookups by session answer alike for every session, and lookups by seat and by screening for every
  identifier PostgreSQL reads, as it spells it; the others it refuses.\<close>

theorem booking_stores_agree:
  assumes "postgres E" "mem_bookings_ok s" "pg_bookings_ok E t" "sale_of ` mem_rows s = sale_of ` pg_rows t"
    and "CHR '':'' \<notin> set (s_Row (b_Seat b))" "CHR '':'' \<notin> set (s_Row seat)" "pg_fresh E ev t i"
  shows "(if pg_bookable E t (pg_spelled E b)
      then mem_bookings_ok (snd (mem_confirm j now (pg_spelled E b) s)) \<and> pg_bookings_ok E (snd (pg_confirm E (ev i) i now' b t)) \<and>
        sale_of ` mem_rows (snd (mem_confirm j now (pg_spelled E b) s)) = sale_of ` pg_rows (snd (pg_confirm E (ev i) i now' b t)) \<and>
        (if both_taken (mem_rows s) (pg_spelled E b)
         then fst (mem_confirm j now (pg_spelled E b) s) \<in> {Inl ErrSessionAlreadyConfirmed, Inl ErrSeatAlreadyBooked} \<and>
           fst (pg_confirm E (ev i) i now' b t) \<in> {Inl ErrSessionAlreadyConfirmed, Inl ErrSeatAlreadyBooked}
         else map_sum id sale_of (fst (mem_confirm j now (pg_spelled E b) s)) = map_sum id sale_of (fst (pg_confirm E (ev i) i now' b t)))
      else \<exists>e. pg_confirm E (ev i) i now' b t = (Inl e, t)) \<and>
     map_sum id sale_of (mem_by_session sid s) = map_sum id sale_of (pg_by_session sid t) \<and>
     (case pg_uuid E scr of
        None \<Rightarrow> (\<exists>e. pg_seat_confirmed E scr seat t = Inl e) \<and> (\<exists>e. pg_confirmed_seats E scr t = Inl e)
      | Some u \<Rightarrow>
          pg_seat_confirmed E scr seat t = mem_seat_confirmed u \<lparr>s_Row = s_Row seat, s_Number = int32 (s_Number seat)\<rparr> s \<and>
          (\<exists>xs ys. mem_confirmed_seats u s = Inr xs \<and> pg_confirmed_seats E scr t = Inr ys \<and> set xs = set ys))"
proof (intro conjI)
  let ?b = "pg_spelled E b"
  note pgs = pg_booking_store [OF assms(1), of ev]
  note spelled = postgres.confirm_spelled [OF assms(1)]
  have taken: "session_taken (mem_rows s) n = session_taken (pg_rows t) n" "seat_taken (mem_rows s) scr seat = seat_taken (pg_rows t) scr seat"
    for n scr seat using assms(4) by (simp_all flip: sold_taken)
  have key: "mem_bookable s ?b" using keyable_int32 [OF assms(5)] by (simp add: mem_bookable_def pg_spelled_def)
  have both: "both_taken (mem_rows s) ?b = both_taken (pg_rows t) ?b" by (simp add: both_taken_def taken)
  show "if pg_bookable E t ?b
      then mem_bookings_ok (snd (mem_confirm j now ?b s)) \<and> pg_bookings_ok E (snd (pg_confirm E (ev i) i now' b t)) \<and>
        sale_of ` mem_rows (snd (mem_confirm j now ?b s)) = sale_of ` pg_rows (snd (pg_confirm E (ev i) i now' b t)) \<and>
        (if both_taken (mem_rows s) ?b
         then fst (mem_confirm j now ?b s) \<in> {Inl ErrSessionAlreadyConfirmed, Inl ErrSeatAlreadyBooked} \<and>
           fst (pg_confirm E (ev i) i now' b t) \<in> {Inl ErrSessionAlreadyConfirmed, Inl ErrSeatAlreadyBooked}
         else map_sum id sale_of (fst (mem_confirm j now ?b s)) = map_sum id sale_of (fst (pg_confirm E (ev i) i now' b t)))
      else \<exists>e. pg_confirm E (ev i) i now' b t = (Inl e, t)"
  proof (cases "pg_bookable E t ?b")
    case bookable: True
    have "mem_bookings_ok (snd (mem_confirm j now ?b s))" "pg_bookings_ok E (snd (pg_confirm E (ev i) i now' b t))"
      using mem_bs.confirm_invar [OF assms(2) key [unfolded mem_bookable_def] prod.collapse [symmetric]]
        booking_store.confirm_invar [OF pgs assms(3) key [unfolded mem_bookable_def] prod.collapse [symmetric]] unfolding spelled
      by blast+
    moreover have "as_sales mem_rows (mem_confirm j now ?b s) = as_sales pg_rows (pg_confirm E (ev i) i now' b t)" if "\<not> both_taken (mem_rows s) ?b"
      using mem_bs.confirm_refines [OF assms(2) key TrueI that, of j now] assms(4)
        booking_store.confirm_refines [OF pgs assms(3) bookable assms(7) that [unfolded both], of now', unfolded spelled] by simp
    ultimately show ?thesis
      using mem_bs.confirm_refuses_both [OF assms(2) key, of j now] bookable assms(4)
        booking_store.confirm_refuses_both [OF pgs assms(3) bookable, of i now', unfolded spelled] both
      by (auto simp: as_sales_def)
  next
    case False
    with postgres.confirm_not_bookable [OF assms(1,5) False] show ?thesis by simp
  qed
  show "map_sum id sale_of (mem_by_session sid s) = map_sum id sale_of (pg_by_session sid t)"
  proof (cases "session_taken (mem_rows s) sid")
    case True
    then obtain x where x: "x \<in> sale_of ` mem_rows s" "sl_Session x = sid" by (force simp: session_taken_def)
    show ?thesis
      using mem_bs.by_session_refines [OF assms(2) x(1)] booking_store.by_session_refines [OF pgs assms(3) x(1) [unfolded assms(4)]] x(2)
      by simp
  next
    case False
    then show ?thesis
      using mem_bs.by_session_unknown [OF assms(2)] booking_store.by_session_unknown [OF pgs assms(3)] taken(1) by simp
  qed
  show "case pg_uuid E scr of
        None \<Rightarrow> (\<exists>e. pg_seat_confirmed E scr seat t = Inl e) \<and> (\<exists>e. pg_confirmed_seats E scr t = Inl e)
      | Some u \<Rightarrow>
          pg_seat_confirmed E scr seat t = mem_seat_confirmed u \<lparr>s_Row = s_Row seat, s_Number = int32 (s_Number seat)\<rparr> s \<and>
          (\<exists>xs ys. mem_confirmed_seats u s = Inr xs \<and> pg_confirmed_seats E scr t = Inr ys \<and> set xs = set ys)"
  proof (cases "pg_uuid E scr")
    case (Some u)
    let ?seat = "\<lparr>s_Row = s_Row seat, s_Number = int32 (s_Number seat)\<rparr>"
    have "mem_bookable s (b\<lparr>b_ScreeningID := u, b_Seat := ?seat\<rparr>)"
      using keyable_int32 [OF assms(6)] by (simp add: mem_bookable_def)
    from mem_bs.seat_confirmed [OF assms(2) this] mem_bs.confirmed_seats [OF assms(2) this]
    have "mem_seat_confirmed u ?seat s = Inr (seat_taken (mem_rows s) u ?seat)"
      "mem_confirmed_seats u s = Inr xs \<Longrightarrow> set xs = {seat. seat_taken (mem_rows s) u seat}" for xs
      by simp_all
    moreover obtain xs where "mem_confirmed_seats u s = Inr xs" by (simp add: mem_confirmed_seats_def)
    ultimately show ?thesis
      using postgres.seat_lookup_spelled [OF assms(1), of scr seat t] postgres.seats_lookup_spelled [OF assms(1), of scr t] Some
      by (auto simp: taken)
  qed (use postgres.seat_lookup_spelled [OF assms(1), of scr seat t] postgres.seats_lookup_spelled [OF assms(1), of scr t] in simp)
qed

definition demo_booking :: booking where
  "demo_booking = \<lparr>b_ID = [], b_SessionID = ''x'', b_ScreeningID = ''scr'', b_Seat = demo_seat, b_UserID = ''bob'',
     b_Status = StatusConfirmed, b_ConfirmedAt = 0\<rparr>"

text \<open>The witness asks with hyphens in the identifiers, which \<open>plain_pg\<close> drops.\<close>

theorem booking_stores_agree_witness:
  "map_sum id sale_of (fst (mem_confirm ''i'' 5 demo_booking new_mem_bookings)) =
     map_sum id sale_of (fst (pg_confirm plain_pg ''e'' ''e'' 7 (demo_booking\<lparr>b_ScreeningID := ''s-cr'', b_UserID := ''bo-b''\<rparr>)
       (new_pg_bookings [''scr''] [''bob'']))) \<and>
   (\<exists>e. pg_confirm plain_pg ''e'' ''e'' 7 (demo_booking\<lparr>b_UserID := ''eve''\<rparr>) (new_pg_bookings [''scr''] [''bob'']) =
     (Inl e, new_pg_bookings [''scr''] [''bob'']))"
proof -
  let ?t = "new_pg_bookings [''scr''] [''bob'']" and ?b = "demo_booking\<lparr>b_ScreeningID := ''s-cr'', b_UserID := ''bo-b''\<rparr>"
  have empty: "mem_rows new_mem_bookings = {}" "pg_rows ?t = {}"
    by (simp_all add: mem_rows_def new_mem_bookings_def pg_rows_def new_pg_bookings_def)
  have ok: "mem_bookings_ok new_mem_bookings" "pg_bookings_ok plain_pg ?t"
    using empty(1) by (simp_all add: mem_bookings_ok_def pg_bookings_ok_def new_mem_bookings_def new_pg_bookings_def gm_wf_def gm_get_def seat_rows_def)
  have spelled: "pg_spelled plain_pg ?b = demo_booking"
    by (simp add: pg_spelled_def pg_spell_def demo_booking_def demo_seat_def plain_pg_def no_hyphens_def int32_id)
  have b: "pg_bookable plain_pg ?t demo_booking" using demo_bookable [of demo_booking] by (simp add: demo_booking_def)
  have eve: "\<not> pg_bookable plain_pg ?t (pg_spelled plain_pg (demo_booking\<lparr>b_UserID := ''eve''\<rparr>))"
    by (simp add: pg_bookable_def pg_spelled_def pg_spell_def plain_pg_def no_hyphens_def new_pg_bookings_def)
  have row: "CHR '':'' \<notin> set (s_Row (b_Seat demo_booking))" by (simp add: demo_booking_def demo_seat_def)
  have f: "pg_fresh plain_pg id ?t ''e''" by (simp add: pg_fresh_def plain_pg_def no_hyphens_def new_pg_bookings_def)
  have r: "sale_of ` mem_rows new_mem_bookings = sale_of ` pg_rows ?t" by (simp add: empty)
  note agree = booking_stores_agree [OF plain.postgres_axioms ok r _ row f, of _ "''i''" 5 7]
  have "\<not> both_taken (mem_rows new_mem_bookings) demo_booking" by (simp add: both_taken_def empty session_taken_def)
  then show ?thesis
    using agree [of ?b] agree [of "demo_booking\<lparr>b_UserID := ''eve''\<rparr>"] row spelled b eve by simp
qed

text \<open>C15: the in-memory and the PostgreSQL payment store are interchangeable: from the same charges, an insert, a capture,
  a failure and every lookup are answered alike by both and leave the same charges, whatever identities and instants each
  assigns (a refused transition is the same error up to its text).\<close>

theorem payment_stores_agree:
  assumes "postgres E" "mem_payments_ok s" "pg_payments_ok t" "charges (mem_payment_rows s) = charges (pg_payment_rows t)"
  shows "(mem_insertable s p \<and> pg_insertable t p \<longrightarrow>
        as_charges mem_payment_rows charge_of (mem_insert_intent n now p s) =
        as_charges pg_payment_rows charge_of (pg_insert_intent E n' now' p t)) \<and>
     as_charges mem_payment_rows (map_prod charge_of id) (mem_capture now i s) =
       as_charges pg_payment_rows (map_prod charge_of id) (pg_capture now' i t) \<and>
     as_charges mem_payment_rows charge_of (mem_mark_failed now i s) = as_charges pg_payment_rows charge_of (pg_mark_failed now' i t) \<and>
     map_sum id charge_of (mem_get_active sid s) = map_sum id charge_of (pg_get_active sid t) \<and>
     map_sum id charge_of (mem_get_by_intent i s) = map_sum id charge_of (pg_get_by_intent i t) \<and>
     mem_has_captured sid s = pg_has_captured sid t"
proof (intro conjI impI)
  note pg = pg_payment_store [OF assms(1)]
  show "as_charges mem_payment_rows charge_of (mem_insert_intent n now p s) = as_charges pg_payment_rows charge_of (pg_insert_intent E n' now' p t)"
    if i: "mem_insertable s p \<and> pg_insertable t p"
  proof -
    have m: "mem_payment_rows s (p_IntentID p) = None" using i by (simp add: mem_insertable_free)
    then have "pg_payment_rows t (p_IntentID p) = None" using fun_cong [OF assms(4), of "p_IntentID p"] by (simp add: charges_def)
    from mem_ps.insert_refines [OF assms(2) _ m] payment_store.insert_refines [OF pg assms(3) _ this] i assms(4) show ?thesis by simp
  qed
  show "map_sum id charge_of (mem_get_active sid s) = map_sum id charge_of (pg_get_active sid t)"
  proof (cases "\<exists>c. active_charge (charges (mem_payment_rows s)) sid c")
    case True
    then obtain c where "active_charge (charges (mem_payment_rows s)) sid c" by blast
    with mem_ps.get_active_refines(1) [OF assms(2) this] payment_store.get_active_refines(1) [OF pg assms(3), of sid c] assms(4)
    show ?thesis by simp
  next
    case False
    with mem_ps.get_active_refines(2) [OF assms(2), of sid] payment_store.get_active_refines(2) [OF pg assms(3), of sid] assms(4)
    show ?thesis by simp
  qed
  show "mem_has_captured sid s = pg_has_captured sid t"
    using mem_ps.has_captured [OF assms(2)] payment_store.has_captured [OF pg assms(3)] assms(4) by (simp flip: settled_paid)
qed (use assms mem_ps.capture_refines [OF assms(2)] mem_ps.fail_refines [OF assms(2)] mem_ps.get_intent_refines [OF assms(2)]
    payment_store.capture_refines [OF pg_payment_store [OF assms(1)] assms(3)] payment_store.fail_refines [OF pg_payment_store [OF assms(1)] assms(3)]
    payment_store.get_intent_refines [OF pg_payment_store [OF assms(1)] assms(3)] in simp_all)

theorem payment_stores_agree_witness:
  "as_charges mem_payment_rows charge_of (mem_insert_intent ''p1'' 5 (demo_payment StatusIntent) []) =
     as_charges pg_payment_rows charge_of (pg_insert_intent plain_pg ''p2'' 7 (demo_payment StatusIntent) []) \<and>
   mem_has_captured ''x'' [] = pg_has_captured ''x'' []"
proof -
  have ok: "pg_payments_ok []" by (simp add: pg_payments_ok_def)
  have r: "charges (mem_payment_rows []) = charges (pg_payment_rows [])"
    by (simp add: charges_def fun_eq_iff mem_payment_rows_def pg_payment_rows_def)
  have i: "mem_insertable [] (demo_payment StatusIntent)" "pg_insertable [] (demo_payment StatusIntent)"
    by (simp_all add: mem_insertable_def pg_insertable_def demo_payment_def)
  from payment_stores_agree [OF plain.postgres_axioms demo_payments_ok(1) ok r, where p = "demo_payment StatusIntent" and n = "''p1''"
      and now = 5 and n' = "''p2''" and now' = 7 and sid = "''x''"] i
  show ?thesis by blast
qed

section \<open>Progress\<close>

text \<open>A buyer with a live hold of an unsold seat gets from the hold to the booking: when nobody
  interrupts and no call fails, asking for an intent, paying and confirming end in a new confirmed booking of
  that seat for that buyer.\<close>

theorem held_seat_can_be_bought:
  assumes "redis R entries" "postgres E" "production_ok entries E w"
    and "rh_live ut (w_now w) (entries (w_holds w)) sid = Some h" "h_UserID h = uid" "w_now w < h_ExpiresAt h"
    and "\<forall>p. \<not> active_row (pg_payment_rows (w_payments w)) sid p"
    and "\<not> session_taken (pg_rows (w_bookings w)) sid" "\<not> seat_taken (pg_rows (w_bookings w)) (h_ScreeningID h) (h_Seat h)"
    and "pg_bookable E (w_bookings w) b" "b_ScreeningID b = h_ScreeningID h" "b_Seat b = h_Seat h" "b_UserID b = uid"
    and "w_screenings w (h_ScreeningID h) = Inr sc" "0 < sc_PriceCents sc" "sc_PriceCents sc < 2 ^ 31"
    and "fg_failCreate (w_gateway w) = None" "fg_failCapture (w_gateway w) = None"
    and "pg_payment_rows (w_payments w) (fakeIntentPrefix @ w_uuid w (w_next w)) = None"
    and "pg_fresh E ev (w_bookings w) (w_uuid w (w_next w + 2))"
  shows "\<exists>p q b w'. run_all ttl (world_ports (production_stores R st ut E ev))
        [ReqCreateIntent uid sid, ReqPay uid sid, ReqConfirm uid sid] w =
      ([OutIntent (Inr p), OutPay (Inr q), OutConfirm (Inr \<lparr>cr_Booking = b, cr_Created = True\<rparr>)], w') \<and>
    b_SessionID b = h_SessionID h \<and> b_ScreeningID b = h_ScreeningID h \<and> b_Seat b = h_Seat h \<and> b_UserID b = uid \<and>
    pg_rows (w_bookings w') = insert b (pg_rows (w_bookings w))"
proof -
  note pr = production_laws [OF assms(1,2)]
  from production.buys [OF pr assms(3) production.can_buy [OF pr assms(3-20)], where st = st and ttl = ttl]
  show ?thesis using assms(5) by (auto simp: booking_of_def)
qed

theorem held_seat_can_be_bought_witness:
  "\<exists>p q b w. run_all (900 * second) (world_ports demo_stores)
        [ReqCreateIntent ''bob'' ''x'', ReqPay ''bob'' ''x'', ReqConfirm ''bob'' ''x''] demo_held =
      ([OutIntent (Inr p), OutPay (Inr q), OutConfirm (Inr \<lparr>cr_Booking = b, cr_Created = True\<rparr>)], w) \<and>
    b_Seat b = demo_seat"
proof -
  let ?b = "\<lparr>b_ID = [], b_SessionID = [], b_ScreeningID = ''scr'', b_Seat = demo_seat, b_UserID = ''bob'',
     b_Status = [], b_ConfirmedAt = 0\<rparr>"
  have ok: "production_ok gm_get plain_pg demo_held"
    using demo_held_facts(1) by (simp add: demo_srv.world_inv_ok)
  have h: "h_UserID demo_hold = ''bob''" "h_ScreeningID demo_hold = ''scr''" "h_Seat demo_hold = demo_seat"
    "0 < h_ExpiresAt demo_hold" by (simp_all add: demo_hold_def)
  have b: "pg_bookable plain_pg (w_bookings demo_held) ?b" using demo_bookable [of ?b] demo_held_facts(4) by simp
  show ?thesis
    using held_seat_can_be_bought [OF ks.redis_axioms plain.postgres_axioms ok, where ut = demo_ut and sid = "''x''" and h = demo_hold and
      uid = "''bob''" and b = ?b and sc = demo_screening and ev = id and ttl = "900 * second" and st = demo_st] demo_held_facts h b
    by (force simp: demo_screening_def demo_screenings_def demo_gateway_def pg_rows_def new_pg_bookings_def
      session_taken_def seat_taken_def active_row_def pg_payment_rows_def pg_fresh_def plain_pg_def no_hyphens_def demo_uuid_def)
qed

section \<open>Identifiers and instants\<close>

text \<open>C31: one seat can be held twice: nothing normalises a screening identifier before it becomes part of
  a Redis key, while Postgres reads every spelling of a UUID as one value. So a hold under another spelling is
  granted although the seat is held, and of the two buyers, both able to pay, the second to confirm is refused.\<close>

theorem two_spellings_two_holds:
  assumes "redis R entries" "postgres E" "rh_ok now (entries s)"
    and "rh_live ut now (entries s) sid = Some k" "h_Seat k = h_Seat h"
    and "pg_uuid E (h_ScreeningID k) = Some u" "pg_uuid E (h_ScreeningID h) = Some u"
    and "\<not> seat_held (rh_live ut now (entries s)) h" "\<not> redis_full st now h (entries s)"
    and "fresh_hold (rh_used (entries s)) h" "hold_validate h now = Inr ()" "int64_range (rs_maxHolds st)"
    and "b_ScreeningID b = h_ScreeningID k" "b_Seat b = h_Seat k" "pg_confirm E ev1 i1 later b t = (Inr b', t')"
    and "b_ScreeningID c = h_ScreeningID h" "b_Seat c = h_Seat h" "s_Number (b_Seat c) < 2 ^ 31"
    and "pg_uuid E (b_UserID c) = Some v" "\<not> session_taken (pg_rows t') (b_SessionID c)"
  shows "fst (redis_hold R st now now h s) = Inr () \<and>
     pg_confirm E ev2 i2 afterwards c t' = (Inl ErrSeatAlreadyBooked, t')"
proof
  show "fst (redis_hold R st now now h s) = Inr ()"
    using redis_holds.redis_hold_answer [OF redis_holds.intro [OF assms(1)] assms(3,10,11,12), where ut = ut] assms(8,9)
    by (simp add: spec_hold_def)
  show "pg_confirm E ev2 i2 afterwards c t' = (Inl ErrSeatAlreadyBooked, t')"
    by (rule postgres.other_spelling_refused [OF assms(2,15)])
       (use assms in \<open>simp_all add: fresh_hold_def\<close>)
qed

definition demo_row :: "string \<Rightarrow> string \<Rightarrow> string \<Rightarrow> booking" where
  "demo_row sid scr uid = \<lparr>b_ID = [], b_SessionID = sid, b_ScreeningID = scr, b_Seat = demo_seat, b_UserID = uid,
     b_Status = StatusConfirmed, b_ConfirmedAt = 0\<rparr>"

lemma demo_row_sold:
  obtains b where "pg_confirm plain_pg ''e1'' ''i1'' 0 (demo_row ''x'' ''scr'' ''bob'') (new_pg_bookings [''scr''] [''bob'', ''eve'']) =
    (Inr b, snd (pg_confirm plain_pg ''e1'' ''i1'' 0 (demo_row ''x'' ''scr'' ''bob'') (new_pg_bookings [''scr''] [''bob'', ''eve''])))"
proof -
  let ?r = "pg_confirm plain_pg ''e1'' ''i1'' 0 (demo_row ''x'' ''scr'' ''bob'') (new_pg_bookings [''scr''] [''bob'', ''eve''])"
  have "\<not> isl (fst ?r)" by code_simp
  then obtain b where "fst ?r = Inr b" by (cases "fst ?r") simp_all
  then show thesis using that [of b] by (metis prod.collapse)
qed

theorem two_spellings_two_holds_witness:
  "let s = snd (redis_hold ks_redis demo_st 0 0 demo_hold []);
       t = snd (pg_confirm plain_pg ''e1'' ''i1'' 0 (demo_row ''x'' ''scr'' ''bob'') (new_pg_bookings [''scr''] [''bob'', ''eve'']));
       h = demo_hold\<lparr>h_SessionID := ''y'', h_HoldToken := ''yy'', h_ScreeningID := ''s-cr'', h_UserID := ''eve''\<rparr> in
     fst (redis_hold ks_redis demo_st 0 0 h s) = Inr () \<and>
     pg_confirm plain_pg ''e2'' ''i2'' 0 (demo_row ''y'' ''s-cr'' ''eve'') t = (Inl ErrSeatAlreadyBooked, t)"
proof -
  let ?s = "snd (redis_hold ks_redis demo_st 0 0 demo_hold [])"
  let ?new = "new_pg_bookings [''scr''] [''bob'', ''eve'']"
  let ?t = "snd (pg_confirm plain_pg ''e1'' ''i1'' 0 (demo_row ''x'' ''scr'' ''bob'') ?new)"
  let ?h = "demo_hold\<lparr>h_SessionID := ''y'', h_HoldToken := ''yy'', h_ScreeningID := ''s-cr'', h_UserID := ''eve''\<rparr>"
  have e: "gm_get ([] :: keyspace) = Map.empty" by (simp add: gm_get_def fun_eq_iff)
  have f: "fresh_hold (rh_used (gm_get ([] :: keyspace))) demo_hold"
    using demo_hold_fresh by (simp add: e rh_used_def fresh_hold_def)
  have ok0: "rh_ok 0 (gm_get ([] :: keyspace))" using rh_ok_empty [of 0] by (simp add: e)
  have run: "redis_hold ks_redis demo_st 0 0 demo_hold [] = (Inr (), ?s)"
    using redis_refines_holds_witness by simp
  have ok: "rh_ok 0 (gm_get ?s)" by (rule ks_hs.redis_hold_invar [OF ok0 f run])
  have used: "rh_used (gm_get ?s) \<subseteq> {''x'', ''xx''}"
    using ks_hs.rh.used_hold [OF ok0 f run] by (simp add: e rh_used_def demo_hold_def)
  have live: "rh_live demo_ut 0 (gm_get ?s) sid = (if sid = ''x'' then Some demo_hold else None)" for sid
    using ks_hs.rh.hold_ok [OF ok0 f demo_hold_time run] rh_live_None [OF ok0, of demo_ut sid]
    by (simp add: demo_stored e seen_def) (simp add: demo_hold_def)
  have h: "fresh_hold (rh_used (gm_get ?s)) ?h" using used demo_seat_ok by (auto simp: fresh_hold_def demo_hold_def)
  have free: "\<not> seat_held (rh_live demo_ut 0 (gm_get ?s)) ?h"
  proof -
    have "h_ScreeningID demo_hold \<noteq> ''s-cr''" by (simp add: demo_hold_def)
    then show ?thesis by (auto simp: seat_held_def live same_seat_def split: if_splits)
  qed
  have room: "\<not> redis_full demo_st 0 ?h (gm_get ?s)" by code_simp
  have v: "hold_validate ?h 0 = Inr ()" "int64_range (rs_maxHolds demo_st)"
    by (simp_all add: hold_validate_def demo_hold_def demo_seat_def zero_time_def second_def demo_st_def new_redis_store_def int64_range_def)
  obtain b where b: "pg_confirm plain_pg ''e1'' ''i1'' 0 (demo_row ''x'' ''scr'' ''bob'') ?new = (Inr b, ?t)"
    by (rule demo_row_sold)
  have "list_all (\<lambda>r. cb_SessionID r \<noteq> ''y'') (pb_rows ?t)" by code_simp
  then have taken: "\<not> session_taken (pg_rows ?t) ''y''" by (auto simp: pg_session_taken list_all_iff)
  have "rh_live demo_ut 0 (gm_get ?s) ''x'' = Some demo_hold" by (simp add: live)
  then have "fst (redis_hold ks_redis demo_st 0 0 ?h ?s) = Inr () \<and>
      pg_confirm plain_pg ''e2'' ''i2'' 0 (demo_row ''y'' ''s-cr'' ''eve'') ?t = (Inl ErrSeatAlreadyBooked, ?t)"
    by (rule two_spellings_two_holds [OF ks.redis_axioms plain.postgres_axioms ok _ _ _ _ free room h v _ _ b,
          where u = "''scr''" and v = "''eve''"])
       (use taken in \<open>simp_all add: demo_row_def plain_pg_def no_hyphens_def\<close>, simp_all add: demo_hold_def demo_seat_def)
  then show ?thesis by (simp add: Let_def)
qed

text \<open>C32: the expiry that Redis gives back is the hold's expiry without its fraction of a second. So there
  are instants before the expiry at which the hold is still readable and a confirm refuses it: business expiry
  is up to a second early, not exact.\<close>

theorem redis_expires_early:
  assumes "redis R entries" "rh_ok now (entries s)" "fresh_hold (rh_used (entries s)) h"
    and "int64_range (to_unix (h_ExpiresAt h))" "now < h_ExpiresAt h" "redis_hold R st now now h s = (Inr (), s')"
  shows "\<exists>k. redis_get R ut now (h_SessionID h) s' = Inr k \<and>
     h_ExpiresAt k = h_ExpiresAt h - h_ExpiresAt h mod second \<and>
     (\<forall>t. h_ExpiresAt k \<le> t \<and> t < h_ExpiresAt h \<longrightarrow> can_be_confirmed h t \<and> \<not> can_be_confirmed k t)"
proof -
  have "rh_live ut now (entries s') (h_SessionID h) = Some (redis_stored h)"
    using redis_holds.redis_stores [OF redis_holds.intro [OF assms(1)] assms(2,3,5,6)] .
  moreover have "rh_ok now (entries s')"
    by (rule redis_holds.redis_hold_invar [OF redis_holds.intro [OF assms(1)] assms(2,3,6)])
  moreover have "h_ExpiresAt (redis_stored h) = h_ExpiresAt h - h_ExpiresAt h mod second"
  proof -
    have "int64 (to_unix (h_ExpiresAt h)) = to_unix (h_ExpiresAt h)"
      using assms(4) by (simp add: int64_range_def int64_id)
    then show ?thesis by (simp add: redis_stored_def unix_def to_unix_def minus_mod_eq_div_mult)
  qed
  ultimately show ?thesis
    using redis_holds.redis_get_live [OF redis_holds.intro [OF assms(1)]] by (auto simp: can_be_confirmed_iff)
qed

theorem redis_expires_early_witness:
  "\<exists>k s. redis_hold ks_redis demo_st 0 0 (demo_hold\<lparr>h_ExpiresAt := 900 * second + 7\<rparr>) [] = (Inr (), s) \<and>
     redis_get ks_redis demo_ut 0 ''x'' s = Inr k \<and> \<not> can_be_confirmed k (900 * second + 3)"
proof -
  let ?h = "demo_hold\<lparr>h_ExpiresAt := 900 * second + 7\<rparr>"
  have e: "gm_get ([] :: keyspace) = Map.empty" by (simp add: gm_get_def fun_eq_iff)
  have f: "fresh_hold (rh_used (gm_get ([] :: keyspace))) ?h"
    using demo_hold_fresh by (simp add: e rh_used_def fresh_hold_def)
  have ok: "rh_ok 0 (gm_get ([] :: keyspace))" using rh_ok_empty [of 0] by (simp add: e)
  have "fst (redis_hold ks_redis demo_st 0 0 ?h []) = Inr ()" by code_simp
  then obtain s where s: "redis_hold ks_redis demo_st 0 0 ?h [] = (Inr (), s)" by (metis prod.collapse)
  have t: "int64_range (to_unix (h_ExpiresAt ?h))" "0 < h_ExpiresAt ?h"
    by (simp_all add: to_unix_def second_def int64_range_def)
  from redis_expires_early [OF ks.redis_axioms ok f t s, of demo_ut]
  obtain k where k: "redis_get ks_redis demo_ut 0 ''x'' s = Inr k" "h_ExpiresAt k = 900 * second"
    by (auto simp: second_def demo_hold_def)
  then have "\<not> can_be_confirmed k (900 * second + 3)" by (simp add: can_be_confirmed_iff)
  with s k(1) show ?thesis by blast
qed

end
