(* ===== verification/DomainUser.thy ===== *)
theory DomainUser
  imports Errors
begin

text \<open>
  \<open>internal/domain/user\<close>: accounts, the input validators, and the refresh-token row with its
  lifecycle predicates.
\<close>

section \<open>Accounts\<close>

type_synonym role = string

definition RoleCustomer :: role where
  "RoleCustomer = ''customer''"

definition RoleAdmin :: role where
  "RoleAdmin = ''admin''"

record user =
  u_ID :: string
  u_Email :: string
  u_PasswordHash :: string
  u_DisplayName :: string
  u_Role :: role
  u_CreatedAt :: time

definition email_max_total :: int where "email_max_total = 254"
definition email_max_local :: int where "email_max_local = 64"
definition password_min_len :: int where "password_min_len = 10"
definition password_max_len :: int where "password_max_len = 128"
definition display_name_max_runes :: int where "display_name_max_runes = 100"

section \<open>Validators\<close>

definition validate_email :: "unicode \<Rightarrow> string \<Rightarrow> string res" where
  "validate_email ut email =
     (let e = to_lower ut (trim_space email) in
      if e = [] then Inl (Errorf ''user: email is required: %w'' [] [ErrValidation])
      else if int (length e) > email_max_total
      then Inl (Errorf ''user: email exceeds %d characters: %w'' [ArgI email_max_total] [ErrValidation])
      else let at = index_byte e CHR ''@'' in
      if at \<le> 0 \<or> at \<noteq> last_index_byte e CHR ''@''
      then Inl (Errorf ''user: email must contain exactly one '@': %w'' [] [ErrValidation])
      else let local = take (nat at) e; domain = drop (nat at + 1) e in
      if int (length local) > email_max_local
      then Inl (Errorf ''user: email local part exceeds %d characters: %w'' [ArgI email_max_local] [ErrValidation])
      else if domain = [] \<or> CHR ''.'' \<notin> set domain
      then Inl (Errorf ''user: email domain is malformed: %w'' [] [ErrValidation])
      else if hd domain = CHR ''.'' \<or> last domain = CHR ''.''
      then Inl (Errorf ''user: email domain is malformed: %w'' [] [ErrValidation])
      else Inr e)"

definition validate_password :: "string \<Rightarrow> unit res" where
  "validate_password password =
     (if int (rune_count password) < password_min_len
      then Inl (Errorf ''user: password must be at least %d characters: %w'' [ArgI password_min_len] [ErrValidation])
      else if int (length password) > password_max_len
      then Inl (Errorf ''user: password exceeds %d characters: %w'' [ArgI password_max_len] [ErrValidation])
      else Inr ())"

definition validate_display_name :: "string \<Rightarrow> string res" where
  "validate_display_name name =
     (let n = trim_space name in
      if int (rune_count n) > display_name_max_runes
      then Inl (Errorf ''user: display name exceeds %d characters: %w'' [ArgI display_name_max_runes] [ErrValidation])
      else Inr n)"

section \<open>Refresh tokens\<close>

record refresh_token =
  rt_ID :: string
  rt_UserID :: string
  rt_FamilyID :: string
  rt_TokenHash :: string
  rt_ExpiresAt :: time
  rt_CreatedAt :: time
  rt_RevokedAt :: "time option"
  rt_ReplacedBy :: string

definition rt_is_expired :: "refresh_token \<Rightarrow> time \<Rightarrow> bool" where
  "rt_is_expired t now \<longleftrightarrow> \<not> now < rt_ExpiresAt t"

definition rt_is_revoked :: "refresh_token \<Rightarrow> bool" where
  "rt_is_revoked t \<longleftrightarrow> rt_RevokedAt t \<noteq> None"

definition rt_is_replaced :: "refresh_token \<Rightarrow> bool" where
  "rt_is_replaced t \<longleftrightarrow> rt_ReplacedBy t \<noteq> []"

definition rt_is_active :: "refresh_token \<Rightarrow> time \<Rightarrow> bool" where
  "rt_is_active t now \<longleftrightarrow> \<not> rt_is_revoked t \<and> \<not> rt_is_replaced t \<and> \<not> rt_is_expired t now"

definition reuse_is_theft :: "refresh_token \<Rightarrow> bool" where
  "reuse_is_theft t \<longleftrightarrow> rt_is_replaced t \<or> rt_is_revoked t"

section \<open>Lemmas\<close>

lemma rt_trichotomy:
  "rt_is_active t now \<longleftrightarrow> \<not> reuse_is_theft t \<and> now < rt_ExpiresAt t"
  by (auto simp: rt_is_active_def reuse_is_theft_def rt_is_expired_def)

text \<open>A string with exactly one \<open>@\<close>, split at it.\<close>

lemma index_eq_last_index:
  assumes "index_byte e c = last_index_byte e c" and "0 < index_byte e c"
  defines "i \<equiv> nat (index_byte e c)"
  shows "e = take i e @ c # drop (i + 1) e" and "c \<notin> set (take i e)"
    and "c \<notin> set (drop (i + 1) e)" and "take i e \<noteq> []"
proof -
  from assms(2) obtain j where j: "find_byte c e = Some j" and i: "i = j" and "0 < j"
    by (auto simp: index_byte_def i_def split: option.splits)
  note fj = find_byte_SomeD [OF j]
  from assms(1) j obtain k where k: "find_byte c (rev e) = Some k"
    and jk: "int j = int (length e) - 1 - int k"
    by (auto simp: index_byte_def last_index_byte_def split: option.splits)
  note fk = find_byte_SomeD [OF k]
  show "e = take i e @ c # drop (i + 1) e" and "c \<notin> set (take i e)"
    using fj by (auto simp: i)
  have "length e - k = i + 1"
    using jk fk i by linarith
  then have "drop (i + 1) e = rev (take k (rev e))"
    by (simp only: take_rev rev_rev_ident)
  then show "c \<notin> set (drop (i + 1) e)"
    using fk by (simp only: set_rev) blast
  show "take i e \<noteq> []"
    using fj \<open>0 < j\<close> by (auto simp: i)
qed

text \<open>What an accepted address looks like.\<close>

definition address :: "string \<Rightarrow> bool" where
  "address e \<longleftrightarrow> (\<exists>loc dom. e = loc @ CHR ''@'' # dom \<and> CHR ''@'' \<notin> set loc \<and> CHR ''@'' \<notin> set dom \<and>
     0 < length loc \<and> length loc \<le> 64 \<and> length e \<le> 254 \<and> CHR ''.'' \<in> set dom \<and> hd dom \<noteq> CHR ''.'' \<and> last dom \<noteq> CHR ''.'')"

lemma validate_email_address:
  assumes "validate_email ut s = Inr e"
  shows "e = to_lower ut (trim_space s) \<and> address e"
proof -
  let ?i = "index_byte e CHR ''@''"
  have e: "e = to_lower ut (trim_space s)"
    using assms unfolding validate_email_def Let_def by (simp split: if_splits)
  from assms have v: "int (length e) \<le> 254" "0 < ?i" "?i = last_index_byte e CHR ''@''"
    "int (length (take (nat ?i) e)) \<le> 64" "CHR ''.'' \<in> set (drop (nat ?i + 1) e)"
    "hd (drop (nat ?i + 1) e) \<noteq> CHR ''.''" "last (drop (nat ?i + 1) e) \<noteq> CHR ''.''"
    unfolding validate_email_def Let_def e [symmetric]
    by (auto simp: email_max_total_def email_max_local_def not_less not_le split: if_splits)
  have "length (take (nat ?i) e) \<le> 64" "length e \<le> 254" using v(1,4) by linarith+
  moreover have "0 < length (take (nat ?i) e)" using index_eq_last_index(4) [OF v(3,2)] by simp
  ultimately have "address e"
    unfolding address_def using index_eq_last_index(1-3) [OF v(3,2)] v(5-7) by blast
  with e show ?thesis by simp
qed

end
