(* ===== verification/AuthStore.thy ===== *)
theory AuthStore
  imports DomainUser
begin

text \<open>
  The ports of \<open>internal/application/auth/ports.go\<close> as locales: the accounts, and the rotating
  ledger of refresh tokens with the decision table of \<open>Rotate\<close>. What follows from the laws alone
  is proved here, once for every implementation.
\<close>

section \<open>Accounts\<close>

text \<open>\<open>fold_email\<close> is the case folding under which addresses are unique; a store assigns identity and instant.\<close>

definition email_taken :: "(string \<Rightarrow> string) \<Rightarrow> user set \<Rightarrow> string \<Rightarrow> bool" where
  "email_taken fold_email R e \<longleftrightarrow> (\<exists>u \<in> R. fold_email (u_Email u) = fold_email e)"

definition same_account :: "user \<Rightarrow> user \<Rightarrow> bool" where
  "same_account u v \<longleftrightarrow> u_Email u = u_Email v \<and> u_PasswordHash u = u_PasswordHash v \<and>
     u_DisplayName u = u_DisplayName v \<and> u_Role u = u_Role v"

text \<open>The service registers customers without an identifier; \<open>creatable\<close> is what a table adds.\<close>

definition new_customer :: "user \<Rightarrow> bool" where
  "new_customer u \<longleftrightarrow> u_ID u = [] \<and> u_CreatedAt u = zero_time \<and> u_Role u = RoleCustomer"

locale user_store =
  fixes invar :: "'s \<Rightarrow> bool"
    and rows :: "'s \<Rightarrow> user set"
    and fold_email :: "string \<Rightarrow> string"
    and creatable :: "user \<Rightarrow> bool"
    and usable_id :: "'s \<Rightarrow> string \<Rightarrow> bool"
    and create_op :: "string \<Rightarrow> time \<Rightarrow> user \<Rightarrow> 's \<Rightarrow> user res \<times> 's"
    and by_email_op :: "string \<Rightarrow> 's \<Rightarrow> user res"
    and by_id_op :: "string \<Rightarrow> 's \<Rightarrow> user res"
  assumes emails_unique: "invar s \<Longrightarrow> u \<in> rows s \<Longrightarrow> v \<in> rows s \<Longrightarrow> fold_email (u_Email u) = fold_email (u_Email v) \<Longrightarrow> u = v"
    and create_free: "invar s \<Longrightarrow> new_customer u \<Longrightarrow> creatable u \<Longrightarrow> usable_id s i \<Longrightarrow>
        \<not> email_taken fold_email (rows s) (u_Email u) \<Longrightarrow>
        \<exists>v s'. create_op i now u s = (Inr v, s') \<and> same_account v u \<and> u_ID v = i \<and>
          rows s' = insert v (rows s) \<and> invar s'"
    and create_taken: "invar s \<Longrightarrow> new_customer u \<Longrightarrow> creatable u \<Longrightarrow> email_taken fold_email (rows s) (u_Email u) \<Longrightarrow>
        create_op i now u s = (Inl ErrEmailTaken, s)"
    and by_email: "invar s \<Longrightarrow> u \<in> rows s \<Longrightarrow> fold_email (u_Email u) = fold_email e \<Longrightarrow> by_email_op e s = Inr u"
    and by_email_none: "invar s \<Longrightarrow> \<not> email_taken fold_email (rows s) e \<Longrightarrow> by_email_op e s = Inl ErrUserNotFound"
    and by_id: "invar s \<Longrightarrow> u \<in> rows s \<Longrightarrow> by_id_op (u_ID u) s = Inr u"
begin

text \<open>Of two registrations of one address, the second is refused.\<close>

lemma second_registration:
  assumes "invar s" "new_customer u" "creatable u" "usable_id s i" "create_op i now u s = (Inr v, s')"
    and "new_customer u'" "creatable u'" "fold_email (u_Email u') = fold_email (u_Email u)"
  shows "create_op j later u' s' = (Inl ErrEmailTaken, s')"
proof -
  have free: "\<not> email_taken fold_email (rows s) (u_Email u)"
    using create_taken [OF assms(1-3)] assms(5) by fastforce
  then obtain v' s'' where "create_op i now u s = (Inr v', s'')" "same_account v' u" "rows s'' = insert v' (rows s)" "invar s''"
    using create_free [OF assms(1-4)] by blast
  with assms(5) have "email_taken fold_email (rows s') (u_Email u')" "invar s'"
    using assms(8) by (auto simp: email_taken_def same_account_def)
  with create_taken assms(6,7) show ?thesis by blast
qed

lemma created_is_found:
  assumes "invar s" "new_customer u" "creatable u" "usable_id s i" "create_op i now u s = (Inr v, s')"
  shows "by_email_op (u_Email u) s' = Inr v" "by_id_op i s' = Inr v" "same_account v u"
proof -
  have "\<not> email_taken fold_email (rows s) (u_Email u)"
    using create_taken [OF assms(1-3)] assms(5) by fastforce
  from create_free [OF assms(1-4) this, of now] assms(5)
  have "same_account v u" "u_ID v = i" "v \<in> rows s'" "invar s'" by auto
  then show "by_email_op (u_Email u) s' = Inr v" "by_id_op i s' = Inr v" "same_account v u"
    using by_email [of s' v "u_Email u"] by_id [of s' v] by (auto simp: same_account_def)
qed

end

section \<open>The ledger of refresh tokens\<close>

text \<open>Tokens by their hash. \<open>stamp\<close> is what a column keeps of an instant.\<close>

type_synonym ledger = "string \<rightharpoonup> refresh_token"

definition stored_as :: "(time \<Rightarrow> time) \<Rightarrow> refresh_token \<Rightarrow> refresh_token \<Rightarrow> bool" where
  "stored_as stamp r t \<longleftrightarrow> rt_ID r = rt_ID t \<and> rt_UserID r = rt_UserID t \<and> rt_FamilyID r = rt_FamilyID t \<and>
     rt_TokenHash r = rt_TokenHash t \<and> rt_ExpiresAt r = stamp (rt_ExpiresAt t) \<and> \<not> reuse_is_theft r"

definition revoke_row :: "time \<Rightarrow> string \<Rightarrow> refresh_token \<Rightarrow> refresh_token" where
  "revoke_row at fam r =
     (if rt_FamilyID r = fam \<and> rt_RevokedAt r = None then r\<lparr>rt_RevokedAt := Some at\<rparr> else r)"

definition revoked :: "time \<Rightarrow> string \<Rightarrow> ledger \<Rightarrow> ledger" where
  "revoked at fam L h = map_option (revoke_row at fam) (L h)"

text \<open>The successor of \<open>old\<close>, stamped with its identity.\<close>

definition succeeding :: "refresh_token \<Rightarrow> refresh_token \<Rightarrow> refresh_token" where
  "succeeding old t = t\<lparr>rt_UserID := rt_UserID old, rt_FamilyID := rt_FamilyID old\<rparr>"

text \<open>A row the service makes: not consumed, with an identifier.\<close>

definition unused_token :: "refresh_token \<Rightarrow> bool" where
  "unused_token t \<longleftrightarrow> \<not> reuse_is_theft t \<and> rt_ID t \<noteq> []"

locale refresh_store =
  fixes invar :: "'s \<Rightarrow> bool"
    and rows :: "'s \<Rightarrow> ledger"
    and stamp :: "time \<Rightarrow> time"
    and accepts :: "'s \<Rightarrow> refresh_token \<Rightarrow> bool"
    and create_op :: "time \<Rightarrow> refresh_token \<Rightarrow> 's \<Rightarrow> refresh_token res \<times> 's"
    and by_hash_op :: "string \<Rightarrow> 's \<Rightarrow> refresh_token res"
    and rotate_op :: "time \<Rightarrow> string \<Rightarrow> refresh_token \<Rightarrow> 's \<Rightarrow> refresh_token res \<times> 's"
    and revoke_op :: "time \<Rightarrow> string \<Rightarrow> 's \<Rightarrow> unit res \<times> 's"
  assumes rows_hash: "invar s \<Longrightarrow> rows s h = Some t \<Longrightarrow> rt_TokenHash t = h"
    and create_ok: "invar s \<Longrightarrow> unused_token t \<Longrightarrow> accepts s t \<Longrightarrow> rows s (rt_TokenHash t) = None \<Longrightarrow>
        \<exists>r s'. create_op now t s = (Inr r, s') \<and> stored_as stamp r t \<and> invar s' \<and> rows s' = (rows s)(rt_TokenHash t \<mapsto> r)"
    and by_hash: "invar s \<Longrightarrow> by_hash_op h s = (case rows s h of None \<Rightarrow> Inl ErrRefreshTokenUnknown | Some t \<Rightarrow> Inr t)"
    and rotate_unknown: "invar s \<Longrightarrow> rows s h = None \<Longrightarrow> rotate_op now h t s = (Inl ErrRefreshTokenUnknown, s)"
    and rotate_theft: "invar s \<Longrightarrow> rows s h = Some old \<Longrightarrow> reuse_is_theft old \<Longrightarrow>
        \<exists>s'. rotate_op now h t s = (Inl ErrRefreshTokenReused, s') \<and> invar s' \<and>
          rows s' = revoked (stamp now) (rt_FamilyID old) (rows s)"
    and rotate_expired: "invar s \<Longrightarrow> rows s h = Some old \<Longrightarrow> \<not> reuse_is_theft old \<Longrightarrow> rt_is_expired old now \<Longrightarrow>
        rotate_op now h t s = (Inl ErrRefreshTokenExpired, s)"
    and rotate_active: "invar s \<Longrightarrow> rows s h = Some old \<Longrightarrow> rt_is_active old now \<Longrightarrow> unused_token t \<Longrightarrow>
        accepts s (succeeding old t) \<Longrightarrow> rows s (rt_TokenHash t) = None \<Longrightarrow>
        \<exists>r s'. rotate_op now h t s = (Inr r, s') \<and> stored_as stamp r (succeeding old t) \<and> invar s' \<and>
          rows s' = (rows s)(rt_TokenHash t \<mapsto> r, h \<mapsto> old\<lparr>rt_ReplacedBy := rt_ID t\<rparr>)"
    and revoke_known: "invar s \<Longrightarrow> rows s h = Some t \<Longrightarrow>
        \<exists>s'. revoke_op now (rt_FamilyID t) s = (Inr (), s') \<and> invar s' \<and>
          rows s' = revoked (stamp now) (rt_FamilyID t) (rows s)"

section \<open>What every ledger guarantees\<close>

definition family_dead :: "string \<Rightarrow> ledger \<Rightarrow> bool" where
  "family_dead fam L \<longleftrightarrow> (\<forall>h t. L h = Some t \<longrightarrow> rt_FamilyID t = fam \<longrightarrow> reuse_is_theft t)"

text \<open>At most one token of a family is still unused.\<close>

definition one_unused :: "ledger \<Rightarrow> bool" where
  "one_unused L \<longleftrightarrow> (\<forall>h h' t t'. L h = Some t \<longrightarrow> L h' = Some t' \<longrightarrow> rt_FamilyID t = rt_FamilyID t' \<longrightarrow>
     \<not> reuse_is_theft t \<longrightarrow> \<not> reuse_is_theft t' \<longrightarrow> h = h')"

lemma revoke_row_simps [simp]:
  "rt_FamilyID (revoke_row at fam r) = rt_FamilyID r" "rt_TokenHash (revoke_row at fam r) = rt_TokenHash r"
  "rt_ID (revoke_row at fam r) = rt_ID r" "rt_UserID (revoke_row at fam r) = rt_UserID r"
  "rt_ExpiresAt (revoke_row at fam r) = rt_ExpiresAt r" "rt_ReplacedBy (revoke_row at fam r) = rt_ReplacedBy r"
  by (simp_all add: revoke_row_def)

lemma revoke_row_theft:
  "reuse_is_theft (revoke_row at fam r) \<longleftrightarrow> reuse_is_theft r \<or> rt_FamilyID r = fam"
  by (auto simp: revoke_row_def reuse_is_theft_def rt_is_replaced_def rt_is_revoked_def)

lemma revoked_Some: "revoked at fam L h = Some t \<longleftrightarrow> (\<exists>r. L h = Some r \<and> t = revoke_row at fam r)"
  by (auto simp: revoked_def)

lemma family_dead_revoked: "family_dead fam (revoked at fam L)"
  by (auto simp: family_dead_def revoked_Some revoke_row_theft)

lemma family_dead_revoked_other: "family_dead fam L \<Longrightarrow> family_dead fam (revoked at fam' L)"
  by (auto simp: family_dead_def revoked_Some revoke_row_theft)

lemma one_unused_revoked: "one_unused L \<Longrightarrow> one_unused (revoked at fam L)"
  unfolding one_unused_def revoked_Some by (metis revoke_row_simps(1) revoke_row_theft)

lemma one_unused_new:
  assumes "one_unused L" "\<And>h t. L h = Some t \<Longrightarrow> rt_FamilyID t \<noteq> rt_FamilyID r"
  shows "one_unused (L(k \<mapsto> r))"
  using assms unfolding one_unused_def by (metis fun_upd_apply option.inject)

lemma replaced_theft [simp]: "i \<noteq> [] \<Longrightarrow> reuse_is_theft (t\<lparr>rt_ReplacedBy := i\<rparr>)"
  by (simp add: reuse_is_theft_def rt_is_replaced_def)

lemma one_unused_rotated:
  assumes one: "one_unused L" and old: "L h = Some old" "\<not> reuse_is_theft old" and i: "i \<noteq> []"
    and fam: "rt_FamilyID r = rt_FamilyID old" and new: "L k = None"
  shows "one_unused (L(k \<mapsto> r, h \<mapsto> old\<lparr>rt_ReplacedBy := i\<rparr>))"
proof -
  let ?L = "L(k \<mapsto> r, h \<mapsto> old\<lparr>rt_ReplacedBy := i\<rparr>)"
  have live: "x = k \<or> (L x = Some t \<and> rt_FamilyID t \<noteq> rt_FamilyID old)" if "?L x = Some t" "\<not> reuse_is_theft t" for x t
    using that old i one [unfolded one_unused_def, rule_format, of x t h old]
    by (auto simp: fun_upd_apply split: if_splits)
  have fam_k: "rt_FamilyID t = rt_FamilyID old" if "?L k = Some t" for t
    using that fam new old(1) by (auto simp: fun_upd_apply split: if_splits)
  show ?thesis
    unfolding one_unused_def
  proof (intro allI impI)
    fix x y t t'
    assume a: "?L x = Some t" "?L y = Some t'" "rt_FamilyID t = rt_FamilyID t'" "\<not> reuse_is_theft t" "\<not> reuse_is_theft t'"
    show "x = y"
      using live [OF a(1,4)] live [OF a(2,5)] fam_k a(1-3) one a(4,5)
      unfolding one_unused_def by metis
  qed
qed

text \<open>
  The calls of the service on a ledger, in any order: a session is opened with a new family, a
  presented token is rotated, a family is revoked, time passes. The rows they bring are new.
\<close>

inductive ledger_step ::
    "('s \<Rightarrow> ledger) \<Rightarrow> ('s \<Rightarrow> refresh_token \<Rightarrow> bool) \<Rightarrow>
     (time \<Rightarrow> refresh_token \<Rightarrow> 's \<Rightarrow> refresh_token res \<times> 's) \<Rightarrow>
     (time \<Rightarrow> string \<Rightarrow> refresh_token \<Rightarrow> 's \<Rightarrow> refresh_token res \<times> 's) \<Rightarrow>
     (time \<Rightarrow> string \<Rightarrow> 's \<Rightarrow> unit res \<times> 's) \<Rightarrow> time \<times> 's \<Rightarrow> time \<times> 's \<Rightarrow> bool"
  for rows accepts create rotate revoke where
  open_session: "unused_token t \<Longrightarrow> accepts s t \<Longrightarrow> rows s (rt_TokenHash t) = None \<Longrightarrow>
    \<forall>h r. rows s h = Some r \<longrightarrow> rt_FamilyID r \<noteq> rt_FamilyID t \<Longrightarrow> create now t s = (r, s') \<Longrightarrow>
    ledger_step rows accepts create rotate revoke (now, s) (now, s')"
| refresh_session: "unused_token t \<Longrightarrow> \<forall>old. rows s h = Some old \<longrightarrow> accepts s (succeeding old t) \<Longrightarrow>
    rows s (rt_TokenHash t) = None \<Longrightarrow> rotate now h t s = (r, s') \<Longrightarrow>
    ledger_step rows accepts create rotate revoke (now, s) (now, s')"
| close_session: "rows s h = Some t \<Longrightarrow> revoke now (rt_FamilyID t) s = (r', s') \<Longrightarrow>
    ledger_step rows accepts create rotate revoke (now, s) (now, s')"
| wait: "now \<le> later \<Longrightarrow> ledger_step rows accepts create rotate revoke (now, s) (later, s)"

inductive_cases ledger_stepE: "ledger_step rows accepts create rot revoke (now, s) (later, s')"

text \<open>What a step does to the ledger.\<close>

definition ledger_move :: "ledger \<Rightarrow> ledger \<Rightarrow> bool" where
  "ledger_move L L' \<longleftrightarrow> L' = L \<or>
     (\<exists>r. L (rt_TokenHash r) = None \<and> (\<forall>h t. L h = Some t \<longrightarrow> rt_FamilyID t \<noteq> rt_FamilyID r) \<and> L' = L(rt_TokenHash r \<mapsto> r)) \<or>
     (\<exists>r h old i. L (rt_TokenHash r) = None \<and> L h = Some old \<and> \<not> reuse_is_theft old \<and> i \<noteq> [] \<and>
        rt_FamilyID r = rt_FamilyID old \<and> L' = L(rt_TokenHash r \<mapsto> r, h \<mapsto> old\<lparr>rt_ReplacedBy := i\<rparr>)) \<or>
     (\<exists>at fam. L' = revoked at fam L)"

lemma move_one_unused: "ledger_move L L' \<Longrightarrow> one_unused L \<Longrightarrow> one_unused L'"
  unfolding ledger_move_def using one_unused_new one_unused_rotated one_unused_revoked by blast

text \<open>Rows are never deleted and keep their family.\<close>

lemma move_known:
  assumes "ledger_move L L'" "L h = Some t"
  shows "\<exists>t'. L' h = Some t' \<and> rt_FamilyID t' = rt_FamilyID t"
  using assms unfolding ledger_move_def by (elim disjE exE conjE) (auto simp: revoked_def)

lemma moves_known: "ledger_move\<^sup>*\<^sup>* L L' \<Longrightarrow> L h = Some t \<Longrightarrow> \<exists>t'. L' h = Some t' \<and> rt_FamilyID t' = rt_FamilyID t"
proof (induction rule: rtranclp_induct)
  case (step L1 L2)
  then obtain t' where "L1 h = Some t'" "rt_FamilyID t' = rt_FamilyID t" by blast
  with move_known [OF step.hyps(2)] show ?case by metis
qed blast

text \<open>A spent token stays spent, and in its family.\<close>

lemma move_spent:
  assumes "ledger_move L L'" "L h = Some t" "reuse_is_theft t"
  shows "\<exists>t'. L' h = Some t' \<and> reuse_is_theft t' \<and> rt_FamilyID t' = rt_FamilyID t"
proof -
  have "\<exists>t'. revoked at fam L h = Some t' \<and> reuse_is_theft t' \<and> rt_FamilyID t' = rt_FamilyID t" for at fam
    using assms(2,3) by (simp add: revoked_def revoke_row_theft)
  with assms show ?thesis unfolding ledger_move_def by (elim disjE exE conjE) auto
qed

text \<open>No step revives a family that has no unused token.\<close>

lemma move_dead:
  assumes m: "ledger_move L L'" and d: "family_dead fam L" and known: "L k = Some t" "rt_FamilyID t = fam"
  shows "family_dead fam L'"
  using m unfolding ledger_move_def
proof (elim disjE exE conjE)
  fix r assume "\<forall>h t. L h = Some t \<longrightarrow> rt_FamilyID t \<noteq> rt_FamilyID r" "L' = L(rt_TokenHash r \<mapsto> r)"
  moreover from this(1) known have "rt_FamilyID r \<noteq> fam" by metis
  ultimately show ?thesis using d by (auto simp: family_dead_def)
next
  fix r h old i assume "L h = Some old" "\<not> reuse_is_theft old" "rt_FamilyID r = rt_FamilyID old"
    "L' = L(rt_TokenHash r \<mapsto> r, h \<mapsto> old\<lparr>rt_ReplacedBy := i\<rparr>)"
  then show ?thesis using d by (auto simp: family_dead_def)
next
  fix at f assume "L' = revoked at f L"
  then show ?thesis using family_dead_revoked_other [OF d] by simp
qed (use d in simp)

lemma moves_one_unused: "ledger_move\<^sup>*\<^sup>* L L' \<Longrightarrow> one_unused L \<Longrightarrow> one_unused L'"
  by (induction rule: rtranclp_induct) (auto intro: move_one_unused)

lemma moves_spent:
  "ledger_move\<^sup>*\<^sup>* L L' \<Longrightarrow> L h = Some t \<Longrightarrow> reuse_is_theft t \<Longrightarrow>
     \<exists>t'. L' h = Some t' \<and> reuse_is_theft t' \<and> rt_FamilyID t' = rt_FamilyID t"
proof (induction rule: rtranclp_induct)
  case (step L1 L2)
  then obtain t' where "L1 h = Some t'" "reuse_is_theft t'" "rt_FamilyID t' = rt_FamilyID t" by blast
  with move_spent [OF step.hyps(2)] show ?case by metis
qed blast

lemma moves_dead:
  assumes "ledger_move\<^sup>*\<^sup>* L L'" "L h = Some t" "reuse_is_theft t" "family_dead (rt_FamilyID t) L"
  shows "family_dead (rt_FamilyID t) L'"
  using assms
proof (induction rule: rtranclp_induct)
  case (step L1 L2)
  obtain t' where "L1 h = Some t'" "rt_FamilyID t' = rt_FamilyID t"
    using moves_spent [OF step.hyps(1) step.prems(1,2)] by blast
  with move_dead [OF step.hyps(2)] step show ?case by blast
qed

context refresh_store
begin

text \<open>A token that was rotated is spent: presenting it again is theft and kills its whole family.\<close>

lemma rotated_is_spent:
  assumes "invar s" "rows s h = Some old" "rt_is_active old now" "unused_token t" "accepts s (succeeding old t)"
    "rows s (rt_TokenHash t) = None" "rotate_op now h t s = (r, s')"
  shows "\<exists>s''. rotate_op later h t' s' = (Inl ErrRefreshTokenReused, s'') \<and> invar s'' \<and>
     family_dead (rt_FamilyID old) (rows s'')"
proof -
  obtain s' where s': "invar s'" "rows s' h = Some (old\<lparr>rt_ReplacedBy := rt_ID t\<rparr>)" "s' = snd (rotate_op now h t s)"
    using rotate_active [OF assms(1-6)] by auto
  moreover have "reuse_is_theft (old\<lparr>rt_ReplacedBy := rt_ID t\<rparr>)"
    using assms(4) by (simp add: unused_token_def)
  ultimately show ?thesis
    using rotate_theft [OF s'(1,2), of later t'] assms(7)
      family_dead_revoked [of "rt_FamilyID old" "stamp later" "rows s'"] by fastforce
qed

text \<open>No token of a dead family rotates, whatever its expiry.\<close>

lemma dead_family_stays_dead:
  assumes "invar s" "rows s h = Some t" "family_dead (rt_FamilyID t) (rows s)"
  shows "fst (rotate_op now h u s) = Inl ErrRefreshTokenReused"
  using rotate_theft [OF assms(1,2), of now u] assms(2,3) by (auto simp: family_dead_def)


abbreviation step :: "time \<times> 's \<Rightarrow> time \<times> 's \<Rightarrow> bool" where
  "step \<equiv> ledger_step rows accepts create_op rotate_op revoke_op"

lemma step_moves:
  assumes "step (now, s) (later, s')" "invar s"
  shows "invar s' \<and> ledger_move (rows s) (rows s')"
  using assms(1)
proof (cases rule: ledger_stepE [consumes 1, case_names opens refreshes closes waits])
  case (opens t r)
  then obtain r' where "invar s'" "rows s' = (rows s)(rt_TokenHash t \<mapsto> r')" "stored_as stamp r' t"
    using create_ok [OF assms(2), of t now] by auto
  moreover then have "rt_TokenHash r' = rt_TokenHash t" "rt_FamilyID r' = rt_FamilyID t" by (simp_all add: stored_as_def)
  ultimately show ?thesis using opens unfolding ledger_move_def by metis
next
  case (refreshes t h r)
  show ?thesis
  proof (cases "rows s h")
    case None
    with refreshes rotate_unknown [OF assms(2)] assms(2) show ?thesis by (simp add: ledger_move_def)
  next
    case (Some old)
    consider "reuse_is_theft old" | "\<not> reuse_is_theft old" "rt_is_expired old now" | "rt_is_active old now" "\<not> reuse_is_theft old"
      by (auto simp: rt_is_active_def reuse_is_theft_def)
    then show ?thesis
    proof cases
      case 1
      with refreshes rotate_theft [OF assms(2) Some, of now t] show ?thesis by (auto simp: ledger_move_def)
    next
      case 2
      with refreshes rotate_expired [OF assms(2) Some, of now t] assms(2) show ?thesis by (auto simp: ledger_move_def)
    next
      case 3
      obtain r' where "invar s'" "stored_as stamp r' (succeeding old t)"
        "rows s' = (rows s)(rt_TokenHash t \<mapsto> r', h \<mapsto> old\<lparr>rt_ReplacedBy := rt_ID t\<rparr>)"
        using rotate_active [OF assms(2) Some 3(1), of t] refreshes Some by auto
      moreover then have "rt_TokenHash r' = rt_TokenHash t" "rt_FamilyID r' = rt_FamilyID old"
        by (simp_all add: stored_as_def succeeding_def)
      moreover have "rt_ID t \<noteq> []" using refreshes by (simp add: unused_token_def)
      ultimately show ?thesis
        using 3(2) Some refreshes unfolding ledger_move_def by metis
    qed
  qed
next
  case (closes h t r)
  with revoke_known [OF assms(2), of h t now] show ?thesis by (auto simp: ledger_move_def)
next
  case waits
  with assms(2) show ?thesis by (simp add: ledger_move_def)
qed

lemma run_moves:
  assumes "step\<^sup>*\<^sup>* (now, s) (later, s')" "invar s"
  shows "invar s'" "ledger_move\<^sup>*\<^sup>* (rows s) (rows s')"
proof -
  have "invar (snd c') \<and> ledger_move\<^sup>*\<^sup>* (rows (snd c)) (rows (snd c'))" if "step\<^sup>*\<^sup>* c c'" "invar (snd c)" for c c'
    using that
  proof (induction rule: rtranclp_induct)
    case (step c' c'')
    with step_moves [of "fst c'" "snd c'" "fst c''" "snd c''"] show ?case
      by (auto intro: rtranclp.rtrancl_into_rtrancl)
  qed simp
  from this [of "(now, s)" "(later, s')"] assms
  show "invar s'" "ledger_move\<^sup>*\<^sup>* (rows s) (rows s')" by auto
qed

text \<open>A consumed token is refused ever after, and its family stays dead once it is.\<close>

lemma spent_forever:
  assumes "step\<^sup>*\<^sup>* (now, s) (later, s')" "invar s" "rows s h = Some t" "reuse_is_theft t"
  shows "fst (rotate_op later h u s') = Inl ErrRefreshTokenReused"
proof -
  obtain t' where "rows s' h = Some t'" "reuse_is_theft t'"
    using moves_spent [OF run_moves(2) [OF assms(1,2)] assms(3,4)] by blast
  from rotate_theft [OF run_moves(1) [OF assms(1,2)] this, of later u] show ?thesis by auto
qed

lemma run_one_unused:
  assumes "step\<^sup>*\<^sup>* (now, s) (later, s')" "invar s" "one_unused (rows s)"
  shows "invar s'" "one_unused (rows s')"
  using run_moves [OF assms(1,2)] moves_one_unused assms(3) by blast+

end

end
