(* ===== verification/AuthPorts.thy ===== *)
theory AuthPorts
  imports AuthStore
begin

text \<open>
  The two ports of \<open>internal/application/auth/ports.go\<close> as the service uses them, over one state, and the
  contract it relies on: both stores, and that neither disturbs the other.
\<close>

record 's auth_ports =
  UsersCreate :: "string \<Rightarrow> time \<Rightarrow> user \<Rightarrow> 's \<Rightarrow> user res \<times> 's"
  UsersGetByEmail :: "string \<Rightarrow> 's \<Rightarrow> user res"
  UsersGetByID :: "string \<Rightarrow> 's \<Rightarrow> user res"
  TokensCreate :: "time \<Rightarrow> refresh_token \<Rightarrow> 's \<Rightarrow> refresh_token res \<times> 's"
  TokensGetByHash :: "string \<Rightarrow> 's \<Rightarrow> refresh_token res"
  TokensRotate :: "time \<Rightarrow> string \<Rightarrow> refresh_token \<Rightarrow> 's \<Rightarrow> refresh_token res \<times> 's"
  TokensRevokeFamily :: "time \<Rightarrow> string \<Rightarrow> 's \<Rightarrow> unit res \<times> 's"

text \<open>\<open>fresh_id\<close>: a generated row key; \<open>family_id\<close>: what the family column holds.\<close>

locale auth_stores =
  us: user_store invar accounts fold_email creatable usable_id "UsersCreate P" "UsersGetByEmail P" "UsersGetByID P" +
  rt: refresh_store invar tokens stamp accepts "TokensCreate P" "TokensGetByHash P" "TokensRotate P" "TokensRevokeFamily P"
  for P :: "'s auth_ports" and invar :: "'s \<Rightarrow> bool" and accounts :: "'s \<Rightarrow> user set" and fold_email :: "string \<Rightarrow> string"
    and creatable :: "user \<Rightarrow> bool" and usable_id :: "'s \<Rightarrow> string \<Rightarrow> bool" and tokens :: "'s \<Rightarrow> ledger"
    and stamp :: "time \<Rightarrow> time" and accepts :: "'s \<Rightarrow> refresh_token \<Rightarrow> bool" +
  fixes fresh_id :: "'s \<Rightarrow> string \<Rightarrow> bool"
    and family_id :: "string \<Rightarrow> bool"
  assumes create_user_keeps: "UsersCreate P i now u s = (r, s') \<Longrightarrow> tokens s' = tokens s \<and> fresh_id s' = fresh_id s"
    and create_token_keeps: "TokensCreate P now t s = (rt, s') \<Longrightarrow> accounts s' = accounts s"
    and rotate_keeps: "TokensRotate P now h t s = (rt, s') \<Longrightarrow> accounts s' = accounts s"
    and revoke_keeps: "TokensRevokeFamily P now f s = (ru, s') \<Longrightarrow> accounts s' = accounts s"
    and accepts_owned: "invar s \<Longrightarrow> u \<in> accounts s \<Longrightarrow> rt_UserID t = u_ID u \<Longrightarrow> fresh_id s (rt_ID t) \<Longrightarrow>
        family_id (rt_FamilyID t) \<Longrightarrow> accepts s t"
    and fresh_nonempty: "fresh_id s i \<Longrightarrow> i \<noteq> []"
    and family_known: "invar s \<Longrightarrow> tokens s h = Some t \<Longrightarrow> family_id (rt_FamilyID t)"

section \<open>A store that is part of a larger state\<close>

definition on_part :: "('s \<Rightarrow> 'p) \<Rightarrow> ('s \<Rightarrow> 'p \<Rightarrow> 's) \<Rightarrow> ('p \<Rightarrow> 'r \<times> 'p) \<Rightarrow> 's \<Rightarrow> 'r \<times> 's" where
  "on_part get put op s = (case op (get s) of (r, p) \<Rightarrow> (r, put s p))"

lemma on_part_eq: "op (get s) = (r, p) \<Longrightarrow> on_part get put op s = (r, put s p)"
  by (simp add: on_part_def)

lemma user_store_part:
  fixes get :: "'s \<Rightarrow> 'p" and put :: "'s \<Rightarrow> 'p \<Rightarrow> 's"
  assumes st: "user_store invar rows fold_email creatable usable create by_email by_id"
    and get_put: "\<And>s x. get (put s x) = x" and put_get: "\<And>s. put s (get s) = s" and rest: "\<And>s x. J (put s x) = J s"
  shows "user_store (\<lambda>s. invar (get s) \<and> J s) (\<lambda>s. rows (get s)) fold_email creatable (\<lambda>s. usable (get s))
     (\<lambda>i now u. on_part get put (create i now u)) (\<lambda>e s. by_email e (get s)) (\<lambda>i s. by_id i (get s))"
proof
  fix s s' :: 's and u v :: user and i e :: string and now :: time
  assume inv: "invar (get s) \<and> J s"
  then have ok: "invar (get s)" and J: "J s" by simp_all
  show "u = v" if "u \<in> rows (get s)" "v \<in> rows (get s)" "fold_email (u_Email u) = fold_email (u_Email v)"
    using user_store.emails_unique [OF st ok that] .
  show "by_email e (get s) = Inr u" if "u \<in> rows (get s)" "fold_email (u_Email u) = fold_email e"
    using user_store.by_email [OF st ok that] .
  show "by_email e (get s) = Inl ErrUserNotFound" if "\<not> email_taken fold_email (rows (get s)) e"
    using user_store.by_email_none [OF st ok that] .
  show "by_id (u_ID u) (get s) = Inr u" if "u \<in> rows (get s)"
    using user_store.by_id [OF st ok that] .
  show "on_part get put (create i now u) s = (Inl ErrEmailTaken, s)"
    if "new_customer u" "creatable u" "email_taken fold_email (rows (get s)) (u_Email u)"
    using on_part_eq [of "create i now u" get s, OF user_store.create_taken [OF st ok that]] by (simp add: put_get)
  show "\<exists>v s'. on_part get put (create i now u) s = (Inr v, s') \<and> same_account v u \<and> u_ID v = i \<and>
      rows (get s') = insert v (rows (get s)) \<and> invar (get s') \<and> J s'"
    if a: "new_customer u" "creatable u" "usable (get s) i" "\<not> email_taken fold_email (rows (get s)) (u_Email u)"
  proof -
    obtain v p where "create i now u (get s) = (Inr v, p)" "same_account v u" "u_ID v = i"
      "rows p = insert v (rows (get s))" "invar p"
      using user_store.create_free [OF st ok a, of now] by blast
    then show ?thesis using on_part_eq [of "create i now u" get s] J by (auto simp: get_put rest)
  qed
qed

lemma refresh_store_part:
  fixes get :: "'s \<Rightarrow> 'p" and put :: "'s \<Rightarrow> 'p \<Rightarrow> 's"
  assumes st: "refresh_store invar rows stamp accepts create by_hash rot revoke"
    and put_get: "\<And>s. put s (get s) = s" and rest: "\<And>s x. J (put s x) = J s"
    and get_put: "\<And>s now t r p. create now t (get s) = (r, p) \<Longrightarrow> get (put s p) = p"
      "\<And>s now h t r p. rot now h t (get s) = (r, p) \<Longrightarrow> get (put s p) = p"
      "\<And>s now f r p. revoke now f (get s) = (r, p) \<Longrightarrow> get (put s p) = p"
  shows "refresh_store (\<lambda>s. invar (get s) \<and> J s) (\<lambda>s. rows (get s)) stamp (\<lambda>s. accepts (get s))
     (\<lambda>now t. on_part get put (create now t)) (\<lambda>h s. by_hash h (get s))
     (\<lambda>now h t. on_part get put (rot now h t)) (\<lambda>now f. on_part get put (revoke now f))"
proof
  fix s s' :: 's and h :: string and t old :: refresh_token and now :: time
  assume inv: "invar (get s) \<and> J s"
  then have ok: "invar (get s)" and J: "J s" by simp_all
  show "rt_TokenHash t = h" if "rows (get s) h = Some t" using refresh_store.rows_hash [OF st ok that] .
  show "by_hash h (get s) = (case rows (get s) h of None \<Rightarrow> Inl ErrRefreshTokenUnknown | Some t \<Rightarrow> Inr t)"
    using refresh_store.by_hash [OF st ok] .
  show "on_part get put (rot now h t) s = (Inl ErrRefreshTokenUnknown, s)" if "rows (get s) h = None"
    using on_part_eq [of "rot now h t" get s, OF refresh_store.rotate_unknown [OF st ok that]] by (simp add: put_get)
  show "on_part get put (rot now h t) s = (Inl ErrRefreshTokenExpired, s)"
    if "rows (get s) h = Some old" "\<not> reuse_is_theft old" "rt_is_expired old now"
    using on_part_eq [of "rot now h t" get s, OF refresh_store.rotate_expired [OF st ok that]] by (simp add: put_get)
  show "\<exists>r s'. on_part get put (create now t) s = (Inr r, s') \<and> stored_as stamp r t \<and> (invar (get s') \<and> J s') \<and>
      rows (get s') = (rows (get s))(rt_TokenHash t \<mapsto> r)"
    if a: "unused_token t" "accepts (get s) t" "rows (get s) (rt_TokenHash t) = None"
  proof -
    obtain r p where c: "create now t (get s) = (Inr r, p)" and p: "stored_as stamp r t" "invar p"
      "rows p = (rows (get s))(rt_TokenHash t \<mapsto> r)" using refresh_store.create_ok [OF st ok a, of now] by blast
    show ?thesis using on_part_eq [of "create now t" get s, OF c] get_put(1) [OF c] p J by (auto simp: rest)
  qed
  show "\<exists>s'. on_part get put (rot now h t) s = (Inl ErrRefreshTokenReused, s') \<and> (invar (get s') \<and> J s') \<and>
      rows (get s') = revoked (stamp now) (rt_FamilyID old) (rows (get s))"
    if a: "rows (get s) h = Some old" "reuse_is_theft old"
  proof -
    obtain p where c: "rot now h t (get s) = (Inl ErrRefreshTokenReused, p)" and p: "invar p"
      "rows p = revoked (stamp now) (rt_FamilyID old) (rows (get s))"
      using refresh_store.rotate_theft [OF st ok a, of now t] by blast
    show ?thesis using on_part_eq [of "rot now h t" get s, OF c] get_put(2) [OF c] p J by (auto simp: rest)
  qed
  show "\<exists>r s'. on_part get put (rot now h t) s = (Inr r, s') \<and> stored_as stamp r (succeeding old t) \<and> (invar (get s') \<and> J s') \<and>
      rows (get s') = (rows (get s))(rt_TokenHash t \<mapsto> r, h \<mapsto> old\<lparr>rt_ReplacedBy := rt_ID t\<rparr>)"
    if a: "rows (get s) h = Some old" "rt_is_active old now" "unused_token t" "accepts (get s) (succeeding old t)"
      "rows (get s) (rt_TokenHash t) = None"
  proof -
    obtain r p where c: "rot now h t (get s) = (Inr r, p)" and p: "stored_as stamp r (succeeding old t)" "invar p"
      "rows p = (rows (get s))(rt_TokenHash t \<mapsto> r, h \<mapsto> old\<lparr>rt_ReplacedBy := rt_ID t\<rparr>)"
      using refresh_store.rotate_active [OF st ok a] by blast
    show ?thesis using on_part_eq [of "rot now h t" get s, OF c] get_put(2) [OF c] p J by (auto simp: rest)
  qed
  show "\<exists>s'. on_part get put (revoke now (rt_FamilyID t)) s = (Inr (), s') \<and> (invar (get s') \<and> J s') \<and>
      rows (get s') = revoked (stamp now) (rt_FamilyID t) (rows (get s))" if a: "rows (get s) h = Some t"
  proof -
    obtain p where c: "revoke now (rt_FamilyID t) (get s) = (Inr (), p)" and p: "invar p"
      "rows p = revoked (stamp now) (rt_FamilyID t) (rows (get s))"
      using refresh_store.revoke_known [OF st ok a, of now] by blast
    show ?thesis using on_part_eq [of "revoke now (rt_FamilyID t)" get s, OF c] get_put(3) [OF c] p J by (auto simp: rest)
  qed
qed

end
