(* ===== verification/Base64.thy ===== *)
theory Base64
  imports GoStrings
begin

text \<open>
  \<open>encoding/base64\<close> without padding, in its two alphabets: \<open>RawStdEncoding\<close> (password hashes)
  and \<open>RawURLEncoding\<close> (refresh tokens). Decoding skips carriage returns and newlines wherever they
  stand and, not being strict, ignores the unused low bits of the last character.
\<close>

definition b64_char :: "bool \<Rightarrow> nat \<Rightarrow> char" where
  "b64_char url n =
     (if n < 26 then chr (65 + n) else if n < 52 then chr (71 + n) else if n < 62 then chr (n - 4)
      else if n = 62 then (if url then CHR ''-'' else CHR ''+'')
      else (if url then CHR ''_'' else CHR ''/''))"

definition b64_value :: "bool \<Rightarrow> char \<Rightarrow> nat option" where
  "b64_value url c =
     (if 65 \<le> byte c \<and> byte c \<le> 90 then Some (byte c - 65)
      else if 97 \<le> byte c \<and> byte c \<le> 122 then Some (byte c - 71)
      else if 48 \<le> byte c \<and> byte c \<le> 57 then Some (byte c + 4)
      else if c = (if url then CHR ''-'' else CHR ''+'') then Some 62
      else if c = (if url then CHR ''_'' else CHR ''/'') then Some 63
      else None)"

text \<open>Three bytes are four groups of six bits.\<close>

fun sextets :: "nat list \<Rightarrow> nat list" where
  "sextets (a # b # c # r) = (a div 4) # ((a mod 4) * 16 + b div 16) # ((b mod 16) * 4 + c div 64) # (c mod 64) # sextets r"
| "sextets [a, b] = [a div 4, (a mod 4) * 16 + b div 16, (b mod 16) * 4]"
| "sextets [a] = [a div 4, (a mod 4) * 16]"
| "sextets [] = []"

fun octets :: "nat list \<Rightarrow> nat list option" where
  "octets (w # x # y # z # r) =
     map_option (\<lambda>bs. (w * 4 + x div 16) # ((x mod 16) * 16 + y div 4) # ((y mod 4) * 64 + z) # bs) (octets r)"
| "octets [w, x, y] = Some [w * 4 + x div 16, (x mod 16) * 16 + y div 4]"
| "octets [w, x] = Some [w * 4 + x div 16]"
| "octets [w] = None"
| "octets [] = Some []"

definition b64_encode :: "bool \<Rightarrow> string \<Rightarrow> string" where
  "b64_encode url s = map (b64_char url) (sextets (map byte s))"

definition b64_decode :: "bool \<Rightarrow> string \<Rightarrow> string option" where
  "b64_decode url s =
     (let cs = filter (\<lambda>c. byte c \<noteq> 10 \<and> byte c \<noteq> 13) s in
      if list_ex (\<lambda>c. b64_value url c = None) cs then None
      else map_option (map chr) (octets (map (\<lambda>c. the (b64_value url c)) cs)))"

section \<open>Lemmas\<close>

lemma sextets_less: "list_all (\<lambda>b. b < 256) bs \<Longrightarrow> list_all (\<lambda>n. n < 64) (sextets bs)"
  by (induction bs rule: sextets.induct) (auto simp: less_mult_imp_div_less)

lemma octets_sextets: "list_all (\<lambda>b. b < 256) bs \<Longrightarrow> octets (sextets bs) = Some bs"
  by (induction bs rule: sextets.induct) (auto simp: less_mult_imp_div_less)

lemma byte_eq_lit: "c = d \<longleftrightarrow> byte c = byte d"
  by simp

lemma b64_value_char:
  assumes "n < 64" shows "b64_value url (b64_char url n) = Some n"
proof -
  have lit: "byte CHR ''-'' = 45" "byte CHR ''+'' = 43" "byte CHR ''_'' = 95" "byte CHR ''/'' = 47"
    by (simp_all add: byte_def)
  consider "n < 26" | "26 \<le> n" "n < 52" | "52 \<le> n" "n < 62" | "n = 62" | "n = 63" using assms by linarith
  then show ?thesis by cases (auto simp: b64_value_def b64_char_def lit)
qed

lemma b64_char_alphabet:
  assumes "n < 64"
  shows "b64_char url n \<noteq> CHR ''$''" "byte (b64_char url n) \<noteq> 10" "byte (b64_char url n) \<noteq> 13"
proof -
  have "b64_value url CHR ''$'' = None" by (simp add: b64_value_def byte_def)
  moreover have "b64_value url c = None" if "byte c = 10 \<or> byte c = 13" for c
  proof -
    have "c \<noteq> CHR ''+'' \<and> c \<noteq> CHR ''-'' \<and> c \<noteq> CHR ''/'' \<and> c \<noteq> CHR ''_''" using that by (auto simp: byte_def)
    with that show ?thesis by (auto simp: b64_value_def)
  qed
  ultimately show "b64_char url n \<noteq> CHR ''$''" "byte (b64_char url n) \<noteq> 10" "byte (b64_char url n) \<noteq> 13"
    using b64_value_char [OF assms, of url] by force+
qed

lemma b64_encode_no_dollar: "CHR ''$'' \<notin> set (b64_encode url s)"
proof -
  have "n < 64" if "n \<in> set (sextets (map byte s))" for n
    using sextets_less [of "map byte s"] that by (simp add: list_all_iff)
  then show ?thesis using b64_char_alphabet(1) by (force simp: b64_encode_def)
qed

lemma b64_roundtrip: "b64_decode url (b64_encode url s) = Some s"
proof -
  let ?ns = "sextets (map byte s)"
  have small: "n < 64" if "n \<in> set ?ns" for n
    using sextets_less [of "map byte s"] that by (simp add: list_all_iff)
  have f: "filter (\<lambda>c. byte c \<noteq> 10 \<and> byte c \<noteq> 13) (b64_encode url s) = b64_encode url s"
    using small b64_char_alphabet(2,3) by (auto simp: b64_encode_def intro!: filter_True)
  have v: "map (\<lambda>c. the (b64_value url c)) (b64_encode url s) = ?ns"
    using small by (simp add: b64_encode_def comp_def b64_value_char cong: map_cong)
  have n: "\<not> list_ex (\<lambda>c. b64_value url c = None) (b64_encode url s)"
    using small b64_value_char by (auto simp: b64_encode_def list_ex_iff)
  have "octets ?ns = Some (map byte s)" by (rule octets_sextets) (simp add: list_all_iff)
  with f v n show ?thesis by (simp add: b64_decode_def comp_def)
qed

lemma b64_encode_empty: "b64_encode url s = [] \<longleftrightarrow> s = []"
  using b64_roundtrip [of url s] b64_roundtrip [of url "[]"] by (auto simp: b64_encode_def)

end
