(* ===== verification/PasswordHasher.thy ===== *)
theory PasswordHasher
  imports Base64 Errors
begin

text \<open>
  \<open>internal/application/auth/hasher.go\<close>. \<open>argon2.IDKey\<close> (golang.org/x/crypto) is the argument
  \<open>idkey\<close>; \<open>None\<close> is its panic. The random salt is an argument as well.
\<close>

unbundle bit_operations_syntax

section \<open>\<open>fmt.Sscanf\<close>\<close>

text \<open>The directives of the formats used: literal bytes, \<open>%d\<close> into an \<open>int\<close> and into a \<open>uint32\<close>.\<close>

datatype scan_item = Lit char | ScanInt | ScanUint32

text \<open>Blanks before a verb are skipped; a newline is not a blank in a format scan.\<close>

definition skip_blanks :: "string \<Rightarrow> string option" where
  "skip_blanks s =
     (let s' = trim_front (filter (\<lambda>e. e \<noteq> [chr 10]) space_encodings) (length s) s
      in if s' \<noteq> [] \<and> hd s' = chr 10 then None else Some s')"

definition scan_digits_of :: "string \<Rightarrow> (nat \<times> string) option" where
  "scan_digits_of s =
     (let ds = takeWhile is_digit s in
      if ds = [] then None
      else map_option (\<lambda>n. (n, dropWhile is_digit s)) (digits_value 0 ds))"

definition scan_sint :: "string \<Rightarrow> (int \<times> string) option" where
  "scan_sint s =
     (let neg = (s \<noteq> [] \<and> hd s = CHR ''-'');
          s = (if s \<noteq> [] \<and> (hd s = CHR ''-'' \<or> hd s = CHR ''+'') then tl s else s)
      in case scan_digits_of s of
           None \<Rightarrow> None
         | Some (n, r) \<Rightarrow>
             let i = (if neg then - int n else int n)
             in if int64_range i then Some (i, r) else None)"

definition scan_uint32 :: "string \<Rightarrow> (int \<times> string) option" where
  "scan_uint32 s =
     (case scan_digits_of s of
        None \<Rightarrow> None
      | Some (n, r) \<Rightarrow> if n < 2 ^ 32 then Some (int n, r) else None)"

text \<open>What follows the last directive is left unread.\<close>

fun sscanf :: "scan_item list \<Rightarrow> string \<Rightarrow> int list option" where
  "sscanf [] s = Some []"
| "sscanf (Lit c # fs) s = (case s of [] \<Rightarrow> None | d # r \<Rightarrow> if c = d then sscanf fs r else None)"
| "sscanf (ScanInt # fs) s =
     (case skip_blanks s of
        None \<Rightarrow> None
      | Some s \<Rightarrow> (case scan_sint s of None \<Rightarrow> None | Some (i, r) \<Rightarrow> map_option ((#) i) (sscanf fs r)))"
| "sscanf (ScanUint32 # fs) s =
     (case skip_blanks s of
        None \<Rightarrow> None
      | Some s \<Rightarrow> (case scan_uint32 s of None \<Rightarrow> None | Some (i, r) \<Rightarrow> map_option ((#) i) (sscanf fs r)))"

section \<open>Parameters\<close>

record argon2_params =
  ap_MemoryKiB :: "32 word"
  ap_Time :: "32 word"
  ap_Parallelism :: "8 word"
  ap_KeyLen :: "32 word"
  ap_SaltLen :: "32 word"

definition DefaultArgon2Params :: argon2_params where
  "DefaultArgon2Params = \<lparr>ap_MemoryKiB = 65536, ap_Time = 3, ap_Parallelism = 2, ap_KeyLen = 32, ap_SaltLen = 16\<rparr>"

definition argon2_valid :: "argon2_params \<Rightarrow> unit res" where
  "argon2_valid p =
     (if ap_MemoryKiB p < 8 * ucast (ap_Parallelism p)
      then Inl (Errorf ''auth: argon2 memory %d KiB below minimum 8*p=%d''
             [ArgI (uint (ap_MemoryKiB p)), ArgI (uint (8 * ucast (ap_Parallelism p) :: 32 word))] [])
      else if ap_Time p < 1 \<or> ap_Parallelism p < 1 \<or> ap_KeyLen p < 1 \<or> ap_SaltLen p < 1
      then Inl (ErrorsNew ''auth: argon2 parameters must all be positive'')
      else Inr ())"

section \<open>Hash and verify\<close>

type_synonym idkey = "string \<Rightarrow> string \<Rightarrow> 32 word \<Rightarrow> 32 word \<Rightarrow> 8 word \<Rightarrow> 32 word \<Rightarrow> string option"

definition argon2Version :: int where
  "argon2Version = 19"

text \<open>\<open>entropy\<close> is what \<open>rand.Read\<close> gave for the salt.\<close>

definition argon2_hash :: "idkey \<Rightarrow> argon2_params \<Rightarrow> string res \<Rightarrow> string \<Rightarrow> string res option" where
  "argon2_hash idkey p entropy password =
     (case entropy of
        Inl err \<Rightarrow> Some (Inl (Errorf ''auth: generate salt: %w'' [] [err]))
      | Inr salt \<Rightarrow>
          (case idkey password salt (ap_Time p) (ap_MemoryKiB p) (ap_Parallelism p) (ap_KeyLen p) of
             None \<Rightarrow> None
           | Some key \<Rightarrow> Some (Inr (''$argon2id$v='' @ itoa argon2Version @
               ''$m='' @ itoa (uint (ap_MemoryKiB p)) @ '',t='' @ itoa (uint (ap_Time p)) @
               '',p='' @ itoa (uint (ap_Parallelism p)) @
               ''$'' @ b64_encode False salt @ ''$'' @ b64_encode False key))))"

definition argon2_format :: "scan_item list" where
  "argon2_format = [Lit (CHR ''m''), Lit (CHR ''=''), ScanUint32, Lit (CHR '',''), Lit (CHR ''t''), Lit (CHR ''=''), ScanUint32,
     Lit (CHR '',''), Lit (CHR ''p''), Lit (CHR ''=''), ScanUint32]"

definition argon2_verify :: "idkey \<Rightarrow> string \<Rightarrow> string \<Rightarrow> bool res option" where
  "argon2_verify idkey hash password =
     (let parts = split_on CHR ''$'' hash in
      if length parts \<noteq> 6 \<or> parts ! 1 \<noteq> ''argon2id'' then Some (Inr False)
      else if sscanf [Lit (CHR ''v''), Lit (CHR ''=''), ScanInt] (parts ! 2) \<noteq> Some [argon2Version] then Some (Inr False)
      else case sscanf argon2_format (parts ! 3) of
          Some [m, t, p] \<Rightarrow>
            if p > 255 then Some (Inl (Errorf ''auth: argon2 parallelism %d out of range'' [ArgI p] []))
            else (case b64_decode False (parts ! 4) of
                None \<Rightarrow> Some (Inl (Errorf ''auth: decode argon2 salt: %w'' [] [Infra ''base64'']))
              | Some salt \<Rightarrow>
                  (case b64_decode False (parts ! 5) of
                     None \<Rightarrow> Some (Inl (Errorf ''auth: decode argon2 hash: %w'' [] [Infra ''base64'']))
                   | Some want \<Rightarrow>
                       (case idkey password salt (word_of_int t) (word_of_int m) (word_of_int p) (of_nat (length want)) of
                          None \<Rightarrow> None
                        | Some got \<Rightarrow> Some (Inr (got = want)))))
        | _ \<Rightarrow> Some (Inl (Errorf ''auth: parse argon2 parameters: %w'' [] [Infra ''fmt.Sscanf''])))"

section \<open>What a scan reads back\<close>

lemma skip_blanks_digit: "is_digit c \<Longrightarrow> skip_blanks (c # s) = Some (c # s)"
proof -
  assume c: "is_digit c"
  then have "visible c" by (simp add: is_digit_def visible_def)
  then have "list_all (\<lambda>p. p \<noteq> [] \<and> hd p \<noteq> c) (filter (\<lambda>e. e \<noteq> [chr 10]) space_encodings)"
    using space_ends by (auto simp: list_all_iff)
  note t = trim_front_id [OF this]
  have "c \<noteq> chr 10" using c by (auto simp: is_digit_def)
  then show ?thesis by (simp add: skip_blanks_def t del: trim_front.simps)
qed

lemma scan_digits_append:
  assumes "r = [] \<or> \<not> is_digit (hd r)"
  shows "scan_digits_of (digits_of n @ r) = Some (n, r)"
proof -
  have d: "is_digit c" if "c \<in> set (digits_of n)" for c using digits_of_digits that by blast
  have "takeWhile is_digit (digits_of n @ r) = digits_of n" "dropWhile is_digit (digits_of n @ r) = r"
    using assms d by (cases r; simp add: takeWhile_append2 dropWhile_append2)+
  then show ?thesis by (simp add: scan_digits_of_def digits_value_digits_of)
qed

lemma digits_lead: "\<exists>c s. digits_of n = c # s \<and> is_digit c"
  using digits_of_digits [of n] by (cases "digits_of n") auto

lemma sscanf_uint32:
  assumes "r = [] \<or> \<not> is_digit (hd r)" "n < 2 ^ 32"
  shows "sscanf (ScanUint32 # fs) (digits_of n @ r) = map_option ((#) (int n)) (sscanf fs r)"
proof -
  obtain c s where c: "digits_of n = c # s" "is_digit c" using digits_lead by blast
  then have "skip_blanks (digits_of n @ r) = Some (digits_of n @ r)" using skip_blanks_digit by simp
  then show ?thesis using assms scan_digits_append [OF assms(1), of n] by (simp add: scan_uint32_def)
qed

lemma itoa_uint: "itoa (uint w) = digits_of (unat w)"
  unfolding itoa_def using uint_ge_0 [of w] by (simp only: unat_eq_nat_uint not_less [symmetric] if_False)

lemma itoa_uint_no_dollar: "CHR ''$'' \<notin> set (digits_of n)"
  using digits_of_digits [of n] by (auto simp: is_digit_def byte_def)

lemma argon2_format_read:
  assumes "m < 2 ^ 32" "t < 2 ^ 32" "p < 2 ^ 32"
  shows "sscanf argon2_format (''m='' @ digits_of m @ '',t='' @ digits_of t @ '',p='' @ digits_of p) = Some [int m, int t, int p]"
proof -
  have nd: "\<not> is_digit CHR '',''" by (simp add: is_digit_def byte_def)
  have "sscanf [ScanUint32] (digits_of p) = Some [int p]" using sscanf_uint32 [of "[]" p "[]"] assms(3) by simp
  then show ?thesis
    using sscanf_uint32 [of "'',t='' @ digits_of t @ '',p='' @ digits_of p" m] sscanf_uint32 [of "'',p='' @ digits_of p" t] assms nd
    by (simp add: argon2_format_def)
qed

lemma argon2_version_read: "sscanf [Lit (CHR ''v''), Lit (CHR ''=''), ScanInt] (''v='' @ itoa argon2Version) = Some [argon2Version]"
proof -
  have "digits_of 19 = ''19''" by code_simp
  moreover have "skip_blanks ''19'' = Some ''19''" using skip_blanks_digit [of "CHR ''1''" "''9''"] by (simp add: is_digit_def byte_def)
  moreover have "scan_digits_of ''19'' = Some (19, [])" using scan_digits_append [of "[]" 19] calculation(1) by simp
  ultimately show ?thesis by (simp add: argon2Version_def itoa_def scan_sint_def int64_range_def)
qed

lemma phc_split:
  assumes "\<forall>s \<in> {a, b, c, d, e}. CHR ''$'' \<notin> set s"
  shows "split_on CHR ''$'' (''$'' @ a @ ''$'' @ b @ ''$'' @ c @ ''$'' @ d @ ''$'' @ e) = [[], a, b, c, d, e]"
proof -
  have "split_on CHR ''$'' (a @ CHR ''$'' # b @ CHR ''$'' # c @ CHR ''$'' # d @ CHR ''$'' # e) = [a, b, c, d, e]"
    using assms by (simp add: split_on_append split_on_none)
  then show ?thesis by simp
qed

lemma verify_parts:
  assumes "split_on CHR ''$'' h = [[], ''argon2id'', v, ps, b64_encode False salt, b64_encode False want]"
    and "sscanf [Lit (CHR ''v''), Lit (CHR ''=''), ScanInt] v = Some [argon2Version]"
    and "sscanf argon2_format ps = Some [m, t, p]" and "p < 256"
  shows "argon2_verify idkey h pw =
     map_option (\<lambda>got. Inr (got = want)) (idkey pw salt (word_of_int t) (word_of_int m) (word_of_int p) (of_nat (length want)))"
  using assms(4) unfolding argon2_verify_def assms(1) Let_def
  by (simp add: assms(2,3) b64_roundtrip del: sscanf.simps split: option.split)

section \<open>The contract\<close>

text \<open>\<open>IDKey\<close> returns a key of the length asked for, when time and threads are positive.\<close>

locale argon2 =
  fixes idkey :: idkey
  assumes idkey_length: "1 \<le> t \<Longrightarrow> 1 \<le> p \<Longrightarrow> 1 \<le> n \<Longrightarrow> \<exists>k. idkey pw salt t m p n = Some k \<and> length k = unat n"
begin

lemma hash_ok:
  assumes "argon2_valid p = Inr ()"
  shows "\<exists>h. argon2_hash idkey p (Inr salt) pw = Some (Inr h) \<and>
     (\<forall>pw'. argon2_verify idkey h pw' = Some (Inr
        (idkey pw' salt (ap_Time p) (ap_MemoryKiB p) (ap_Parallelism p) (ap_KeyLen p) =
         idkey pw salt (ap_Time p) (ap_MemoryKiB p) (ap_Parallelism p) (ap_KeyLen p))))"
proof -
  let ?key = "\<lambda>pw. idkey pw salt (ap_Time p) (ap_MemoryKiB p) (ap_Parallelism p) (ap_KeyLen p)"
  have pos: "1 \<le> ap_Time p" "1 \<le> ap_Parallelism p" "1 \<le> ap_KeyLen p"
    using assms by (auto simp: argon2_valid_def word_le_nat_alt unat_gt_0 Suc_le_eq split: if_splits)
  have k: "\<exists>k. ?key pw = Some k \<and> length k = unat (ap_KeyLen p)" for pw by (rule idkey_length [OF pos])
  then obtain key where key: "?key pw = Some key" "length key = unat (ap_KeyLen p)" by blast
  let ?m = "unat (ap_MemoryKiB p)" and ?t = "unat (ap_Time p)" and ?p = "unat (ap_Parallelism p)"
  let ?v = "''v='' @ itoa argon2Version"
    and ?ps = "''m='' @ digits_of ?m @ '',t='' @ digits_of ?t @ '',p='' @ digits_of ?p"
  let ?h = "''$'' @ ''argon2id'' @ ''$'' @ ?v @ ''$'' @ ?ps @ ''$'' @ b64_encode False salt @ ''$'' @ b64_encode False key"
  have p: "?m < 2 ^ 32" "?t < 2 ^ 32" "?p < 256"
    using unsigned_less [of "ap_MemoryKiB p"] unsigned_less [of "ap_Time p"] unsigned_less [of "ap_Parallelism p"] by simp_all
  have "\<forall>s \<in> {''argon2id'', ?v, ?ps, b64_encode False salt, b64_encode False key}. CHR ''$'' \<notin> set s"
    using itoa_uint_no_dollar b64_encode_no_dollar by (simp add: itoa_def argon2Version_def)
  from verify_parts [OF phc_split [OF this] argon2_version_read argon2_format_read [OF p(1,2), of ?p], where idkey = idkey]
  have "int ?p < 256 \<Longrightarrow> argon2_verify idkey ?h pw' = map_option (\<lambda>got. Inr (got = key)) (?key pw')" for pw'
    by (simp add: key(2))
  moreover have "int ?p < 256" using p(3) by linarith
  moreover have "map_option (\<lambda>got. Inr (got = key)) (?key pw') = Some (Inr (?key pw' = ?key pw))" for pw'
    using k [of pw'] key(1) by auto
  moreover have "argon2_hash idkey p (Inr salt) pw = Some (Inr ?h)"
    using key(1) by (simp add: argon2_hash_def itoa_uint)
  ultimately show ?thesis by simp
qed

end

text \<open>A key derivation that keeps the password readable, to evaluate the model with.\<close>

definition plain_idkey :: idkey where
  "plain_idkey pw salt t m p n =
     (if t = 0 \<or> p = 0 \<or> n = 0 then None
      else Some (take (unat n) (pw @ salt @ replicate (unat n) CHR ''.'')))"

interpretation plain_argon2: argon2 plain_idkey
  by unfold_locales (auto simp: plain_idkey_def word_le_nat_alt unat_gt_0)

end
