(* ===== verification/AccessToken.thy ===== *)
theory AccessToken
  imports DomainUser Crypto
begin

text \<open>
  \<open>internal/application/auth/token.go\<close>. The library \<open>github.com/golang-jwt/jwt/v5\<close> is a record of
  the two functions called: signing, and parsing with a key function and the options given.
\<close>

text \<open>A \<open>NumericDate\<close> is a number of whole seconds.\<close>

record claims =
  c_Issuer :: string
  c_Subject :: string
  c_IssuedAt :: int
  c_ExpiresAt :: int
  c_Role :: string

record jwt_options =
  jo_ValidMethods :: "string list"
  jo_ExpirationRequired :: bool
  jo_Issuer :: string
  jo_Now :: time

record jwt_library =
  jwt_sign :: "string \<Rightarrow> claims \<Rightarrow> string \<Rightarrow> string res"
  jwt_parse :: "(string \<Rightarrow> string res) \<Rightarrow> jwt_options \<Rightarrow> string \<Rightarrow> (claims \<times> bool) res"

record token_issuer =
  ti_secret :: string
  ti_issuer :: string
  ti_accessTTL :: duration

definition HS256 :: string where
  "HS256 = ''HS256''"

definition issue_access_token :: "jwt_library \<Rightarrow> token_issuer \<Rightarrow> time \<Rightarrow> user \<Rightarrow> string res" where
  "issue_access_token lib i now u =
     (let claims = \<lparr>c_Issuer = ti_issuer i, c_Subject = u_ID u, c_IssuedAt = to_unix now,
            c_ExpiresAt = to_unix (now + ti_accessTTL i), c_Role = u_Role u\<rparr>
      in jwt_sign lib HS256 claims (ti_secret i))"

definition pinned_key :: "token_issuer \<Rightarrow> string \<Rightarrow> string res" where
  "pinned_key i alg =
     (if alg \<noteq> HS256 then Inl (Errorf ''auth: unexpected signing method %v'' [ArgS alg] []) else Inr (ti_secret i))"

definition validate_access_token :: "jwt_library \<Rightarrow> token_issuer \<Rightarrow> time \<Rightarrow> string \<Rightarrow> string res" where
  "validate_access_token lib i now accessToken =
     (case jwt_parse lib (pinned_key i)
         \<lparr>jo_ValidMethods = [HS256], jo_ExpirationRequired = True, jo_Issuer = ti_issuer i, jo_Now = now\<rparr> accessToken of
        Inl err \<Rightarrow> Inl ErrTokenInvalid
      | Inr (claims, valid) \<Rightarrow>
          if \<not> valid then Inl ErrTokenInvalid
          else if c_Subject claims = [] then Inl ErrTokenInvalid
          else Inr (c_Subject claims))"

section \<open>What the library documents\<close>

text \<open>
  A token signed with an allowed method parses, with the key it was signed with, to its claims while it has not
  expired and its issuer is the one expected; it does not once it has expired, or for another issuer or key.
\<close>

locale jwt =
  fixes lib :: jwt_library
  assumes sign_ok: "\<exists>tok. jwt_sign lib HS256 c key = Inr tok"
    and parse_signed: "jwt_sign lib alg c key = Inr tok \<Longrightarrow> alg \<in> set (jo_ValidMethods opts) \<Longrightarrow> keyf alg = Inr key \<Longrightarrow>
        jo_Now opts < unix (c_ExpiresAt c) \<Longrightarrow> c_Issuer c = jo_Issuer opts \<Longrightarrow> jwt_parse lib keyf opts tok = Inr (c, True)"
    and parse_expired: "jwt_sign lib alg c key = Inr tok \<Longrightarrow> \<not> jo_Now opts < unix (c_ExpiresAt c) \<Longrightarrow>
        \<exists>e. jwt_parse lib keyf opts tok = Inl e"
    and parse_issuer: "jwt_sign lib alg c key = Inr tok \<Longrightarrow> jo_Issuer opts \<noteq> [] \<Longrightarrow> c_Issuer c \<noteq> jo_Issuer opts \<Longrightarrow>
        \<exists>e. jwt_parse lib keyf opts tok = Inl e"
begin

text \<open>An access token names its user until the second in which it expires, and nobody after.\<close>

lemma access_token:
  assumes "u_ID u \<noteq> []"
  shows "\<exists>tok. issue_access_token lib i now u = Inr tok \<and>
     (\<forall>later. validate_access_token lib i later tok =
        (if later < unix (to_unix (now + ti_accessTTL i)) then Inr (u_ID u) else Inl ErrTokenInvalid))"
proof -
  let ?c = "\<lparr>c_Issuer = ti_issuer i, c_Subject = u_ID u, c_IssuedAt = to_unix now,
     c_ExpiresAt = to_unix (now + ti_accessTTL i), c_Role = u_Role u\<rparr>"
  let ?o = "\<lambda>later. \<lparr>jo_ValidMethods = [HS256], jo_ExpirationRequired = True, jo_Issuer = ti_issuer i, jo_Now = later\<rparr>"
  obtain tok where tok: "jwt_sign lib HS256 ?c (ti_secret i) = Inr tok" using sign_ok by blast
  have "validate_access_token lib i later tok = Inr (u_ID u)" if "later < unix (to_unix (now + ti_accessTTL i))" for later
    using parse_signed [OF tok, of "?o later" "pinned_key i"] that assms by (simp add: validate_access_token_def pinned_key_def)
  moreover have "validate_access_token lib i later tok = Inl ErrTokenInvalid"
    if n: "\<not> later < unix (to_unix (now + ti_accessTTL i))" for later
  proof -
    obtain e where "jwt_parse lib (pinned_key i) (?o later) tok = Inl e"
      using parse_expired [OF tok, of "?o later" "pinned_key i"] n by auto
    then show ?thesis by (simp add: validate_access_token_def)
  qed
  ultimately show ?thesis using tok by (auto simp: issue_access_token_def)
qed

lemma foreign_token:
  assumes "ti_issuer i \<noteq> []" "ti_issuer i \<noteq> ti_issuer j" "issue_access_token lib j now u = Inr tok"
  shows "validate_access_token lib i later tok = Inl ErrTokenInvalid"
proof -
  obtain c where "jwt_sign lib HS256 c (ti_secret j) = Inr tok" "c_Issuer c = ti_issuer j"
    using assms(3) by (auto simp: issue_access_token_def Let_def)
  from parse_issuer [OF this(1)] this(2) assms(1,2)
  obtain e where "jwt_parse lib (pinned_key i)
      \<lparr>jo_ValidMethods = [HS256], jo_ExpirationRequired = True, jo_Issuer = ti_issuer i, jo_Now = later\<rparr> tok = Inl e"
    by fastforce
  then show ?thesis by (simp add: validate_access_token_def)
qed

end

text \<open>The failures of validation are one.\<close>

lemma validate_error: "validate_access_token lib i now tok = Inl e \<Longrightarrow> e = ErrTokenInvalid"
  by (auto simp: validate_access_token_def split: sum.splits prod.splits if_splits)

lemma validate_nonempty: "validate_access_token lib i now tok = Inr u \<Longrightarrow> u \<noteq> []"
  by (auto simp: validate_access_token_def split: sum.splits prod.splits if_splits)

section \<open>An instance\<close>

text \<open>A signature that spells out what it signs and with which key.\<close>

definition plain_sign :: "string \<Rightarrow> claims \<Rightarrow> string \<Rightarrow> string res" where
  "plain_sign alg c key =
     Inr (hex_encode alg @ ''.'' @ hex_encode key @ ''.'' @ hex_encode (c_Issuer c) @ ''.'' @ hex_encode (c_Subject c) @ ''.'' @
       hex_encode (c_Role c) @ ''.'' @ itoa (c_IssuedAt c) @ ''.'' @ itoa (c_ExpiresAt c))"

definition int_of :: "string \<Rightarrow> int option" where
  "int_of s =
     (case s of [] \<Rightarrow> None
      | c # r \<Rightarrow> if c = CHR ''-'' then map_option (\<lambda>n. - int n) (digits_value 0 r) else map_option int (digits_value 0 s))"

definition plain_read :: "string \<Rightarrow> (string \<times> string \<times> claims) option" where
  "plain_read tok =
     (case split_on CHR ''.'' tok of
        [a, k, i, s, r, t, e] \<Rightarrow>
          (case (hex_decode a, hex_decode k, hex_decode i, hex_decode s, hex_decode r, int_of t, int_of e) of
             (Some a, Some k, Some i, Some s, Some r, Some t, Some e) \<Rightarrow>
               Some (a, k, \<lparr>c_Issuer = i, c_Subject = s, c_IssuedAt = t, c_ExpiresAt = e, c_Role = r\<rparr>)
           | _ \<Rightarrow> None)
      | _ \<Rightarrow> None)"

definition plain_parse :: "(string \<Rightarrow> string res) \<Rightarrow> jwt_options \<Rightarrow> string \<Rightarrow> (claims \<times> bool) res" where
  "plain_parse keyf opts tok =
     (case plain_read tok of
        None \<Rightarrow> Inl (Infra ''token is malformed'')
      | Some (a, k, c) \<Rightarrow>
          if a \<notin> set (jo_ValidMethods opts) \<or> keyf a \<noteq> Inr k then Inl (Infra ''token signature is invalid'')
          else if \<not> jo_Now opts < unix (c_ExpiresAt c) then Inl (Infra ''token is expired'')
          else if jo_Issuer opts \<noteq> [] \<and> c_Issuer c \<noteq> jo_Issuer opts then Inl (Infra ''token has invalid issuer'')
          else Inr (c, True))"

definition plain_jwt :: jwt_library where
  "plain_jwt = \<lparr>jwt_sign = plain_sign, jwt_parse = plain_parse\<rparr>"

lemma int_of_itoa: "int_of (itoa i) = Some i"
proof (cases "i < 0")
  case False
  obtain c s where "digits_of (nat i) = c # s" by (cases "digits_of (nat i)") auto
  with False digits_of_hd [of "nat i"] digits_value_digits_of [of "nat i"] show ?thesis
    by (simp add: itoa_def int_of_def)
qed (simp add: itoa_def int_of_def digits_value_digits_of)

lemma no_dot: "CHR ''.'' \<notin> set (hex_encode s)" "CHR ''.'' \<notin> set (itoa i)"
proof -
  have d: "\<not> is_digit CHR ''.''" "\<not> is_lower_letter CHR ''.''" by (simp_all add: is_digit_def is_lower_letter_def byte_def)
  show "CHR ''.'' \<notin> set (hex_encode s)" using hex_encode_hexits [of s] d by blast
  show "CHR ''.'' \<notin> set (itoa i)"
    using digits_of_digits [of "nat i"] digits_of_digits [of "nat (- i)"] d by (auto simp: itoa_def)
qed

lemma plain_read_sign: "plain_sign alg c key = Inr tok \<Longrightarrow> plain_read tok = Some (alg, key, c)"
  using no_dot by (auto simp: plain_sign_def plain_read_def split_on_append split_on_none hex_roundtrip int_of_itoa)

interpretation plain_tokens: jwt plain_jwt
proof
  show "\<exists>tok. jwt_sign plain_jwt HS256 c key = Inr tok" for c key by (simp add: plain_jwt_def plain_sign_def)
qed (auto simp: plain_jwt_def plain_parse_def dest!: plain_read_sign)

end
