(* ===== verification/AuthService.thy ===== *)
theory AuthService
  imports AuthPorts PasswordHasher AccessToken
begin

text \<open>
  \<open>internal/application/auth/service.go\<close>. A use case runs over the state of both stores; what it reads from its
  environment is in a record: random bytes, generated identifiers and the clock, one reading per call.
  \<open>None\<close> is a panic, which only \<open>argon2.IDKey\<close> raises.
\<close>

record session =
  se_AccessToken :: string
  se_ExpiresIn :: duration
  se_RefreshToken :: string
  se_User :: user

record 's auth_service =
  sv_ports :: "'s auth_ports"
  sv_hasher :: argon2_params
  sv_issuer :: token_issuer
  sv_accessTTL :: duration
  sv_refreshTTL :: duration
  sv_dummyHash :: string
  sv_idkey :: idkey
  sv_jwt :: jwt_library
  sv_unicode :: unicode

record auth_env =
  en_salt :: "string res"
  en_token :: "string res"
  en_userID :: string
  en_rowID :: string
  en_familyID :: string
  en_createAt :: time
  en_issueAt :: time
  en_now :: time
  en_storeAt :: time

type_synonym ('s, 'a) outcome = "'a res option \<times> 's"

definition hash_token :: "string \<Rightarrow> string" where
  "hash_token token = hex_encode (sha256 token)"

definition new_opaque_token :: "string res \<Rightarrow> (string \<times> string) res" where
  "new_opaque_token entropy =
     (case entropy of
        Inl err \<Rightarrow> Inl (Errorf ''generate refresh token: %w'' [] [err])
      | Inr b \<Rightarrow> let token = b64_encode True b in Inr (token, hash_token token))"

text \<open>\<open>NewService\<close> panics when the dummy hash cannot be made, \<open>NewArgon2Hasher\<close> on invalid parameters.\<close>

definition new_auth_service ::
    "'s auth_ports \<Rightarrow> idkey \<Rightarrow> jwt_library \<Rightarrow> unicode \<Rightarrow> argon2_params \<Rightarrow> token_issuer \<Rightarrow> duration \<Rightarrow> duration \<Rightarrow>
     string res \<Rightarrow> string res \<Rightarrow> 's auth_service option" where
  "new_auth_service P idkey lib ut params issuer accessTTL refreshTTL dummy salt =
     (case (argon2_valid params, dummy) of
        (Inr _, Inr d) \<Rightarrow>
          (case argon2_hash idkey params salt (b64_encode True d) of
             Some (Inr dummyHash) \<Rightarrow>
               Some \<lparr>sv_ports = P, sv_hasher = params, sv_issuer = issuer, sv_accessTTL = accessTTL, sv_refreshTTL = refreshTTL,
                     sv_dummyHash = dummyHash, sv_idkey = idkey, sv_jwt = lib, sv_unicode = ut\<rparr>
           | _ \<Rightarrow> None)
      | _ \<Rightarrow> None)"

text \<open>The result of the dummy verification is dropped; only its panic would show.\<close>

definition burn_dummy_verify :: "'s auth_service \<Rightarrow> string \<Rightarrow> unit option" where
  "burn_dummy_verify sv password = map_option (\<lambda>_. ()) (argon2_verify (sv_idkey sv) (sv_dummyHash sv) password)"

definition new_session :: "'s auth_service \<Rightarrow> auth_env \<Rightarrow> user \<Rightarrow> 's \<Rightarrow> session res \<times> 's" where
  "new_session sv en u s =
     (case issue_access_token (sv_jwt sv) (sv_issuer sv) (en_issueAt en) u of
        Inl err \<Rightarrow> (Inl (Errorf ''auth: issue access token: %w'' [] [err]), s)
      | Inr access \<Rightarrow>
          (case new_opaque_token (en_token en) of
             Inl err \<Rightarrow> (Inl (Errorf ''auth: mint refresh token: %w'' [] [err]), s)
           | Inr (token, hash) \<Rightarrow>
               let row = \<lparr>rt_ID = en_rowID en, rt_UserID = u_ID u, rt_FamilyID = en_familyID en, rt_TokenHash = hash,
                     rt_ExpiresAt = en_now en + sv_refreshTTL sv, rt_CreatedAt = zero_time, rt_RevokedAt = None, rt_ReplacedBy = []\<rparr>
               in (case TokensCreate (sv_ports sv) (en_storeAt en) row s of
                     (Inl err, s) \<Rightarrow> (Inl (Errorf ''auth: store refresh token: %w'' [] [err]), s)
                   | (Inr _, s) \<Rightarrow>
                       (Inr \<lparr>se_AccessToken = access, se_ExpiresIn = sv_accessTTL sv, se_RefreshToken = token, se_User = u\<rparr>, s))))"

definition register :: "'s auth_service \<Rightarrow> auth_env \<Rightarrow> string \<Rightarrow> string \<Rightarrow> string \<Rightarrow> 's \<Rightarrow> ('s, session) outcome" where
  "register sv en email password displayName s =
     (case validate_email (sv_unicode sv) email of
        Inl err \<Rightarrow> (Some (Inl err), s)
      | Inr normalizedEmail \<Rightarrow>
     (case validate_password password of
        Inl err \<Rightarrow> (Some (Inl err), s)
      | Inr _ \<Rightarrow>
     if password = normalizedEmail
     then (Some (Inl (Errorf ''user: password must not equal the email: %w'' [] [ErrValidation])), s)
     else
     (case validate_display_name displayName of
        Inl err \<Rightarrow> (Some (Inl err), s)
      | Inr name \<Rightarrow>
     (case argon2_hash (sv_idkey sv) (sv_hasher sv) (en_salt en) password of
        None \<Rightarrow> (None, s)
      | Some (Inl err) \<Rightarrow> (Some (Inl (Errorf ''auth: register: %w'' [] [err])), s)
      | Some (Inr hash) \<Rightarrow>
     (case UsersCreate (sv_ports sv) (en_userID en) (en_createAt en)
         \<lparr>u_ID = [], u_Email = normalizedEmail, u_PasswordHash = hash, u_DisplayName = name, u_Role = RoleCustomer,
          u_CreatedAt = zero_time\<rparr> s of
        (Inl err, s) \<Rightarrow> (Some (Inl err), s)
      | (Inr created, s) \<Rightarrow> (case new_session sv en created s of (r, s) \<Rightarrow> (Some r, s)))))))"

definition login :: "'s auth_service \<Rightarrow> auth_env \<Rightarrow> string \<Rightarrow> string \<Rightarrow> 's \<Rightarrow> ('s, session) outcome" where
  "login sv en email password s =
     (case validate_email (sv_unicode sv) email of
        Inl err \<Rightarrow>
          (case burn_dummy_verify sv password of None \<Rightarrow> (None, s) | Some _ \<Rightarrow> (Some (Inl ErrInvalidCredentials), s))
      | Inr normalizedEmail \<Rightarrow>
     (case UsersGetByEmail (sv_ports sv) normalizedEmail s of
        Inl err \<Rightarrow>
          if errors_is err ErrUserNotFound then
            (case burn_dummy_verify sv password of None \<Rightarrow> (None, s) | Some _ \<Rightarrow> (Some (Inl ErrInvalidCredentials), s))
          else (Some (Inl err), s)
      | Inr u \<Rightarrow>
     (case argon2_verify (sv_idkey sv) (u_PasswordHash u) password of
        None \<Rightarrow> (None, s)
      | Some (Inl err) \<Rightarrow> (Some (Inl ErrInvalidCredentials), s)
      | Some (Inr ok) \<Rightarrow>
          if \<not> ok then (Some (Inl ErrInvalidCredentials), s)
          else (case new_session sv en u s of (r, s) \<Rightarrow> (Some r, s)))))"

definition refresh :: "'s auth_service \<Rightarrow> auth_env \<Rightarrow> string \<Rightarrow> 's \<Rightarrow> session res \<times> 's" where
  "refresh sv en presentedToken s =
     (if presentedToken = [] then (Inl ErrRefreshTokenUnknown, s)
      else case new_opaque_token (en_token en) of
        Inl err \<Rightarrow> (Inl (Errorf ''auth: refresh: %w'' [] [err]), s)
      | Inr (newToken, newHash) \<Rightarrow>
     let next = \<lparr>rt_ID = en_rowID en, rt_UserID = [], rt_FamilyID = [], rt_TokenHash = newHash,
           rt_ExpiresAt = en_now en + sv_refreshTTL sv, rt_CreatedAt = zero_time, rt_RevokedAt = None, rt_ReplacedBy = []\<rparr> in
     (case TokensRotate (sv_ports sv) (en_storeAt en) (hash_token presentedToken) next s of
        (Inl err, s) \<Rightarrow> (Inl err, s)
      | (Inr rotated, s) \<Rightarrow>
     (case UsersGetByID (sv_ports sv) (rt_UserID rotated) s of
        Inl err \<Rightarrow> (Inl err, s)
      | Inr u \<Rightarrow>
     (case issue_access_token (sv_jwt sv) (sv_issuer sv) (en_issueAt en) u of
        Inl err \<Rightarrow> (Inl (Errorf ''auth: refresh: %w'' [] [err]), s)
      | Inr access \<Rightarrow>
          (Inr \<lparr>se_AccessToken = access, se_ExpiresIn = sv_accessTTL sv, se_RefreshToken = newToken, se_User = u\<rparr>, s)))))"

definition logout :: "'s auth_service \<Rightarrow> time \<Rightarrow> string \<Rightarrow> 's \<Rightarrow> unit res \<times> 's" where
  "logout sv now presentedToken s =
     (if presentedToken = [] then (Inr (), s)
      else case TokensGetByHash (sv_ports sv) (hash_token presentedToken) s of
        Inl err \<Rightarrow> if errors_is err ErrRefreshTokenUnknown then (Inr (), s) else (Inl err, s)
      | Inr row \<Rightarrow> TokensRevokeFamily (sv_ports sv) now (rt_FamilyID row) s)"

definition me :: "'s auth_service \<Rightarrow> string \<Rightarrow> 's \<Rightarrow> user res" where
  "me sv userID s = UsersGetByID (sv_ports sv) userID s"

end
