(* ===== verification/AuthFlows.thy ===== *)
theory AuthFlows
  imports AuthService
begin

text \<open>
  What the use cases of \<open>AuthService\<close> do over any stores that keep the contract of the ports, with a key
  derivation and a token library that do what they document.
\<close>

text \<open>Every token belongs to an account.\<close>

definition tokens_owned :: "('s \<Rightarrow> user set) \<Rightarrow> ('s \<Rightarrow> ledger) \<Rightarrow> 's \<Rightarrow> bool" where
  "tokens_owned accounts tokens s \<longleftrightarrow> (\<forall>h t. tokens s h = Some t \<longrightarrow> (\<exists>u \<in> accounts s. u_ID u = rt_UserID t))"

text \<open>Random bytes and generated identifiers that are new to the state.\<close>

definition env_is_fresh ::
    "('s \<Rightarrow> ledger) \<Rightarrow> ('s \<Rightarrow> string \<Rightarrow> bool) \<Rightarrow> (string \<Rightarrow> bool) \<Rightarrow> auth_env \<Rightarrow> string \<Rightarrow> 's \<Rightarrow> bool" where
  "env_is_fresh tokens fresh_id family_id en b s \<longleftrightarrow> en_token en = Inr b \<and> length b = 32 \<and>
     tokens s (hash_token (b64_encode True b)) = None \<and> fresh_id s (en_rowID en) \<and> family_id (en_familyID en)"

text \<open>A session of the user: its access token names the user until it expires.\<close>

definition session_of :: "'s auth_service \<Rightarrow> auth_env \<Rightarrow> user \<Rightarrow> session \<Rightarrow> bool" where
  "session_of sv en u se \<longleftrightarrow> se_User se = u \<and> se_RefreshToken se = b64_encode True (projr (en_token en)) \<and>
     (\<forall>later. validate_access_token (sv_jwt sv) (sv_issuer sv) later (se_AccessToken se) =
        (if later < unix (to_unix (en_issueAt en + ti_accessTTL (sv_issuer sv))) then Inr (u_ID u) else Inl ErrTokenInvalid))"

locale auth_flow =
  st: auth_stores "sv_ports sv" invar accounts fold_email creatable usable_id tokens stamp accepts fresh_id family_id +
  hs: argon2 "sv_idkey sv" +
  tk: jwt "sv_jwt sv"
  for sv :: "'s auth_service" and invar :: "'s \<Rightarrow> bool" and accounts :: "'s \<Rightarrow> user set" and fold_email :: "string \<Rightarrow> string"
    and creatable :: "user \<Rightarrow> bool" and usable_id :: "'s \<Rightarrow> string \<Rightarrow> bool" and tokens :: "'s \<Rightarrow> ledger"
    and stamp :: "time \<Rightarrow> time" and accepts :: "'s \<Rightarrow> refresh_token \<Rightarrow> bool"
    and fresh_id :: "'s \<Rightarrow> string \<Rightarrow> bool" and family_id :: "string \<Rightarrow> bool" +
  assumes hasher_valid: "argon2_valid (sv_hasher sv) = Inr ()"
    and dummy_verifies: "burn_dummy_verify sv pw = Some ()"
    and ids_nonempty: "invar s \<Longrightarrow> u \<in> accounts s \<Longrightarrow> u_ID u \<noteq> []"
begin

abbreviation owned :: "'s \<Rightarrow> bool" where
  "owned \<equiv> tokens_owned accounts tokens"

abbreviation fresh_env :: "auth_env \<Rightarrow> string \<Rightarrow> 's \<Rightarrow> bool" where
  "fresh_env \<equiv> env_is_fresh tokens fresh_id family_id"

abbreviation opens :: "auth_env \<Rightarrow> user \<Rightarrow> session \<Rightarrow> bool" where
  "opens \<equiv> session_of sv"

lemma new_session_ok:
  assumes "invar s" "u \<in> accounts s" "fresh_env en b s"
  shows "\<exists>se s' r. new_session sv en u s = (Inr se, s') \<and> opens en u se \<and> invar s' \<and> accounts s' = accounts s \<and>
     tokens s' = (tokens s)(hash_token (se_RefreshToken se) \<mapsto> r) \<and> rt_TokenHash r = hash_token (se_RefreshToken se) \<and>
     rt_UserID r = u_ID u \<and> rt_FamilyID r = en_familyID en \<and> \<not> reuse_is_theft r \<and>
     rt_ExpiresAt r = stamp (en_now en + sv_refreshTTL sv)"
proof -
  obtain access where acc: "issue_access_token (sv_jwt sv) (sv_issuer sv) (en_issueAt en) u = Inr access"
    and valid: "\<forall>later. validate_access_token (sv_jwt sv) (sv_issuer sv) later access =
        (if later < unix (to_unix (en_issueAt en + ti_accessTTL (sv_issuer sv))) then Inr (u_ID u) else Inl ErrTokenInvalid)"
    using tk.access_token [OF ids_nonempty [OF assms(1,2)]] by blast
  let ?tok = "b64_encode True b"
  let ?row = "\<lparr>rt_ID = en_rowID en, rt_UserID = u_ID u, rt_FamilyID = en_familyID en, rt_TokenHash = hash_token ?tok,
     rt_ExpiresAt = en_now en + sv_refreshTTL sv, rt_CreatedAt = zero_time, rt_RevokedAt = None, rt_ReplacedBy = []\<rparr>"
  have "unused_token ?row" using assms(3) st.fresh_nonempty
    by (auto simp: env_is_fresh_def unused_token_def reuse_is_theft_def rt_is_replaced_def rt_is_revoked_def)
  moreover have "accepts s ?row" using st.accepts_owned [OF assms(1,2), of ?row] assms(3) by (simp add: env_is_fresh_def)
  moreover have "tokens s (rt_TokenHash ?row) = None" using assms(3) by (simp add: env_is_fresh_def)
  ultimately obtain r s' where c: "TokensCreate (sv_ports sv) (en_storeAt en) ?row s = (Inr r, s')" "stored_as stamp r ?row" "invar s'"
    "tokens s' = (tokens s)(hash_token ?tok \<mapsto> r)"
    using st.rt.create_ok [OF assms(1), of ?row "en_storeAt en"] by auto
  let ?se = "\<lparr>se_AccessToken = access, se_ExpiresIn = sv_accessTTL sv, se_RefreshToken = ?tok, se_User = u\<rparr>"
  have "new_session sv en u s = (Inr ?se, s')"
    using assms(3) acc c(1) by (simp add: new_session_def new_opaque_token_def env_is_fresh_def Let_def)
  moreover have "opens en u ?se" using valid assms(3) by (simp add: session_of_def env_is_fresh_def)
  ultimately show ?thesis using c st.create_token_keeps [OF c(1)]
    by (intro exI [of _ ?se] exI [of _ s'] exI [of _ r]) (simp add: stored_as_def)
qed

lemma owned_new:
  assumes "owned s" "accounts s' = accounts s" "tokens s' = (tokens s)(k \<mapsto> r)" "u \<in> accounts s" "rt_UserID r = u_ID u"
  shows "owned s'"
  using assms unfolding tokens_owned_def by (metis fun_upd_apply option.inject)

section \<open>Registering\<close>

text \<open>A registration is one account and one session of it; the password is stored as a hash that only the
  password (or one that derives the same key) verifies against.\<close>

lemma register_ok:
  assumes "invar s" "fresh_env en b s" "en_salt en = Inr salt" "usable_id s (en_userID en)"
    and "validate_email (sv_unicode sv) email = Inr e" "validate_password pw = Inr ()" "pw \<noteq> e"
    and "validate_display_name name = Inr n"
    and "\<not> email_taken fold_email (accounts s) e" "\<And>u. u_Email u = e \<Longrightarrow> creatable u"
  shows "\<exists>se s' u. register sv en email pw name s = (Some (Inr se), s') \<and> opens en u se \<and> invar s' \<and>
     accounts s' = insert u (accounts s) \<and> u_Email u = e \<and> u_Role u = RoleCustomer \<and> u_DisplayName u = n \<and>
     (\<forall>pw'. argon2_verify (sv_idkey sv) (u_PasswordHash u) pw' = Some (Inr
        (sv_idkey sv pw' salt (ap_Time (sv_hasher sv)) (ap_MemoryKiB (sv_hasher sv)) (ap_Parallelism (sv_hasher sv)) (ap_KeyLen (sv_hasher sv)) =
         sv_idkey sv pw salt (ap_Time (sv_hasher sv)) (ap_MemoryKiB (sv_hasher sv)) (ap_Parallelism (sv_hasher sv)) (ap_KeyLen (sv_hasher sv)))))"
proof -
  obtain h where h: "argon2_hash (sv_idkey sv) (sv_hasher sv) (Inr salt) pw = Some (Inr h)"
    and v: "\<forall>pw'. argon2_verify (sv_idkey sv) h pw' = Some (Inr
        (sv_idkey sv pw' salt (ap_Time (sv_hasher sv)) (ap_MemoryKiB (sv_hasher sv)) (ap_Parallelism (sv_hasher sv)) (ap_KeyLen (sv_hasher sv)) =
         sv_idkey sv pw salt (ap_Time (sv_hasher sv)) (ap_MemoryKiB (sv_hasher sv)) (ap_Parallelism (sv_hasher sv)) (ap_KeyLen (sv_hasher sv))))"
    using hs.hash_ok [OF hasher_valid] by blast
  let ?u = "\<lparr>u_ID = [], u_Email = e, u_PasswordHash = h, u_DisplayName = n, u_Role = RoleCustomer, u_CreatedAt = zero_time\<rparr>"
  have "new_customer ?u" by (simp add: new_customer_def)
  from st.us.create_free [OF assms(1) this _ assms(4), of "en_createAt en"] assms(9,10)
  obtain u s1 where u: "UsersCreate (sv_ports sv) (en_userID en) (en_createAt en) ?u s = (Inr u, s1)" "same_account u ?u"
    "accounts s1 = insert u (accounts s)" "invar s1" by auto
  have "tokens s1 = tokens s \<and> fresh_id s1 = fresh_id s" using st.create_user_keeps [OF u(1)] .
  then have "fresh_env en b s1" using assms(2) by (simp add: env_is_fresh_def)
  from new_session_ok [OF u(4) _ this, of u] u(3)
  obtain se s' where "new_session sv en u s1 = (Inr se, s')" "opens en u se" "invar s'" "accounts s' = insert u (accounts s)"
    by auto
  then show ?thesis using u v h assms(3,5-8)
    by (intro exI [of _ se] exI [of _ s'] exI [of _ u]) (simp add: register_def same_account_def)
qed

section \<open>Logging in\<close>

lemma login_ok:
  assumes "invar s" "fresh_env en b s" "validate_email (sv_unicode sv) email = Inr e"
    and "u \<in> accounts s" "fold_email (u_Email u) = fold_email e"
    and "argon2_verify (sv_idkey sv) (u_PasswordHash u) pw = Some (Inr True)"
  shows "\<exists>se s'. login sv en email pw s = (Some (Inr se), s') \<and> opens en u se \<and> invar s' \<and> accounts s' = accounts s"
proof -
  obtain se s' where "new_session sv en u s = (Inr se, s')" "opens en u se" "invar s'" "accounts s' = accounts s"
    using new_session_ok [OF assms(1,4,2)] by blast
  then show ?thesis using st.us.by_email [OF assms(1,4,5)] assms(3,6) by (simp add: login_def)
qed

text \<open>All other logins fail alike and change nothing.\<close>

lemma login_refused:
  assumes "invar s"
    and none: "\<And>e u. validate_email (sv_unicode sv) email = Inr e \<Longrightarrow> u \<in> accounts s \<Longrightarrow>
       fold_email (u_Email u) = fold_email e \<Longrightarrow>
       \<exists>v. argon2_verify (sv_idkey sv) (u_PasswordHash u) pw = Some v \<and> v \<noteq> Inr True"
  shows "login sv en email pw s = (Some (Inl ErrInvalidCredentials), s)"
proof (cases "validate_email (sv_unicode sv) email")
  case (Inl err)
  then show ?thesis using dummy_verifies by (simp add: login_def)
next
  case (Inr e)
  show ?thesis
  proof (cases "email_taken fold_email (accounts s) e")
    case False
    from st.us.by_email_none [OF assms(1) this] Inr show ?thesis using dummy_verifies by (simp add: login_def)
  next
    case True
    then obtain u where u: "u \<in> accounts s" "fold_email (u_Email u) = fold_email e" by (auto simp: email_taken_def)
    obtain v where v: "argon2_verify (sv_idkey sv) (u_PasswordHash u) pw = Some v" "v \<noteq> Inr True" using none [OF Inr u] by blast
    then show ?thesis using st.us.by_email [OF assms(1) u] Inr by (auto simp: login_def split: sum.split)
  qed
qed

text \<open>
  Who registered logs in with the same credentials and no others, and the address is taken from then on.
  \<open>derives\<close> is the key of a password under the salt drawn at registration.
\<close>

lemma registered:
  assumes "invar s" "fresh_env en b s" "en_salt en = Inr salt" "usable_id s (en_userID en)"
    and e: "validate_email (sv_unicode sv) email = Inr e" and "validate_password pw = Inr ()" "pw \<noteq> e"
    and "validate_display_name name = Inr n"
    and "\<not> email_taken fold_email (accounts s) e" "\<And>u. u_Email u = e \<Longrightarrow> creatable u"
  defines "derives \<equiv> \<lambda>pw. sv_idkey sv pw salt (ap_Time (sv_hasher sv)) (ap_MemoryKiB (sv_hasher sv)) (ap_Parallelism (sv_hasher sv))
     (ap_KeyLen (sv_hasher sv))"
  shows "\<exists>se s' u. register sv en email pw name s = (Some (Inr se), s') \<and> session_of sv en u se \<and> invar s' \<and>
     accounts s' = insert u (accounts s) \<and> u_Email u = e \<and> u_Role u = RoleCustomer \<and> u_DisplayName u = n \<and>
     (\<forall>en' b'. fresh_env en' b' s' \<longrightarrow> (\<exists>se' s''. login sv en' email pw s' = (Some (Inr se'), s'') \<and> session_of sv en' u se')) \<and>
     (\<forall>en' pw'. derives pw' \<noteq> derives pw \<longrightarrow> login sv en' email pw' s' = (Some (Inl ErrInvalidCredentials), s'))"
proof -
  obtain se s' u where r: "register sv en email pw name s = (Some (Inr se), s')" "session_of sv en u se" "invar s'"
    "accounts s' = insert u (accounts s)" "u_Email u = e" "u_Role u = RoleCustomer" "u_DisplayName u = n"
    and v: "\<And>pw'. argon2_verify (sv_idkey sv) (u_PasswordHash u) pw' = Some (Inr (derives pw' = derives pw))"
    using register_ok [OF assms(1-10)] unfolding derives_def by blast
  have u: "u \<in> accounts s'" using r(4) by simp
  have "\<exists>se' s''. login sv en' email pw s' = (Some (Inr se'), s'') \<and> session_of sv en' u se'" if "fresh_env en' b' s'" for en' b'
    using login_ok [OF r(3) that e u _ v [of pw, simplified]] r(5) by auto
  moreover have "login sv en' email pw' s' = (Some (Inl ErrInvalidCredentials), s')" if d: "derives pw' \<noteq> derives pw" for en' pw'
  proof (rule login_refused [OF r(3)])
    fix e' u' assume "validate_email (sv_unicode sv) email = Inr e'" "u' \<in> accounts s'" "fold_email (u_Email u') = fold_email e'"
    with e r(5) have "u' = u" using st.us.emails_unique [OF r(3) _ u] by simp
    with v [of pw'] d show "\<exists>v. argon2_verify (sv_idkey sv) (u_PasswordHash u') pw' = Some v \<and> v \<noteq> Inr True" by auto
  qed
  ultimately show ?thesis using r by blast
qed

section \<open>Refreshing\<close>

abbreviation next_row :: "auth_env \<Rightarrow> string \<Rightarrow> refresh_token" where
  "next_row en b \<equiv> \<lparr>rt_ID = en_rowID en, rt_UserID = [], rt_FamilyID = [], rt_TokenHash = hash_token (b64_encode True b),
     rt_ExpiresAt = en_now en + sv_refreshTTL sv, rt_CreatedAt = zero_time, rt_RevokedAt = None, rt_ReplacedBy = []\<rparr>"

lemma refresh_is_rotate:
  assumes "tok \<noteq> []" "en_token en = Inr b"
  shows "refresh sv en tok s =
     (case TokensRotate (sv_ports sv) (en_storeAt en) (hash_token tok) (next_row en b) s of
        (Inl err, s) \<Rightarrow> (Inl err, s)
      | (Inr rotated, s) \<Rightarrow>
     (case UsersGetByID (sv_ports sv) (rt_UserID rotated) s of
        Inl err \<Rightarrow> (Inl err, s)
      | Inr u \<Rightarrow>
     (case issue_access_token (sv_jwt sv) (sv_issuer sv) (en_issueAt en) u of
        Inl err \<Rightarrow> (Inl (Errorf ''auth: refresh: %w'' [] [err]), s)
      | Inr access \<Rightarrow>
          (Inr \<lparr>se_AccessToken = access, se_ExpiresIn = sv_accessTTL sv, se_RefreshToken = b64_encode True b, se_User = u\<rparr>, s))))"
  using assms by (simp add: refresh_def new_opaque_token_def Let_def)

lemma next_row_unused: "fresh_id s (en_rowID en) \<Longrightarrow> unused_token (next_row en b)"
  using st.fresh_nonempty by (auto simp: unused_token_def reuse_is_theft_def rt_is_replaced_def rt_is_revoked_def)

text \<open>An active token is exchanged for its successor in the same family, and a session of the same user.\<close>

lemma refresh_ok:
  assumes "invar s" "owned s" "fresh_env en b s" "tok \<noteq> []"
    and "tokens s (hash_token tok) = Some old" "rt_is_active old (en_storeAt en)"
  shows "\<exists>se s' u r. refresh sv en tok s = (Inr se, s') \<and> opens en u se \<and> u \<in> accounts s \<and> u_ID u = rt_UserID old \<and>
     invar s' \<and> owned s' \<and> accounts s' = accounts s \<and>
     tokens s' = (tokens s)(hash_token (se_RefreshToken se) \<mapsto> r, hash_token tok \<mapsto> old\<lparr>rt_ReplacedBy := en_rowID en\<rparr>) \<and>
     rt_FamilyID r = rt_FamilyID old \<and> rt_UserID r = rt_UserID old \<and> \<not> reuse_is_theft r \<and>
     rt_ExpiresAt r = stamp (en_now en + sv_refreshTTL sv)"
proof -
  have en: "en_token en = Inr b" "tokens s (hash_token (b64_encode True b)) = None" "fresh_id s (en_rowID en)"
    using assms(3) by (simp_all add: env_is_fresh_def)
  obtain u where u: "u \<in> accounts s" "u_ID u = rt_UserID old" using assms(2,5) unfolding tokens_owned_def by blast
  have "accepts s (succeeding old (next_row en b))"
    using st.accepts_owned [OF assms(1) u(1)] u(2) en(3) st.family_known [OF assms(1,5)] by (simp add: succeeding_def)
  from st.rt.rotate_active [OF assms(1,5,6) next_row_unused [OF en(3)] this] en(2)
  obtain r s' where r: "TokensRotate (sv_ports sv) (en_storeAt en) (hash_token tok) (next_row en b) s = (Inr r, s')"
    "stored_as stamp r (succeeding old (next_row en b))" "invar s'"
    "tokens s' = (tokens s)(hash_token (b64_encode True b) \<mapsto> r, hash_token tok \<mapsto> old\<lparr>rt_ReplacedBy := en_rowID en\<rparr>)"
    by auto
  then have rs: "rt_UserID r = rt_UserID old" "rt_FamilyID r = rt_FamilyID old" "\<not> reuse_is_theft r"
    "rt_ExpiresAt r = stamp (en_now en + sv_refreshTTL sv)"
    by (simp_all add: stored_as_def succeeding_def)
  have acs: "accounts s' = accounts s" using st.rotate_keeps [OF r(1)] .
  have id: "UsersGetByID (sv_ports sv) (rt_UserID r) s' = Inr u" using st.us.by_id [OF r(3), of u] u acs rs(1) by simp
  obtain access where acc: "issue_access_token (sv_jwt sv) (sv_issuer sv) (en_issueAt en) u = Inr access"
    and valid: "\<forall>later. validate_access_token (sv_jwt sv) (sv_issuer sv) later access =
        (if later < unix (to_unix (en_issueAt en + ti_accessTTL (sv_issuer sv))) then Inr (u_ID u) else Inl ErrTokenInvalid)"
    using tk.access_token [OF ids_nonempty [OF assms(1) u(1)]] by blast
  have "owned s'"
    using assms(2,5) acs r(4) u rs(1) unfolding tokens_owned_def by (auto simp: fun_upd_apply split: if_splits)
  then show ?thesis
    using refresh_is_rotate [OF assms(4) en(1), of s] r id acc valid en(1) u rs acs
    by (auto simp: session_of_def)
qed

lemma refresh_refused:
  assumes "invar s" "tok \<noteq> []" "en_token en = Inr b" "tokens s (hash_token tok) = Some old" "reuse_is_theft old"
  shows "\<exists>s'. refresh sv en tok s = (Inl ErrRefreshTokenReused, s') \<and> invar s' \<and>
     tokens s' = revoked (stamp (en_storeAt en)) (rt_FamilyID old) (tokens s)"
  using st.rt.rotate_theft [OF assms(1,4,5), of "en_storeAt en" "next_row en b"] refresh_is_rotate [OF assms(2,3), of s] by auto

text \<open>
  After a refresh, whoever presents the consumed token again, at any later time and whatever happened
  meanwhile, is refused, and with that every token of the family is dead, the successor included.
\<close>

lemma stolen_token:
  assumes "invar s" "owned s" "fresh_env en b s" "tok \<noteq> []"
    and "tokens s (hash_token tok) = Some old" "rt_is_active old (en_storeAt en)"
    and "refresh sv en tok s = (Inr se, s1)"
    and "st.rt.step\<^sup>*\<^sup>* (now, s1) (later, s2)" "en_token en2 = Inr b2" "en_token en3 = Inr b3"
  shows "\<exists>s3. refresh sv en2 tok s2 = (Inl ErrRefreshTokenReused, s3) \<and>
     fst (refresh sv en3 (se_RefreshToken se) s3) = Inl ErrRefreshTokenReused \<and> family_dead (rt_FamilyID old) (tokens s3)"
proof -
  from refresh_ok [OF assms(1-6)] assms(7) obtain r where s1: "invar s1"
    and t1: "tokens s1 = (tokens s)(hash_token (se_RefreshToken se) \<mapsto> r, hash_token tok \<mapsto> old\<lparr>rt_ReplacedBy := en_rowID en\<rparr>)"
    and r: "rt_FamilyID r = rt_FamilyID old" and op: "\<exists>u. opens en u se" by auto
  have tokn: "se_RefreshToken se = b64_encode True b" using op assms(3) by (auto simp: session_of_def env_is_fresh_def)
  have ne: "hash_token (se_RefreshToken se) \<noteq> hash_token tok" using assms(3,5) tokn by (auto simp: env_is_fresh_def)
  have i: "en_rowID en \<noteq> []" using assms(3) st.fresh_nonempty by (auto simp: env_is_fresh_def)
  note mv = st.rt.run_moves [OF assms(8) s1]
  obtain t2 where t2: "tokens s2 (hash_token tok) = Some t2" "reuse_is_theft t2" "rt_FamilyID t2 = rt_FamilyID old"
    using moves_spent [OF mv(2), of "hash_token tok" "old\<lparr>rt_ReplacedBy := en_rowID en\<rparr>"] t1 i by auto
  obtain s3 where s3: "refresh sv en2 tok s2 = (Inl ErrRefreshTokenReused, s3)" "invar s3"
    "tokens s3 = revoked (stamp (en_storeAt en2)) (rt_FamilyID old) (tokens s2)"
    using refresh_refused [OF mv(1) assms(4,9) t2(1,2)] t2(3) by auto
  have dead: "family_dead (rt_FamilyID old) (tokens s3)" using s3(3) family_dead_revoked by simp
  obtain r2 where r2: "tokens s2 (hash_token (se_RefreshToken se)) = Some r2" "rt_FamilyID r2 = rt_FamilyID old"
    using moves_known [OF mv(2), of "hash_token (se_RefreshToken se)" r] t1 ne r by auto
  then obtain r3 where r3: "tokens s3 (hash_token (se_RefreshToken se)) = Some r3" "reuse_is_theft r3"
    using s3(3) by (simp add: revoked_def revoke_row_theft)
  have "b \<noteq> []" using assms(3) by (auto simp: env_is_fresh_def)
  then have "se_RefreshToken se \<noteq> []" using tokn b64_encode_empty by simp
  from refresh_refused [OF s3(2) this assms(10) r3] s3(1) dead show ?thesis by auto
qed

section \<open>Logging out\<close>

text \<open>Logging out always succeeds; of a token that is known it kills the family, and no token of it ever works again.\<close>

lemma logout_ok:
  assumes "invar s"
  shows "\<exists>s'. logout sv now tok s = (Inr (), s') \<and> invar s' \<and> accounts s' = accounts s \<and>
     (if tok = [] \<or> tokens s (hash_token tok) = None then s' = s
      else tokens s' = revoked (stamp now) (rt_FamilyID (the (tokens s (hash_token tok)))) (tokens s))"
proof (cases "tok = [] \<or> tokens s (hash_token tok) = None")
  case True
  then show ?thesis using st.rt.by_hash [OF assms] assms by (auto simp: logout_def)
next
  case False
  then obtain t where t: "tokens s (hash_token tok) = Some t" "tok \<noteq> []" by auto
  obtain s' where "TokensRevokeFamily (sv_ports sv) now (rt_FamilyID t) s = (Inr (), s')" "invar s'"
    "tokens s' = revoked (stamp now) (rt_FamilyID t) (tokens s)"
    using st.rt.revoke_known [OF assms t(1)] by blast
  moreover from this(1) have "accounts s' = accounts s" using st.revoke_keeps by blast
  ultimately show ?thesis using t st.rt.by_hash [OF assms] by (simp add: logout_def)
qed

lemma logged_out:
  assumes "invar s" "tok \<noteq> []" "tokens s (hash_token tok) = Some t" "logout sv now tok s = (r, s1)"
    and "st.rt.step\<^sup>*\<^sup>* (now, s1) (later, s2)"
    and "tok' \<noteq> []" "tokens s2 (hash_token tok') = Some t'" "rt_FamilyID t' = rt_FamilyID t" "en_token en = Inr b"
  shows "r = Inr ()" "fst (refresh sv en tok' s2) = Inl ErrRefreshTokenReused"
proof -
  have s1: "r = Inr ()" "invar s1" "tokens s1 = revoked (stamp now) (rt_FamilyID t) (tokens s)"
    using logout_ok [OF assms(1), of now tok] assms(2,3,4) by auto
  then show "r = Inr ()" by simp
  note mv = st.rt.run_moves [OF assms(5) s1(2)]
  have t1: "tokens s1 (hash_token tok) = Some (revoke_row (stamp now) (rt_FamilyID t) t)" using s1(3) assms(3) by (simp add: revoked_def)
  have dead: "family_dead (rt_FamilyID t) (tokens s1)" using s1(3) family_dead_revoked by simp
  have "family_dead (rt_FamilyID t) (tokens s2)"
    using moves_dead [OF mv(2) t1] dead by (simp add: revoke_row_theft)
  then have "reuse_is_theft t'" using assms(7,8) by (auto simp: family_dead_def)
  from refresh_refused [OF mv(1) assms(6,9,7) this] show "fst (refresh sv en tok' s2) = Inl ErrRefreshTokenReused" by auto
qed

end

section \<open>The service as \<open>NewService\<close> builds it\<close>

context argon2
begin

lemma new_auth_service_ok:
  assumes "new_auth_service P idkey lib ut params issuer accessTTL refreshTTL dummy salt = Some sv"
  shows "argon2_valid params = Inr ()" "sv_ports sv = P" "sv_idkey sv = idkey" "sv_jwt sv = lib" "sv_hasher sv = params"
    "sv_unicode sv = ut" "sv_issuer sv = issuer" "sv_refreshTTL sv = refreshTTL" "burn_dummy_verify sv pw = Some ()"
proof -
  obtain d h where d: "argon2_valid params = Inr ()" "argon2_hash idkey params salt (b64_encode True d) = Some (Inr h)"
    and sv: "sv = \<lparr>sv_ports = P, sv_hasher = params, sv_issuer = issuer, sv_accessTTL = accessTTL, sv_refreshTTL = refreshTTL,
       sv_dummyHash = h, sv_idkey = idkey, sv_jwt = lib, sv_unicode = ut\<rparr>"
    using assms by (auto simp: new_auth_service_def split: sum.splits option.splits)
  show "argon2_valid params = Inr ()" "sv_ports sv = P" "sv_idkey sv = idkey" "sv_jwt sv = lib" "sv_hasher sv = params"
    "sv_unicode sv = ut" "sv_issuer sv = issuer" "sv_refreshTTL sv = refreshTTL" using d(1) sv by simp_all
  obtain x where "salt = Inr x" using d(2) by (cases salt) (simp_all add: argon2_hash_def)
  with hash_ok [OF d(1), of x "b64_encode True d"] d(2) show "burn_dummy_verify sv pw = Some ()"
    by (auto simp: burn_dummy_verify_def sv)
qed

end

end
