(* ===== verification/MemAuthStore.thy ===== *)
theory MemAuthStore
  imports AuthStore
begin

text \<open>
  \<open>internal/adapters/memory/userstore.go\<close> and \<open>refreshtokenstore.go\<close>. Each method runs under the
  mutex of its store, so a method is one step; a clock reading is an argument.
\<close>

section \<open>Accounts\<close>

record mem_users =
  mu_byID :: "string \<rightharpoonup> user"
  mu_byEmail :: "string \<rightharpoonup> string"

definition new_mem_users :: mem_users where
  "new_mem_users = \<lparr>mu_byID = Map.empty, mu_byEmail = Map.empty\<rparr>"

definition mem_user_create :: "unicode \<Rightarrow> string \<Rightarrow> time \<Rightarrow> user \<Rightarrow> mem_users \<Rightarrow> user res \<times> mem_users" where
  "mem_user_create ut newID now u s =
     (let key = to_lower ut (u_Email u) in
      if mu_byEmail s key \<noteq> None then (Inl ErrEmailTaken, s)
      else
        let u = (if u_ID u = [] then u\<lparr>u_ID := newID\<rparr> else u);
            u = (if u_CreatedAt u = zero_time then u\<lparr>u_CreatedAt := now\<rparr> else u)
        in (Inr u, s\<lparr>mu_byID := (mu_byID s)(u_ID u \<mapsto> u), mu_byEmail := (mu_byEmail s)(key \<mapsto> u_ID u)\<rparr>))"

text \<open>Following the index to an absent account would be a nil dereference.\<close>

definition mem_user_by_email :: "unicode \<Rightarrow> string \<Rightarrow> mem_users \<Rightarrow> user res" where
  "mem_user_by_email ut email s =
     (case mu_byEmail s (to_lower ut email) of
        None \<Rightarrow> Inl ErrUserNotFound
      | Some i \<Rightarrow> (case mu_byID s i of None \<Rightarrow> Inl (Infra ''nil pointer dereference'') | Some u \<Rightarrow> Inr u))"

definition mem_user_by_id :: "string \<Rightarrow> mem_users \<Rightarrow> user res" where
  "mem_user_by_id i s = (case mu_byID s i of None \<Rightarrow> Inl ErrUserNotFound | Some u \<Rightarrow> Inr u)"

definition mem_users_ok :: "unicode \<Rightarrow> mem_users \<Rightarrow> bool" where
  "mem_users_ok ut s \<longleftrightarrow>
     (\<forall>k i. mu_byEmail s k = Some i \<longrightarrow> (\<exists>u. mu_byID s i = Some u \<and> to_lower ut (u_Email u) = k)) \<and>
     (\<forall>i u. mu_byID s i = Some u \<longrightarrow> u_ID u = i \<and> i \<noteq> [] \<and> mu_byEmail s (to_lower ut (u_Email u)) = Some i)"

definition mem_user_usable :: "mem_users \<Rightarrow> string \<Rightarrow> bool" where
  "mem_user_usable s i \<longleftrightarrow> i \<noteq> [] \<and> mu_byID s i = None"

lemma mem_users_lookup: "mem_users_ok ut s \<Longrightarrow> u \<in> ran (mu_byID s) \<longleftrightarrow> mu_byID s (u_ID u) = Some u"
  by (auto simp: mem_users_ok_def ran_def)

lemma mem_users_taken:
  "mem_users_ok ut s \<Longrightarrow> email_taken (to_lower ut) (ran (mu_byID s)) e \<longleftrightarrow> mu_byEmail s (to_lower ut e) \<noteq> None"
  unfolding email_taken_def mem_users_ok_def ran_def by simp (metis not_None_eq)

lemma mem_users_emailD:
  "mem_users_ok ut s \<Longrightarrow> mu_byEmail s k = Some i \<Longrightarrow> \<exists>u. mu_byID s i = Some u \<and> to_lower ut (u_Email u) = k"
  by (simp add: mem_users_ok_def)

lemma mem_users_idD:
  "mem_users_ok ut s \<Longrightarrow> mu_byID s i = Some u \<Longrightarrow> u_ID u = i \<and> i \<noteq> [] \<and> mu_byEmail s (to_lower ut (u_Email u)) = Some i"
  unfolding mem_users_ok_def by blast

lemma mem_users_ok_insert:
  assumes ok: "mem_users_ok ut s" and new: "mu_byEmail s (to_lower ut (u_Email v)) = None" "mu_byID s (u_ID v) = None" "u_ID v \<noteq> []"
  shows "mem_users_ok ut (s\<lparr>mu_byID := (mu_byID s)(u_ID v \<mapsto> v), mu_byEmail := (mu_byEmail s)(to_lower ut (u_Email v) \<mapsto> u_ID v)\<rparr>)"
  unfolding mem_users_ok_def
proof (intro conjI allI impI)
  let ?s = "s\<lparr>mu_byID := (mu_byID s)(u_ID v \<mapsto> v), mu_byEmail := (mu_byEmail s)(to_lower ut (u_Email v) \<mapsto> u_ID v)\<rparr>"
  show "\<exists>u. mu_byID ?s i = Some u \<and> to_lower ut (u_Email u) = k" if "mu_byEmail ?s k = Some i" for k i
  proof (cases "k = to_lower ut (u_Email v)")
    case False
    then have "mu_byEmail s k = Some i" using that by simp
    then obtain u where "mu_byID s i = Some u" "to_lower ut (u_Email u) = k" using mem_users_emailD [OF ok] by blast
    with new(2) show ?thesis by auto
  qed (use that in simp)
  fix i u assume u: "mu_byID ?s i = Some u"
  show "i \<noteq> []" using u new(3) mem_users_idD [OF ok, of i u] by (auto split: if_splits)
  show "u_ID u = i" using u mem_users_idD [OF ok, of i u] by (simp split: if_splits)
  show "mu_byEmail ?s (to_lower ut (u_Email u)) = Some i"
  proof (cases "i = u_ID v")
    case False
    then have "mu_byEmail s (to_lower ut (u_Email u)) = Some i" using u mem_users_idD [OF ok, of i u] by simp
    with new(1) show ?thesis by auto
  qed (use u in simp)
qed

lemma new_mem_users_ok: "mem_users_ok ut new_mem_users"
  by (simp add: mem_users_ok_def new_mem_users_def)

interpretation mem_us: user_store "mem_users_ok ut" "\<lambda>s. ran (mu_byID s)" "to_lower ut" "\<lambda>u. True" mem_user_usable
  "mem_user_create ut" "mem_user_by_email ut" mem_user_by_id for ut
proof
  fix s s' :: mem_users and u v :: user and i e :: string and now :: time
  assume ok: "mem_users_ok ut s"
  show "u = v" if "u \<in> ran (mu_byID s)" "v \<in> ran (mu_byID s)" "to_lower ut (u_Email u) = to_lower ut (u_Email v)"
  proof -
    have "mu_byID s (u_ID u) = Some u" "mu_byID s (u_ID v) = Some v" using that mem_users_lookup [OF ok] by auto
    moreover from this have "mu_byEmail s (to_lower ut (u_Email u)) = Some (u_ID u)"
      "mu_byEmail s (to_lower ut (u_Email v)) = Some (u_ID v)" using mem_users_idD [OF ok] by blast+
    ultimately show ?thesis using that(3) by simp
  qed
  show "mem_user_create ut i now u s = (Inl ErrEmailTaken, s)" if "email_taken (to_lower ut) (ran (mu_byID s)) (u_Email u)"
    using that mem_users_taken [OF ok] by (simp add: mem_user_create_def Let_def)
  show "mem_user_by_email ut e s = Inl ErrUserNotFound" if "\<not> email_taken (to_lower ut) (ran (mu_byID s)) e"
    using that mem_users_taken [OF ok] by (simp add: mem_user_by_email_def)
  show "mem_user_by_id (u_ID u) s = Inr u" if "u \<in> ran (mu_byID s)"
    using that mem_users_lookup [OF ok] by (simp add: mem_user_by_id_def)
  show "mem_user_by_email ut e s = Inr u" if "u \<in> ran (mu_byID s)" "to_lower ut (u_Email u) = to_lower ut e"
  proof -
    have "mu_byID s (u_ID u) = Some u" using that(1) mem_users_lookup [OF ok] by simp
    then show ?thesis using that(2) mem_users_idD [OF ok, of "u_ID u" u] by (simp add: mem_user_by_email_def)
  qed
  show "\<exists>v s'. mem_user_create ut i now u s = (Inr v, s') \<and> same_account v u \<and> u_ID v = i \<and>
      ran (mu_byID s') = insert v (ran (mu_byID s)) \<and> mem_users_ok ut s'"
    if u: "new_customer u" and i: "mem_user_usable s i" and free: "\<not> email_taken (to_lower ut) (ran (mu_byID s)) (u_Email u)"
  proof -
    let ?v = "u\<lparr>u_ID := i, u_CreatedAt := now\<rparr>" and ?k = "to_lower ut (u_Email u)"
    let ?s = "s\<lparr>mu_byID := (mu_byID s)(i \<mapsto> ?v), mu_byEmail := (mu_byEmail s)(?k \<mapsto> i)\<rparr>"
    have new: "mu_byEmail s ?k = None" "mu_byID s i = None" "i \<noteq> []"
      using free mem_users_taken [OF ok] i by (auto simp: mem_user_usable_def)
    have "mem_user_create ut i now u s = (Inr ?v, ?s)"
      using u i new(1) by (simp add: mem_user_create_def new_customer_def Let_def)
    moreover have "ran (mu_byID ?s) = insert ?v (ran (mu_byID s))" using new(2) by simp
    moreover have "mem_users_ok ut ?s" using mem_users_ok_insert [OF ok, of ?v] new by simp
    moreover have "same_account ?v u" "u_ID ?v = i" by (simp_all add: same_account_def)
    ultimately show ?thesis by blast
  qed
qed

section \<open>Refresh tokens\<close>

type_synonym mem_tokens = ledger

definition mem_revoke_locked :: "string \<Rightarrow> time \<Rightarrow> mem_tokens \<Rightarrow> mem_tokens" where
  "mem_revoke_locked familyID now s =
     (\<lambda>h. case s h of
        None \<Rightarrow> None
      | Some row \<Rightarrow>
          if rt_FamilyID row = familyID \<and> rt_RevokedAt row = None then Some (row\<lparr>rt_RevokedAt := Some now\<rparr>)
          else Some row)"

definition mem_token_create :: "time \<Rightarrow> refresh_token \<Rightarrow> mem_tokens \<Rightarrow> refresh_token res \<times> mem_tokens" where
  "mem_token_create now t s = (Inr t, s(rt_TokenHash t \<mapsto> t))"

definition mem_token_by_hash :: "string \<Rightarrow> mem_tokens \<Rightarrow> refresh_token res" where
  "mem_token_by_hash h s = (case s h of None \<Rightarrow> Inl ErrRefreshTokenUnknown | Some row \<Rightarrow> Inr row)"

text \<open>\<open>old\<close> is a pointer: its last update reaches the map entry it came from, unless that was replaced.\<close>

definition mem_token_rotate :: "time \<Rightarrow> string \<Rightarrow> refresh_token \<Rightarrow> mem_tokens \<Rightarrow> refresh_token res \<times> mem_tokens" where
  "mem_token_rotate now tokenHash next s =
     (case s tokenHash of
        None \<Rightarrow> (Inl ErrRefreshTokenUnknown, s)
      | Some old \<Rightarrow>
          if reuse_is_theft old then (Inl ErrRefreshTokenReused, mem_revoke_locked (rt_FamilyID old) now s)
          else if rt_is_expired old now then (Inl ErrRefreshTokenExpired, s)
          else
            let stored = next\<lparr>rt_UserID := rt_UserID old, rt_FamilyID := rt_FamilyID old\<rparr>
            in (Inr stored, s(tokenHash \<mapsto> old\<lparr>rt_ReplacedBy := rt_ID next\<rparr>, rt_TokenHash next \<mapsto> stored)))"

definition mem_token_revoke_family :: "time \<Rightarrow> string \<Rightarrow> mem_tokens \<Rightarrow> unit res \<times> mem_tokens" where
  "mem_token_revoke_family now familyID s = (Inr (), mem_revoke_locked familyID now s)"

definition mem_tokens_ok :: "mem_tokens \<Rightarrow> bool" where
  "mem_tokens_ok s \<longleftrightarrow> (\<forall>h t. s h = Some t \<longrightarrow> rt_TokenHash t = h)"

lemma mem_revoke_revoked: "mem_revoke_locked fam now s = revoked now fam s"
  by (auto simp: mem_revoke_locked_def revoked_def revoke_row_def fun_eq_iff split: option.split)

lemma mem_tokens_ok_revoked: "mem_tokens_ok s \<Longrightarrow> mem_tokens_ok (revoked at fam s)"
  by (auto simp: mem_tokens_ok_def revoked_Some)

interpretation mem_rt: refresh_store mem_tokens_ok "\<lambda>s. s" "\<lambda>t. t" "\<lambda>_ _. True"
  mem_token_create mem_token_by_hash mem_token_rotate mem_token_revoke_family
proof
  fix s s' :: mem_tokens and h :: string and t old :: refresh_token and now :: time
  assume ok: "mem_tokens_ok s"
  show "rt_TokenHash t = h" if "s h = Some t" using ok that by (simp add: mem_tokens_ok_def)
  show "\<exists>r s'. mem_token_create now t s = (Inr r, s') \<and> stored_as (\<lambda>t. t) r t \<and> mem_tokens_ok s' \<and> s' = s(rt_TokenHash t \<mapsto> r)"
    if "unused_token t" using ok that by (simp add: mem_token_create_def stored_as_def unused_token_def mem_tokens_ok_def)
  show "mem_token_by_hash h s = (case s h of None \<Rightarrow> Inl ErrRefreshTokenUnknown | Some t \<Rightarrow> Inr t)"
    by (simp add: mem_token_by_hash_def)
  show "mem_token_rotate now h t s = (Inl ErrRefreshTokenUnknown, s)" if "s h = None"
    using that by (simp add: mem_token_rotate_def)
  show "\<exists>s'. mem_token_rotate now h t s = (Inl ErrRefreshTokenReused, s') \<and> mem_tokens_ok s' \<and> s' = revoked now (rt_FamilyID old) s"
    if "s h = Some old" "reuse_is_theft old"
    using that ok by (simp add: mem_token_rotate_def mem_revoke_revoked mem_tokens_ok_revoked)
  show "mem_token_rotate now h t s = (Inl ErrRefreshTokenExpired, s)"
    if "s h = Some old" "\<not> reuse_is_theft old" "rt_is_expired old now"
    using that by (simp add: mem_token_rotate_def)
  show "\<exists>r s'. mem_token_rotate now h t s = (Inr r, s') \<and> stored_as (\<lambda>t. t) r (succeeding old t) \<and> mem_tokens_ok s' \<and>
      s' = s(rt_TokenHash t \<mapsto> r, h \<mapsto> old\<lparr>rt_ReplacedBy := rt_ID t\<rparr>)"
    if o: "s h = Some old" and a: "rt_is_active old now" and u: "unused_token t" and n: "s (rt_TokenHash t) = None"
  proof -
    have "\<not> reuse_is_theft (succeeding old t)"
      using u by (simp add: unused_token_def succeeding_def reuse_is_theft_def rt_is_replaced_def rt_is_revoked_def)
    moreover have "rt_TokenHash t \<noteq> h" using o n by auto
    ultimately show ?thesis
      using o a ok by (auto simp: mem_token_rotate_def rt_is_active_def reuse_is_theft_def succeeding_def stored_as_def
          mem_tokens_ok_def fun_upd_twist Let_def)
  qed
  show "\<exists>s'. mem_token_revoke_family now (rt_FamilyID t) s = (Inr (), s') \<and> mem_tokens_ok s' \<and> s' = revoked now (rt_FamilyID t) s"
    using ok by (simp add: mem_token_revoke_family_def mem_revoke_revoked mem_tokens_ok_revoked)
qed

end
