(* ===== verification/PgAuthStore.thy ===== *)
theory PgAuthStore
  imports AuthStore Postgres
begin

text \<open>
  \<open>internal/adapters/postgres/repos_auth.go\<close> over the tables \<open>users\<close> and \<open>refresh_tokens\<close>
  (\<open>migrations/00001\<close>, \<open>00006\<close>) and the statements of \<open>sqlcgen/users.sql.go\<close> and
  \<open>sqlcgen/refresh_tokens.sql.go\<close>.
\<close>

section \<open>Accounts\<close>

record user_row =
  ur_ID :: string
  ur_Email :: string
  ur_PasswordHash :: string
  ur_DisplayName :: string
  ur_Role :: string
  ur_CreatedAt :: time

type_synonym pg_users = "user_row list"

text \<open>\<open>CHECK (length(trim(email)) > 0)\<close>, the unique index on \<open>lower(email)\<close>, \<open>role\<close> by default.\<close>

definition create_user_row ::
    "pg_env \<Rightarrow> string \<Rightarrow> time \<Rightarrow> string \<Rightarrow> string \<Rightarrow> string \<Rightarrow> pg_users \<Rightarrow> user_row res \<times> pg_users" where
  "create_user_row E newID now email passwordHash displayName t =
     (if list_all (\<lambda>c. c = CHR '' '') email then (Inl (PgError ''23514'' ''users_email_nonempty''), t)
      else if list_ex (\<lambda>r. pg_lower E (ur_Email r) = pg_lower E email) t
      then (Inl (PgError unique_violation ''users_email_unique''), t)
      else
        let row = \<lparr>ur_ID = newID, ur_Email = email, ur_PasswordHash = passwordHash, ur_DisplayName = displayName,
              ur_Role = ''customer'', ur_CreatedAt = pg_now now\<rparr>
        in (Inr row, t @ [row]))"

definition get_user_by_email :: "pg_env \<Rightarrow> string \<Rightarrow> pg_users \<Rightarrow> user_row res" where
  "get_user_by_email E email t =
     (case find (\<lambda>r. pg_lower E (ur_Email r) = pg_lower E email) t of None \<Rightarrow> Inl ErrNoRows | Some r \<Rightarrow> Inr r)"

definition get_user_by_id :: "pg_env \<Rightarrow> string \<Rightarrow> pg_users \<Rightarrow> user_row res" where
  "get_user_by_id E i t =
     (case pg_uuid E i of
        None \<Rightarrow> Inl invalid_text
      | Some u \<Rightarrow> (case find (\<lambda>r. ur_ID r = u) t of None \<Rightarrow> Inl ErrNoRows | Some r \<Rightarrow> Inr r))"

definition is_unique_violation :: "error \<Rightarrow> bool" where
  "is_unique_violation err \<longleftrightarrow> (case as_pg_error err of None \<Rightarrow> False | Some (code, con) \<Rightarrow> code = ''23505'')"

definition user_from_row :: "user_row \<Rightarrow> user" where
  "user_from_row row =
     \<lparr>u_ID = ur_ID row, u_Email = ur_Email row, u_PasswordHash = ur_PasswordHash row,
      u_DisplayName = ur_DisplayName row, u_Role = ur_Role row, u_CreatedAt = ur_CreatedAt row\<rparr>"

definition pg_user_create :: "pg_env \<Rightarrow> string \<Rightarrow> time \<Rightarrow> user \<Rightarrow> pg_users \<Rightarrow> user res \<times> pg_users" where
  "pg_user_create E newID now u t =
     (case create_user_row E newID now (u_Email u) (u_PasswordHash u) (u_DisplayName u) t of
        (Inl err, t') \<Rightarrow>
          if is_unique_violation err then (Inl ErrEmailTaken, t')
          else (Inl (Errorf ''user: create: %w'' [] [err]), t')
      | (Inr row, t') \<Rightarrow> (Inr (user_from_row row), t'))"

definition pg_user_by_email :: "pg_env \<Rightarrow> string \<Rightarrow> pg_users \<Rightarrow> user res" where
  "pg_user_by_email E email t =
     (case get_user_by_email E email t of
        Inl err \<Rightarrow> if errors_is err ErrNoRows then Inl ErrUserNotFound
                   else Inl (Errorf ''user: get by email: %w'' [] [err])
      | Inr row \<Rightarrow> Inr (user_from_row row))"

definition pg_user_by_id :: "pg_env \<Rightarrow> string \<Rightarrow> pg_users \<Rightarrow> user res" where
  "pg_user_by_id E i t =
     (case get_user_by_id E i t of
        Inl err \<Rightarrow> if errors_is err ErrNoRows then Inl ErrUserNotFound
                   else Inl (Errorf ''user: get by id: %w'' [] [err])
      | Inr row \<Rightarrow> Inr (user_from_row row))"

definition pg_users_ok :: "pg_env \<Rightarrow> pg_users \<Rightarrow> bool" where
  "pg_users_ok E t \<longleftrightarrow> distinct (map (\<lambda>r. pg_lower E (ur_Email r)) t) \<and> distinct (map ur_ID t) \<and>
     (\<forall>r \<in> set t. pg_uuid E (ur_ID r) = Some (ur_ID r))"

definition pg_creatable :: "user \<Rightarrow> bool" where
  "pg_creatable u \<longleftrightarrow> \<not> list_all (\<lambda>c. c = CHR '' '') (u_Email u)"

text \<open>A key that \<open>gen_random_uuid()\<close> makes.\<close>

definition pg_new_key :: "pg_env \<Rightarrow> pg_users \<Rightarrow> string \<Rightarrow> bool" where
  "pg_new_key E t i \<longleftrightarrow> pg_uuid E i = Some i \<and> i \<notin> ur_ID ` set t"

lemma user_from_row_simps [simp]:
  "u_ID (user_from_row r) = ur_ID r" "u_Email (user_from_row r) = ur_Email r"
  "u_PasswordHash (user_from_row r) = ur_PasswordHash r" "u_DisplayName (user_from_row r) = ur_DisplayName r"
  "u_Role (user_from_row r) = ur_Role r"
  by (simp_all add: user_from_row_def)

lemma pg_email_taken:
  "email_taken (pg_lower E) (user_from_row ` set t) e \<longleftrightarrow> list_ex (\<lambda>r. pg_lower E (ur_Email r) = pg_lower E e) t"
  by (auto simp: email_taken_def list_ex_iff)

sublocale postgres \<subseteq> pg_users: user_store "pg_users_ok E" "\<lambda>t. user_from_row ` set t" "pg_lower E" pg_creatable "pg_new_key E"
  "pg_user_create E" "pg_user_by_email E" "pg_user_by_id E"
proof
  fix s s' :: pg_users and u v :: user and i e :: string and now :: time
  assume ok: "pg_users_ok E s"
  have row: "find (\<lambda>x. pg_lower E (ur_Email x) = pg_lower E (ur_Email r)) s = Some r"
    "find (\<lambda>x. ur_ID x = ur_ID r) s = Some r" "pg_uuid E (ur_ID r) = Some (ur_ID r)" if "r \<in> set s" for r
    using ok that find_key_unique [of "\<lambda>r. pg_lower E (ur_Email r)" s r] find_key_unique [of ur_ID s r]
    by (simp_all add: pg_users_ok_def)
  show "u = v" if uv: "u \<in> user_from_row ` set s" "v \<in> user_from_row ` set s"
    and e: "pg_lower E (u_Email u) = pg_lower E (u_Email v)"
  proof -
    obtain r r' where r: "r \<in> set s" "r' \<in> set s" "u = user_from_row r" "v = user_from_row r'" using uv by auto
    with e ok distinct_map_eqD [of "\<lambda>r. pg_lower E (ur_Email r)" s r r'] show ?thesis by (simp add: pg_users_ok_def)
  qed
  show "pg_user_create E i now u s = (Inl ErrEmailTaken, s)"
    if "pg_creatable u" "email_taken (pg_lower E) (user_from_row ` set s) (u_Email u)"
    using that unfolding pg_email_taken
    by (simp add: pg_user_create_def create_user_row_def pg_creatable_def is_unique_violation_def unique_violation_def)
  show "pg_user_by_email E e s = Inl ErrUserNotFound" if "\<not> email_taken (pg_lower E) (user_from_row ` set s) e"
  proof -
    have "find (\<lambda>r. pg_lower E (ur_Email r) = pg_lower E e) s = None"
      using that unfolding pg_email_taken by (auto simp: find_None_iff list_ex_iff)
    then show ?thesis by (simp add: pg_user_by_email_def get_user_by_email_def)
  qed
  show "pg_user_by_email E e s = Inr u" if u: "u \<in> user_from_row ` set s" and e: "pg_lower E (u_Email u) = pg_lower E e"
  proof -
    obtain r where r: "r \<in> set s" "u = user_from_row r" using u by auto
    then have "find (\<lambda>x. pg_lower E (ur_Email x) = pg_lower E e) s = Some r" using row(1) [of r] e by simp
    with r(2) show ?thesis by (simp add: pg_user_by_email_def get_user_by_email_def)
  qed
  show "pg_user_by_id E (u_ID u) s = Inr u" if "u \<in> user_from_row ` set s"
    using that row by (auto simp: pg_user_by_id_def get_user_by_id_def)
  show "\<exists>v s'. pg_user_create E i now u s = (Inr v, s') \<and> same_account v u \<and> u_ID v = i \<and>
      user_from_row ` set s' = insert v (user_from_row ` set s) \<and> pg_users_ok E s'"
    if u: "new_customer u" "pg_creatable u" and i: "pg_new_key E s i"
      and free: "\<not> email_taken (pg_lower E) (user_from_row ` set s) (u_Email u)"
  proof -
    let ?r = "\<lparr>ur_ID = i, ur_Email = u_Email u, ur_PasswordHash = u_PasswordHash u, ur_DisplayName = u_DisplayName u,
       ur_Role = ''customer'', ur_CreatedAt = pg_now now\<rparr>"
    have "pg_user_create E i now u s = (Inr (user_from_row ?r), s @ [?r])"
      using u free unfolding pg_email_taken
      by (simp add: pg_user_create_def create_user_row_def pg_creatable_def Let_def)
    moreover have "pg_lower E (u_Email u) \<notin> (\<lambda>r. pg_lower E (ur_Email r)) ` set s"
      using free unfolding pg_email_taken list_ex_iff by auto
    then have "pg_users_ok E (s @ [?r])"
      using ok i by (simp add: pg_users_ok_def pg_new_key_def)
    moreover have "same_account (user_from_row ?r) u" using u(1) by (simp add: same_account_def new_customer_def RoleCustomer_def)
    ultimately show ?thesis by force
  qed
qed

section \<open>Refresh tokens\<close>

record token_row =
  tr_ID :: string
  tr_UserID :: string
  tr_FamilyID :: string
  tr_TokenHash :: string
  tr_ExpiresAt :: time
  tr_RevokedAt :: "time option"
  tr_ReplacedBy :: "string option"
  tr_CreatedAt :: time

record pg_tokens =
  pt_rows :: "token_row list"
  pt_users :: "string list"

definition token_clashes :: "string \<Rightarrow> string \<Rightarrow> token_row list \<Rightarrow> string list" where
  "token_clashes ident tokenHash rs =
     (if list_ex (\<lambda>r. tr_ID r = ident) rs then [''refresh_tokens_pkey''] else []) @
     (if list_ex (\<lambda>r. tr_TokenHash r = tokenHash) rs then [''refresh_tokens_hash_unique''] else [])"

definition create_refresh_token ::
    "pg_env \<Rightarrow> time \<Rightarrow> string \<Rightarrow> string \<Rightarrow> string \<Rightarrow> string \<Rightarrow> time \<Rightarrow> pg_tokens \<Rightarrow> token_row res \<times> pg_tokens" where
  "create_refresh_token E now ident userID familyID tokenHash expiresAt t =
     (case (pg_uuid E ident, pg_uuid E userID, pg_uuid E familyID) of
        (Some ident, Some usr, Some fam) \<Rightarrow>
          let row = \<lparr>tr_ID = ident, tr_UserID = usr, tr_FamilyID = fam, tr_TokenHash = tokenHash,
                tr_ExpiresAt = pg_now expiresAt, tr_RevokedAt = None, tr_ReplacedBy = None, tr_CreatedAt = pg_now now\<rparr> in
          if token_clashes ident tokenHash (pt_rows t) \<noteq> []
          then (Inl (PgError unique_violation (pg_pick E (token_clashes ident tokenHash (pt_rows t)))), t)
          else if usr \<notin> set (pt_users t) then (Inl (PgError ''23503'' ''refresh_tokens_user_id_fkey''), t)
          else (Inr row, t\<lparr>pt_rows := pt_rows t @ [row]\<rparr>)
      | _ \<Rightarrow> (Inl invalid_text, t))"

definition get_refresh_token_by_hash :: "string \<Rightarrow> pg_tokens \<Rightarrow> token_row res" where
  "get_refresh_token_by_hash tokenHash t =
     (case find (\<lambda>r. tr_TokenHash r = tokenHash) (pt_rows t) of None \<Rightarrow> Inl ErrNoRows | Some r \<Rightarrow> Inr r)"

text \<open>\<open>replaced_by\<close> references the table itself.\<close>

definition mark_refresh_token_replaced :: "pg_env \<Rightarrow> string \<Rightarrow> string option \<Rightarrow> pg_tokens \<Rightarrow> unit res \<times> pg_tokens" where
  "mark_refresh_token_replaced E ident replacedBy t =
     (case pg_uuid E ident of
        None \<Rightarrow> (Inl invalid_text, t)
      | Some ident \<Rightarrow>
          if list_ex (\<lambda>r. tr_ID r = ident) (pt_rows t) \<and>
             (case replacedBy of None \<Rightarrow> False | Some i \<Rightarrow> \<not> list_ex (\<lambda>r. tr_ID r = i) (pt_rows t))
          then (Inl (PgError ''23503'' ''refresh_tokens_replaced_by_fkey''), t)
          else (Inr (), t\<lparr>pt_rows := map (\<lambda>r. if tr_ID r = ident then r\<lparr>tr_ReplacedBy := replacedBy\<rparr> else r) (pt_rows t)\<rparr>))"

definition revoke_refresh_token_family :: "pg_env \<Rightarrow> time \<Rightarrow> string \<Rightarrow> pg_tokens \<Rightarrow> unit res \<times> pg_tokens" where
  "revoke_refresh_token_family E now familyID t =
     (case pg_uuid E familyID of
        None \<Rightarrow> (Inl invalid_text, t)
      | Some fam \<Rightarrow> (Inr (), t\<lparr>pt_rows := map (\<lambda>r.
          if tr_FamilyID r = fam \<and> tr_RevokedAt r = None then r\<lparr>tr_RevokedAt := Some (pg_now now)\<rparr> else r) (pt_rows t)\<rparr>))"

text \<open>\<open>uuid.Parse\<close> of the Go library is the argument \<open>gu\<close>; \<open>uuidFromPgtype\<close> maps \<open>NULL\<close> to the empty string.\<close>

definition uuid_to_pgtype :: "(string \<Rightarrow> string option) \<Rightarrow> string \<Rightarrow> string option res" where
  "uuid_to_pgtype gu i =
     (case gu i of
        None \<Rightarrow> Inl (Errorf ''parse uuid %q: %w'' [ArgS i] [Infra ''uuid.Parse''])
      | Some u \<Rightarrow> Inr (Some u))"

definition uuid_from_pgtype :: "string option \<Rightarrow> string" where
  "uuid_from_pgtype u = (case u of None \<Rightarrow> [] | Some i \<Rightarrow> i)"

definition refresh_token_from_row :: "token_row \<Rightarrow> refresh_token" where
  "refresh_token_from_row row =
     \<lparr>rt_ID = tr_ID row, rt_UserID = tr_UserID row, rt_FamilyID = tr_FamilyID row, rt_TokenHash = tr_TokenHash row,
      rt_ExpiresAt = tr_ExpiresAt row, rt_CreatedAt = tr_CreatedAt row, rt_RevokedAt = tr_RevokedAt row,
      rt_ReplacedBy = uuid_from_pgtype (tr_ReplacedBy row)\<rparr>"

definition pg_token_create :: "pg_env \<Rightarrow> time \<Rightarrow> refresh_token \<Rightarrow> pg_tokens \<Rightarrow> refresh_token res \<times> pg_tokens" where
  "pg_token_create E now tok t =
     (case create_refresh_token E now (rt_ID tok) (rt_UserID tok) (rt_FamilyID tok) (rt_TokenHash tok) (rt_ExpiresAt tok) t of
        (Inl err, t') \<Rightarrow> (Inl (Errorf ''refresh token: create: %w'' [] [err]), t')
      | (Inr row, t') \<Rightarrow> (Inr (refresh_token_from_row row), t'))"

definition pg_token_by_hash :: "string \<Rightarrow> pg_tokens \<Rightarrow> refresh_token res" where
  "pg_token_by_hash tokenHash t =
     (case get_refresh_token_by_hash tokenHash t of
        Inl err \<Rightarrow> if errors_is err ErrNoRows then Inl ErrRefreshTokenUnknown
                   else Inl (Errorf ''refresh token: get: %w'' [] [err])
      | Inr row \<Rightarrow> Inr (refresh_token_from_row row))"

definition pg_token_revoke_family :: "pg_env \<Rightarrow> time \<Rightarrow> string \<Rightarrow> pg_tokens \<Rightarrow> unit res \<times> pg_tokens" where
  "pg_token_revoke_family E now familyID t =
     (case revoke_refresh_token_family E now familyID t of
        (Inl err, t') \<Rightarrow> (Inl (Errorf ''refresh token: revoke family: %w'' [] [err]), t')
      | (Inr _, t') \<Rightarrow> (Inr (), t'))"

text \<open>\<open>Rotate\<close>: a return before a commit rolls back to \<open>t\<close>; the theft branch commits.\<close>

definition pg_token_rotate ::
    "(string \<Rightarrow> string option) \<Rightarrow> pg_env \<Rightarrow> time \<Rightarrow> string \<Rightarrow> refresh_token \<Rightarrow> pg_tokens \<Rightarrow> refresh_token res \<times> pg_tokens" where
  "pg_token_rotate gu E now tokenHash next t =
     (case get_refresh_token_by_hash tokenHash t of
        Inl err \<Rightarrow>
          if errors_is err ErrNoRows then (Inl ErrRefreshTokenUnknown, t)
          else (Inl (Errorf ''refresh token: rotate: lock: %w'' [] [err]), t)
      | Inr old \<Rightarrow>
          let oldToken = refresh_token_from_row old in
          if reuse_is_theft oldToken then
            (case revoke_refresh_token_family E now (tr_FamilyID old) t of
               (Inl err, t1) \<Rightarrow> (Inl (Errorf ''refresh token: rotate: revoke family: %w'' [] [err]), t)
             | (Inr _, t1) \<Rightarrow> (Inl ErrRefreshTokenReused, t1))
          else if rt_is_expired oldToken now then (Inl ErrRefreshTokenExpired, t)
          else
            (case create_refresh_token E now (rt_ID next) (tr_UserID old) (tr_FamilyID old) (rt_TokenHash next) (rt_ExpiresAt next) t of
               (Inl err, t1) \<Rightarrow> (Inl (Errorf ''refresh token: rotate: insert successor: %w'' [] [err]), t)
             | (Inr created, t1) \<Rightarrow>
                 (case uuid_to_pgtype gu (tr_ID created) of
                    Inl err \<Rightarrow> (Inl (Errorf ''refresh token: rotate: %w'' [] [err]), t)
                  | Inr replacedBy \<Rightarrow>
                      (case mark_refresh_token_replaced E (tr_ID old) replacedBy t1 of
                         (Inl err, t2) \<Rightarrow> (Inl (Errorf ''refresh token: rotate: mark replaced: %w'' [] [err]), t)
                       | (Inr _, t2) \<Rightarrow> (Inr (refresh_token_from_row created), t2)))))"

section \<open>The ledger contract\<close>

definition pg_ledger :: "pg_tokens \<Rightarrow> ledger" where
  "pg_ledger t h = map_option refresh_token_from_row (find (\<lambda>r. tr_TokenHash r = h) (pt_rows t))"

definition pg_tokens_ok :: "pg_env \<Rightarrow> pg_tokens \<Rightarrow> bool" where
  "pg_tokens_ok E t \<longleftrightarrow> distinct (map tr_TokenHash (pt_rows t)) \<and> distinct (map tr_ID (pt_rows t)) \<and>
     (\<forall>r \<in> set (pt_rows t). pg_uuid E (tr_ID r) = Some (tr_ID r) \<and> pg_uuid E (tr_FamilyID r) = Some (tr_FamilyID r) \<and>
        pg_uuid E (tr_UserID r) = Some (tr_UserID r))"

definition pg_accepts :: "pg_env \<Rightarrow> pg_tokens \<Rightarrow> refresh_token \<Rightarrow> bool" where
  "pg_accepts E t tok \<longleftrightarrow> pg_uuid E (rt_ID tok) = Some (rt_ID tok) \<and> rt_ID tok \<notin> tr_ID ` set (pt_rows t) \<and>
     pg_uuid E (rt_UserID tok) = Some (rt_UserID tok) \<and> rt_UserID tok \<in> set (pt_users t) \<and>
     pg_uuid E (rt_FamilyID tok) = Some (rt_FamilyID tok)"

lemma token_row_simps [simp]:
  "rt_ID (refresh_token_from_row r) = tr_ID r" "rt_UserID (refresh_token_from_row r) = tr_UserID r"
  "rt_FamilyID (refresh_token_from_row r) = tr_FamilyID r" "rt_TokenHash (refresh_token_from_row r) = tr_TokenHash r"
  "rt_ExpiresAt (refresh_token_from_row r) = tr_ExpiresAt r" "rt_RevokedAt (refresh_token_from_row r) = tr_RevokedAt r"
  "rt_ReplacedBy (refresh_token_from_row r) = uuid_from_pgtype (tr_ReplacedBy r)"
  by (simp_all add: refresh_token_from_row_def)

lemma pg_ledger_Some:
  "pg_ledger t h = Some tok \<Longrightarrow> \<exists>r \<in> set (pt_rows t). tok = refresh_token_from_row r \<and> tr_TokenHash r = h \<and>
     get_refresh_token_by_hash h t = Inr r"
  by (auto simp: pg_ledger_def get_refresh_token_by_hash_def dest: find_member)

lemma pg_ledger_None:
  "pg_ledger t h = None \<longleftrightarrow> (\<forall>r \<in> set (pt_rows t). tr_TokenHash r \<noteq> h)"
  "pg_ledger t h = None \<Longrightarrow> get_refresh_token_by_hash h t = Inl ErrNoRows"
proof -
  show "pg_ledger t h = None \<longleftrightarrow> (\<forall>r \<in> set (pt_rows t). tr_TokenHash r \<noteq> h)" by (auto simp: pg_ledger_def find_None_iff)
  show "get_refresh_token_by_hash h t = Inl ErrNoRows" if "pg_ledger t h = None"
    using that by (cases "find (\<lambda>r. tr_TokenHash r = h) (pt_rows t)")
      (simp_all add: pg_ledger_def get_refresh_token_by_hash_def)
qed

lemma find_map_same:
  "(\<And>x. P (f x) \<longleftrightarrow> P x) \<Longrightarrow> find P (map f xs) = map_option f (find P xs)"
  by (induction xs) auto

lemma pg_ledger_append:
  "(\<forall>r \<in> set (pt_rows t). tr_TokenHash r \<noteq> tr_TokenHash row) \<Longrightarrow> pt_rows t' = pt_rows t @ [row] \<Longrightarrow>
   pg_ledger t' = (pg_ledger t)(tr_TokenHash row \<mapsto> refresh_token_from_row row)"
proof (rule ext)
  fix h assume n: "\<forall>r \<in> set (pt_rows t). tr_TokenHash r \<noteq> tr_TokenHash row" and t': "pt_rows t' = pt_rows t @ [row]"
  have "find (\<lambda>r. tr_TokenHash r = h) (rs @ [row]) =
      (if h = tr_TokenHash row then Some row else find (\<lambda>r. tr_TokenHash r = h) rs)"
    if "\<forall>r \<in> set rs. tr_TokenHash r \<noteq> tr_TokenHash row" for rs
    using that by (induction rs) auto
  from this [OF n] show "pg_ledger t' h = ((pg_ledger t)(tr_TokenHash row \<mapsto> refresh_token_from_row row)) h"
    by (simp add: pg_ledger_def t')
qed

text \<open>An update that leaves the keys and the identities alone.\<close>

lemma pg_ledger_map:
  assumes "\<And>r. tr_TokenHash (f r) = tr_TokenHash r" "pt_rows t' = map f (pt_rows t)"
  shows "pg_ledger t' h = map_option (\<lambda>r. refresh_token_from_row (f r)) (find (\<lambda>r. tr_TokenHash r = h) (pt_rows t))"
  using assms by (simp add: pg_ledger_def find_map_same option.map_comp comp_def)

lemma pg_tokens_ok_map:
  assumes "pg_tokens_ok E t" "\<And>r. tr_TokenHash (f r) = tr_TokenHash r" "\<And>r. tr_ID (f r) = tr_ID r"
    "\<And>r. tr_FamilyID (f r) = tr_FamilyID r" "\<And>r. tr_UserID (f r) = tr_UserID r" "pt_rows t' = map f (pt_rows t)"
  shows "pg_tokens_ok E t'"
  using assms by (simp add: pg_tokens_ok_def comp_def)

lemma create_token_ok:
  assumes "pg_tokens_ok E t" "pg_accepts E t tok" "pg_ledger t (rt_TokenHash tok) = None"
  defines "row \<equiv> \<lambda>now. \<lparr>tr_ID = rt_ID tok, tr_UserID = rt_UserID tok, tr_FamilyID = rt_FamilyID tok, tr_TokenHash = rt_TokenHash tok,
     tr_ExpiresAt = pg_now (rt_ExpiresAt tok), tr_RevokedAt = None, tr_ReplacedBy = None, tr_CreatedAt = pg_now now\<rparr>"
  shows "create_refresh_token E now (rt_ID tok) (rt_UserID tok) (rt_FamilyID tok) (rt_TokenHash tok) (rt_ExpiresAt tok) t =
      (Inr (row now), t\<lparr>pt_rows := pt_rows t @ [row now]\<rparr>)"
    and "pg_tokens_ok E (t\<lparr>pt_rows := pt_rows t @ [row now]\<rparr>)"
    and "pg_ledger (t\<lparr>pt_rows := pt_rows t @ [row now]\<rparr>) = (pg_ledger t)(rt_TokenHash tok \<mapsto> refresh_token_from_row (row now))"
    and "stored_as pg_now (refresh_token_from_row (row now)) tok"
proof -
  have n: "token_clashes (rt_ID tok) (rt_TokenHash tok) (pt_rows t) = []"
    "\<forall>r \<in> set (pt_rows t). tr_TokenHash r \<noteq> rt_TokenHash tok"
  proof -
    show h: "\<forall>r \<in> set (pt_rows t). tr_TokenHash r \<noteq> rt_TokenHash tok" using assms(3) by (simp add: pg_ledger_None(1))
    have "\<forall>r \<in> set (pt_rows t). tr_ID r \<noteq> rt_ID tok" using assms(2) unfolding pg_accepts_def by (metis image_eqI)
    with h show "token_clashes (rt_ID tok) (rt_TokenHash tok) (pt_rows t) = []" by (simp add: token_clashes_def list_ex_iff)
  qed
  show "create_refresh_token E now (rt_ID tok) (rt_UserID tok) (rt_FamilyID tok) (rt_TokenHash tok) (rt_ExpiresAt tok) t =
      (Inr (row now), t\<lparr>pt_rows := pt_rows t @ [row now]\<rparr>)"
    using assms(2) n(1) by (simp add: create_refresh_token_def pg_accepts_def row_def Let_def)
  have "rt_TokenHash tok \<notin> tr_TokenHash ` set (pt_rows t)" using n(2) by auto
  then show "pg_tokens_ok E (t\<lparr>pt_rows := pt_rows t @ [row now]\<rparr>)"
    using assms(1,2) by (simp add: pg_tokens_ok_def pg_accepts_def row_def)
  show "pg_ledger (t\<lparr>pt_rows := pt_rows t @ [row now]\<rparr>) = (pg_ledger t)(rt_TokenHash tok \<mapsto> refresh_token_from_row (row now))"
    using pg_ledger_append [of t "row now" "t\<lparr>pt_rows := pt_rows t @ [row now]\<rparr>"] n(2) by (simp add: row_def)
  show "stored_as pg_now (refresh_token_from_row (row now)) tok"
    by (simp add: stored_as_def row_def reuse_is_theft_def rt_is_replaced_def rt_is_revoked_def uuid_from_pgtype_def)
qed

lemma revoke_family_ok:
  assumes ok: "pg_tokens_ok E t" and fam: "pg_uuid E fam = Some fam"
  shows "\<exists>t'. revoke_refresh_token_family E now fam t = (Inr (), t') \<and> pg_tokens_ok E t' \<and>
     pg_ledger t' = revoked (pg_now now) fam (pg_ledger t)"
proof -
  let ?f = "\<lambda>r. if tr_FamilyID r = fam \<and> tr_RevokedAt r = None then r\<lparr>tr_RevokedAt := Some (pg_now now)\<rparr> else r"
  let ?t = "t\<lparr>pt_rows := map ?f (pt_rows t)\<rparr>"
  have "refresh_token_from_row (?f r) = revoke_row (pg_now now) fam (refresh_token_from_row r)" for r
    by (simp add: revoke_row_def refresh_token_from_row_def)
  then have "pg_ledger ?t h = revoked (pg_now now) fam (pg_ledger t) h" for h
    using pg_ledger_map [of ?f ?t t h] by (simp add: revoked_def pg_ledger_def option.map_comp comp_def)
  moreover have "pg_tokens_ok E ?t" by (rule pg_tokens_ok_map [OF ok, of ?f]) simp_all
  ultimately show ?thesis
    using fam by (intro exI [of _ ?t]) (simp add: revoke_refresh_token_family_def fun_eq_iff)
qed

lemma mark_replaced_ok:
  assumes ok: "pg_tokens_ok E t" and r: "r \<in> set (pt_rows t)" and i: "list_ex (\<lambda>r. tr_ID r = i) (pt_rows t)"
  shows "\<exists>t'. mark_refresh_token_replaced E (tr_ID r) (Some i) t = (Inr (), t') \<and> pg_tokens_ok E t' \<and>
     pg_ledger t' = (pg_ledger t)(tr_TokenHash r \<mapsto> (refresh_token_from_row r)\<lparr>rt_ReplacedBy := i\<rparr>)"
proof -
  let ?f = "\<lambda>x. if tr_ID x = tr_ID r then x\<lparr>tr_ReplacedBy := Some i\<rparr> else x"
  let ?t = "t\<lparr>pt_rows := map ?f (pt_rows t)\<rparr>"
  have "pg_ledger ?t h = ((pg_ledger t)(tr_TokenHash r \<mapsto> (refresh_token_from_row r)\<lparr>rt_ReplacedBy := i\<rparr>)) h" for h
  proof (cases "find (\<lambda>x. tr_TokenHash x = h) (pt_rows t)")
    case None
    then have "h \<noteq> tr_TokenHash r" using r by (auto simp: find_None_iff)
    with None show ?thesis using pg_ledger_map [of ?f ?t t h] by (simp add: pg_ledger_def)
  next
    case (Some x)
    then have x: "x \<in> set (pt_rows t)" "tr_TokenHash x = h" using find_member by force+
    show ?thesis
    proof (cases "x = r")
      case True
      then show ?thesis using pg_ledger_map [of ?f ?t t h] Some x(2)
        by (simp add: refresh_token_from_row_def uuid_from_pgtype_def)
    next
      case False
      then have "tr_ID x \<noteq> tr_ID r" "tr_TokenHash x \<noteq> tr_TokenHash r"
        using ok x(1) r distinct_map_eqD [of tr_ID "pt_rows t" x r] distinct_map_eqD [of tr_TokenHash "pt_rows t" x r]
        by (auto simp: pg_tokens_ok_def)
      then show ?thesis using pg_ledger_map [of ?f ?t t h] Some x(2) by (simp add: pg_ledger_def)
    qed
  qed
  moreover have "pg_tokens_ok E ?t" by (rule pg_tokens_ok_map [OF ok, of ?f]) simp_all
  moreover have "pg_uuid E (tr_ID r) = Some (tr_ID r)" using ok r by (simp add: pg_tokens_ok_def)
  ultimately show ?thesis
    using i by (intro exI [of _ ?t]) (simp add: mark_refresh_token_replaced_def fun_eq_iff)
qed

locale pg_auth = postgres E for E :: pg_env +
  fixes gu :: "string \<Rightarrow> string option"
  assumes gu_canonical: "pg_uuid E s = Some u \<Longrightarrow> gu u = Some u"

sublocale pg_auth \<subseteq> pg_rt: refresh_store "pg_tokens_ok E" pg_ledger pg_now "pg_accepts E"
  "pg_token_create E" pg_token_by_hash "pg_token_rotate gu E" "pg_token_revoke_family E"
proof
  fix s :: pg_tokens and h :: string and t old :: refresh_token and now :: time
  assume ok: "pg_tokens_ok E s"
  show "rt_TokenHash t = h" if "pg_ledger s h = Some t" using pg_ledger_Some [OF that] by auto
  show "\<exists>r s'. pg_token_create E now t s = (Inr r, s') \<and> stored_as pg_now r t \<and> pg_tokens_ok E s' \<and>
      pg_ledger s' = (pg_ledger s)(rt_TokenHash t \<mapsto> r)"
    if "pg_accepts E s t" "pg_ledger s (rt_TokenHash t) = None"
    using create_token_ok [OF ok that, of now] by (simp add: pg_token_create_def)
  show "pg_token_by_hash h s = (case pg_ledger s h of None \<Rightarrow> Inl ErrRefreshTokenUnknown | Some t \<Rightarrow> Inr t)"
    by (auto simp: pg_token_by_hash_def get_refresh_token_by_hash_def pg_ledger_def split: option.splits)
  show "pg_token_rotate gu E now h t s = (Inl ErrRefreshTokenUnknown, s)" if "pg_ledger s h = None"
    using pg_ledger_None(2) [OF that] by (simp add: pg_token_rotate_def)
  show "\<exists>s'. pg_token_rotate gu E now h t s = (Inl ErrRefreshTokenReused, s') \<and> pg_tokens_ok E s' \<and>
      pg_ledger s' = revoked (pg_now now) (rt_FamilyID old) (pg_ledger s)"
    if l: "pg_ledger s h = Some old" and th: "reuse_is_theft old"
  proof -
    obtain r where r: "r \<in> set (pt_rows s)" "old = refresh_token_from_row r" "get_refresh_token_by_hash h s = Inr r"
      using pg_ledger_Some [OF l] by blast
    then have "pg_uuid E (tr_FamilyID r) = Some (tr_FamilyID r)" using ok by (simp add: pg_tokens_ok_def)
    from revoke_family_ok [OF ok this, of now] r th show ?thesis
      by (auto simp: pg_token_rotate_def)
  qed
  show "pg_token_rotate gu E now h t s = (Inl ErrRefreshTokenExpired, s)"
    if "pg_ledger s h = Some old" "\<not> reuse_is_theft old" "rt_is_expired old now"
    using pg_ledger_Some [OF that(1)] that(2,3) by (auto simp: pg_token_rotate_def)
  show "\<exists>s'. pg_token_revoke_family E now (rt_FamilyID t) s = (Inr (), s') \<and> pg_tokens_ok E s' \<and>
      pg_ledger s' = revoked (pg_now now) (rt_FamilyID t) (pg_ledger s)" if l: "pg_ledger s h = Some t"
  proof -
    obtain r where r: "r \<in> set (pt_rows s)" "t = refresh_token_from_row r" using pg_ledger_Some [OF l] by blast
    then have "pg_uuid E (rt_FamilyID t) = Some (rt_FamilyID t)" using ok by (simp add: pg_tokens_ok_def)
    from revoke_family_ok [OF ok this, of now] show ?thesis by (auto simp: pg_token_revoke_family_def)
  qed
  show "\<exists>r s'. pg_token_rotate gu E now h t s = (Inr r, s') \<and> stored_as pg_now r (succeeding old t) \<and> pg_tokens_ok E s' \<and>
      pg_ledger s' = (pg_ledger s)(rt_TokenHash t \<mapsto> r, h \<mapsto> old\<lparr>rt_ReplacedBy := rt_ID t\<rparr>)"
    if l: "pg_ledger s h = Some old" and act: "rt_is_active old now" and a: "pg_accepts E s (succeeding old t)"
      and n: "pg_ledger s (rt_TokenHash t) = None"
  proof -
    obtain r where r: "r \<in> set (pt_rows s)" "old = refresh_token_from_row r" "tr_TokenHash r = h"
      "get_refresh_token_by_hash h s = Inr r" using pg_ledger_Some [OF l] by blast
    have sc: "rt_ID (succeeding old t) = rt_ID t" "rt_UserID (succeeding old t) = tr_UserID r"
      "rt_FamilyID (succeeding old t) = tr_FamilyID r" "rt_TokenHash (succeeding old t) = rt_TokenHash t"
      "rt_ExpiresAt (succeeding old t) = rt_ExpiresAt t" using r(2) by (simp_all add: succeeding_def)
    let ?row = "\<lparr>tr_ID = rt_ID t, tr_UserID = tr_UserID r, tr_FamilyID = tr_FamilyID r, tr_TokenHash = rt_TokenHash t,
       tr_ExpiresAt = pg_now (rt_ExpiresAt t), tr_RevokedAt = None, tr_ReplacedBy = None, tr_CreatedAt = pg_now now\<rparr>"
    let ?s = "s\<lparr>pt_rows := pt_rows s @ [?row]\<rparr>"
    note c = create_token_ok [OF ok a, unfolded sc, OF n, of now]
    have gu: "gu (rt_ID t) = Some (rt_ID t)" using a gu_canonical [of "rt_ID t" "rt_ID t"] by (simp add: pg_accepts_def sc(1))
    obtain s' where m: "mark_refresh_token_replaced E (tr_ID r) (Some (rt_ID t)) ?s = (Inr (), s')" "pg_tokens_ok E s'"
      "pg_ledger s' = (pg_ledger ?s)(h \<mapsto> old\<lparr>rt_ReplacedBy := rt_ID t\<rparr>)"
      using mark_replaced_ok [OF c(2), of r "rt_ID t"] r by auto
    have "pg_token_rotate gu E now h t s = (Inr (refresh_token_from_row ?row), s')"
      using r act c(1) gu m(1)
      by (simp add: pg_token_rotate_def rt_is_active_def reuse_is_theft_def Let_def uuid_to_pgtype_def)
    with c(3,4) m(2,3) show ?thesis by auto
  qed
qed

interpretation plain_auth: pg_auth plain_pg "\<lambda>s. Some s"
  by unfold_locales simp

end
