(* ===== verification/AuthServers.thy ===== *)
theory AuthServers
  imports AuthFlows MemAuthStore PgAuthStore
begin

text \<open>
  The service over the stores of the repository: \<open>memory.UserStore\<close> and \<open>memory.RefreshTokenStore\<close>, as the tests
  wire it, and the two PostgreSQL repositories over one database, as \<open>cmd/api/main.go\<close> does.
\<close>

section \<open>In memory\<close>

record mem_auth =
  ma_users :: mem_users
  ma_tokens :: mem_tokens

definition mem_auth_ports :: "unicode \<Rightarrow> mem_auth auth_ports" where
  "mem_auth_ports ut =
     \<lparr>UsersCreate = (\<lambda>i now u. on_part ma_users (\<lambda>s x. s\<lparr>ma_users := x\<rparr>) (mem_user_create ut i now u)),
      UsersGetByEmail = (\<lambda>e s. mem_user_by_email ut e (ma_users s)),
      UsersGetByID = (\<lambda>i s. mem_user_by_id i (ma_users s)),
      TokensCreate = (\<lambda>now t. on_part ma_tokens (\<lambda>s x. s\<lparr>ma_tokens := x\<rparr>) (mem_token_create now t)),
      TokensGetByHash = (\<lambda>h s. mem_token_by_hash h (ma_tokens s)),
      TokensRotate = (\<lambda>now h t. on_part ma_tokens (\<lambda>s x. s\<lparr>ma_tokens := x\<rparr>) (mem_token_rotate now h t)),
      TokensRevokeFamily = (\<lambda>now f. on_part ma_tokens (\<lambda>s x. s\<lparr>ma_tokens := x\<rparr>) (mem_token_revoke_family now f))\<rparr>"

definition mem_auth_ok :: "unicode \<Rightarrow> mem_auth \<Rightarrow> bool" where
  "mem_auth_ok ut s \<longleftrightarrow> mem_users_ok ut (ma_users s) \<and> mem_tokens_ok (ma_tokens s)"

definition mem_accounts :: "mem_auth \<Rightarrow> user set" where
  "mem_accounts s = ran (mu_byID (ma_users s))"

definition some_id :: "mem_auth \<Rightarrow> string \<Rightarrow> bool" where
  "some_id s i \<longleftrightarrow> i \<noteq> []"

lemma mem_auth_users:
  "user_store (mem_auth_ok ut) mem_accounts (to_lower ut) (\<lambda>u. True) (\<lambda>s. mem_user_usable (ma_users s))
     (UsersCreate (mem_auth_ports ut)) (UsersGetByEmail (mem_auth_ports ut)) (UsersGetByID (mem_auth_ports ut))"
  using user_store_part [OF mem_us.user_store_axioms, of ma_users "\<lambda>s x. s\<lparr>ma_users := x\<rparr>" "\<lambda>s. mem_tokens_ok (ma_tokens s)" ut]
  by (simp add: mem_auth_ports_def mem_auth_ok_def [abs_def] mem_accounts_def [abs_def])

lemma mem_auth_tokens:
  "refresh_store (mem_auth_ok ut) ma_tokens (\<lambda>t. t) (\<lambda>s t. True)
     (TokensCreate (mem_auth_ports ut)) (TokensGetByHash (mem_auth_ports ut)) (TokensRotate (mem_auth_ports ut))
     (TokensRevokeFamily (mem_auth_ports ut))"
  using refresh_store_part [OF mem_rt.refresh_store_axioms, of "\<lambda>s x. s\<lparr>ma_tokens := x\<rparr>" ma_tokens "\<lambda>s. mem_users_ok ut (ma_users s)"]
  by (simp add: mem_auth_ports_def mem_auth_ok_def [abs_def] conj_commute)

interpretation mem_as: auth_stores "mem_auth_ports ut" "mem_auth_ok ut" mem_accounts "to_lower ut" "\<lambda>u. True"
  "\<lambda>s. mem_user_usable (ma_users s)" ma_tokens "\<lambda>t. t" "\<lambda>s t. True" some_id "\<lambda>f. True" for ut
  by (intro auth_stores.intro mem_auth_users mem_auth_tokens auth_stores_axioms.intro)
    (auto simp: mem_auth_ports_def mem_accounts_def some_id_def on_part_def fun_eq_iff split: prod.splits)

locale mem_auth_service =
  hs: argon2 idkey + tk: jwt lib
  for idkey :: idkey and lib :: jwt_library +
  fixes ut :: unicode and params :: argon2_params and issuer :: token_issuer and accessTTL refreshTTL :: duration
    and dummy salt :: "string res" and sv :: "mem_auth auth_service"
  assumes built: "new_auth_service (mem_auth_ports ut) idkey lib ut params issuer accessTTL refreshTTL dummy salt = Some sv"

sublocale mem_auth_service \<subseteq> mfl: auth_flow sv "mem_auth_ok ut" mem_accounts "to_lower ut" "\<lambda>u. True"
  "\<lambda>s. mem_user_usable (ma_users s)" ma_tokens "\<lambda>t. t" "\<lambda>s t. True" some_id "\<lambda>f. True"
  unfolding auth_flow_def auth_flow_axioms_def hs.new_auth_service_ok [OF built]
  using mem_as.auth_stores_axioms hs.argon2_axioms tk.jwt_axioms hs.new_auth_service_ok [OF built]
  by (auto simp: mem_auth_ok_def mem_accounts_def ran_def dest: mem_users_idD)

section \<open>In PostgreSQL\<close>

record pg_auth_db =
  pa_users :: pg_users
  pa_tokens :: "token_row list"

text \<open>The table of tokens with the keys its foreign key refers to.\<close>

definition token_table :: "pg_auth_db \<Rightarrow> pg_tokens" where
  "token_table s = \<lparr>pt_rows = pa_tokens s, pt_users = map ur_ID (pa_users s)\<rparr>"

definition set_token_table :: "pg_auth_db \<Rightarrow> pg_tokens \<Rightarrow> pg_auth_db" where
  "set_token_table s t = s\<lparr>pa_tokens := pt_rows t\<rparr>"

definition pg_auth_ports :: "(string \<Rightarrow> string option) \<Rightarrow> pg_env \<Rightarrow> pg_auth_db auth_ports" where
  "pg_auth_ports gu E =
     \<lparr>UsersCreate = (\<lambda>i now u. on_part pa_users (\<lambda>s x. s\<lparr>pa_users := x\<rparr>) (pg_user_create E i now u)),
      UsersGetByEmail = (\<lambda>e s. pg_user_by_email E e (pa_users s)),
      UsersGetByID = (\<lambda>i s. pg_user_by_id E i (pa_users s)),
      TokensCreate = (\<lambda>now t. on_part token_table set_token_table (pg_token_create E now t)),
      TokensGetByHash = (\<lambda>h s. pg_token_by_hash h (token_table s)),
      TokensRotate = (\<lambda>now h t. on_part token_table set_token_table (pg_token_rotate gu E now h t)),
      TokensRevokeFamily = (\<lambda>now f. on_part token_table set_token_table (pg_token_revoke_family E now f))\<rparr>"

definition pg_auth_ok :: "pg_env \<Rightarrow> pg_auth_db \<Rightarrow> bool" where
  "pg_auth_ok E s \<longleftrightarrow> pg_users_ok E (pa_users s) \<and> pg_tokens_ok E (token_table s)"

definition pg_accounts :: "pg_auth_db \<Rightarrow> user set" where
  "pg_accounts s = user_from_row ` set (pa_users s)"

definition pg_sessions :: "pg_auth_db \<Rightarrow> ledger" where
  "pg_sessions s = pg_ledger (token_table s)"

definition pg_fresh_id :: "pg_env \<Rightarrow> pg_auth_db \<Rightarrow> string \<Rightarrow> bool" where
  "pg_fresh_id E s i \<longleftrightarrow> pg_uuid E i = Some i \<and> i \<noteq> [] \<and> i \<notin> tr_ID ` set (pa_tokens s)"

definition pg_family_id :: "pg_env \<Rightarrow> string \<Rightarrow> bool" where
  "pg_family_id E f \<longleftrightarrow> pg_uuid E f = Some f"

text \<open>No statement on the tokens touches the accounts.\<close>

lemma token_users_kept:
  "pg_token_create E now t x = (rt, y) \<Longrightarrow> pt_users y = pt_users x"
  "pg_token_rotate gu E now h t x = (rt, y) \<Longrightarrow> pt_users y = pt_users x"
  "pg_token_revoke_family E now f x = (ru, y) \<Longrightarrow> pt_users y = pt_users x"
proof -
  have c: "pt_users y = pt_users x" if "create_refresh_token E now i u fm h e x = (r, y)" for now i u fm h e x y r
    using that by (auto simp: create_refresh_token_def Let_def split: option.splits if_splits)
  have m: "pt_users y = pt_users x" if "mark_refresh_token_replaced E i b x = (r, y)" for i b x y r
    using that by (auto simp: mark_refresh_token_replaced_def split: option.splits if_splits)
  have v: "pt_users y = pt_users x" if "revoke_refresh_token_family E now f x = (r, y)" for now f x y r
    using that by (auto simp: revoke_refresh_token_family_def split: option.splits)
  show "pt_users y = pt_users x" if "pg_token_create E now t x = (rt, y)"
    using that c by (fastforce simp: pg_token_create_def split: prod.splits sum.splits)
  show "pt_users y = pt_users x" if "pg_token_revoke_family E now f x = (ru, y)"
    using that v by (fastforce simp: pg_token_revoke_family_def split: prod.splits sum.splits)
  show "pt_users y = pt_users x" if "pg_token_rotate gu E now h t x = (rt, y)"
    using that by (auto simp: pg_token_rotate_def Let_def dest!: c m v split: prod.splits sum.splits if_splits)
qed

lemma token_table_set: "pt_users x = map ur_ID (pa_users s) \<Longrightarrow> token_table (set_token_table s x) = x"
  by (simp add: token_table_def set_token_table_def)

lemma token_table_parts [simp]:
  "pt_users (token_table s) = map ur_ID (pa_users s)" "pt_rows (token_table s) = pa_tokens s"
  "set_token_table s (token_table s) = s" "pa_users (set_token_table s x) = pa_users s"
  by (simp_all add: token_table_def set_token_table_def)

context pg_auth
begin

lemma pg_auth_users:
  "user_store (pg_auth_ok E) pg_accounts (pg_lower E) pg_creatable (\<lambda>s. pg_new_key E (pa_users s))
     (UsersCreate (pg_auth_ports gu E)) (UsersGetByEmail (pg_auth_ports gu E)) (UsersGetByID (pg_auth_ports gu E))"
  using user_store_part [OF pg_users.user_store_axioms, of pa_users "\<lambda>s x. s\<lparr>pa_users := x\<rparr>" "\<lambda>s. pg_tokens_ok E (token_table s)"]
  by (simp add: pg_auth_ports_def pg_auth_ok_def [abs_def] pg_accounts_def [abs_def] pg_tokens_ok_def)

lemma pg_auth_tokens:
  "refresh_store (pg_auth_ok E) pg_sessions pg_now (\<lambda>s. pg_accepts E (token_table s))
     (TokensCreate (pg_auth_ports gu E)) (TokensGetByHash (pg_auth_ports gu E)) (TokensRotate (pg_auth_ports gu E))
     (TokensRevokeFamily (pg_auth_ports gu E))"
proof -
  have get: "token_table (set_token_table s p) = p" if "pt_users p = pt_users (token_table s)" for s p
    using that token_table_set by simp
  have "refresh_store (\<lambda>s. pg_tokens_ok E (token_table s) \<and> pg_users_ok E (pa_users s)) (\<lambda>s. pg_ledger (token_table s)) pg_now
     (\<lambda>s. pg_accepts E (token_table s))
     (\<lambda>now t. on_part token_table set_token_table (pg_token_create E now t)) (\<lambda>h s. pg_token_by_hash h (token_table s))
     (\<lambda>now h t. on_part token_table set_token_table (pg_token_rotate gu E now h t))
     (\<lambda>now f. on_part token_table set_token_table (pg_token_revoke_family E now f))"
    by (rule refresh_store_part [OF pg_rt.refresh_store_axioms, of set_token_table token_table "\<lambda>s. pg_users_ok E (pa_users s)"])
      (auto intro!: get dest: token_users_kept)
  then show ?thesis
    by (simp add: pg_auth_ports_def pg_auth_ok_def [abs_def] pg_sessions_def [abs_def] conj_commute)
qed

end

sublocale pg_auth \<subseteq> pg_as: auth_stores "pg_auth_ports gu E" "pg_auth_ok E" pg_accounts "pg_lower E" pg_creatable
  "\<lambda>s. pg_new_key E (pa_users s)" pg_sessions pg_now "\<lambda>s. pg_accepts E (token_table s)" "pg_fresh_id E" "pg_family_id E"
proof (intro auth_stores.intro pg_auth_users pg_auth_tokens auth_stores_axioms.intro)
  show "pg_sessions s' = pg_sessions s \<and> pg_fresh_id E s' = pg_fresh_id E s"
    if "UsersCreate (pg_auth_ports gu E) i now u s = (r, s')" for i now u s r s'
    using that by (auto simp: pg_auth_ports_def on_part_def pg_sessions_def pg_ledger_def pg_fresh_id_def fun_eq_iff split: prod.splits)
  show "pg_accepts E (token_table s) t"
    if "pg_auth_ok E s" "u \<in> pg_accounts s" "rt_UserID t = u_ID u" "pg_fresh_id E s (rt_ID t)" "pg_family_id E (rt_FamilyID t)" for s u t
    using that by (auto simp: pg_auth_ok_def pg_accounts_def pg_users_ok_def pg_accepts_def pg_fresh_id_def pg_family_id_def)
  show "pg_family_id E (rt_FamilyID t)" if ok: "pg_auth_ok E s" and l: "pg_sessions s h = Some t" for s h t
    using ok pg_ledger_Some [OF l [unfolded pg_sessions_def]]
    by (auto simp: pg_auth_ok_def pg_tokens_ok_def pg_family_id_def)
qed (auto simp: pg_auth_ports_def pg_accounts_def pg_fresh_id_def on_part_def split: prod.splits)

locale pg_auth_service =
  pg_auth E gu + hs: argon2 idkey + tk: jwt lib
  for E :: pg_env and gu :: "string \<Rightarrow> string option" and idkey :: idkey and lib :: jwt_library +
  fixes ut :: unicode and params :: argon2_params and issuer :: token_issuer and accessTTL refreshTTL :: duration
    and dummy salt :: "string res" and sv :: "pg_auth_db auth_service"
  assumes built: "new_auth_service (pg_auth_ports gu E) idkey lib ut params issuer accessTTL refreshTTL dummy salt = Some sv"

sublocale pg_auth_service \<subseteq> pfl: auth_flow sv "pg_auth_ok E" pg_accounts "pg_lower E" pg_creatable
  "\<lambda>s. pg_new_key E (pa_users s)" pg_sessions pg_now "\<lambda>s. pg_accepts E (token_table s)" "pg_fresh_id E" "pg_family_id E"
proof -
  have "u_ID u \<noteq> []" if "pg_auth_ok E s" "u \<in> pg_accounts s" for u s
    using that uuid_nonempty by (auto simp: pg_auth_ok_def pg_users_ok_def pg_accounts_def)
  then show "auth_flow sv (pg_auth_ok E) pg_accounts (pg_lower E) pg_creatable (\<lambda>s. pg_new_key E (pa_users s)) pg_sessions pg_now
     (\<lambda>s. pg_accepts E (token_table s)) (pg_fresh_id E) (pg_family_id E)"
    unfolding auth_flow_def auth_flow_axioms_def hs.new_auth_service_ok [OF built]
    using pg_as.auth_stores_axioms hs.argon2_axioms tk.jwt_axioms hs.new_auth_service_ok [OF built] by auto
qed

end
