(* ===== verification/LogoutOverlap.thy ===== *)
theory LogoutOverlap
  imports AuthServers
begin

text \<open>
  A logout that overlaps a refresh. The repositories run at PostgreSQL's default isolation, READ COMMITTED
  (\<open>pool.Begin\<close> of \<open>repos_auth.go\<close> sets none), where an \<open>UPDATE\<close> looks for its rows in the snapshot taken when the
  statement starts, waits for whoever has locked one of them, and then rechecks and updates the latest version of each
  row it found. Elsewhere every transaction is one step; here the statement that revokes a family starts before a
  \<open>Rotate\<close> commits and ends after it.
\<close>

text \<open>\<open>RevokeRefreshTokenFamily\<close> with the snapshot \<open>seen\<close> on the table \<open>t\<close> it finds once the locks are released; the
  unique hash tells the rows apart.\<close>

definition revoke_family_since :: "pg_env \<Rightarrow> time \<Rightarrow> string \<Rightarrow> pg_tokens \<Rightarrow> pg_tokens \<Rightarrow> unit res \<times> pg_tokens" where
  "revoke_family_since E now familyID seen t =
     (case pg_uuid E familyID of
        None \<Rightarrow> (Inl (Errorf ''refresh token: revoke family: %w'' [] [invalid_text]), t)
      | Some fam \<Rightarrow>
          let found = map tr_TokenHash (filter (\<lambda>r. tr_FamilyID r = fam \<and> tr_RevokedAt r = None) (pt_rows seen)) in
          (Inr (), t\<lparr>pt_rows := map (\<lambda>r.
             if tr_TokenHash r \<in> set found \<and> tr_FamilyID r = fam \<and> tr_RevokedAt r = None
             then r\<lparr>tr_RevokedAt := Some (pg_now now)\<rparr> else r) (pt_rows t)\<rparr>))"

text \<open>\<open>Logout\<close> while \<open>other\<close> is in flight: the row is looked up and the \<open>UPDATE\<close> starts before \<open>other\<close> commits.\<close>

definition logout_during ::
    "(pg_auth_db \<Rightarrow> pg_auth_db) \<Rightarrow> pg_env \<Rightarrow> pg_auth_db auth_service \<Rightarrow> time \<Rightarrow> string \<Rightarrow> pg_auth_db \<Rightarrow> unit res \<times> pg_auth_db" where
  "logout_during other E sv now tok s =
     logout (sv\<lparr>sv_ports := (sv_ports sv)\<lparr>TokensRevokeFamily :=
       (\<lambda>now fam s. on_part token_table set_token_table (revoke_family_since E now fam (token_table s)) (other s))\<rparr>\<rparr>) now tok s"

text \<open>With nothing in flight it is the statement of \<open>PgAuthStore\<close>, and the logout is \<open>logout\<close>.\<close>

lemma revoke_family_since_same:
  "pg_tokens_ok E t \<Longrightarrow> revoke_family_since E now fam t t = pg_token_revoke_family E now fam t"
  by (auto simp: revoke_family_since_def pg_token_revoke_family_def revoke_refresh_token_family_def split: option.split)

text \<open>What it leaves of the ledger: only rows the snapshot shows are revoked.\<close>

lemma revoke_family_since_ok:
  assumes ok: "pg_tokens_ok E t" and fam: "pg_uuid E fam = Some fam"
  shows "\<exists>t'. revoke_family_since E now fam seen t = (Inr (), t') \<and> pg_tokens_ok E t' \<and> pt_users t' = pt_users t \<and>
     map tr_ID (pt_rows t') = map tr_ID (pt_rows t) \<and>
     (\<forall>h. pg_ledger seen h = None \<longrightarrow> pg_ledger t' h = pg_ledger t h) \<and>
     (\<forall>h. pg_ledger t' h = pg_ledger t h \<or> pg_ledger t' h = revoked (pg_now now) fam (pg_ledger t) h)"
proof -
  let ?found = "map tr_TokenHash (filter (\<lambda>r. tr_FamilyID r = fam \<and> tr_RevokedAt r = None) (pt_rows seen))"
  let ?f = "\<lambda>r. if tr_TokenHash r \<in> set ?found \<and> tr_FamilyID r = fam \<and> tr_RevokedAt r = None
             then r\<lparr>tr_RevokedAt := Some (pg_now now)\<rparr> else r"
  let ?t = "t\<lparr>pt_rows := map ?f (pt_rows t)\<rparr>"
  have keeps: "tr_TokenHash (?f r) = tr_TokenHash r" "tr_ID (?f r) = tr_ID r" "tr_FamilyID (?f r) = tr_FamilyID r"
    "tr_UserID (?f r) = tr_UserID r" for r
    by simp_all
  have eq: "revoke_family_since E now fam seen t = (Inr (), ?t)"
    using fam by (simp add: revoke_family_since_def Let_def)
  have ids: "map tr_ID (pt_rows ?t) = map tr_ID (pt_rows t)" "map tr_TokenHash (pt_rows ?t) = map tr_TokenHash (pt_rows t)"
    by (simp_all add: comp_def)
  have ok': "pg_tokens_ok E ?t" using ok unfolding pg_tokens_ok_def ids by (auto simp: keeps)
  have l: "pg_ledger ?t h = map_option (\<lambda>r. refresh_token_from_row (?f r)) (find (\<lambda>r. tr_TokenHash r = h) (pt_rows t))" for h
    using pg_ledger_map [of ?f ?t t h] keeps(1) by simp
  have new: "pg_ledger ?t h = pg_ledger t h" if "pg_ledger seen h = None" for h
  proof -
    have "h \<notin> set ?found" using that by (auto simp: pg_ledger_None(1))
    then have "?f r = r" if "find (\<lambda>r. tr_TokenHash r = h) (pt_rows t) = Some r" for r
      using find_member [OF that] by auto
    then show ?thesis unfolding l by (cases "find (\<lambda>r. tr_TokenHash r = h) (pt_rows t)") (simp_all add: pg_ledger_def)
  qed
  have "pg_ledger ?t h = pg_ledger t h \<or> pg_ledger ?t h = revoked (pg_now now) fam (pg_ledger t) h" for h
    unfolding l revoked_def
    by (cases "find (\<lambda>r. tr_TokenHash r = h) (pt_rows t)")
      (auto simp: pg_ledger_def revoke_row_def refresh_token_from_row_def)
  with eq ok' ids(1) new show ?thesis by (intro exI [of _ ?t]) simp
qed

lemma pg_rotate_ids:
  assumes "pg_token_rotate gu E now h nxt t = (Inr x, t')" "pg_uuid E (rt_ID nxt) = Some (rt_ID nxt)"
  shows "tr_ID ` set (pt_rows t') = insert (rt_ID nxt) (tr_ID ` set (pt_rows t))"
proof -
  have c: "tr_ID ` set (pt_rows y) = insert (rt_ID nxt) (tr_ID ` set (pt_rows t))"
    if "create_refresh_token E now (rt_ID nxt) u fm k e t = (Inr z, y)" for u fm k e z y
    using that assms(2) by (auto simp: create_refresh_token_def Let_def split: option.splits if_splits)
  have m: "tr_ID ` set (pt_rows y) = tr_ID ` set (pt_rows z)" if "mark_refresh_token_replaced E i r z = (Inr (), y)" for i r z y
  proof -
    have "map tr_ID (map (\<lambda>r'. if tr_ID r' = i' then r'\<lparr>tr_ReplacedBy := r\<rparr> else r') rs) = map tr_ID rs" for i' rs
      by (induction rs) auto
    with that have "map tr_ID (pt_rows y) = map tr_ID (pt_rows z)"
      by (auto simp: mark_refresh_token_replaced_def simp del: map_map split: option.splits if_splits)
    then show ?thesis by (metis list.set_map)
  qed
  show ?thesis using assms(1)
    by (auto simp: pg_token_rotate_def Let_def dest!: c m split: prod.splits sum.splits if_splits)
qed

context pg_auth_service
begin

lemma logout_during_nothing:
  assumes "pg_auth_ok E s"
  shows "logout_during (\<lambda>s. s) E sv now tok s = logout sv now tok s"
  using assms revoke_family_since_same [of E "token_table s"]
  by (simp add: logout_during_def logout_def hs.new_auth_service_ok [OF built] pg_auth_ports_def pg_auth_ok_def on_part_def
      split: sum.split)

text \<open>What a refresh leaves: the presented token and its successor, in one family.\<close>

lemma refresh_leaves:
  assumes s: "pg_auth_ok E s" "tokens_owned pg_accounts pg_sessions s"
    and en: "env_is_fresh pg_sessions (pg_fresh_id E) (pg_family_id E) en b s" and tok: "tok \<noteq> []"
    and old: "pg_sessions s (hash_token tok) = Some old" "rt_is_active old (en_storeAt en)"
    and r: "refresh sv en tok s = (Inr se, s1)"
  shows "\<exists>t o1. pg_auth_ok E s1 \<and> pg_sessions s1 (hash_token (se_RefreshToken se)) = Some t \<and>
     rt_FamilyID t = rt_FamilyID o1 \<and> pg_sessions s1 (hash_token tok) = Some o1"
proof -
  obtain u t where f: "session_of sv en u se" "pg_auth_ok E s1" "rt_FamilyID t = rt_FamilyID old"
    and L: "pg_sessions s1 = (pg_sessions s)(hash_token (se_RefreshToken se) \<mapsto> t, hash_token tok \<mapsto> old\<lparr>rt_ReplacedBy := en_rowID en\<rparr>)"
    using pfl.refresh_ok [OF s en tok old] r by auto
  have "pg_sessions s (hash_token (se_RefreshToken se)) = None" using f(1) en by (simp add: session_of_def env_is_fresh_def)
  then have "hash_token (se_RefreshToken se) \<noteq> hash_token tok" using old(1) by auto
  with L f show ?thesis by simp
qed

text \<open>The successor that the refresh in flight inserts is not in the snapshot of the logout, and lives on.\<close>

lemma refresh_outlives_logout:
  assumes s: "pg_auth_ok E s" "tokens_owned pg_accounts pg_sessions s"
    and en: "env_is_fresh pg_sessions (pg_fresh_id E) (pg_family_id E) en b s" and tok: "tok \<noteq> []"
    and old: "pg_sessions s (hash_token tok) = Some old" "rt_is_active old (en_storeAt en)"
    and r: "refresh sv en tok s = (Inr se, s1)"
    and o: "logout_during (\<lambda>s. snd (refresh sv en tok s)) E sv now tok s = (a, s2)"
  shows "a = Inr ()" "pg_auth_ok E s2" "tokens_owned pg_accounts pg_sessions s2" "se_RefreshToken se \<noteq> []"
    "\<exists>t. pg_sessions s2 (hash_token (se_RefreshToken se)) = Some t \<and> rt_UserID t = rt_UserID old \<and>
       rt_FamilyID t = rt_FamilyID old \<and> \<not> reuse_is_theft t \<and> rt_ExpiresAt t = pg_now (en_now en + refreshTTL)"
proof -
  obtain u t where f: "session_of sv en u se" "pg_auth_ok E s1" "tokens_owned pg_accounts pg_sessions s1" "pg_accounts s1 = pg_accounts s"
    and L: "pg_sessions s1 = (pg_sessions s)(hash_token (se_RefreshToken se) \<mapsto> t, hash_token tok \<mapsto> old\<lparr>rt_ReplacedBy := en_rowID en\<rparr>)"
    and t: "rt_FamilyID t = rt_FamilyID old" "rt_UserID t = rt_UserID old" "\<not> reuse_is_theft t" "rt_ExpiresAt t = pg_now (en_now en + refreshTTL)"
    using pfl.refresh_ok [OF s en tok old] r hs.new_auth_service_ok [OF built] by auto
  have b: "se_RefreshToken se = b64_encode True b" "length b = 32"
    and new: "pg_sessions s (hash_token (se_RefreshToken se)) = None"
    using f(1) en by (simp_all add: session_of_def env_is_fresh_def)
  have "sextets (map byte b) \<noteq> []" using b(2) by (cases "map byte b" rule: sextets.cases) auto
  then show "se_RefreshToken se \<noteq> []" using b(1) by (simp add: b64_encode_def)
  have fam: "pg_uuid E (rt_FamilyID old) = Some (rt_FamilyID old)"
    using pg_as.family_known [OF s(1) old(1)] by (simp add: pg_family_id_def)
  have ok1: "pg_tokens_ok E (token_table s1)" using f(2) by (simp add: pg_auth_ok_def)
  from revoke_family_since_ok [OF ok1 fam, of now "token_table s"] obtain x where
    x: "revoke_family_since E now (rt_FamilyID old) (token_table s) (token_table s1) = (Inr (), x)" "pg_tokens_ok E x"
      "pt_users x = map ur_ID (pa_users s1)"
    and keep: "\<And>h. pg_ledger (token_table s) h = None \<Longrightarrow> pg_ledger x h = pg_ledger (token_table s1) h"
    and upd: "\<And>h. pg_ledger x h = pg_ledger (token_table s1) h \<or>
        pg_ledger x h = revoked (pg_now now) (rt_FamilyID old) (pg_ledger (token_table s1)) h"
    by auto
  have "TokensGetByHash (sv_ports sv) (hash_token tok) s = Inr old" using pg_as.rt.by_hash [OF s(1)] old(1) by (simp add: hs.new_auth_service_ok [OF built])
  then have "logout_during (\<lambda>s. snd (refresh sv en tok s)) E sv now tok s = (Inr (), set_token_table s1 x)"
    using tok r x(1) by (simp add: logout_during_def logout_def on_part_def)
  with o have a: "a = Inr ()" and s2: "s2 = set_token_table s1 x" by simp_all
  then show "a = Inr ()" by simp
  have tab: "token_table s2 = x" unfolding s2 by (rule token_table_set [OF x(3)])
  have users: "pa_users s2 = pa_users s1" "pg_accounts s2 = pg_accounts s1" by (simp_all add: s2 pg_accounts_def)
  show "pg_auth_ok E s2" using x(2) f(2) by (simp add: pg_auth_ok_def tab users)
  have L2: "pg_sessions s2 h = pg_sessions s1 h \<or> pg_sessions s2 h = revoked (pg_now now) (rt_FamilyID old) (pg_sessions s1) h" for h
    using upd by (simp add: pg_sessions_def tab revoked_def)
  show "tokens_owned pg_accounts pg_sessions s2"
    unfolding tokens_owned_def users
  proof (intro allI impI)
    fix h z assume z: "pg_sessions s2 h = Some z"
    then obtain z' where "pg_sessions s1 h = Some z'" "rt_UserID z' = rt_UserID z"
      using L2 [of h] by (cases "pg_sessions s1 h") (auto simp: revoked_def)
    then show "\<exists>u \<in> pg_accounts s1. u_ID u = rt_UserID z" using f(3) unfolding tokens_owned_def by fastforce
  qed
  have "hash_token (se_RefreshToken se) \<noteq> hash_token tok" using new old(1) by auto
  then have "pg_sessions s2 (hash_token (se_RefreshToken se)) = Some t"
    using keep new L by (simp add: pg_sessions_def tab)
  with t show "\<exists>t. pg_sessions s2 (hash_token (se_RefreshToken se)) = Some t \<and> rt_UserID t = rt_UserID old \<and>
       rt_FamilyID t = rt_FamilyID old \<and> \<not> reuse_is_theft t \<and> rt_ExpiresAt t = pg_now (en_now en + refreshTTL)" by blast
qed

text \<open>The rows and the ledger after the two.\<close>

lemma overlap_rows:
  assumes s: "pg_auth_ok E s" "tokens_owned pg_accounts pg_sessions s"
    and en: "env_is_fresh pg_sessions (pg_fresh_id E) (pg_family_id E) en b s" and tok: "tok \<noteq> []"
    and old: "pg_sessions s (hash_token tok) = Some old" "rt_is_active old (en_storeAt en)"
    and r: "refresh sv en tok s = (Inr se, s1)"
    and o: "logout_during (\<lambda>s. snd (refresh sv en tok s)) E sv now tok s = (a, s2)"
  shows "tr_ID ` set (pa_tokens s2) = insert (en_rowID en) (tr_ID ` set (pa_tokens s))"
    "\<And>h. pg_sessions s h = None \<Longrightarrow> h \<noteq> hash_token (b64_encode True b) \<Longrightarrow> pg_sessions s2 h = None"
proof -
  obtain u t where f: "session_of sv en u se" "pg_auth_ok E s1"
    and L: "pg_sessions s1 = (pg_sessions s)(hash_token (se_RefreshToken se) \<mapsto> t, hash_token tok \<mapsto> old\<lparr>rt_ReplacedBy := en_rowID en\<rparr>)"
    using pfl.refresh_ok [OF s en tok old] r by auto
  have b: "se_RefreshToken se = b64_encode True b" "en_token en = Inr b" using f(1) en by (simp_all add: session_of_def env_is_fresh_def)
  have fam: "pg_uuid E (rt_FamilyID old) = Some (rt_FamilyID old)"
    using pg_as.family_known [OF s(1) old(1)] by (simp add: pg_family_id_def)
  have ok1: "pg_tokens_ok E (token_table s1)" using f(2) by (simp add: pg_auth_ok_def)
  from revoke_family_since_ok [OF ok1 fam, of now "token_table s"] obtain x where
    x: "revoke_family_since E now (rt_FamilyID old) (token_table s) (token_table s1) = (Inr (), x)"
      "pt_users x = map ur_ID (pa_users s1)" "map tr_ID (pt_rows x) = map tr_ID (pa_tokens s1)"
    and upd: "\<And>h. pg_ledger x h = pg_ledger (token_table s1) h \<or>
        pg_ledger x h = revoked (pg_now now) (rt_FamilyID old) (pg_ledger (token_table s1)) h"
    by auto
  have "TokensGetByHash (sv_ports sv) (hash_token tok) s = Inr old" using pg_as.rt.by_hash [OF s(1)] old(1) by (simp add: hs.new_auth_service_ok [OF built])
  then have s2: "s2 = set_token_table s1 x"
    using o tok r x(1) by (simp add: logout_during_def logout_def on_part_def)
  have tab: "token_table s2 = x" unfolding s2 by (rule token_table_set [OF x(2)])
  obtain y where y: "pg_token_rotate gu E (en_storeAt en) (hash_token tok) (pfl.next_row en b) (token_table s) = (Inr y, token_table s1)"
    using r [unfolded pfl.refresh_is_rotate [OF tok b(2)]] token_users_kept(2)
    by (auto simp: hs.new_auth_service_ok [OF built] pg_auth_ports_def on_part_def token_table_set split: prod.splits sum.splits)
  have "tr_ID ` set (pa_tokens s1) = insert (en_rowID en) (tr_ID ` set (pa_tokens s))"
    using pg_rotate_ids [OF y] en by (simp add: env_is_fresh_def pg_fresh_id_def)
  moreover have "tr_ID ` set (pa_tokens s2) = tr_ID ` set (pa_tokens s1)"
    using x(3) unfolding s2 by (metis list.set_map set_token_table_def token_table_parts(2) tab [unfolded s2])
  ultimately show "tr_ID ` set (pa_tokens s2) = insert (en_rowID en) (tr_ID ` set (pa_tokens s))" by simp
  show "pg_sessions s2 h = None" if "pg_sessions s h = None" "h \<noteq> hash_token (b64_encode True b)" for h
  proof -
    have "pg_sessions s1 h = None" using that L old(1) b(1) by auto
    then show ?thesis using upd [of h] by (auto simp: pg_sessions_def tab revoked_def)
  qed
qed

end

end
