(* ===== verification/ShaVectors.thy ===== *)
theory ShaVectors
  imports Crypto
begin

text \<open>
  The tables of SHA-256 in decimal and its value on three messages of one block: the FIPS 180 example, the
  token that encodes thirty-two zero bytes and the one whose last byte is 4. Evaluation goes stage by stage over numerals.
\<close>

lemma sha_k_table: "sha_k = [1116352408, 1899447441, 3049323471, 3921009573, 961987163, 1508970993, 2453635748, 2870763221, 3624381080,
     310598401, 607225278, 1426881987, 1925078388, 2162078206, 2614888103, 3248222580, 3835390401, 4022224774,
     264347078, 604807628, 770255983, 1249150122, 1555081692, 1996064986, 2554220882, 2821834349, 2952996808,
     3210313671, 3336571891, 3584528711, 113926993, 338241895, 666307205, 773529912, 1294757372, 1396182291,
     1695183700, 1986661051, 2177026350, 2456956037, 2730485921, 2820302411, 3259730800, 3345764771, 3516065817,
     3600352804, 4094571909, 275423344, 430227734, 506948616, 659060556, 883997877, 958139571, 1322822218,
     1537002063, 1747873779, 1955562222, 2024104815, 2227730452, 2361852424, 2428436474, 2756734187, 3204031479,
     3329325298]"
  by code_simp

lemma sha_init_table: "sha_init = [1779033703, 3144134277, 1013904242, 2773480762, 1359893119, 2600822924, 528734635, 1541459225]"
  by code_simp

lemma be_bytes_8: "n < 65536 \<Longrightarrow> be_bytes 8 n = [chr 0, chr 0, chr 0, chr 0, chr 0, chr 0, chr (n div 256), chr (n mod 256)]"
proof -
  have "[0..<8] = [0, 1, 2, 3, 4, 5, 6, 7::nat]" by (simp add: upt_conv_Cons)
  then show "n < 65536 \<Longrightarrow> ?thesis" by (simp add: be_bytes_def)
qed

lemma be_bytes_4: "be_bytes 4 n = [chr (n div 16777216 mod 256), chr (n div 65536 mod 256), chr (n div 256 mod 256), chr (n mod 256)]"
proof -
  have "[0..<4] = [0, 1, 2, 3::nat]" by (simp add: upt_conv_Cons)
  then show ?thesis by (simp add: be_bytes_def)
qed

lemma chr_value: "n < 256 \<Longrightarrow> chr n = c \<longleftrightarrow> of_char c = n"
  using byte_chr [of n] by (auto simp: byte_def)

text \<open>A message of one block.\<close>

lemma sha256_block:
  assumes "sha_pad m = b" "length b = 64" "map be_word (chunks 16 4 b) = ws" "schedule 48 (rev ws) = sched"
    "foldl sha_round sha_init (zip sha_k sched) = st"
  shows "sha256 m = concat (map (\<lambda>w. be_bytes 4 (unat w)) (map2 (+) sha_init st))"
  using assms by (simp add: sha256_def sha_block_def Let_def numeral_eq_Suc [of "num.One"])

lemma pad_abc: "sha_pad ''abc'' = ''abc'' @ chr 128 # replicate 58 (chr 0) @ [chr 0, chr 24]"
  by (simp add: sha_pad_def be_bytes_8) (simp add: numeral_eq_Suc)

lemma words_abc: "map be_word (chunks 16 4 (''abc'' @ chr 128 # replicate 58 (chr 0) @ [chr 0, chr 24])) =
     [1633837952, 0, 0, 0, 0, 0, 0, 0, 0, 0, 0, 0, 0, 0, 0, 24]"
  by (simp add: numeral_eq_Suc) (simp add: byte_def)?

lemma schedule_abc: "schedule 48 (rev [1633837952, 0, 0, 0, 0, 0, 0, 0, 0, 0, 0, 0, 0, 0, 0, 24]) =
     [1633837952, 0, 0, 0, 0, 0, 0, 0, 0, 0, 0, 0, 0, 0, 0, 24, 1633837952, 983040, 2108187653, 1610613702,
     1050508152, 25426944, 316456923, 3806512014, 3357629466, 3073800610, 3854317833, 845560923, 2636160359,
     3968280267, 1881225380, 3552024379, 2482346367, 996719219, 2952069057, 4043988066, 176896406, 1924104970,
     2483675966, 610538786, 2672279444, 4037431130, 1042573945, 657669027, 206005234, 2215296807, 2049510749,
     106709978, 4215179723, 3430291419, 3118885940, 2845390439, 2226839261, 3256115900, 344409900, 2987358873,
     4015503821, 3957764664, 2682456414, 2025622859, 2755645205, 1720397816, 4004225740, 313650667]"
  by code_simp

lemma rounds_abc: "foldl sha_round [1779033703, 3144134277, 1013904242, 2773480762, 1359893119, 2600822924, 528734635, 1541459225] (zip [1116352408, 1899447441, 3049323471, 3921009573, 961987163, 1508970993, 2453635748, 2870763221, 3624381080,
     310598401, 607225278, 1426881987, 1925078388, 2162078206, 2614888103, 3248222580, 3835390401, 4022224774,
     264347078, 604807628, 770255983, 1249150122, 1555081692, 1996064986, 2554220882, 2821834349, 2952996808,
     3210313671, 3336571891, 3584528711, 113926993, 338241895, 666307205, 773529912, 1294757372, 1396182291,
     1695183700, 1986661051, 2177026350, 2456956037, 2730485921, 2820302411, 3259730800, 3345764771, 3516065817,
     3600352804, 4094571909, 275423344, 430227734, 506948616, 659060556, 883997877, 958139571, 1322822218,
     1537002063, 1747873779, 1955562222, 2024104815, 2227730452, 2361852424, 2428436474, 2756734187, 3204031479,
     3329325298] [1633837952, 0, 0, 0, 0, 0, 0, 0, 0, 0, 0, 0, 0, 0, 0, 24, 1633837952, 983040, 2108187653, 1610613702,
     1050508152, 25426944, 316456923, 3806512014, 3357629466, 3073800610, 3854317833, 845560923, 2636160359,
     3968280267, 1881225380, 3552024379, 2482346367, 996719219, 2952069057, 4043988066, 176896406, 1924104970,
     2483675966, 610538786, 2672279444, 4037431130, 1042573945, 657669027, 206005234, 2215296807, 2049510749,
     106709978, 4215179723, 3430291419, 3118885940, 2845390439, 2226839261, 3256115900, 344409900, 2987358873,
     4015503821, 3957764664, 2682456414, 2025622859, 2755645205, 1720397816, 4004225740, 313650667]) =
     [1349398616, 3550093669, 80891244, 3093179625, 1593118500, 4212265488, 2492278198, 2518632596]"
  by code_simp

lemma digest_abc: "sha256 ''abc'' = concat (map (be_bytes 4) [3128432319, 2399260650, 1094795486, 1571693091, 2953011619, 2518121116, 3021012833, 4060091821])"
  using sha256_block [OF pad_abc _ words_abc schedule_abc rounds_abc [folded sha_init_table sha_k_table]]
  by (simp add: sha_init_table)

lemma pad_zeros: "sha_pad (replicate 43 CHR ''A'') = (replicate 43 CHR ''A'') @ chr 128 # replicate 18 (chr 0) @ [chr 1, chr 88]"
  by (simp add: sha_pad_def be_bytes_8) (simp add: numeral_eq_Suc)

lemma words_zeros: "map be_word (chunks 16 4 ((replicate 43 CHR ''A'') @ chr 128 # replicate 18 (chr 0) @ [chr 1, chr 88])) =
     [1094795585, 1094795585, 1094795585, 1094795585, 1094795585, 1094795585, 1094795585, 1094795585, 1094795585,
     1094795585, 1094795648, 0, 0, 0, 0, 344]"
  by (simp add: numeral_eq_Suc) (simp add: byte_def)?

lemma schedule_zeros: "schedule 48 (rev [1094795585, 1094795585, 1094795585, 1094795585, 1094795585, 1094795585, 1094795585, 1094795585, 1094795585,
     1094795585, 1094795648, 0, 0, 0, 0, 344]) =
     [1094795585, 1094795585, 1094795585, 1094795585, 1094795585, 1094795585, 1094795585, 1094795585, 1094795585,
     1094795585, 1094795648, 0, 0, 0, 0, 344, 1568505212, 1577352635, 759379593, 3451486744, 433790975, 230182214,
     138565284, 2831311663, 3687141298, 1160201358, 487885665, 1688388581, 3801363792, 1104776473, 4115868525,
     2135921096, 4120716192, 2418841778, 271150540, 3400522835, 2517510078, 4115561745, 824255822, 3164255224,
     3875649202, 1212031243, 1277139860, 2150319256, 1888300442, 1301662615, 1622517578, 3668710872, 4130931708,
     637832372, 2078635160, 4177829385, 2590829875, 102076811, 1090170020, 1112255259, 2830255259, 757125227,
     2688279947, 4267839638, 1523297160, 3388733502, 4080784246, 2925366693]"
  by code_simp

lemma rounds_zeros: "foldl sha_round [1779033703, 3144134277, 1013904242, 2773480762, 1359893119, 2600822924, 528734635, 1541459225] (zip [1116352408, 1899447441, 3049323471, 3921009573, 961987163, 1508970993, 2453635748, 2870763221, 3624381080,
     310598401, 607225278, 1426881987, 1925078388, 2162078206, 2614888103, 3248222580, 3835390401, 4022224774,
     264347078, 604807628, 770255983, 1249150122, 1555081692, 1996064986, 2554220882, 2821834349, 2952996808,
     3210313671, 3336571891, 3584528711, 113926993, 338241895, 666307205, 773529912, 1294757372, 1396182291,
     1695183700, 1986661051, 2177026350, 2456956037, 2730485921, 2820302411, 3259730800, 3345764771, 3516065817,
     3600352804, 4094571909, 275423344, 430227734, 506948616, 659060556, 883997877, 958139571, 1322822218,
     1537002063, 1747873779, 1955562222, 2024104815, 2227730452, 2361852424, 2428436474, 2756734187, 3204031479,
     3329325298] [1094795585, 1094795585, 1094795585, 1094795585, 1094795585, 1094795585, 1094795585, 1094795585, 1094795585,
     1094795585, 1094795648, 0, 0, 0, 0, 344, 1568505212, 1577352635, 759379593, 3451486744, 433790975, 230182214,
     138565284, 2831311663, 3687141298, 1160201358, 487885665, 1688388581, 3801363792, 1104776473, 4115868525,
     2135921096, 4120716192, 2418841778, 271150540, 3400522835, 2517510078, 4115561745, 824255822, 3164255224,
     3875649202, 1212031243, 1277139860, 2150319256, 1888300442, 1301662615, 1622517578, 3668710872, 4130931708,
     637832372, 2078635160, 4177829385, 2590829875, 102076811, 1090170020, 1112255259, 2830255259, 757125227,
     2688279947, 4267839638, 1523297160, 3388733502, 4080784246, 2925366693]) =
     [2767621406, 4220659250, 2990768404, 1616899183, 865227072, 149597252, 2124848801, 2382692353]"
  by code_simp

lemma digest_zeros: "sha256 (replicate 43 CHR ''A'') = concat (map (be_bytes 4) [251687813, 3069826231, 4004672646, 95412649, 2225120191, 2750420176, 2653583436, 3924151578])"
  using sha256_block [OF pad_zeros _ words_zeros schedule_zeros rounds_zeros [folded sha_init_table sha_k_table]]
  by (simp add: sha_init_table)

lemma pad_four: "sha_pad (replicate 42 CHR ''A'' @ ''Q'') = (replicate 42 CHR ''A'' @ ''Q'') @ chr 128 # replicate 18 (chr 0) @ [chr 1, chr 88]"
  by (simp add: sha_pad_def be_bytes_8) (simp add: numeral_eq_Suc)

lemma words_four: "map be_word (chunks 16 4 ((replicate 42 CHR ''A'' @ ''Q'') @ chr 128 # replicate 18 (chr 0) @ [chr 1, chr 88])) =
     [1094795585, 1094795585, 1094795585, 1094795585, 1094795585, 1094795585, 1094795585, 1094795585, 1094795585,
     1094795585, 1094799744, 0, 0, 0, 0, 344]"
  by (simp add: numeral_eq_Suc) (simp add: byte_def)?

lemma schedule_four: "schedule 48 (rev [1094795585, 1094795585, 1094795585, 1094795585, 1094795585, 1094795585, 1094795585, 1094795585, 1094795585,
     1094795585, 1094799744, 0, 0, 0, 0, 344]) =
     [1094795585, 1094795585, 1094795585, 1094795585, 1094795585, 1094795585, 1094795585, 1094795585, 1094795585,
     1094795585, 1094799744, 0, 0, 0, 0, 344, 1568505212, 1577356731, 759379593, 4089020956, 433790975, 229459462,
     138565284, 2239391209, 3687145394, 1236786456, 957651817, 790126617, 3968156820, 1145490203, 1085550741,
     1158643245, 2744110849, 3257671433, 3250265232, 2810916026, 2822468206, 519514371, 2139241919, 3285458449,
     3326916077, 2348292701, 3705014250, 1258812998, 1535243243, 4168414294, 1506219500, 3572662464, 2749983440,
     2917112063, 1332653269, 1462052862, 4097313156, 2922644314, 2529035299, 3622409986, 3822843510, 613772901,
     842002232, 4218748615, 2753123693, 2259243851, 3974794733, 743073920]"
  by code_simp

lemma rounds_four: "foldl sha_round [1779033703, 3144134277, 1013904242, 2773480762, 1359893119, 2600822924, 528734635, 1541459225] (zip [1116352408, 1899447441, 3049323471, 3921009573, 961987163, 1508970993, 2453635748, 2870763221, 3624381080,
     310598401, 607225278, 1426881987, 1925078388, 2162078206, 2614888103, 3248222580, 3835390401, 4022224774,
     264347078, 604807628, 770255983, 1249150122, 1555081692, 1996064986, 2554220882, 2821834349, 2952996808,
     3210313671, 3336571891, 3584528711, 113926993, 338241895, 666307205, 773529912, 1294757372, 1396182291,
     1695183700, 1986661051, 2177026350, 2456956037, 2730485921, 2820302411, 3259730800, 3345764771, 3516065817,
     3600352804, 4094571909, 275423344, 430227734, 506948616, 659060556, 883997877, 958139571, 1322822218,
     1537002063, 1747873779, 1955562222, 2024104815, 2227730452, 2361852424, 2428436474, 2756734187, 3204031479,
     3329325298] [1094795585, 1094795585, 1094795585, 1094795585, 1094795585, 1094795585, 1094795585, 1094795585, 1094795585,
     1094795585, 1094799744, 0, 0, 0, 0, 344, 1568505212, 1577356731, 759379593, 4089020956, 433790975, 229459462,
     138565284, 2239391209, 3687145394, 1236786456, 957651817, 790126617, 3968156820, 1145490203, 1085550741,
     1158643245, 2744110849, 3257671433, 3250265232, 2810916026, 2822468206, 519514371, 2139241919, 3285458449,
     3326916077, 2348292701, 3705014250, 1258812998, 1535243243, 4168414294, 1506219500, 3572662464, 2749983440,
     2917112063, 1332653269, 1462052862, 4097313156, 2922644314, 2529035299, 3622409986, 3822843510, 613772901,
     842002232, 4218748615, 2753123693, 2259243851, 3974794733, 743073920]) =
     [3097852726, 1788550910, 999123824, 1191536609, 2656724330, 2491585881, 1586530581, 1843708931]"
  by code_simp

lemma digest_four: "sha256 (replicate 42 CHR ''A'' @ ''Q'') = concat (map (be_bytes 4) [581919133, 637717891, 2013028066, 3965017371, 4016617449, 797441509, 2115265216, 3385168156])"
  using sha256_block [OF pad_four _ words_four schedule_four rounds_four [folded sha_init_table sha_k_table]]
  by (simp add: sha_init_table)

lemma sha256_abc: "hex_encode (sha256 ''abc'') = ''ba7816bf8f01cfea414140de5dae2223b00361a396177a9cb410ff61f20015ad''"
  by (simp add: digest_abc be_bytes_4 hex_encode_def hex_digit_def) (simp add: chr_value)?

lemma sha256_zeros: "hex_encode (sha256 (replicate 43 CHR ''A'')) = ''0f007385b6f9d4b7eeb2748605afe1a984a0a3bfa3f014d09e2a784ce9e5cd1a''"
  by (simp add: digest_zeros be_bytes_4 hex_encode_def hex_digit_def) (simp add: chr_value)?

lemma sha256_four: "hex_encode (sha256 (replicate 42 CHR ''A'' @ ''Q'')) = ''22af619d2602cd8377fc5ee2ec555d1bef68b7e92f87fde57e1462c0c9c5911c''"
  by (simp add: digest_four be_bytes_4 hex_encode_def hex_digit_def) (simp add: chr_value)?

end
