(* ===== verification/AuthProperties.thy ===== *)
theory AuthProperties
  imports LogoutOverlap ShaVectors
begin

text \<open>
  The properties of authentication over PostgreSQL, for every key derivation, token library and
  server that do what they document. The witnesses run on \<open>plain_pg\<close> with one account.
\<close>

text \<open>The calls of the service on the table of tokens, from any requests, in any order.\<close>

definition session_call ::
    "(string \<Rightarrow> string option) \<Rightarrow> pg_env \<Rightarrow> time \<times> pg_auth_db \<Rightarrow> time \<times> pg_auth_db \<Rightarrow> bool" where
  "session_call gu E = ledger_step pg_sessions (\<lambda>s. pg_accepts E (token_table s)) (TokensCreate (pg_auth_ports gu E))
     (TokensRotate (pg_auth_ports gu E)) (TokensRevokeFamily (pg_auth_ports gu E))"

context pg_auth
begin

lemma calls_keep_one:
  assumes "(session_call gu E)\<^sup>*\<^sup>* (now, s) (later, s')" "pg_auth_ok E s" "one_unused (pg_sessions s)"
  shows "pg_auth_ok E s' \<and> one_unused (pg_sessions s')"
  using pg_as.rt.run_one_unused [OF assms(1) [unfolded session_call_def] assms(2,3)] by simp

end

context pg_auth_service
begin

lemmas sv_simps = hs.new_auth_service_ok [OF built]

lemma calls: "session_call gu E = ledger_step pg_sessions (\<lambda>s. pg_accepts E (token_table s)) (TokensCreate (sv_ports sv))
     (TokensRotate (sv_ports sv)) (TokensRevokeFamily (sv_ports sv))"
  by (simp add: session_call_def sv_simps)

lemmas stolen = pfl.stolen_token [folded calls]
lemmas closed = pfl.logged_out [folded calls]
lemmas logged = pfl.logout_ok
lemmas refused = pfl.login_refused [unfolded sv_simps]
lemmas refreshed = pfl.refresh_ok

lemma creatable_address: "address e \<Longrightarrow> u_Email u = e \<Longrightarrow> pg_creatable u"
  by (auto simp: address_def pg_creatable_def)

lemma account_registered:
  assumes "pg_auth_ok E s" "env_is_fresh pg_sessions (pg_fresh_id E) (pg_family_id E) en b s" "en_salt en = Inr sa"
    "pg_new_key E (pa_users s) (en_userID en)"
    "validate_email ut email = Inr e" "validate_password pw = Inr ()" "pw \<noteq> e" "validate_display_name name = Inr n"
    "\<not> email_taken (pg_lower E) (pg_accounts s) e"
  defines "derives \<equiv> \<lambda>pw. idkey pw sa (ap_Time params) (ap_MemoryKiB params) (ap_Parallelism params) (ap_KeyLen params)"
  shows "\<exists>se s' u. register sv en email pw name s = (Some (Inr se), s') \<and> session_of sv en u se \<and> pg_auth_ok E s' \<and>
     pg_accounts s' = insert u (pg_accounts s) \<and> u_Email u = e \<and> u_Role u = RoleCustomer \<and> u_DisplayName u = n \<and>
     (\<forall>en' b'. env_is_fresh pg_sessions (pg_fresh_id E) (pg_family_id E) en' b' s' \<longrightarrow>
        (\<exists>se' s''. login sv en' email pw s' = (Some (Inr se'), s'') \<and> session_of sv en' u se')) \<and>
     (\<forall>en' pw'. derives pw' \<noteq> derives pw \<longrightarrow> login sv en' email pw' s' = (Some (Inl ErrInvalidCredentials), s'))"
  unfolding derives_def
  by (rule pfl.registered [unfolded sv_simps, OF assms(1-9)])
    (use creatable_address validate_email_address [OF assms(5)] in blast)

end

section \<open>A concrete database\<close>

definition plain_ut :: unicode where
  "plain_ut = \<lparr>ut_upper = (\<lambda>r. r), ut_lower = (\<lambda>r. r)\<rparr>"

definition demo_issuer :: token_issuer where
  "demo_issuer = \<lparr>ti_secret = ''secret'', ti_issuer = ''api'', ti_accessTTL = 900 * second\<rparr>"

definition demo_service :: "pg_auth_db auth_service" where
  "demo_service = the (new_auth_service (pg_auth_ports Some plain_pg) plain_idkey plain_jwt plain_ut DefaultArgon2Params demo_issuer
     (900 * second) (3600 * second) (Inr ''dummy'') (Inr ''salt''))"

definition demo_user :: user_row where
  "demo_user = \<lparr>ur_ID = ''u'', ur_Email = ''a@b.c'', ur_PasswordHash = ''x'', ur_DisplayName = [], ur_Role = RoleCustomer, ur_CreatedAt = 0\<rparr>"

text \<open>The account and one live token, which is \<open>abc\<close>.\<close>

definition demo_token :: token_row where
  "demo_token = \<lparr>tr_ID = ''t'', tr_UserID = ''u'', tr_FamilyID = ''f'', tr_TokenHash = hash_token ''abc'', tr_ExpiresAt = 3600 * second,
     tr_RevokedAt = None, tr_ReplacedBy = None, tr_CreatedAt = 0\<rparr>"

definition demo_db :: pg_auth_db where
  "demo_db = \<lparr>pa_users = [demo_user], pa_tokens = [demo_token]\<rparr>"

definition zero_bytes :: string where
  "zero_bytes = replicate 32 (chr 0)"

definition demo_env :: auth_env where
  "demo_env = \<lparr>en_salt = Inr ''pepper'', en_token = Inr zero_bytes, en_userID = ''v'', en_rowID = ''s'', en_familyID = ''g'',
     en_createAt = 0, en_issueAt = 0, en_now = 0, en_storeAt = 0\<rparr>"

lemma zero_token: "b64_encode True zero_bytes = replicate 43 CHR ''A''"
  unfolding zero_bytes_def by code_simp

lemma tokens_differ: "hash_token ''abc'' \<noteq> hash_token (b64_encode True zero_bytes)"
  by (simp add: hash_token_def zero_token sha256_abc sha256_zeros)

lemma plain_service: "\<exists>sv. new_auth_service P plain_idkey lib ut DefaultArgon2Params issuer a r (Inr d) (Inr salt) = Some sv"
proof -
  have v: "argon2_valid DefaultArgon2Params = Inr ()" by code_simp
  from plain_argon2.hash_ok [OF v, of salt "b64_encode True d"] show ?thesis by (auto simp: new_auth_service_def v)
qed

lemma plain_service_the:
  "new_auth_service P plain_idkey lib ut DefaultArgon2Params issuer a r (Inr d) (Inr salt) =
   Some (the (new_auth_service P plain_idkey lib ut DefaultArgon2Params issuer a r (Inr d) (Inr salt)))"
  using plain_service [of P lib ut issuer a r d salt] by auto

lemma demo_built: "new_auth_service (pg_auth_ports Some plain_pg) plain_idkey plain_jwt plain_ut DefaultArgon2Params demo_issuer
     (900 * second) (3600 * second) (Inr ''dummy'') (Inr ''salt'') = Some demo_service"
  unfolding demo_service_def by (rule plain_service_the)

text \<open>The same service over the stores in memory.\<close>

definition demo_mem_service :: "mem_auth auth_service" where
  "demo_mem_service = the (new_auth_service (mem_auth_ports plain_ut) plain_idkey plain_jwt plain_ut DefaultArgon2Params demo_issuer
     (900 * second) (3600 * second) (Inr ''dummy'') (Inr ''salt''))"

interpretation demo_ms: mem_auth_service plain_idkey plain_jwt plain_ut DefaultArgon2Params demo_issuer
  "900 * second" "3600 * second" "Inr ''dummy''" "Inr ''salt''" demo_mem_service
proof (intro mem_auth_service.intro mem_auth_service_axioms.intro plain_argon2.argon2_axioms plain_tokens.jwt_axioms)
  show "new_auth_service (mem_auth_ports plain_ut) plain_idkey plain_jwt plain_ut DefaultArgon2Params demo_issuer
     (900 * second) (3600 * second) (Inr ''dummy'') (Inr ''salt'') = Some demo_mem_service"
    unfolding demo_mem_service_def by (rule plain_service_the)
qed

lemma demo_auth: "pg_auth plain_pg Some"
  using plain_auth.pg_auth_axioms .

lemma demo_auth_service: "pg_auth_service plain_pg Some plain_idkey plain_jwt plain_ut DefaultArgon2Params demo_issuer
     (900 * second) (3600 * second) (Inr ''dummy'') (Inr ''salt'') demo_service"
  by (intro pg_auth_service.intro pg_auth_service_axioms.intro demo_auth plain_argon2.argon2_axioms plain_tokens.jwt_axioms demo_built)

interpretation demo_as: pg_auth_service plain_pg Some plain_idkey plain_jwt plain_ut DefaultArgon2Params demo_issuer
  "900 * second" "3600 * second" "Inr ''dummy''" "Inr ''salt''" demo_service
  by (rule demo_auth_service)

lemma demo_db_ok: "pg_auth_ok plain_pg demo_db"
  by (simp add: pg_auth_ok_def pg_users_ok_def pg_tokens_ok_def token_table_def demo_db_def demo_user_def demo_token_def plain_pg_def no_hyphens_def)

lemma demo_sessions: "pg_sessions demo_db = [hash_token ''abc'' \<mapsto> refresh_token_from_row demo_token]"
  by (simp add: pg_sessions_def pg_ledger_def demo_db_def demo_token_def fun_eq_iff)

lemma demo_one_unused: "one_unused (pg_sessions demo_db)"
  by (simp add: one_unused_def demo_sessions)

lemma demo_fresh: "env_is_fresh pg_sessions (pg_fresh_id plain_pg) (pg_family_id plain_pg) demo_env zero_bytes demo_db"
proof -
  have "pg_sessions demo_db (hash_token (b64_encode True zero_bytes)) = None" using tokens_differ by (simp add: demo_sessions)
  moreover have "pg_fresh_id plain_pg demo_db ''s''" "pg_family_id plain_pg ''g''"
    by (simp_all add: pg_fresh_id_def pg_family_id_def demo_db_def demo_token_def plain_pg_def no_hyphens_def)
  ultimately show ?thesis by (simp add: env_is_fresh_def demo_env_def zero_bytes_def)
qed

lemma demo_token_active: "rt_is_active (refresh_token_from_row demo_token) 0"
  by (simp add: rt_is_active_def rt_is_revoked_def rt_is_replaced_def rt_is_expired_def demo_token_def uuid_from_pgtype_def)

lemma demo_owned: "tokens_owned pg_accounts pg_sessions demo_db"
proof -
  have "\<exists>u \<in> pg_accounts demo_db. u_ID u = ''u''" by (simp add: pg_accounts_def demo_db_def demo_user_def)
  then show ?thesis unfolding tokens_owned_def demo_sessions by (simp add: demo_token_def)
qed

section \<open>Refresh tokens\<close>

text \<open>C9: whatever sessions are opened, refreshed and closed, in any order, with any tokens, of every token family
  at most one token is still unused.\<close>

theorem one_token_per_family:
  assumes "pg_auth E gu" "pg_auth_ok E s" "one_unused (pg_sessions s)"
    and "(session_call gu E)\<^sup>*\<^sup>* (now, s) (later, s')"
  shows "pg_auth_ok E s' \<and> one_unused (pg_sessions s')"
  by (rule pg_auth.calls_keep_one [OF assms(1,4,2,3)])

text \<open>A refresh of the token, then a minute passes.\<close>

lemma demo_refresh_step:
  "session_call Some plain_pg (0, demo_db)
     (0, snd (TokensRotate (pg_auth_ports Some plain_pg) 0 (hash_token ''abc'') (demo_as.pfl.next_row demo_env zero_bytes) demo_db))"
  unfolding session_call_def
proof (rule ledger_step.refresh_session)
  let ?t = "demo_as.pfl.next_row demo_env zero_bytes"
  show "unused_token ?t" by (simp add: unused_token_def reuse_is_theft_def rt_is_replaced_def rt_is_revoked_def demo_env_def)
  show "\<forall>old. pg_sessions demo_db (hash_token ''abc'') = Some old \<longrightarrow> pg_accepts plain_pg (token_table demo_db) (succeeding old ?t)"
  proof -
    have "pg_accepts plain_pg (token_table demo_db) (succeeding (refresh_token_from_row demo_token) ?t)"
      by (simp add: pg_accepts_def succeeding_def demo_env_def plain_pg_def no_hyphens_def demo_token_def demo_db_def demo_user_def)
    then show ?thesis by (simp add: demo_sessions)
  qed
  show "pg_sessions demo_db (rt_TokenHash ?t) = None" using tokens_differ by (simp add: demo_sessions)
qed (rule surjective_pairing)

theorem one_token_per_family_witness:
  "\<exists>s. (session_call Some plain_pg)\<^sup>*\<^sup>* (0, demo_db) (60, s) \<and> pg_auth_ok plain_pg s \<and> one_unused (pg_sessions s)"
proof -
  let ?s = "snd (TokensRotate (pg_auth_ports Some plain_pg) 0 (hash_token ''abc'') (demo_as.pfl.next_row demo_env zero_bytes) demo_db)"
  have "session_call Some plain_pg (0, ?s) (60, ?s)" unfolding session_call_def by (rule ledger_step.wait) simp
  then have r: "(session_call Some plain_pg)\<^sup>*\<^sup>* (0, demo_db) (60, ?s)"
    using demo_refresh_step by (meson converse_rtranclp_into_rtranclp r_into_rtranclp)
  from one_token_per_family [OF demo_auth demo_db_ok demo_one_unused r] r show ?thesis by blast
qed

text \<open>C10: a refresh token works once. Whoever presents it again after a successful refresh, at any later time and
  whatever other requests did meanwhile, is refused, and that kills its whole family: the token that replaced it is
  refused as well.\<close>

theorem replayed_token_kills_family:
  assumes "pg_auth_service E gu idkey lib ut params issuer accessTTL refreshTTL dummy salt sv"
    and "pg_auth_ok E s" "tokens_owned pg_accounts pg_sessions s"
    and "env_is_fresh pg_sessions (pg_fresh_id E) (pg_family_id E) en b s" "tok \<noteq> []"
    and "pg_sessions s (hash_token tok) = Some old" "rt_is_active old (en_storeAt en)"
    and "refresh sv en tok s = (Inr se, s1)" "(session_call gu E)\<^sup>*\<^sup>* (now, s1) (later, s2)"
    and "en_token en2 = Inr b2" "en_token en3 = Inr b3"
  shows "\<exists>s3. refresh sv en2 tok s2 = (Inl ErrRefreshTokenReused, s3) \<and>
     fst (refresh sv en3 (se_RefreshToken se) s3) = Inl ErrRefreshTokenReused \<and>
     family_dead (rt_FamilyID old) (pg_sessions s3)"
  by (rule pg_auth_service.stolen [OF assms])

theorem replayed_token_kills_family_witness:
  "\<exists>se s1 s3. refresh demo_service demo_env ''abc'' demo_db = (Inr se, s1) \<and>
     refresh demo_service demo_env ''abc'' s1 = (Inl ErrRefreshTokenReused, s3) \<and>
     fst (refresh demo_service demo_env (se_RefreshToken se) s3) = Inl ErrRefreshTokenReused"
proof -
  have l: "pg_sessions demo_db (hash_token ''abc'') = Some (refresh_token_from_row demo_token)" by (simp add: demo_sessions)
  have a: "rt_is_active (refresh_token_from_row demo_token) (en_storeAt demo_env)" using demo_token_active by (simp add: demo_env_def)
  have b: "en_token demo_env = Inr zero_bytes" by (simp add: demo_env_def)
  obtain se s1 where r: "refresh demo_service demo_env ''abc'' demo_db = (Inr se, s1)"
    using demo_as.refreshed [OF demo_db_ok demo_owned demo_fresh _ l a] by auto
  from replayed_token_kills_family [OF demo_auth_service demo_db_ok demo_owned demo_fresh _ l a r rtranclp.rtrancl_refl b b] r
  show ?thesis by auto
qed

text \<open>C33: logging out closes sessions for good. While PostgreSQL answers, the reply is success whatever the token: an
  empty or unknown one leaves the database as it is, a known one revokes its whole family, and from then on no token
  of that family refreshes a session, at any later time and whatever calls come after. The logout is one step here;
  the next property is about one that overlaps a refresh.\<close>

theorem logout_closes_family:
  assumes "pg_auth_service E gu idkey lib ut params issuer accessTTL refreshTTL dummy salt sv" "pg_auth_ok E s"
    and "logout sv now tok s = (r, s1)"
  shows "r = Inr () \<and> pg_auth_ok E s1 \<and> pg_accounts s1 = pg_accounts s \<and>
     (if tok = [] \<or> pg_sessions s (hash_token tok) = None then s1 = s
      else \<exists>t. pg_sessions s (hash_token tok) = Some t \<and> pg_sessions s1 = revoked (pg_now now) (rt_FamilyID t) (pg_sessions s) \<and>
        (\<forall>later s2 tok' t' en b. (session_call gu E)\<^sup>*\<^sup>* (now, s1) (later, s2) \<and> tok' \<noteq> [] \<and>
           pg_sessions s2 (hash_token tok') = Some t' \<and> rt_FamilyID t' = rt_FamilyID t \<and> en_token en = Inr b \<longrightarrow>
           fst (refresh sv en tok' s2) = Inl ErrRefreshTokenReused))"
proof (cases "tok = [] \<or> pg_sessions s (hash_token tok) = None")
  case True
  then show ?thesis using pg_auth_service.logged [OF assms(1,2), of now tok] assms(2,3) by auto
next
  case False
  then obtain t where t: "tok \<noteq> []" "pg_sessions s (hash_token tok) = Some t" by auto
  have "fst (refresh sv en tok' s2) = Inl ErrRefreshTokenReused"
    if "(session_call gu E)\<^sup>*\<^sup>* (now, s1) (later, s2) \<and> tok' \<noteq> [] \<and>
           pg_sessions s2 (hash_token tok') = Some t' \<and> rt_FamilyID t' = rt_FamilyID t \<and> en_token en = Inr b"
    for later s2 tok' t' en b
    using that pg_auth_service.closed(2) [OF assms(1,2) t assms(3)] by blast
  then show ?thesis using pg_auth_service.logged [OF assms(1,2), of now tok] assms(3) t by auto
qed

theorem logout_closes_family_witness:
  "fst (logout demo_service 0 ''abc'' demo_db) = Inr () \<and>
   fst (refresh demo_service demo_env ''abc'' (snd (logout demo_service 0 ''abc'' demo_db))) = Inl ErrRefreshTokenReused \<and>
   logout demo_service 0 [] demo_db = (Inr (), demo_db)"
proof -
  let ?s = "snd (logout demo_service 0 ''abc'' demo_db)"
  have l: "pg_sessions demo_db (hash_token ''abc'') = Some (refresh_token_from_row demo_token)" by (simp add: demo_sessions)
  have b: "en_token demo_env = Inr zero_bytes" by (simp add: demo_env_def)
  note o = logout_closes_family [OF demo_auth_service demo_db_ok prod.collapse [symmetric]]
  have k: "pg_sessions ?s (hash_token ''abc'') = Some (revoke_row (pg_now 0) ''f'' (refresh_token_from_row demo_token))"
    using o [of 0 "''abc''"] l by (auto simp: revoked_def demo_token_def)
  have "\<forall>later s2 tok' t' en b. (session_call Some plain_pg)\<^sup>*\<^sup>* (0, ?s) (later, s2) \<and> tok' \<noteq> [] \<and>
      pg_sessions s2 (hash_token tok') = Some t' \<and> rt_FamilyID t' = ''f'' \<and> en_token en = Inr b \<longrightarrow>
      fst (refresh demo_service en tok' s2) = Inl ErrRefreshTokenReused"
    using o [of 0 "''abc''"] l by (auto simp: demo_token_def)
  with k b have "fst (refresh demo_service demo_env ''abc'' ?s) = Inl ErrRefreshTokenReused"
    by (fastforce simp: demo_token_def)
  then show ?thesis using o [of 0 "''abc''"] o [of 0 "[]"] by (simp add: prod_eq_iff)
qed

text \<open>C27: a logout that overlaps a refresh of the same token can miss the session the refresh opens. The logout has
  looked its row up and started its \<open>UPDATE\<close> when the refresh holds the lock on that row; it waits, revokes what its
  snapshot showed and reports success, but the token that the refresh then hands out keeps refreshing. Had the logout
  come after the refresh, the same token would be refused.\<close>

theorem logout_misses_refresh_in_flight:
  assumes "pg_auth_service E gu idkey lib ut params issuer accessTTL refreshTTL dummy salt sv"
    and "pg_auth_ok E s" "tokens_owned pg_accounts pg_sessions s"
    and "env_is_fresh pg_sessions (pg_fresh_id E) (pg_family_id E) en b s" "tok \<noteq> []"
    and "pg_sessions s (hash_token tok) = Some old" "rt_is_active old (en_storeAt en)"
    and "refresh sv en tok s = (Inr se, s1)"
    and "logout_during (\<lambda>s. snd (refresh sv en tok s)) E sv now tok s = (r, s2)"
    and "env_is_fresh pg_sessions (pg_fresh_id E) (pg_family_id E) en2 b2 s2"
    and "en_storeAt en2 < pg_now (en_now en + refreshTTL)"
  shows "r = Inr () \<and> (\<exists>se2 s3 u. refresh sv en2 (se_RefreshToken se) s2 = (Inr se2, s3) \<and> session_of sv en2 u se2 \<and>
       u_ID u = rt_UserID old) \<and>
     fst (refresh sv en2 (se_RefreshToken se) (snd (logout sv now tok s1))) = Inl ErrRefreshTokenReused"
proof -
  note outlives = pg_auth_service.refresh_outlives_logout [OF assms(1-9)]
  obtain t where t: "pg_sessions s2 (hash_token (se_RefreshToken se)) = Some t" "rt_UserID t = rt_UserID old"
    "rt_is_active t (en_storeAt en2)"
    using outlives(5) assms(11) by (auto simp: rt_is_active_def reuse_is_theft_def rt_is_expired_def)
  from pg_auth_service.refreshed [OF assms(1) outlives(2,3) assms(10) outlives(4) t(1,3)] t(2)
  have go_on: "\<exists>se2 s3 u. refresh sv en2 (se_RefreshToken se) s2 = (Inr se2, s3) \<and> session_of sv en2 u se2 \<and> u_ID u = rt_UserID old"
    by fastforce
  obtain t1 o1 where s1: "pg_auth_ok E s1" "pg_sessions s1 (hash_token (se_RefreshToken se)) = Some t1"
    "rt_FamilyID t1 = rt_FamilyID o1" "pg_sessions s1 (hash_token tok) = Some o1"
    using pg_auth_service.refresh_leaves [OF assms(1-8)] by blast
  obtain r1 x where x: "logout sv now tok s1 = (r1, x)" by fastforce
  have "pg_sessions x = revoked (pg_now now) (rt_FamilyID o1) (pg_sessions s1)"
    using pg_auth_service.logged [OF assms(1) s1(1), of now tok] x s1(4) assms(5) by auto
  then have k: "pg_sessions x (hash_token (se_RefreshToken se)) = Some (revoke_row (pg_now now) (rt_FamilyID o1) t1)"
    using s1(2) by (simp add: revoked_def)
  have b2: "en_token en2 = Inr b2" using assms(10) by (simp add: env_is_fresh_def)
  have "fst (refresh sv en2 (se_RefreshToken se) x) = Inl ErrRefreshTokenReused"
    using pg_auth_service.closed(2) [OF assms(1) s1(1) assms(5) s1(4) x rtranclp.rtrancl_refl outlives(4) k _ b2] s1(3) by simp
  with outlives(1) go_on x show ?thesis by simp
qed

definition four_bytes :: string where
  "four_bytes = replicate 31 (chr 0) @ [chr 4]"

definition demo_env2 :: auth_env where
  "demo_env2 = demo_env\<lparr>en_token := Inr four_bytes, en_rowID := ''r''\<rparr>"

lemma four_token: "b64_encode True four_bytes = replicate 42 CHR ''A'' @ ''Q''"
  unfolding four_bytes_def by code_simp

lemma four_differs: "hash_token (b64_encode True four_bytes) \<noteq> hash_token ''abc''"
  "hash_token (b64_encode True four_bytes) \<noteq> hash_token (b64_encode True zero_bytes)"
  unfolding hash_token_def zero_token four_token sha256_abc sha256_zeros sha256_four by simp_all

theorem logout_misses_refresh_in_flight_witness:
  "\<exists>se s1 s2 se2 s3. refresh demo_service demo_env ''abc'' demo_db = (Inr se, s1) \<and>
     logout_during (\<lambda>s. snd (refresh demo_service demo_env ''abc'' s)) plain_pg demo_service 0 ''abc'' demo_db = (Inr (), s2) \<and>
     refresh demo_service demo_env2 (se_RefreshToken se) s2 = (Inr se2, s3) \<and>
     fst (refresh demo_service demo_env2 (se_RefreshToken se) (snd (logout demo_service 0 ''abc'' s1))) = Inl ErrRefreshTokenReused"
proof -
  have l: "pg_sessions demo_db (hash_token ''abc'') = Some (refresh_token_from_row demo_token)" by (simp add: demo_sessions)
  have a: "rt_is_active (refresh_token_from_row demo_token) (en_storeAt demo_env)" using demo_token_active by (simp add: demo_env_def)
  obtain se s1 where r: "refresh demo_service demo_env ''abc'' demo_db = (Inr se, s1)"
    using demo_as.refreshed [OF demo_db_ok demo_owned demo_fresh _ l a] by auto
  obtain x s2 where o: "logout_during (\<lambda>s. snd (refresh demo_service demo_env ''abc'' s)) plain_pg demo_service 0 ''abc'' demo_db = (x, s2)"
    by fastforce
  note rows = demo_as.overlap_rows [OF demo_db_ok demo_owned demo_fresh _ l a r o]
  have "pg_sessions demo_db (hash_token (b64_encode True four_bytes)) = None" using four_differs(1) by (simp add: demo_sessions)
  with rows(2) four_differs(2) have new: "pg_sessions s2 (hash_token (b64_encode True four_bytes)) = None" by blast
  have "tr_ID ` set (pa_tokens s2) = {''t'', ''s''}"
    using rows(1) by (auto simp: demo_env_def demo_db_def demo_token_def)
  then have "pg_fresh_id plain_pg s2 ''r''" "pg_family_id plain_pg ''g''" "length four_bytes = 32"
    by (simp_all add: pg_fresh_id_def pg_family_id_def plain_pg_def no_hyphens_def four_bytes_def)
  with new have f: "env_is_fresh pg_sessions (pg_fresh_id plain_pg) (pg_family_id plain_pg) demo_env2 four_bytes s2"
    by (simp add: env_is_fresh_def demo_env2_def demo_env_def)
  have "en_storeAt demo_env2 < pg_now (en_now demo_env + 3600 * second)"
    by (simp add: demo_env2_def demo_env_def pg_now_def second_def)
  from logout_misses_refresh_in_flight [OF demo_auth_service demo_db_ok demo_owned demo_fresh _ l a r o f this] r o
  show ?thesis by auto
qed

section \<open>Passwords\<close>

text \<open>C34: a password verifies against its own hash, whatever the parameters of the hasher that verifies, and another
  password verifies exactly when it derives the same key; the hash of a password carries all that is needed.\<close>

theorem password_roundtrip:
  assumes "argon2 idkey" "argon2_valid p = Inr ()"
  shows "\<exists>h. argon2_hash idkey p (Inr salt) pw = Some (Inr h) \<and> argon2_verify idkey h pw = Some (Inr True) \<and>
     (\<forall>pw'. argon2_verify idkey h pw' = Some (Inr
        (idkey pw' salt (ap_Time p) (ap_MemoryKiB p) (ap_Parallelism p) (ap_KeyLen p) =
         idkey pw salt (ap_Time p) (ap_MemoryKiB p) (ap_Parallelism p) (ap_KeyLen p))))"
  using argon2.hash_ok [OF assms] by fastforce

theorem password_roundtrip_witness:
  "\<exists>h. argon2_hash plain_idkey DefaultArgon2Params (Inr ''pepper'') ''correct horse'' = Some (Inr h) \<and>
     argon2_verify plain_idkey h ''correct horse'' = Some (Inr True)"
proof -
  have "argon2_valid DefaultArgon2Params = Inr ()" by code_simp
  from password_roundtrip [OF plain_argon2.argon2_axioms this, of "''pepper''" "''correct horse''"] show ?thesis by blast
qed

section \<open>Accounts\<close>

text \<open>C35: an address that validation accepts is the trimmed, lower-cased input and has the shape of an address:
  one at sign, a local part of one to 64 bytes, a domain with a dot inside and at neither end, 254 bytes in all.\<close>

theorem accepted_email_is_address:
  assumes "validate_email ut s = Inr e"
  shows "e = to_lower ut (trim_space s) \<and> address e"
  by (rule validate_email_address [OF assms])

lemma demo_email: "validate_email plain_ut ''b@c.d'' = Inr ''b@c.d''"
proof -
  have "trim_space ''b@c.d'' = ''b@c.d''" by (rule trim_space_id) (simp_all add: visible_def byte_def)
  moreover have "to_lower plain_ut ''b@c.d'' = ''b@c.d''"
    by (rule to_lower_plain) (simp_all add: byte_def is_upper_letter_def)
  ultimately show ?thesis
    by (simp add: validate_email_def email_max_total_def email_max_local_def index_byte_def last_index_byte_def)
qed

lemma demo_name: "validate_display_name ''Bob'' = Inr ''Bob''"
proof -
  have "trim_space ''Bob'' = ''Bob''" by (rule trim_space_id) (simp_all add: visible_def byte_def)
  moreover have "rune_count ''Bob'' = 3" by (simp add: rune_count_def runes_ascii byte_def)
  ultimately show ?thesis by (simp add: validate_display_name_def display_name_max_runes_def)
qed

theorem accepted_email_is_address_witness: "address ''b@c.d''"
  using accepted_email_is_address [OF demo_email] by simp

text \<open>C37: registering a new address opens a session and makes one customer account, to which the same password logs
  in and a password that derives another key does not.\<close>

theorem registration_opens_account:
  assumes "pg_auth_service E gu idkey lib ut params issuer accessTTL refreshTTL dummy salt sv" "pg_auth_ok E s"
    and "env_is_fresh pg_sessions (pg_fresh_id E) (pg_family_id E) en b s" "en_salt en = Inr sa" "pg_new_key E (pa_users s) (en_userID en)"
    and "validate_email ut email = Inr e" "validate_password pw = Inr ()" "pw \<noteq> e" "validate_display_name name = Inr n"
    and "\<not> email_taken (pg_lower E) (pg_accounts s) e"
  shows "\<exists>se s' u. register sv en email pw name s = (Some (Inr se), s') \<and> session_of sv en u se \<and> pg_auth_ok E s' \<and>
     pg_accounts s' = insert u (pg_accounts s) \<and> u_Email u = e \<and> u_Role u = RoleCustomer \<and> u_DisplayName u = n \<and>
     (\<forall>en' b'. env_is_fresh pg_sessions (pg_fresh_id E) (pg_family_id E) en' b' s' \<longrightarrow>
        (\<exists>se' s''. login sv en' email pw s' = (Some (Inr se'), s'') \<and> session_of sv en' u se')) \<and>
     (\<forall>en' pw'. idkey pw' sa (ap_Time params) (ap_MemoryKiB params) (ap_Parallelism params) (ap_KeyLen params) \<noteq>
        idkey pw sa (ap_Time params) (ap_MemoryKiB params) (ap_Parallelism params) (ap_KeyLen params) \<longrightarrow>
        login sv en' email pw' s' = (Some (Inl ErrInvalidCredentials), s'))"
  by (rule pg_auth_service.account_registered [OF assms])

theorem registration_opens_account_witness:
  "\<exists>se s'. register demo_service demo_env ''b@c.d'' ''0123456789'' ''Bob'' demo_db = (Some (Inr se), s') \<and>
     login demo_service demo_env ''b@c.d'' ''9876543210'' s' = (Some (Inl ErrInvalidCredentials), s')"
proof -
  have p: "validate_password ''0123456789'' = Inr ()" by code_simp
  have en: "en_salt demo_env = Inr ''pepper''" "pg_new_key plain_pg (pa_users demo_db) (en_userID demo_env)"
    by (simp_all add: demo_env_def demo_db_def demo_user_def pg_new_key_def plain_pg_def no_hyphens_def)
  have free: "\<not> email_taken (pg_lower plain_pg) (pg_accounts demo_db) ''b@c.d''"
    by (simp add: email_taken_def pg_accounts_def demo_db_def demo_user_def plain_pg_def)
  have d: "plain_idkey ''9876543210'' ''pepper'' (ap_Time DefaultArgon2Params) (ap_MemoryKiB DefaultArgon2Params)
      (ap_Parallelism DefaultArgon2Params) (ap_KeyLen DefaultArgon2Params) \<noteq>
    plain_idkey ''0123456789'' ''pepper'' (ap_Time DefaultArgon2Params) (ap_MemoryKiB DefaultArgon2Params)
      (ap_Parallelism DefaultArgon2Params) (ap_KeyLen DefaultArgon2Params)"
    (is "?k \<noteq> ?l")
  proof -
    have "hd (the ?k) = CHR ''9''" "hd (the ?l) = CHR ''0''" by (simp_all add: plain_idkey_def DefaultArgon2Params_def hd_take)
    then show ?thesis by auto
  qed
  from registration_opens_account [OF demo_auth_service demo_db_ok demo_fresh en(1,2) demo_email p _ demo_name free] d
  show ?thesis by auto
qed

text \<open>C38: every login that fails on its credentials fails the same way: a malformed address, an address without an
  account, a wrong password and a hash that cannot be read are answered with one error, and nothing changes.\<close>

theorem failed_logins_are_alike:
  assumes "pg_auth_service E gu idkey lib ut params issuer accessTTL refreshTTL dummy salt sv" "pg_auth_ok E s"
    and "\<And>e u. validate_email ut email = Inr e \<Longrightarrow> u \<in> pg_accounts s \<Longrightarrow> pg_lower E (u_Email u) = pg_lower E e \<Longrightarrow>
       \<exists>v. argon2_verify idkey (u_PasswordHash u) pw = Some v \<and> v \<noteq> Inr True"
  shows "login sv en email pw s = (Some (Inl ErrInvalidCredentials), s)"
  by (rule pg_auth_service.refused [OF assms])

theorem failed_logins_are_alike_witness:
  "login demo_service demo_env ''a@b.c'' ''guess'' demo_db = (Some (Inl ErrInvalidCredentials), demo_db) \<and>
   login demo_service demo_env ''nobody'' ''guess'' demo_db = (Some (Inl ErrInvalidCredentials), demo_db)"
proof -
  have "argon2_verify plain_idkey ''x'' ''guess'' = Some (Inr False)" by (simp add: argon2_verify_def)
  moreover have "u_PasswordHash u = ''x''" if "u \<in> pg_accounts demo_db" for u
    using that by (simp add: pg_accounts_def demo_db_def demo_user_def)
  ultimately have v: "\<exists>v. argon2_verify plain_idkey (u_PasswordHash u) ''guess'' = Some v \<and> v \<noteq> Inr True" if "u \<in> pg_accounts demo_db" for u
    using that by simp
  show ?thesis
    using failed_logins_are_alike [OF demo_auth_service demo_db_ok, of "''a@b.c''" "''guess''"] v
      failed_logins_are_alike [OF demo_auth_service demo_db_ok, of "''nobody''" "''guess''"] by blast
qed

end
