(* ===== verification/HttpCore.thy ===== *)
theory HttpCore
  imports Json DomainUser DomainBooking
begin

text \<open>
  What the handlers of \<open>internal/adapters/http\<close> share (\<open>respond.go\<close>, \<open>cookie.go\<close>, \<open>decodeJSON\<close> and the error
  messages), and \<open>internal/platform/middleware\<close>. A request carries what \<open>net/http\<close> parsed; a response is
  its status, headers and cookies and the value given to the JSON encoder (or a text). Log lines are left out.
\<close>

section \<open>Requests and responses\<close>

text \<open>
  \<open>rq_Header\<close> is \<open>Header.Get\<close>, \<open>rq_Segments\<close> the unescaped segments of the path, which \<open>net/http\<close> has cleaned; the user
  and the request identifier are context values.
\<close>

record http_request =
  rq_Method :: string
  rq_Segments :: "string list"
  rq_Header :: "string \<Rightarrow> string"
  rq_Cookies :: "(string \<times> string) list"
  rq_Body :: "string option"
  rq_PathValue :: "string \<Rightarrow> string"
  rq_RequestID :: string
  rq_UserID :: "string option"

record set_cookie =
  ck_Name :: string
  ck_Value :: string
  ck_Path :: string
  ck_MaxAge :: int
  ck_HttpOnly :: bool
  ck_Secure :: bool
  ck_SameSiteLax :: bool

datatype payload =
    PString string
  | PInt int
  | PBool bool
  | PTime time
  | PList "payload list"
  | PObj "(string \<times> payload) list"
  | PText string

record http_response =
  rs_Status :: int
  rs_Headers :: "(string \<times> string) list"
  rs_Cookies :: "set_cookie list"
  rs_Body :: "payload option"

section \<open>\<open>respond.go\<close>\<close>

definition CodeInternal :: string where "CodeInternal = ''internal_error''"
definition CodeNotFound :: string where "CodeNotFound = ''not_found''"
definition CodeUnauthorized :: string where "CodeUnauthorized = ''unauthorized''"
definition CodeValidation :: string where "CodeValidation = ''validation_error''"
definition CodeConflict :: string where "CodeConflict = ''conflict''"
definition CodeSeatTaken :: string where "CodeSeatTaken = ''seat_taken''"
definition CodeSeatBooked :: string where "CodeSeatBooked = ''seat_booked''"
definition CodeHoldLimitExceeded :: string where "CodeHoldLimitExceeded = ''hold_limit_exceeded''"
definition CodePaymentRequired :: string where "CodePaymentRequired = ''payment_required''"
definition CodePaymentDeclined :: string where "CodePaymentDeclined = ''payment_declined''"
definition CodeWebhookInvalid :: string where "CodeWebhookInvalid = ''webhook_invalid''"

definition write_json :: "int \<Rightarrow> payload \<Rightarrow> http_response" where
  "write_json status v =
     \<lparr>rs_Status = status, rs_Headers = [(''Content-Type'', ''application/json; charset=utf-8'')], rs_Cookies = [], rs_Body = Some v\<rparr>"

definition write_error :: "int \<Rightarrow> string \<Rightarrow> string \<Rightarrow> http_response" where
  "write_error status code message = write_json status (PObj [(''message'', PString message), (''code'', PString code)])"

definition write_status :: "int \<Rightarrow> http_response" where
  "write_status status = \<lparr>rs_Status = status, rs_Headers = [], rs_Cookies = [], rs_Body = None\<rparr>"

definition write_internal_error :: http_response where
  "write_internal_error = write_error 500 CodeInternal ''internal server error''"

definition write_unauthorized :: http_response where
  "write_unauthorized = write_error 401 CodeUnauthorized ''authentication required''"

section \<open>\<open>cookie.go\<close>\<close>

definition RefreshCookieName :: string where "RefreshCookieName = ''refresh_token''"
definition refreshCookiePath :: string where "refreshCookiePath = ''/auth''"

text \<open>\<open>int(ttl.Seconds())\<close> is the whole seconds, as long as \<open>float64\<close> holds the fraction (up to 97 days).\<close>

definition refresh_cookie :: "string \<Rightarrow> duration \<Rightarrow> bool \<Rightarrow> set_cookie" where
  "refresh_cookie token ttl secure =
     \<lparr>ck_Name = RefreshCookieName, ck_Value = token, ck_Path = refreshCookiePath, ck_MaxAge = ttl div second,
      ck_HttpOnly = True, ck_Secure = secure, ck_SameSiteLax = True\<rparr>"

definition cleared_cookie :: "bool \<Rightarrow> set_cookie" where
  "cleared_cookie secure =
     \<lparr>ck_Name = RefreshCookieName, ck_Value = [], ck_Path = refreshCookiePath, ck_MaxAge = - 1,
      ck_HttpOnly = True, ck_Secure = secure, ck_SameSiteLax = True\<rparr>"

definition with_cookie :: "set_cookie \<Rightarrow> http_response \<Rightarrow> http_response" where
  "with_cookie c r = r\<lparr>rs_Cookies := c # rs_Cookies r\<rparr>"

definition refresh_cookie_value :: "http_request \<Rightarrow> string option" where
  "refresh_cookie_value r =
     (case map_of (rq_Cookies r) RefreshCookieName of
        None \<Rightarrow> None
      | Some v \<Rightarrow> if v = [] then None else Some v)"

section \<open>Bodies\<close>

definition maxBodyBytes :: nat where
  "maxBodyBytes = 2 ^ 20"

text \<open>
  \<open>MaxBytesReader\<close> fails a read past the limit: the object must end within it, and \<open>More\<close>, meeting the failure,
  answers false. A \<open>null\<close> that the limit cuts off is not complete.
\<close>

definition decode_json :: "(string \<times> field_kind) list \<Rightarrow> http_request \<Rightarrow> (string \<rightharpoonup> field_value) option" where
  "decode_json flds r =
     (case rq_Body r of
        None \<Rightarrow> None
      | Some body \<Rightarrow>
          (case read_value (take maxBodyBytes body) of
             None \<Rightarrow> None
           | Some (v, rest) \<Rightarrow>
               if length body > maxBodyBytes \<and> rest = [] \<and> v = JNull then None
               else (case decode_struct flds v of
                   None \<Rightarrow> None
                 | Some m \<Rightarrow> if json_more rest then None else Some m)))"

definition bad_body :: http_response where
  "bad_body = write_error 400 CodeValidation ''request body must be valid JSON''"

section \<open>Error texts\<close>

text \<open>
  \<open>err.Error()\<close>: the sentinels' texts and the rendering of a format. \<open>tx_quote\<close> is \<open>strconv.Quote\<close>, \<open>tx_other\<close>
  the text of an error of a library.
\<close>

record texts =
  tx_quote :: "string \<Rightarrow> string"
  tx_other :: "error \<Rightarrow> string"

fun render_arg :: "texts \<Rightarrow> char \<Rightarrow> fmt_arg \<Rightarrow> string" where
  "render_arg tx c (ArgI i) = itoa i"
| "render_arg tx c (ArgS s) = (if c = CHR ''q'' then tx_quote tx s else s)"

fun render :: "texts \<Rightarrow> string \<Rightarrow> fmt_arg list \<Rightarrow> string list \<Rightarrow> string" where
  "render tx [] as es = []"
| "render tx [c] as es = [c]"
| "render tx (c # d # f) as es =
     (if c \<noteq> CHR ''%'' then c # render tx (d # f) as es
      else if d = CHR ''%'' then CHR ''%'' # render tx f as es
      else if d = CHR ''w'' then (case es of [] \<Rightarrow> [] | e # es' \<Rightarrow> e @ render tx f as es')
      else (case as of [] \<Rightarrow> [] | a # as' \<Rightarrow> render_arg tx d a @ render tx f as' es))"

definition sentinel_text :: "texts \<Rightarrow> error \<Rightarrow> string" where
  "sentinel_text tx e =
     (case e of
        ErrSeatAlreadyHeld \<Rightarrow> ''booking: seat is already held''
      | ErrHoldLimitExceeded \<Rightarrow> ''booking: hold limit exceeded''
      | ErrHoldNotFound \<Rightarrow> ''booking: hold not found''
      | ErrNotHoldOwner \<Rightarrow> ''booking: not the owner of this hold''
      | ErrSeatAlreadyBooked \<Rightarrow> ''booking: seat is already booked''
      | ErrHoldExpired \<Rightarrow> ''booking: hold has expired''
      | ErrSessionAlreadyConfirmed \<Rightarrow> ''booking: session already has a booking''
      | ErrBookingNotFound \<Rightarrow> ''booking: booking not found''
      | ErrSeatOutOfRange \<Rightarrow> ''booking: seat is outside the screening geometry''
      | ErrMovieNotFound \<Rightarrow> ''movie: not found''
      | ErrScreeningNotFound \<Rightarrow> ''movie: screening not found''
      | ErrPaymentNotFound \<Rightarrow> ''payment: not found''
      | ErrPaymentNotCaptured \<Rightarrow> ''payment: no captured payment for this session''
      | ErrPaymentDeclined \<Rightarrow> ''payment: gateway declined the capture''
      | ErrPaymentInvalidTransition \<Rightarrow> ''payment: invalid status transition''
      | ErrPaymentIntentExists \<Rightarrow> ''payment: an active intent already exists for this session''
      | ErrPaymentAmountMismatch \<Rightarrow> ''payment: webhook amount does not match the frozen intent amount''
      | ErrWebhookInvalid \<Rightarrow> ''payment: webhook signature verification failed''
      | ErrValidation \<Rightarrow> ''validation failed''
      | ErrUserNotFound \<Rightarrow> ''user: user not found''
      | ErrEmailTaken \<Rightarrow> ''user: email already registered''
      | ErrInvalidCredentials \<Rightarrow> ''user: invalid credentials''
      | ErrRefreshTokenUnknown \<Rightarrow> ''user: refresh token not recognized''
      | ErrRefreshTokenExpired \<Rightarrow> ''user: refresh token expired''
      | ErrRefreshTokenReused \<Rightarrow> ''user: refresh token reused; token family revoked''
      | ErrTokenInvalid \<Rightarrow> ''auth: access token invalid or expired''
      | ErrorsNew s \<Rightarrow> s
      | _ \<Rightarrow> tx_other tx e)"

fun error_text :: "texts \<Rightarrow> error \<Rightarrow> string" where
  "error_text tx (Errorf f as es) = render tx f as (map (error_text tx) es)"
| "error_text tx e = sentinel_text tx e"

definition trim_suffix :: "string \<Rightarrow> string \<Rightarrow> string" where
  "trim_suffix s suf = rev (trim_prefix (rev s) (rev suf))"

definition validation_message :: "texts \<Rightarrow> error \<Rightarrow> string" where
  "validation_message tx err =
     trim_suffix (trim_prefix (error_text tx err) ''user: '') ('': '' @ error_text tx ErrValidation)"

definition booking_validation_message :: "texts \<Rightarrow> error \<Rightarrow> string" where
  "booking_validation_message tx err = trim_prefix (error_text tx err) ''booking: ''"

section \<open>Middleware\<close>

text \<open>\<open>EqualFold\<close> with the ASCII word \<open>bearer\<close>, no letter of which folds to another rune.\<close>

definition bearerPrefix :: string where "bearerPrefix = ''bearer ''"

definition lower_byte :: "char \<Rightarrow> char" where
  "lower_byte c = (if is_upper_letter c then chr (byte c + 32) else c)"

definition bearer_token :: "string \<Rightarrow> string option" where
  "bearer_token header =
     (if length header < length bearerPrefix then None
      else if map lower_byte (take (length bearerPrefix) header) \<noteq> bearerPrefix then None
      else let token = trim_space (drop (length bearerPrefix) header)
        in if token = [] then None else Some token)"

text \<open>\<open>Auth\<close>: the handler runs with the user of the token, or not at all.\<close>

definition auth_middleware ::
    "(string \<Rightarrow> string res) \<Rightarrow> (http_response \<Rightarrow> 'r) \<Rightarrow> (http_request \<Rightarrow> 'r) \<Rightarrow> http_request \<Rightarrow> 'r" where
  "auth_middleware validate reply next r =
     (case bearer_token (rq_Header r ''Authorization'') of
        None \<Rightarrow> reply write_unauthorized
      | Some token \<Rightarrow>
          (case validate token of
             Inl err \<Rightarrow> reply write_unauthorized
           | Inr userID \<Rightarrow> next (r\<lparr>rq_UserID := Some userID\<rparr>)))"

definition request_id_byte :: "char \<Rightarrow> bool" where
  "request_id_byte c \<longleftrightarrow> is_lower_letter c \<or> is_upper_letter c \<or> is_digit c \<or>
     c = CHR ''.'' \<or> c = CHR ''_'' \<or> c = CHR ''-''"

definition sanitize_request_id :: "string \<Rightarrow> string" where
  "sanitize_request_id i =
     (if i = [] \<or> length i > 128 then [] else if list_all request_id_byte i then i else [])"

definition is_hex :: "string \<Rightarrow> bool" where
  "is_hex s \<longleftrightarrow> list_all (\<lambda>c. 48 \<le> byte c \<and> byte c \<le> 57 \<or> 97 \<le> byte c \<and> byte c \<le> 102 \<or> 65 \<le> byte c \<and> byte c \<le> 70) s"

definition trace_id_from_traceparent :: "string \<Rightarrow> string" where
  "trace_id_from_traceparent h =
     (let parts = split_on CHR ''-'' (trim_space h) in
      if length parts \<noteq> 4 then []
      else let version = parts ! 0; traceID = parts ! 1 in
        if length version \<noteq> 2 \<or> version = ''ff'' then []
        else if length traceID \<noteq> 32 \<or> \<not> is_hex traceID \<or> traceID = replicate 32 CHR ''0'' then []
        else traceID)"

text \<open>\<open>newUUID\<close> on sixteen random bytes: version 4 and variant 10 in their bits.\<close>

definition new_uuid :: "string \<Rightarrow> string" where
  "new_uuid b =
     (let b = b[6 := chr (byte (b ! 6) mod 16 + 64), 8 := chr (byte (b ! 8) mod 64 + 128)];
          h = (\<lambda>i j. hex_encode (take (j - i) (drop i b)))
      in h 0 4 @ ''-'' @ h 4 6 @ ''-'' @ h 6 8 @ ''-'' @ h 8 10 @ ''-'' @ h 10 16)"

definition request_id :: "string \<Rightarrow> http_request \<Rightarrow> string" where
  "request_id random r =
     (let i = sanitize_request_id (rq_Header r ''X-Request-ID'');
          i = (if i = [] then trace_id_from_traceparent (rq_Header r ''traceparent'') else i)
      in if i = [] then new_uuid random else i)"

text \<open>
  What a handler leaves: a response, or a panic before it wrote one, with the headers set until then.
\<close>

datatype reply = Replied http_response | Panicked "(string \<times> string) list"

definition write_headers :: "(string \<times> string) list \<Rightarrow> http_response \<Rightarrow> http_response" where
  "write_headers hs r = r\<lparr>rs_Headers := hs @ rs_Headers r\<rparr>"

fun after_headers :: "(string \<times> string) list \<Rightarrow> reply \<Rightarrow> reply" where
  "after_headers hs (Replied r) = Replied (write_headers hs r)"
| "after_headers hs (Panicked hs') = Panicked (hs @ hs')"

text \<open>\<open>RequestID\<close> sets its header before the next handler runs; \<open>Recovery\<close> is outermost.\<close>

definition request_id_middleware :: "string \<Rightarrow> (http_request \<Rightarrow> reply \<times> 's) \<Rightarrow> http_request \<Rightarrow> reply \<times> 's" where
  "request_id_middleware random next r =
     (let i = request_id random r
      in map_prod (after_headers [(''X-Request-ID'', i)]) id (next (r\<lparr>rq_RequestID := i\<rparr>)))"

definition recovery :: "(http_request \<Rightarrow> reply \<times> 's) \<Rightarrow> http_request \<Rightarrow> http_response \<times> 's" where
  "recovery next r =
     (case next r of
        (Replied resp, s) \<Rightarrow> (resp, s)
      | (Panicked hs, s) \<Rightarrow> (write_headers hs write_internal_error, s))"

end
