(* ===== verification/AuthHandlers.thy ===== *)
theory AuthHandlers
  imports HttpCore AuthService
begin

text \<open>
  \<open>internal/adapters/http/auth.go\<close>: the handlers of the auth routes over the auth service. A panic of the
  service leaves the handler before it has written anything.
\<close>

section \<open>Bodies\<close>

definition register_fields :: "(string \<times> field_kind) list" where
  "register_fields = [(''email'', KString), (''password'', KString), (''display_name'', KString)]"

definition login_fields :: "(string \<times> field_kind) list" where
  "login_fields = [(''email'', KString), (''password'', KString)]"

definition user_response :: "user \<Rightarrow> payload" where
  "user_response u =
     PObj [(''id'', PString (u_ID u)), (''email'', PString (u_Email u)), (''display_name'', PString (u_DisplayName u)),
           (''role'', PString (u_Role u))]"

definition session_response :: "session \<Rightarrow> payload" where
  "session_response s =
     PObj [(''access_token'', PString (se_AccessToken s)), (''token_type'', PString ''Bearer''),
           (''expires_in'', PInt (se_ExpiresIn s div second)), (''user'', user_response (se_User s))]"

definition write_auth_error :: "texts \<Rightarrow> error \<Rightarrow> http_response" where
  "write_auth_error tx err =
     (if errors_is err ErrValidation then write_error 400 CodeValidation (validation_message tx err)
      else if errors_is err ErrEmailTaken then write_error 409 CodeConflict ''email is already registered''
      else if errors_is err ErrInvalidCredentials then write_error 401 CodeUnauthorized ''invalid email or password''
      else if errors_is err ErrRefreshTokenUnknown \<or> errors_is err ErrRefreshTokenExpired \<or> errors_is err ErrRefreshTokenReused
      then write_error 401 CodeUnauthorized ''invalid or expired session''
      else if errors_is err ErrUserNotFound then write_error 401 CodeUnauthorized ''authentication required''
      else write_error 500 CodeInternal ''internal server error'')"

section \<open>Handlers\<close>

text \<open>How a session is answered: the refresh token in the cookie, never in the body.\<close>

definition write_session :: "int \<Rightarrow> duration \<Rightarrow> bool \<Rightarrow> session \<Rightarrow> http_response" where
  "write_session status refreshTTL secure sess =
     with_cookie (refresh_cookie (se_RefreshToken sess) refreshTTL secure) (write_json status (session_response sess))"

definition register_handler ::
    "texts \<Rightarrow> 's auth_service \<Rightarrow> duration \<Rightarrow> bool \<Rightarrow> auth_env \<Rightarrow> http_request \<Rightarrow> 's \<Rightarrow> reply \<times> 's" where
  "register_handler tx sv refreshTTL secure en r s =
     (case decode_json register_fields r of
        None \<Rightarrow> (Replied bad_body, s)
      | Some req \<Rightarrow>
          (case register sv en (get_string req ''email'') (get_string req ''password'') (get_string req ''display_name'') s of
             (None, s) \<Rightarrow> (Panicked [], s)
           | (Some (Inl err), s) \<Rightarrow> (Replied (write_auth_error tx err), s)
           | (Some (Inr sess), s) \<Rightarrow> (Replied (write_session 201 refreshTTL secure sess), s)))"

definition login_handler ::
    "texts \<Rightarrow> 's auth_service \<Rightarrow> duration \<Rightarrow> bool \<Rightarrow> auth_env \<Rightarrow> http_request \<Rightarrow> 's \<Rightarrow> reply \<times> 's" where
  "login_handler tx sv refreshTTL secure en r s =
     (case decode_json login_fields r of
        None \<Rightarrow> (Replied bad_body, s)
      | Some req \<Rightarrow>
          (case login sv en (get_string req ''email'') (get_string req ''password'') s of
             (None, s) \<Rightarrow> (Panicked [], s)
           | (Some (Inl err), s) \<Rightarrow> (Replied (write_auth_error tx err), s)
           | (Some (Inr sess), s) \<Rightarrow> (Replied (write_session 200 refreshTTL secure sess), s)))"

definition refresh_handler ::
    "texts \<Rightarrow> 's auth_service \<Rightarrow> duration \<Rightarrow> bool \<Rightarrow> auth_env \<Rightarrow> http_request \<Rightarrow> 's \<Rightarrow> reply \<times> 's" where
  "refresh_handler tx sv refreshTTL secure en r s =
     (case refresh_cookie_value r of
        None \<Rightarrow> (Replied (with_cookie (cleared_cookie secure)
                   (write_error 401 CodeUnauthorized ''invalid or expired session'')), s)
      | Some token \<Rightarrow>
          (case refresh sv en token s of
             (Inl err, s) \<Rightarrow> (Replied (with_cookie (cleared_cookie secure) (write_auth_error tx err)), s)
           | (Inr sess, s) \<Rightarrow> (Replied (write_session 200 refreshTTL secure sess), s)))"

definition logout_handler :: "texts \<Rightarrow> 's auth_service \<Rightarrow> bool \<Rightarrow> auth_env \<Rightarrow> http_request \<Rightarrow> 's \<Rightarrow> reply \<times> 's" where
  "logout_handler tx sv secure en r s =
     (let token = (case refresh_cookie_value r of None \<Rightarrow> [] | Some v \<Rightarrow> v) in
      case logout sv (en_storeAt en) token s of
        (Inl err, s) \<Rightarrow> (Replied (write_auth_error tx err), s)
      | (Inr _, s) \<Rightarrow> (Replied (with_cookie (cleared_cookie secure) (write_status 204)), s))"

definition me_handler :: "texts \<Rightarrow> 's auth_service \<Rightarrow> http_request \<Rightarrow> 's \<Rightarrow> reply \<times> 's" where
  "me_handler tx sv r s =
     (case rq_UserID r of
        None \<Rightarrow> (Replied (write_error 401 CodeUnauthorized ''authentication required''), s)
      | Some userID \<Rightarrow>
          (case me sv userID s of
             Inl err \<Rightarrow> (Replied (write_auth_error tx err), s)
           | Inr u \<Rightarrow> (Replied (write_json 200 (user_response u)), s)))"

section \<open>What clients can tell apart\<close>

text \<open>The three ways a refresh token can be dead look the same, and so do the ways to fail a login.\<close>

lemma dead_tokens_alike:
  "e \<in> {ErrRefreshTokenUnknown, ErrRefreshTokenExpired, ErrRefreshTokenReused} \<Longrightarrow>
   write_auth_error tx e = write_error 401 CodeUnauthorized ''invalid or expired session''"
  by (auto simp: write_auth_error_def)

text \<open>An error that no case names gives nothing of its text away.\<close>

lemma unnamed_auth_error:
  "\<forall>t \<in> {ErrValidation, ErrEmailTaken, ErrInvalidCredentials, ErrRefreshTokenUnknown, ErrRefreshTokenExpired,
      ErrRefreshTokenReused, ErrUserNotFound}. \<not> errors_is err t \<Longrightarrow> write_auth_error tx err = write_internal_error"
  by (simp add: write_auth_error_def write_internal_error_def)

end
