(* ===== verification/Catalog.thy ===== *)
theory Catalog
  imports DomainMovie Postgres "HOL-Library.Char_ord" "HOL-Library.List_Lexorder"
begin

text \<open>
  The catalog: \<open>internal/application/catalog/catalog.go\<close> over its two ports, their implementations in
  memory (\<open>adapters/memory/moviestore.go\<close>, \<open>screeningstore.go\<close>) and in PostgreSQL
  (\<open>adapters/postgres/repos.go\<close>, \<open>sqlcgen/movies.sql.go\<close>, \<open>sqlcgen/screenings.sql.go\<close>, \<open>migrations/00002\<close>,
  \<open>00008\<close>). Rows that sort alike come in the order of the state, which neither Go's maps nor SQL fix.
\<close>

section \<open>Use cases\<close>

record 's catalog_ports =
  MoviesList :: "'s \<Rightarrow> movie list res"
  MoviesGet :: "string \<Rightarrow> 's \<Rightarrow> movie res"
  ScreeningsListByMovie :: "string \<Rightarrow> 's \<Rightarrow> screening list res"

definition catalog_movies :: "'s catalog_ports \<Rightarrow> 's \<Rightarrow> movie list res" where
  "catalog_movies P s =
     (case MoviesList P s of
        Inl err \<Rightarrow> Inl (Errorf ''catalog: list movies: %w'' [] [err])
      | Inr list \<Rightarrow> Inr list)"

definition catalog_screenings :: "'s catalog_ports \<Rightarrow> string \<Rightarrow> 's \<Rightarrow> screening list res" where
  "catalog_screenings P movieID s =
     (case MoviesGet P movieID s of
        Inl err \<Rightarrow> Inl err
      | Inr _ \<Rightarrow>
          (case ScreeningsListByMovie P movieID s of
             Inl err \<Rightarrow> Inl (Errorf ''catalog: list screenings: %w'' [] [err])
           | Inr list \<Rightarrow> Inr list))"

section \<open>The contract\<close>

text \<open>
  \<open>films\<close> and \<open>showings\<close> are what the stores hold; \<open>names i f\<close> says that the identifier denotes the film;
  titles are ordered by \<open>rank\<close>.
\<close>

locale catalog_store =
  fixes P :: "'s catalog_ports"
    and invar :: "'s \<Rightarrow> bool"
    and films :: "'s \<Rightarrow> movie set"
    and showings :: "'s \<Rightarrow> screening set"
    and names :: "string \<Rightarrow> movie \<Rightarrow> bool"
    and rank :: "string \<Rightarrow> 'o :: linorder"
  assumes list_ok: "invar s \<Longrightarrow> \<exists>l. MoviesList P s = Inr l \<and> distinct l \<and> set l = films s \<and> sorted (map (\<lambda>m. rank (m_Title m)) l)"
    and get_known: "invar s \<Longrightarrow> m \<in> films s \<Longrightarrow> names i m \<Longrightarrow> MoviesGet P i s = Inr m"
    and get_unknown: "invar s \<Longrightarrow> \<forall>m \<in> films s. \<not> names i m \<Longrightarrow> \<exists>e. MoviesGet P i s = Inl e"
    and showings_ok: "invar s \<Longrightarrow> m \<in> films s \<Longrightarrow> names i m \<Longrightarrow>
        \<exists>l. ScreeningsListByMovie P i s = Inr l \<and> distinct l \<and> set l = {sc \<in> showings s. sc_MovieID sc = m_ID m} \<and> sorted (map sc_StartsAt l)"
begin

lemma movies_listed:
  "invar s \<Longrightarrow> \<exists>l. catalog_movies P s = Inr l \<and> distinct l \<and> set l = films s \<and> sorted (map (\<lambda>m. rank (m_Title m)) l)"
  using list_ok [of s] by (auto simp: catalog_movies_def)

text \<open>No showings of a film is an empty list; no such film is an error.\<close>

lemma screenings_listed:
  "invar s \<Longrightarrow> m \<in> films s \<Longrightarrow> names i m \<Longrightarrow> \<exists>l. catalog_screenings P i s = Inr l \<and> distinct l \<and>
     set l = {sc \<in> showings s. sc_MovieID sc = m_ID m} \<and> sorted (map sc_StartsAt l)"
  using get_known [of s m i] showings_ok [of s m i] by (auto simp: catalog_screenings_def)

lemma screenings_of_nothing:
  "invar s \<Longrightarrow> \<forall>m \<in> films s. \<not> names i m \<Longrightarrow> \<exists>e. catalog_screenings P i s = Inl e"
  using get_unknown [of s i] by (auto simp: catalog_screenings_def)

end

section \<open>In memory\<close>

record mem_catalog =
  mm_movies :: "(string, movie) gomap"
  mm_screenings :: "(string, screening) gomap"

definition new_mem_catalog :: mem_catalog where
  "new_mem_catalog = \<lparr>mm_movies = [], mm_screenings = []\<rparr>"

definition mem_movie_add :: "movie \<Rightarrow> mem_catalog \<Rightarrow> mem_catalog" where
  "mem_movie_add m s = s\<lparr>mm_movies := gm_set (m_ID m) m (mm_movies s)\<rparr>"

definition mem_movie_list :: "mem_catalog \<Rightarrow> movie list" where
  "mem_movie_list s = sort_key m_Title (map snd (mm_movies s))"

definition mem_movie_get :: "string \<Rightarrow> mem_catalog \<Rightarrow> movie res" where
  "mem_movie_get i s = (case gm_get (mm_movies s) i of None \<Rightarrow> Inl ErrMovieNotFound | Some m \<Rightarrow> Inr m)"

definition mem_screening_add :: "screening \<Rightarrow> mem_catalog \<Rightarrow> mem_catalog" where
  "mem_screening_add sc s = s\<lparr>mm_screenings := gm_set (sc_ID sc) sc (mm_screenings s)\<rparr>"

definition mem_screening_get :: "string \<Rightarrow> mem_catalog \<Rightarrow> screening res" where
  "mem_screening_get i s = (case gm_get (mm_screenings s) i of None \<Rightarrow> Inl ErrScreeningNotFound | Some sc \<Rightarrow> Inr sc)"

definition mem_screening_list :: "string \<Rightarrow> mem_catalog \<Rightarrow> screening list" where
  "mem_screening_list movieID s =
     sort_key sc_StartsAt (filter (\<lambda>sc. sc_MovieID sc = movieID) (map snd (mm_screenings s)))"

definition mem_catalog_ports :: "mem_catalog catalog_ports" where
  "mem_catalog_ports =
     \<lparr>MoviesList = (\<lambda>s. Inr (mem_movie_list s)), MoviesGet = mem_movie_get,
      ScreeningsListByMovie = (\<lambda>i s. Inr (mem_screening_list i s))\<rparr>"

text \<open>Every entry is filed under its own identifier.\<close>

definition mem_catalog_ok :: "mem_catalog \<Rightarrow> bool" where
  "mem_catalog_ok s \<longleftrightarrow> gm_wf (mm_movies s) \<and> gm_wf (mm_screenings s) \<and>
     (\<forall>(i, m) \<in> set (mm_movies s). m_ID m = i) \<and> (\<forall>(i, sc) \<in> set (mm_screenings s). sc_ID sc = i)"

lemma filed_distinct: "gm_wf m \<Longrightarrow> \<forall>(i, x) \<in> set m. f x = i \<Longrightarrow> distinct (map snd m)"
  by (induction m) (force simp: gm_wf_def)+

lemma filed_set: "gm_wf m \<Longrightarrow> \<forall>(i, x) \<in> set m. f x = i \<Longrightarrow> \<forall>(i, x) \<in> set (gm_set (f y) y m). f x = i"
  using gm_in_set [of m] gm_in_set [of "gm_set (f y) y m"] by (force split: if_splits)

lemma mem_catalog_steps:
  "mem_catalog_ok new_mem_catalog"
  "mem_catalog_ok s \<Longrightarrow> mem_catalog_ok (mem_movie_add m s)"
  "mem_catalog_ok s \<Longrightarrow> mem_catalog_ok (mem_screening_add sc s)"
  using filed_set [of "mm_movies s" m_ID m] filed_set [of "mm_screenings s" sc_ID sc]
  by (auto simp: mem_catalog_ok_def new_mem_catalog_def mem_movie_add_def mem_screening_add_def)

interpretation mem_cat: catalog_store mem_catalog_ports mem_catalog_ok "\<lambda>s. snd ` set (mm_movies s)"
  "\<lambda>s. snd ` set (mm_screenings s)" "\<lambda>i m. m_ID m = i" "\<lambda>t. t"
proof
  fix s :: mem_catalog and m :: movie and i :: string
  assume ok: "mem_catalog_ok s"
  show "\<exists>l. MoviesList mem_catalog_ports s = Inr l \<and> distinct l \<and> set l = snd ` set (mm_movies s) \<and> sorted (map (\<lambda>m. m_Title m) l)"
    using ok filed_distinct [of "mm_movies s" m_ID]
    by (simp add: mem_catalog_ports_def mem_movie_list_def mem_catalog_ok_def)
  show "MoviesGet mem_catalog_ports i s = Inr m" if "m \<in> snd ` set (mm_movies s)" "m_ID m = i"
    using ok that by (auto simp: mem_catalog_ports_def mem_movie_get_def mem_catalog_ok_def gm_in_set)
  show "\<exists>e. MoviesGet mem_catalog_ports i s = Inl e" if n: "\<forall>m \<in> snd ` set (mm_movies s). m_ID m \<noteq> i"
  proof (cases "gm_get (mm_movies s) i")
    case (Some k)
    with ok have "(i, k) \<in> set (mm_movies s)" by (simp add: mem_catalog_ok_def gm_in_set)
    with ok n show ?thesis by (force simp: mem_catalog_ok_def)
  qed (simp add: mem_catalog_ports_def mem_movie_get_def)
  show "\<exists>l. ScreeningsListByMovie mem_catalog_ports i s = Inr l \<and> distinct l \<and>
      set l = {sc \<in> snd ` set (mm_screenings s). sc_MovieID sc = m_ID m} \<and> sorted (map sc_StartsAt l)" if "m_ID m = i"
    using ok that filed_distinct [of "mm_screenings s" sc_ID]
    by (auto simp: mem_catalog_ports_def mem_screening_list_def mem_catalog_ok_def)
qed

section \<open>In PostgreSQL\<close>

record movie_row =
  mr_ID :: string
  mr_Title :: string
  mr_Synopsis :: string
  mr_DurationMinutes :: int
  mr_CreatedAt :: time

record screening_row =
  sr_ID :: string
  sr_MovieID :: string
  sr_StartsAt :: time
  sr_Rows :: "string list"
  sr_SeatsPerRow :: int
  sr_PriceCents :: int
  sr_CreatedAt :: time

record pg_catalog =
  pg_movies :: "movie_row list"
  pg_screenings :: "screening_row list"

text \<open>The \<open>CHECK\<close>s of a table are tried in the order of their names.\<close>

definition create_movie :: "string \<Rightarrow> time \<Rightarrow> string \<Rightarrow> string \<Rightarrow> int \<Rightarrow> pg_catalog \<Rightarrow> movie_row res \<times> pg_catalog" where
  "create_movie newID now title synopsis duration t =
     (if duration \<le> 0 then (Inl (PgError ''23514'' ''movies_duration_positive''), t)
      else if list_all (\<lambda>c. c = CHR '' '') title then (Inl (PgError ''23514'' ''movies_title_nonempty''), t)
      else
        let row = \<lparr>mr_ID = newID, mr_Title = title, mr_Synopsis = synopsis, mr_DurationMinutes = duration, mr_CreatedAt = pg_now now\<rparr>
        in (Inr row, t\<lparr>pg_movies := pg_movies t @ [row]\<rparr>))"

definition get_movie :: "pg_env \<Rightarrow> string \<Rightarrow> pg_catalog \<Rightarrow> movie_row res" where
  "get_movie E i t =
     (case pg_uuid E i of
        None \<Rightarrow> Inl invalid_text
      | Some u \<Rightarrow> (case find (\<lambda>r. mr_ID r = u) (pg_movies t) of None \<Rightarrow> Inl ErrNoRows | Some r \<Rightarrow> Inr r))"

definition list_movies :: "pg_env \<Rightarrow> pg_catalog \<Rightarrow> movie_row list" where
  "list_movies E t = sort_key (\<lambda>r. pg_collate E (mr_Title r)) (pg_movies t)"

text \<open>
  \<open>CHECK (array_length(rows, 1) > 0)\<close>: the length of an empty array is \<open>NULL\<close>, and a check that is not false
  passes.
\<close>

definition create_screening ::
    "pg_env \<Rightarrow> string \<Rightarrow> time \<Rightarrow> string \<Rightarrow> time \<Rightarrow> string list \<Rightarrow> int \<Rightarrow> int \<Rightarrow> pg_catalog \<Rightarrow> screening_row res \<times> pg_catalog" where
  "create_screening E newID now movieID startsAt rows seatsPerRow priceCents t =
     (case pg_uuid E movieID of
        None \<Rightarrow> (Inl invalid_text, t)
      | Some m \<Rightarrow>
          if priceCents \<le> 0 then (Inl (PgError ''23514'' ''screenings_price_positive''), t)
          else if seatsPerRow \<le> 0 then (Inl (PgError ''23514'' ''screenings_seats_positive''), t)
          else if m \<notin> mr_ID ` set (pg_movies t) then (Inl (PgError ''23503'' ''screenings_movie_id_fkey''), t)
          else
            let row = \<lparr>sr_ID = newID, sr_MovieID = m, sr_StartsAt = pg_now startsAt, sr_Rows = rows, sr_SeatsPerRow = seatsPerRow,
                  sr_PriceCents = priceCents, sr_CreatedAt = pg_now now\<rparr>
            in (Inr row, t\<lparr>pg_screenings := pg_screenings t @ [row]\<rparr>))"

definition get_screening :: "pg_env \<Rightarrow> string \<Rightarrow> pg_catalog \<Rightarrow> screening_row res" where
  "get_screening E i t =
     (case pg_uuid E i of
        None \<Rightarrow> Inl invalid_text
      | Some u \<Rightarrow> (case find (\<lambda>r. sr_ID r = u) (pg_screenings t) of None \<Rightarrow> Inl ErrNoRows | Some r \<Rightarrow> Inr r))"

definition list_screenings_by_movie :: "pg_env \<Rightarrow> string \<Rightarrow> pg_catalog \<Rightarrow> screening_row list res" where
  "list_screenings_by_movie E movieID t =
     (case pg_uuid E movieID of
        None \<Rightarrow> Inl invalid_text
      | Some m \<Rightarrow> Inr (sort_key sr_StartsAt (filter (\<lambda>r. sr_MovieID r = m) (pg_screenings t))))"

definition movie_from_row :: "movie_row \<Rightarrow> movie" where
  "movie_from_row row =
     \<lparr>m_ID = mr_ID row, m_Title = mr_Title row, m_Synopsis = mr_Synopsis row, m_DurationMinutes = mr_DurationMinutes row,
      m_CreatedAt = mr_CreatedAt row\<rparr>"

definition screening_from_row :: "screening_row \<Rightarrow> screening" where
  "screening_from_row row =
     \<lparr>sc_ID = sr_ID row, sc_MovieID = sr_MovieID row, sc_StartsAt = sr_StartsAt row, sc_Rows = sr_Rows row,
      sc_SeatsPerRow = sr_SeatsPerRow row, sc_PriceCents = sr_PriceCents row, sc_CreatedAt = sr_CreatedAt row\<rparr>"

definition pg_movie_create :: "string \<Rightarrow> time \<Rightarrow> movie \<Rightarrow> pg_catalog \<Rightarrow> movie res \<times> pg_catalog" where
  "pg_movie_create newID now m t =
     (case create_movie newID now (m_Title m) (m_Synopsis m) (int32 (m_DurationMinutes m)) t of
        (Inl err, t') \<Rightarrow> (Inl (Errorf ''movie: create: %w'' [] [err]), t')
      | (Inr row, t') \<Rightarrow> (Inr (movie_from_row row), t'))"

definition pg_movie_get :: "pg_env \<Rightarrow> string \<Rightarrow> pg_catalog \<Rightarrow> movie res" where
  "pg_movie_get E i t =
     (case get_movie E i t of
        Inl err \<Rightarrow>
          if errors_is err ErrNoRows then Inl ErrMovieNotFound else Inl (Errorf ''movie: get: %w'' [] [err])
      | Inr row \<Rightarrow> Inr (movie_from_row row))"

definition pg_movie_list :: "pg_env \<Rightarrow> pg_catalog \<Rightarrow> movie list" where
  "pg_movie_list E t = map movie_from_row (list_movies E t)"

definition pg_screening_create :: "pg_env \<Rightarrow> string \<Rightarrow> time \<Rightarrow> screening \<Rightarrow> pg_catalog \<Rightarrow> screening res \<times> pg_catalog" where
  "pg_screening_create E newID now sc t =
     (case create_screening E newID now (sc_MovieID sc) (sc_StartsAt sc) (sc_Rows sc) (int32 (sc_SeatsPerRow sc))
             (int32 (sc_PriceCents sc)) t of
        (Inl err, t') \<Rightarrow> (Inl (Errorf ''screening: create: %w'' [] [err]), t')
      | (Inr row, t') \<Rightarrow> (Inr (screening_from_row row), t'))"

definition pg_screening_get :: "pg_env \<Rightarrow> string \<Rightarrow> pg_catalog \<Rightarrow> screening res" where
  "pg_screening_get E i t =
     (case get_screening E i t of
        Inl err \<Rightarrow>
          if errors_is err ErrNoRows then Inl ErrScreeningNotFound else Inl (Errorf ''screening: get: %w'' [] [err])
      | Inr row \<Rightarrow> Inr (screening_from_row row))"

definition pg_screening_list :: "pg_env \<Rightarrow> string \<Rightarrow> pg_catalog \<Rightarrow> screening list res" where
  "pg_screening_list E movieID t =
     (case list_screenings_by_movie E movieID t of
        Inl err \<Rightarrow> Inl (Errorf ''screening: list: %w'' [] [err])
      | Inr rows \<Rightarrow> Inr (map screening_from_row rows))"

definition pg_catalog_ports :: "pg_env \<Rightarrow> pg_catalog catalog_ports" where
  "pg_catalog_ports E =
     \<lparr>MoviesList = (\<lambda>t. Inr (pg_movie_list E t)), MoviesGet = pg_movie_get E, ScreeningsListByMovie = pg_screening_list E\<rparr>"

text \<open>Primary keys are distinct and spelled as the server spells them.\<close>

definition pg_catalog_ok :: "pg_env \<Rightarrow> pg_catalog \<Rightarrow> bool" where
  "pg_catalog_ok E t \<longleftrightarrow> distinct (map mr_ID (pg_movies t)) \<and> distinct (map sr_ID (pg_screenings t)) \<and>
     (\<forall>r \<in> set (pg_movies t). pg_uuid E (mr_ID r) = Some (mr_ID r)) \<and>
     (\<forall>r \<in> set (pg_screenings t). sr_MovieID r \<in> mr_ID ` set (pg_movies t) \<and> 0 < sr_PriceCents r \<and> 0 < sr_SeatsPerRow r)"

lemma create_movie_ok:
  assumes "pg_catalog_ok E t" "pg_uuid E i = Some i" "i \<notin> mr_ID ` set (pg_movies t)" "create_movie i now ti sy d t = (r, t')"
  shows "pg_catalog_ok E t'"
  using assms by (auto simp: create_movie_def Let_def pg_catalog_ok_def split: if_splits)

lemma create_screening_ok:
  assumes "pg_catalog_ok E t" "i \<notin> sr_ID ` set (pg_screenings t)" "create_screening E i now m st rs n p t = (r, t')"
  shows "pg_catalog_ok E t'"
  using assms by (auto simp: create_screening_def Let_def pg_catalog_ok_def split: if_splits option.splits)

text \<open>A screening without a seat row is stored: the check meant to refuse it does not.\<close>

lemma empty_geometry_stored:
  assumes "pg_uuid E m = Some u" "u \<in> mr_ID ` set (pg_movies t)" "0 < n" "0 < p"
  shows "\<exists>row t'. create_screening E i now m st [] n p t = (Inr row, t') \<and> sr_Rows row = [] \<and>
     (\<forall>seat. \<not> has_seat (screening_from_row row) seat)"
  using assms by (simp add: create_screening_def Let_def screening_from_row_def has_seat_def)

lemma distinct_entities: "distinct (map k xs) \<Longrightarrow> (\<And>x. key (h x) = k x) \<Longrightarrow> distinct (map h (sort_key f (filter Q xs)))"
  by (auto simp: distinct_map inj_on_def) metis

lemma row_entity [simp]:
  "m_ID (movie_from_row r) = mr_ID r" "m_Title (movie_from_row r) = mr_Title r"
  "sc_ID (screening_from_row q) = sr_ID q" "sc_MovieID (screening_from_row q) = sr_MovieID q"
  "sc_StartsAt (screening_from_row q) = sr_StartsAt q"
  by (simp_all add: movie_from_row_def screening_from_row_def)

sublocale postgres \<subseteq> pg_cat: catalog_store "pg_catalog_ports E" "pg_catalog_ok E" "\<lambda>t. movie_from_row ` set (pg_movies t)"
  "\<lambda>t. screening_from_row ` set (pg_screenings t)" "\<lambda>i m. pg_uuid E i = Some (m_ID m)" "pg_collate E"
proof
  fix t :: pg_catalog and m :: movie and i :: string
  assume ok: "pg_catalog_ok E t"
  show "\<exists>l. MoviesList (pg_catalog_ports E) t = Inr l \<and> distinct l \<and> set l = movie_from_row ` set (pg_movies t) \<and>
      sorted (map (\<lambda>m. pg_collate E (m_Title m)) l)"
    using ok distinct_entities [of mr_ID "pg_movies t" m_ID movie_from_row _ "\<lambda>_. True"]
    by (simp add: pg_catalog_ports_def pg_movie_list_def list_movies_def pg_catalog_ok_def o_def)
  show "MoviesGet (pg_catalog_ports E) i t = Inr m" if "m \<in> movie_from_row ` set (pg_movies t)" "pg_uuid E i = Some (m_ID m)"
    using ok that by (auto simp: pg_catalog_ports_def pg_movie_get_def get_movie_def pg_catalog_ok_def find_key_unique)
  show "\<exists>e. MoviesGet (pg_catalog_ports E) i t = Inl e" if n: "\<forall>m \<in> movie_from_row ` set (pg_movies t). pg_uuid E i \<noteq> Some (m_ID m)"
    using n by (auto simp: pg_catalog_ports_def pg_movie_get_def get_movie_def split: option.splits dest: find_member)
  show "\<exists>l. ScreeningsListByMovie (pg_catalog_ports E) i t = Inr l \<and> distinct l \<and>
      set l = {sc \<in> screening_from_row ` set (pg_screenings t). sc_MovieID sc = m_ID m} \<and> sorted (map sc_StartsAt l)"
    if "pg_uuid E i = Some (m_ID m)"
    using ok that distinct_entities [of sr_ID "pg_screenings t" sc_ID screening_from_row sr_StartsAt "\<lambda>r. sr_MovieID r = m_ID m"]
    by (auto simp: pg_catalog_ports_def pg_screening_list_def list_screenings_by_movie_def pg_catalog_ok_def o_def)
qed

end
