(* ===== verification/BookingHandlers.thy ===== *)
theory BookingHandlers
  imports HttpCore Server Catalog
begin

text \<open>
  \<open>internal/adapters/http/booking.go\<close>, \<open>payment.go\<close>, \<open>catalog.go\<close> and \<open>health.go\<close>. A handler over the booking and
  payment services is the tree of port calls of the use case it reaches, with its reply as the result.
\<close>

section \<open>Booking\<close>

definition hold_fields :: "(string \<times> field_kind) list" where
  "hold_fields = [(''screening_id'', KString), (''row'', KString), (''number'', KInt)]"

text \<open>\<open>holdResponse\<close> has no hold token.\<close>

definition hold_response :: "hold \<Rightarrow> payload" where
  "hold_response h =
     PObj [(''session_id'', PString (h_SessionID h)), (''screening_id'', PString (h_ScreeningID h)),
           (''row'', PString (s_Row (h_Seat h))), (''number'', PInt (s_Number (h_Seat h))), (''expires_at'', PTime (h_ExpiresAt h))]"

definition booking_dto :: "booking \<Rightarrow> payload" where
  "booking_dto b =
     PObj [(''id'', PString (b_ID b)), (''session_id'', PString (b_SessionID b)), (''screening_id'', PString (b_ScreeningID b)),
           (''row'', PString (s_Row (b_Seat b))), (''number'', PInt (s_Number (b_Seat b))), (''status'', PString (b_Status b)),
           (''confirmed_at'', PTime (b_ConfirmedAt b))]"

definition seat_response :: "seat_state \<Rightarrow> payload" where
  "seat_response st =
     PObj [(''row'', PString (s_Row (ss_Seat st))), (''number'', PInt (s_Number (ss_Seat st))), (''status'', PString (ss_Status st))]"

definition seat_map_response :: "seat_map_view \<Rightarrow> payload" where
  "seat_map_response view =
     PObj [(''screening_id'', PString (sc_ID (sm_Screening view))), (''movie_id'', PString (sc_MovieID (sm_Screening view))),
           (''starts_at'', PTime (sc_StartsAt (sm_Screening view))), (''rows'', PList (map PString (sc_Rows (sm_Screening view)))),
           (''seats_per_row'', PInt (sc_SeatsPerRow (sm_Screening view))), (''seats'', PList (map seat_response (sm_Seats view)))]"

text \<open>The case that \<open>writeBookingError\<close> and \<open>writePaymentError\<close> answer with one 404.\<close>

definition no_such_hold :: "error \<Rightarrow> bool" where
  "no_such_hold err \<longleftrightarrow> errors_is err ErrHoldNotFound \<or> errors_is err ErrNotHoldOwner \<or> errors_is err ErrHoldExpired"

definition hold_not_found :: http_response where
  "hold_not_found = write_error 404 CodeNotFound ''hold not found''"

definition write_booking_error :: "texts \<Rightarrow> error \<Rightarrow> http_response" where
  "write_booking_error tx err =
     (if errors_is err ErrSeatAlreadyHeld then write_error 409 CodeSeatTaken ''seat is already held''
      else if errors_is err ErrSeatAlreadyBooked then write_error 409 CodeSeatBooked ''seat is already booked''
      else if errors_is err ErrHoldLimitExceeded then write_error 409 CodeHoldLimitExceeded ''active hold limit reached''
      else if errors_is err ErrSeatOutOfRange then write_error 400 CodeValidation (booking_validation_message tx err)
      else if no_such_hold err then hold_not_found
      else if errors_is err ErrPaymentNotCaptured then write_error 402 CodePaymentRequired ''no captured payment for this session''
      else if errors_is err ErrScreeningNotFound then write_error 404 CodeNotFound ''screening not found''
      else if errors_is err ErrMovieNotFound then write_error 404 CodeNotFound ''movie not found''
      else write_error 500 CodeInternal ''internal server error'')"

definition answer :: "http_response \<Rightarrow> reply prog" where
  "answer resp = Ret (Replied resp)"

definition hold_handler :: "texts \<Rightarrow> unicode \<Rightarrow> duration \<Rightarrow> http_request \<Rightarrow> reply prog" where
  "hold_handler tx ut holdTTL r =
     (case rq_UserID r of
        None \<Rightarrow> answer (write_error 401 CodeUnauthorized ''authentication required'')
      | Some userID \<Rightarrow>
     (case decode_json hold_fields r of
        None \<Rightarrow> answer bad_body
      | Some req \<Rightarrow>
     if trim_space (get_string req ''screening_id'') = []
     then answer (write_error 400 CodeValidation ''screening_id is required'')
     else
     (case new_seat ut (get_string req ''row'') (get_int req ''number'') of
        Inl err \<Rightarrow> answer (write_error 400 CodeValidation (booking_validation_message tx err))
      | Inr seat \<Rightarrow>
          map_prog (\<lambda>res. case res of
              Inl err \<Rightarrow> Replied (write_booking_error tx err)
            | Inr hold \<Rightarrow> Replied (write_json 201 (hold_response hold)))
            (booking_hold holdTTL userID (get_string req ''screening_id'') seat))))"

definition confirm_handler :: "texts \<Rightarrow> http_request \<Rightarrow> reply prog" where
  "confirm_handler tx r =
     (case rq_UserID r of
        None \<Rightarrow> answer (write_error 401 CodeUnauthorized ''authentication required'')
      | Some userID \<Rightarrow>
          map_prog (\<lambda>res. case res of
              Inl err \<Rightarrow> Replied (write_booking_error tx err)
            | Inr c \<Rightarrow> Replied (write_json (if cr_Created c then 201 else 200) (booking_dto (cr_Booking c))))
            (booking_confirm userID (rq_PathValue r ''sessionID'')))"

definition release_handler :: "texts \<Rightarrow> http_request \<Rightarrow> reply prog" where
  "release_handler tx r =
     (case rq_UserID r of
        None \<Rightarrow> answer (write_error 401 CodeUnauthorized ''authentication required'')
      | Some userID \<Rightarrow>
          map_prog (\<lambda>res. case res of
              Inl err \<Rightarrow> Replied (write_booking_error tx err)
            | Inr _ \<Rightarrow> Replied (write_status 204))
            (booking_release userID (rq_PathValue r ''sessionID'')))"

definition seat_map_handler :: "texts \<Rightarrow> http_request \<Rightarrow> reply prog" where
  "seat_map_handler tx r =
     map_prog (\<lambda>res. case res of
         Inl err \<Rightarrow> Replied (write_booking_error tx err)
       | Inr view \<Rightarrow> Replied (write_json 200 (seat_map_response view)))
       (booking_seat_map (rq_PathValue r ''screeningID''))"

section \<open>Payment\<close>

definition webhookSignatureHeader :: string where
  "webhookSignatureHeader = ''Payment-Signature''"

definition payment_intent_dto :: "intent_result \<Rightarrow> payload" where
  "payment_intent_dto res =
     PObj [(''payment_id'', PString (p_ID (in_Payment res))), (''session_id'', PString (p_BookingSessionID (in_Payment res))),
           (''intent_id'', PString (p_IntentID (in_Payment res))), (''amount_cents'', PInt (p_AmountCents (in_Payment res))),
           (''currency'', PString (p_Currency (in_Payment res))), (''status'', PString (p_Status (in_Payment res))),
           (''hold_expires_at'', PTime (in_HoldExpiresAt res))]"

definition payment_dto :: "payment \<Rightarrow> payload" where
  "payment_dto p =
     PObj [(''payment_id'', PString (p_ID p)), (''intent_id'', PString (p_IntentID p)), (''status'', PString (p_Status p)),
           (''amount_cents'', PInt (p_AmountCents p)), (''currency'', PString (p_Currency p)), (''updated_at'', PTime (p_UpdatedAt p))]"

definition webhook_ack_response :: payload where
  "webhook_ack_response = PObj [(''received'', PBool True)]"

definition write_payment_error :: "error \<Rightarrow> http_response" where
  "write_payment_error err =
     (if no_such_hold err then hold_not_found
      else if errors_is err ErrPaymentNotCaptured then write_error 402 CodePaymentRequired ''no captured payment for this session''
      else if errors_is err ErrPaymentDeclined then write_error 402 CodePaymentDeclined ''payment was declined''
      else if errors_is err ErrWebhookInvalid then write_error 400 CodeWebhookInvalid ''webhook verification failed''
      else if errors_is err ErrScreeningNotFound then write_error 404 CodeNotFound ''screening not found''
      else write_error 500 CodeInternal ''internal server error'')"

definition payment_intent_handler :: "http_request \<Rightarrow> reply prog" where
  "payment_intent_handler r =
     (case rq_UserID r of
        None \<Rightarrow> answer (write_error 401 CodeUnauthorized ''authentication required'')
      | Some userID \<Rightarrow>
          map_prog (\<lambda>res. case res of
              Inl err \<Rightarrow> Replied (write_payment_error err)
            | Inr res \<Rightarrow> Replied (write_json (if in_Created res then 201 else 200) (payment_intent_dto res)))
            (payment_create_intent userID (rq_PathValue r ''sessionID'')))"

definition payment_confirm_handler :: "http_request \<Rightarrow> reply prog" where
  "payment_confirm_handler r =
     (case rq_UserID r of
        None \<Rightarrow> answer (write_error 401 CodeUnauthorized ''authentication required'')
      | Some userID \<Rightarrow>
          map_prog (\<lambda>res. case res of
              Inl err \<Rightarrow> Replied (write_payment_error err)
            | Inr p \<Rightarrow> Replied (write_json 200 (payment_dto p)))
            (payment_confirm_by_client userID (rq_PathValue r ''sessionID'')))"

text \<open>\<open>io.ReadAll\<close> of a body past the limit fails; reading a body that is not there panics.\<close>

definition payment_webhook_handler :: "http_request \<Rightarrow> reply prog" where
  "payment_webhook_handler r =
     (case rq_Body r of
        None \<Rightarrow> Ret (Panicked [])
      | Some rawBody \<Rightarrow>
          if length rawBody > maxBodyBytes
          then answer (write_error 400 CodeWebhookInvalid ''webhook verification failed'')
          else map_prog (\<lambda>res. case res of
              Inl err \<Rightarrow> Replied (write_payment_error err)
            | Inr _ \<Rightarrow> Replied (write_json 200 webhook_ack_response))
            (payment_handle_webhook rawBody (rq_Header r webhookSignatureHeader)))"

section \<open>Catalog and health\<close>

definition movie_dto :: "movie \<Rightarrow> payload" where
  "movie_dto m =
     PObj [(''id'', PString (m_ID m)), (''title'', PString (m_Title m)), (''synopsis'', PString (m_Synopsis m)),
           (''duration_minutes'', PInt (m_DurationMinutes m)), (''created_at'', PTime (m_CreatedAt m))]"

definition screening_dto :: "screening \<Rightarrow> payload" where
  "screening_dto s =
     PObj [(''id'', PString (sc_ID s)), (''movie_id'', PString (sc_MovieID s)), (''starts_at'', PTime (sc_StartsAt s)),
           (''rows'', PList (map PString (sc_Rows s))), (''seats_per_row'', PInt (sc_SeatsPerRow s)),
           (''price_cents'', PInt (sc_PriceCents s)), (''created_at'', PTime (sc_CreatedAt s))]"

definition list_movies_handler :: "texts \<Rightarrow> 'c catalog_ports \<Rightarrow> 'c \<Rightarrow> reply" where
  "list_movies_handler tx C c =
     (case catalog_movies C c of
        Inl err \<Rightarrow> Replied (write_booking_error tx err)
      | Inr movies \<Rightarrow> Replied (write_json 200 (PObj [(''movies'', PList (map movie_dto movies))])))"

definition list_screenings_handler :: "texts \<Rightarrow> 'c catalog_ports \<Rightarrow> 'c \<Rightarrow> http_request \<Rightarrow> reply" where
  "list_screenings_handler tx C c r =
     (case catalog_screenings C (rq_PathValue r ''movieID'') c of
        Inl err \<Rightarrow> Replied (write_booking_error tx err)
      | Inr screenings \<Rightarrow> Replied (write_json 200 (PObj [(''screenings'', PList (map screening_dto screenings))])))"

definition healthz_handler :: reply where
  "healthz_handler = Replied (write_json 200 (PObj [(''status'', PString ''ok'')]))"

text \<open>What every check answered, in the order in which they ran; the encoder sorts the keys of a map.\<close>

definition readyz_handler :: "texts \<Rightarrow> (string \<times> error option) list \<Rightarrow> reply" where
  "readyz_handler tx checks =
     (let verdicts = fold (\<lambda>(name, err) m. gm_set name (PString (case err of None \<Rightarrow> ''ok'' | Some e \<Rightarrow> error_text tx e)) m) checks [];
          down = list_ex (\<lambda>(name, err). err \<noteq> None) checks
      in Replied (write_json (if down then 503 else 200)
           (PObj [(''status'', PString (if down then ''unavailable'' else ''ready'')), (''checks'', PObj verdicts)])))"

end
