(* ===== verification/Seed.thy ===== *)
theory Seed
  imports Catalog AuthServers
begin

text \<open>
  \<open>internal/adapters/postgres/seed.go\<close>: the development catalog and account. The identifiers the server assigns
  are an argument (\<open>ids\<close>: by table and by row), like the readings of the clock.
\<close>

record seed_ids =
  sd_user :: string
  sd_movie :: "nat \<Rightarrow> string"
  sd_screening :: "nat \<Rightarrow> string"

record seed_item =
  si_movie :: movie
  si_screening :: "duration list"
  si_priceCents :: int

definition seed_movie :: "string \<Rightarrow> string \<Rightarrow> int \<Rightarrow> movie" where
  "seed_movie title synopsis minutes =
     \<lparr>m_ID = [], m_Title = title, m_Synopsis = synopsis, m_DurationMinutes = minutes, m_CreatedAt = zero_time\<rparr>"

definition seed_catalog :: "seed_item list" where
  "seed_catalog =
     [\<lparr>si_movie = seed_movie ''The Concurrency Menace'' (''A race condition threatens a small town'' @ [CHR 0x27] @ ''s only cinema.'') 112,
       si_screening = [24 * hour, 48 * hour], si_priceCents = 1450\<rparr>,
      \<lparr>si_movie = seed_movie ''Eventual Consistency'' ''Two replicas learn that love, like writes, takes time to propagate.'' 96,
       si_screening = [30 * hour], si_priceCents = 1250\<rparr>]"

definition seed_rows :: "string list" where
  "seed_rows = [''A'', ''B'', ''C'', ''D'', ''E'', ''F'']"

definition seatsPerRow :: int where
  "seatsPerRow = 10"

definition devUserPassword :: string where
  "devUserPassword = ''booking-dev-password''"

text \<open>\<open>Truncate\<close> counts from the zero time.\<close>

definition truncate :: "time \<Rightarrow> duration \<Rightarrow> time" where
  "truncate t d = t - (t - zero_time) mod d"

definition seed_screening :: "string \<Rightarrow> time \<Rightarrow> duration \<Rightarrow> int \<Rightarrow> screening" where
  "seed_screening movieID now offset priceCents =
     \<lparr>sc_ID = [], sc_MovieID = movieID, sc_StartsAt = truncate (now + offset) minute, sc_Rows = seed_rows,
      sc_SeatsPerRow = seatsPerRow, sc_PriceCents = priceCents, sc_CreatedAt = zero_time\<rparr>"

text \<open>The inner loop, and the loop over the catalog; the counters number the rows created.\<close>

fun seed_screenings ::
    "pg_env \<Rightarrow> seed_ids \<Rightarrow> time \<Rightarrow> string \<Rightarrow> int \<Rightarrow> duration list \<Rightarrow> nat \<Rightarrow> pg_catalog \<Rightarrow> unit res \<times> nat \<times> pg_catalog" where
  "seed_screenings E ids now movieID price [] n t = (Inr (), n, t)"
| "seed_screenings E ids now movieID price (offset # os) n t =
     (case pg_screening_create E (sd_screening ids n) now (seed_screening movieID now offset price) t of
        (Inl err, t) \<Rightarrow> (Inl (Errorf ''seed: create screening: %w'' [] [err]), n, t)
      | (Inr _, t) \<Rightarrow> seed_screenings E ids now movieID price os (Suc n) t)"

fun seed_movies :: "pg_env \<Rightarrow> seed_ids \<Rightarrow> time \<Rightarrow> seed_item list \<Rightarrow> nat \<Rightarrow> nat \<Rightarrow> pg_catalog \<Rightarrow> unit res \<times> pg_catalog" where
  "seed_movies E ids now [] m n t = (Inr (), t)"
| "seed_movies E ids now (item # items) m n t =
     (case pg_movie_create (sd_movie ids m) now (si_movie item) t of
        (Inl err, t) \<Rightarrow> (Inl (Errorf ''seed: create movie %q: %w'' [ArgS (m_Title (si_movie item))] [err]), t)
      | (Inr created, t) \<Rightarrow>
          (case seed_screenings E ids now (m_ID created) (si_priceCents item) (si_screening item) n t of
             (Inl err, _, t) \<Rightarrow> (Inl err, t)
           | (Inr _, n, t) \<Rightarrow> seed_movies E ids now items (Suc m) n t))"

text \<open>The hasher is injected; \<open>None\<close> is its panic.\<close>

definition seed_dev_user ::
    "pg_env \<Rightarrow> seed_ids \<Rightarrow> time \<Rightarrow> (string \<Rightarrow> string res option) \<Rightarrow> pg_users \<Rightarrow> (unit res \<times> pg_users) option" where
  "seed_dev_user E ids now hashPassword t =
     (case hashPassword devUserPassword of
        None \<Rightarrow> None
      | Some (Inl err) \<Rightarrow> Some (Inl (Errorf ''seed: hash dev password: %w'' [] [err]), t)
      | Some (Inr hash) \<Rightarrow>
          (case pg_user_create E (sd_user ids) now
              \<lparr>u_ID = [], u_Email = ''dev@example.com'', u_PasswordHash = hash, u_DisplayName = ''Dev User'',
               u_Role = RoleCustomer, u_CreatedAt = zero_time\<rparr> t of
             (Inl err, t) \<Rightarrow> Some (Inl (Errorf ''seed: create dev user: %w'' [] [err]), t)
           | (Inr _, t) \<Rightarrow> Some (Inr (), t)))"

definition seed_dev ::
    "pg_env \<Rightarrow> seed_ids \<Rightarrow> time \<Rightarrow> (string \<Rightarrow> string res option) \<Rightarrow> pg_users \<times> pg_catalog \<Rightarrow>
     (unit res \<times> pg_users \<times> pg_catalog) option" where
  "seed_dev E ids now hashPassword db =
     (case db of (us, cat) \<Rightarrow>
        if length (pg_movie_list E cat) > 0 then Some (Inr (), us, cat)
        else case seed_dev_user E ids now hashPassword us of
            None \<Rightarrow> None
          | Some (Inl err, us) \<Rightarrow> Some (Inl err, us, cat)
          | Some (Inr _, us) \<Rightarrow> (case seed_movies E ids now seed_catalog 0 0 cat of (r, cat) \<Rightarrow> Some (r, us, cat)))"

section \<open>What it leaves\<close>

lemma seeded_already: "pg_movies cat \<noteq> [] \<Longrightarrow> seed_dev E ids now hashPassword (us, cat) = Some (Inr (), us, cat)"
  by (simp add: seed_dev_def pg_movie_list_def list_movies_def)

definition seed_keys :: "pg_env \<Rightarrow> seed_ids \<Rightarrow> bool" where
  "seed_keys E ids \<longleftrightarrow> inj (sd_movie ids) \<and> inj (sd_screening ids) \<and> (\<forall>n. pg_uuid E (sd_movie ids n) = Some (sd_movie ids n))"

lemma seed_consts:
  "int32 112 = 112" "int32 96 = 96" "int32 10 = 10" "int32 1450 = 1450" "int32 1250 = 1250"
  by (simp_all add: int32_id)

text \<open>On an empty catalog it stores two films and three screenings, and a second run changes nothing.\<close>

lemma seed_movies_empty:
  assumes "seed_keys E ids"
  shows "\<exists>cat. seed_movies E ids now seed_catalog 0 0 \<lparr>pg_movies = [], pg_screenings = []\<rparr> = (Inr (), cat) \<and>
     pg_catalog_ok E cat \<and> map mr_ID (pg_movies cat) = [sd_movie ids 0, sd_movie ids 1] \<and>
     map sr_ID (pg_screenings cat) = [sd_screening ids 0, sd_screening ids 1, sd_screening ids 2] \<and>
     (\<forall>r \<in> set (pg_screenings cat). sr_Rows r = seed_rows \<and> sr_SeatsPerRow r = seatsPerRow)"
  using assms
  by (simp add: seed_catalog_def seed_movie_def pg_movie_create_def create_movie_def Let_def pg_screening_create_def create_screening_def
      seed_screening_def seed_consts seatsPerRow_def movie_from_row_def seed_keys_def pg_catalog_ok_def inj_eq)

text \<open>A seed that failed after its account stays failed: the account is created again, and refused.\<close>

lemma half_seeded_is_stuck:
  assumes "list_ex (\<lambda>r. pg_lower E (ur_Email r) = pg_lower E ''dev@example.com'') us" "pg_movies cat = []"
    "hashPassword devUserPassword = Some (Inr hash)"
  shows "seed_dev E ids now hashPassword (us, cat) =
     Some (Inl (Errorf ''seed: create dev user: %w'' [] [ErrEmailTaken]), us, cat)"
  using assms
  by (simp add: seed_dev_def seed_dev_user_def pg_movie_list_def list_movies_def pg_user_create_def create_user_row_def
      is_unique_violation_def unique_violation_def)

end
