(* ===== verification/GoDuration.thy ===== *)
theory GoDuration
  imports GoStrings
begin

text \<open>
  \<open>time.ParseDuration\<close>: a sign, then numbers with a unit, added up in 64-bit unsigned arithmetic.
  The product of a fraction with its unit is computed in \<open>float64\<close>; that rounding is the argument
  \<open>fprod\<close>: digits, unit, power of ten.
\<close>

type_synonym float_product = "nat \<Rightarrow> nat \<Rightarrow> nat \<Rightarrow> nat"

definition unit_table :: "(string \<times> nat) list" where
  "unit_table = [(''ns'', 1), (''us'', 1000), ([chr 0xC2, chr 0xB5] @ ''s'', 1000), ([chr 0xCE, chr 0xBC] @ ''s'', 1000),
     (''ms'', 1000000), (''s'', 1000000000), (''m'', 60000000000), (''h'', 3600000000000)]"

text \<open>\<open>leadingInt\<close>: \<open>None\<close> past \<open>1 << 63\<close>.\<close>

fun leading_int :: "nat \<Rightarrow> string \<Rightarrow> (nat \<times> string) option" where
  "leading_int x [] = Some (x, [])"
| "leading_int x (c # s) =
     (if \<not> is_digit c then Some (x, c # s)
      else if x > 2 ^ 63 div 10 then None
      else let x = x * 10 + (byte c - 48) in
        if x > 2 ^ 63 then None else leading_int x s)"

text \<open>\<open>leadingFraction\<close>: digits past the precision are read and dropped.\<close>

fun leading_fraction :: "bool \<Rightarrow> nat \<Rightarrow> nat \<Rightarrow> string \<Rightarrow> nat \<times> nat \<times> string" where
  "leading_fraction overflow x scale [] = (x, scale, [])"
| "leading_fraction overflow x scale (c # s) =
     (if \<not> is_digit c then (x, scale, c # s)
      else if overflow then leading_fraction True x scale s
      else if x > (2 ^ 63 - 1) div 10 then leading_fraction True x scale s
      else let y = x * 10 + (byte c - 48) in
        if y > 2 ^ 63 then leading_fraction True x scale s
        else leading_fraction False y (scale * 10) s)"

text \<open>One number with its unit: its nanoseconds and what follows.\<close>

definition duration_part :: "float_product \<Rightarrow> string \<Rightarrow> (nat \<times> string) option" where
  "duration_part fprod s =
     (if s = [] \<or> \<not> (hd s = CHR ''.'' \<or> is_digit (hd s)) then None
      else case leading_int 0 s of
        None \<Rightarrow> None
      | Some (v, s1) \<Rightarrow>
          let pre = (length s1 \<noteq> length s);
              (f, scale, s2, post) =
                (case s1 of
                   c # s' \<Rightarrow> if c = CHR ''.''
                             then (case leading_fraction False 0 1 s' of (f, scale, r) \<Rightarrow> (f, scale, r, length r \<noteq> length s'))
                             else (0, 1, s1, False)
                 | [] \<Rightarrow> (0, 1, s1, False))
          in if \<not> pre \<and> \<not> post then None
             else
               let u = takeWhile (\<lambda>c. \<not> (c = CHR ''.'' \<or> is_digit c)) s2;
                   rest = dropWhile (\<lambda>c. \<not> (c = CHR ''.'' \<or> is_digit c)) s2
               in (case map_of unit_table u of
                     None \<Rightarrow> None
                   | Some unit \<Rightarrow>
                       if v > 2 ^ 63 div unit then None
                       else let w = (if f > 0 then v * unit + fprod f unit scale else v * unit) in
                         if w > 2 ^ 63 then None else Some (w, rest)))"

text \<open>Every part takes at least its unit, so as many rounds as there are bytes are enough.\<close>

fun duration_parts :: "float_product \<Rightarrow> nat \<Rightarrow> nat \<Rightarrow> string \<Rightarrow> nat option" where
  "duration_parts fprod n d [] = Some d"
| "duration_parts fprod 0 d s = None"
| "duration_parts fprod (Suc n) d s =
     (case duration_part fprod s of
        None \<Rightarrow> None
      | Some (v, rest) \<Rightarrow>
          let d = (d + v) mod 2 ^ 64 in if d > 2 ^ 63 then None else duration_parts fprod n d rest)"

definition parse_duration :: "float_product \<Rightarrow> string \<Rightarrow> duration option" where
  "parse_duration fprod s0 =
     (let neg = (s0 \<noteq> [] \<and> hd s0 = CHR ''-'');
          s = (if s0 \<noteq> [] \<and> (hd s0 = CHR ''-'' \<or> hd s0 = CHR ''+'') then tl s0 else s0)
      in if s = ''0'' then Some 0
         else if s = [] then None
         else case duration_parts fprod (length s) 0 s of
             None \<Rightarrow> None
           | Some d \<Rightarrow>
               if neg then Some (int64 (- int64 (int d)))
               else if d > 2 ^ 63 - 1 then None else Some (int d))"

lemma takeWhile_dropWhile_less:
  "takeWhile P s \<noteq> [] \<Longrightarrow> length (dropWhile P s) < length s"
  by (cases s) (auto split: if_splits intro: le_imp_less_Suc length_dropWhile_le)

lemma leading_int_shorter: "leading_int x s = Some (v, r) \<Longrightarrow> length r \<le> length s"
  by (induction x s rule: leading_int.induct) (auto simp: Let_def split: if_splits)

lemma leading_fraction_shorter: "leading_fraction o' x sc s = (f, sc', r) \<Longrightarrow> length r \<le> length s"
  by (induction s arbitrary: o' x sc) (auto simp: Let_def intro: le_SucI split: if_splits)

text \<open>The rounds suffice: what is left after a part is shorter.\<close>

lemma duration_part_shorter: "duration_part fprod s = Some (w, r) \<Longrightarrow> length r < length s"
proof -
  assume p: "duration_part fprod s = Some (w, r)"
  let ?P = "\<lambda>c. \<not> (c = CHR ''.'' \<or> is_digit c)"
  obtain v s1 where v: "leading_int 0 s = Some (v, s1)"
    using p by (auto simp: duration_part_def split: if_splits option.splits)
  have u: "map_of unit_table [] = None" by (simp add: unit_table_def)
  define q where "q = (case s1 of
      c # s' \<Rightarrow> if c = CHR ''.'' then (case leading_fraction False 0 1 s' of (f, scale, r) \<Rightarrow> (f, scale, r, length r \<noteq> length s'))
                else (0, 1, s1, False)
    | [] \<Rightarrow> (0, 1, s1, False))"
  obtain f scale s2 post where q: "q = (f, scale, s2, post)" by (cases q)
  have "length s2 \<le> length s1"
    using q leading_fraction_shorter [of False 0 1] unfolding q_def
    by (auto split: list.splits if_splits prod.splits intro: le_SucI)
  moreover have "r = dropWhile ?P s2" "takeWhile ?P s2 \<noteq> []"
    using p v q u unfolding duration_part_def q_def [symmetric]
    by (auto simp: Let_def q q_def [symmetric] split: if_splits option.splits)
  then have "length r < length s2" using takeWhile_dropWhile_less [of ?P s2] by simp
  ultimately show ?thesis using leading_int_shorter [OF v] by linarith
qed

end
