(* ===== verification/Platform.thy ===== *)
theory Platform
  imports Config
begin

text \<open>
  What the process sets up around its core: \<open>internal/platform/logger/logger.go\<close>, \<open>telemetry/telemetry.go\<close>,
  \<open>adapters/redis/client.go\<close>, \<open>adapters/postgres/pool.go\<close> and the migrations of \<open>migrate.go\<close> it may run. What slog,
  OpenTelemetry, pgx and goose answer is an argument.
\<close>

section \<open>Logger\<close>

text \<open>A \<open>slog.Logger\<close> on standard error: its format and the lowest level it writes.\<close>

datatype log_format = TextFormat | JSONFormat

record slog_logger =
  lg_Format :: log_format
  lg_Level :: int

definition new_logger :: "string \<Rightarrow> int \<Rightarrow> slog_logger" where
  "new_logger envName level = \<lparr>lg_Format = (if envName = EnvDevelopment then TextFormat else JSONFormat), lg_Level = level\<rparr>"

text \<open>A context, as far as this package looks at it: the value under \<open>ctxKey\<close>.\<close>

type_synonym log_context = "slog_logger option"

definition with_context :: "log_context \<Rightarrow> slog_logger \<Rightarrow> log_context" where
  "with_context ctx l = Some l"

definition from_context :: "slog_logger \<Rightarrow> log_context \<Rightarrow> slog_logger" where
  "from_context dflt ctx = (case ctx of Some l \<Rightarrow> l | None \<Rightarrow> dflt)"

lemma logger_carried: "from_context dflt (with_context ctx l) = l" "from_context dflt None = dflt"
  by (simp_all add: from_context_def with_context_def)

section \<open>Telemetry\<close>

datatype 'w writer = Stdout | Injected 'w

record 'w telemetry_options =
  to_Enabled :: bool
  to_ServiceName :: string
  to_Environment :: string
  to_Writer :: "'w option"

text \<open>
  The library: an exporter for a writer, and the merge of the default resource with the attributes of this process.
  Its globals: the tracer provider, a no-op until one is set, and the propagators.
\<close>

type_synonym attributes = "(string \<times> string) list"

record ('w, 'e, 'r) otel =
  ot_exporter :: "'w writer \<Rightarrow> 'e res"
  ot_resource :: "attributes \<Rightarrow> 'r res"

record ('e, 'r) otel_globals =
  og_Provider :: "('e \<times> 'r) option"
  og_Propagators :: "string list"

definition no_telemetry :: "('e, 'r) otel_globals" where
  "no_telemetry = \<lparr>og_Provider = None, og_Propagators = []\<rparr>"

datatype 'p shutdown = NoShutdown | ProviderShutdown 'p

definition Version :: string where
  "Version = ''dev''"

definition service_attributes :: "'w telemetry_options \<Rightarrow> attributes" where
  "service_attributes opts =
     [(''service.name'', to_ServiceName opts), (''service.version'', Version), (''deployment.environment.name'', to_Environment opts)]"

definition telemetry_setup ::
    "('w, 'e, 'r) otel \<Rightarrow> 'w telemetry_options \<Rightarrow> ('e, 'r) otel_globals \<Rightarrow> ('e \<times> 'r) shutdown res \<times> ('e, 'r) otel_globals" where
  "telemetry_setup ot opts g =
     (if \<not> to_Enabled opts then (Inr NoShutdown, g)
      else
        let w = (case to_Writer opts of None \<Rightarrow> Stdout | Some w \<Rightarrow> Injected w) in
        (case ot_exporter ot w of
           Inl err \<Rightarrow> (Inl (Errorf ''telemetry: create stdout exporter: %w'' [] [err]), g)
         | Inr exporter \<Rightarrow>
        (case ot_resource ot (service_attributes opts) of
           Inl err \<Rightarrow> (Inl (Errorf ''telemetry: build resource: %w'' [] [err]), g)
         | Inr attrs \<Rightarrow>
             let tp = (exporter, attrs) in
             (Inr (ProviderShutdown tp),
              g\<lparr>og_Provider := Some tp, og_Propagators := [''tracecontext'', ''baggage'']\<rparr>))))"

text \<open>The returned function: nothing to do without a provider.\<close>

fun run_shutdown :: "('p \<Rightarrow> unit res) \<Rightarrow> 'p shutdown \<Rightarrow> unit res" where
  "run_shutdown stop NoShutdown = Inr ()"
| "run_shutdown stop (ProviderShutdown tp) = stop tp"

text \<open>What is shut down is what was installed, and a failed set-up installs nothing.\<close>

lemma telemetry_outcome:
  assumes "telemetry_setup ot opts g = (r, g')"
  shows "r = Inr (ProviderShutdown tp) \<Longrightarrow> og_Provider g' = Some tp"
    and "isl r \<or> \<not> to_Enabled opts \<Longrightarrow> g' = g"
    and "\<not> to_Enabled opts \<Longrightarrow> r = Inr NoShutdown"
    and "to_Enabled opts \<Longrightarrow> r \<noteq> Inr NoShutdown"
  using assms by (auto simp: telemetry_setup_def Let_def split: if_splits sum.splits)

lemma tracing_enabled:
  "telemetry_setup ot opts no_telemetry = (Inr stop, g) \<Longrightarrow> og_Provider g \<noteq> None \<longleftrightarrow> to_Enabled opts"
  by (auto simp: telemetry_setup_def no_telemetry_def Let_def split: if_splits sum.splits)

section \<open>The Redis client\<close>

record redis_options =
  ro_Addr :: string
  ro_Password :: string
  ro_DB :: int

definition new_redis_client :: "redis_config \<Rightarrow> redis_options" where
  "new_redis_client cfg = \<lparr>ro_Addr = rc_Addr cfg, ro_Password = rc_Password cfg, ro_DB = rc_DB cfg\<rparr>"

section \<open>The pool\<close>

text \<open>The answers of pgx.\<close>

record pgx =
  px_parse :: "string \<Rightarrow> unit res"
  px_create :: "unit res"
  px_ping :: "unit res"

definition new_pool :: "pgx \<Rightarrow> postgres_config \<Rightarrow> unit res" where
  "new_pool x cfg =
     (case px_parse x (postgres_dsn cfg) of
        Inl err \<Rightarrow> Inl (Errorf ''postgres: parse config: %w'' [] [err])
      | Inr _ \<Rightarrow>
     (case px_create x of
        Inl err \<Rightarrow> Inl (Errorf ''postgres: create pool: %w'' [] [err])
      | Inr _ \<Rightarrow>
     (case px_ping x of
        Inl err \<Rightarrow> Inl (Errorf ''postgres: ping: %w'' [] [err])
      | Inr _ \<Rightarrow> Inr ())))"

section \<open>Migrations\<close>

record migration_status =
  ms_State :: string
  ms_Version :: int
  ms_Path :: string

record goose =
  go_open :: "string \<Rightarrow> unit res"
  go_provider :: "unit res"
  go_up :: "string list res"
  go_status :: "migration_status list res"

definition migrate_up :: "goose \<Rightarrow> postgres_config \<Rightarrow> int res" where
  "migrate_up g cfg =
     (case go_open g (postgres_dsn cfg) of
        Inl err \<Rightarrow> Inl (Errorf ''migrate: open db: %w'' [] [err])
      | Inr _ \<Rightarrow>
     (case go_provider g of
        Inl err \<Rightarrow> Inl (Errorf ''migrate: provider: %w'' [] [err])
      | Inr _ \<Rightarrow>
     (case go_up g of
        Inl err \<Rightarrow> Inl (Errorf ''migrate: up: %w'' [] [err])
      | Inr results \<Rightarrow> Inr (int (length results)))))"

end
