(* ===== verification/Api.thy ===== *)
theory Api
  imports AuthHandlers BookingHandlers Seed Platform ProductionServer
begin

text \<open>
  \<open>cmd/api/main.go\<close>: the routes with their guards, the middleware chain around them, and the way from the
  configuration to a server or to the error it refuses to start with. \<open>ServeMux\<close> is of the standard library: a
  pattern is a method and segments, and no two of these patterns match one request.
\<close>

section \<open>Routing\<close>

datatype segment = Lit string | Wild string

fun match_segments :: "segment list \<Rightarrow> string list \<Rightarrow> (string \<times> string) list option" where
  "match_segments [] [] = Some []"
| "match_segments (Lit l # ps) (s # ss) = (if l = s then match_segments ps ss else None)"
| "match_segments (Wild n # ps) (s # ss) = (if s = [] then None else map_option (Cons (n, s)) (match_segments ps ss))"
| "match_segments _ _ = None"

text \<open>A \<open>GET\<close> pattern serves \<open>HEAD\<close>.\<close>

definition method_matches :: "string \<Rightarrow> string \<Rightarrow> bool" where
  "method_matches m requested \<longleftrightarrow> m = requested \<or> m = ''GET'' \<and> requested = ''HEAD''"

type_synonym 'h route = "string \<times> segment list \<times> 'h"

definition plain_text :: "int \<Rightarrow> string \<Rightarrow> http_response" where
  "plain_text status s =
     \<lparr>rs_Status = status, rs_Headers = [(''Content-Type'', ''text/plain; charset=utf-8''), (''X-Content-Type-Options'', ''nosniff'')],
      rs_Cookies = [], rs_Body = Some (PText s)\<rparr>"

definition path_values :: "(string \<times> string) list \<Rightarrow> string \<Rightarrow> string" where
  "path_values vs n = (case map_of vs n of None \<Rightarrow> [] | Some v \<Rightarrow> v)"

text \<open>The methods of the patterns for the path, in order.\<close>

definition allowed_methods :: "'h route list \<Rightarrow> string list \<Rightarrow> string list" where
  "allowed_methods routes segs =
     filter (\<lambda>q. list_ex (\<lambda>(m, p, h). method_matches m q \<and> match_segments p segs \<noteq> None) routes)
       [''DELETE'', ''GET'', ''HEAD'', ''POST'']"

definition join_comma :: "string list \<Rightarrow> string" where
  "join_comma xs = (case xs of [] \<Rightarrow> [] | x # r \<Rightarrow> x @ concat (map (\<lambda>y. '', '' @ y) r))"

definition no_route :: "string list \<Rightarrow> http_response" where
  "no_route allowed =
     (if allowed = [] then plain_text 404 ''404 page not found''
      else write_headers [(''Allow'', join_comma allowed)] (plain_text 405 ''Method Not Allowed''))"

definition serve_mux :: "(http_request \<Rightarrow> 'r) route list \<Rightarrow> (http_response \<Rightarrow> 'r) \<Rightarrow> http_request \<Rightarrow> 'r" where
  "serve_mux routes refuse r =
     (case find (\<lambda>(m, p, h). method_matches m (rq_Method r) \<and> match_segments p (rq_Segments r) \<noteq> None) routes of
        Some (m, p, h) \<Rightarrow> h (r\<lparr>rq_PathValue := path_values (the (match_segments p (rq_Segments r)))\<rparr>)
      | None \<Rightarrow> refuse (no_route (allowed_methods routes (rq_Segments r))))"

section \<open>The API\<close>

text \<open>
  What the handlers share, and what one request reads from its surroundings. A handler answers at once, runs a
  use case of the booking and payment services, or works on the accounts.
\<close>

record ('a, 'c) api =
  ap_texts :: texts
  ap_unicode :: unicode
  ap_holdTTL :: duration
  ap_auth :: "'a auth_service"
  ap_refreshTTL :: duration
  ap_secure :: bool
  ap_catalog :: "'c catalog_ports"

record api_env =
  ae_auth :: auth_env
  ae_now :: time
  ae_random :: string
  ae_checks :: "(string \<times> error option) list"

datatype 'a call = Reads reply | UseCase "reply prog" | Accounts "'a \<Rightarrow> reply \<times> 'a"

definition validate :: "('a, 'c) api \<Rightarrow> api_env \<Rightarrow> string \<Rightarrow> string res" where
  "validate A en token = validate_access_token (sv_jwt (ap_auth A)) (sv_issuer (ap_auth A)) (ae_now en) token"

definition guarded :: "('a, 'c) api \<Rightarrow> api_env \<Rightarrow> (http_request \<Rightarrow> 'a call) \<Rightarrow> http_request \<Rightarrow> 'a call" where
  "guarded A en = auth_middleware (validate A en) (\<lambda>resp. Reads (Replied resp))"

definition api_routes :: "('a, 'c) api \<Rightarrow> 'c \<Rightarrow> api_env \<Rightarrow> (http_request \<Rightarrow> 'a call) route list" where
  "api_routes A c en =
     (let tx = ap_texts A; sv = ap_auth A; ttl = ap_refreshTTL A; secure = ap_secure A; au = ae_auth en in
      [(''GET'', [Lit ''healthz''], \<lambda>r. Reads healthz_handler),
       (''GET'', [Lit ''readyz''], \<lambda>r. Reads (readyz_handler tx (ae_checks en))),
       (''POST'', [Lit ''auth'', Lit ''register''], \<lambda>r. Accounts (register_handler tx sv ttl secure au r)),
       (''POST'', [Lit ''auth'', Lit ''login''], \<lambda>r. Accounts (login_handler tx sv ttl secure au r)),
       (''POST'', [Lit ''auth'', Lit ''refresh''], \<lambda>r. Accounts (refresh_handler tx sv ttl secure au r)),
       (''POST'', [Lit ''auth'', Lit ''logout''], \<lambda>r. Accounts (logout_handler tx sv secure au r)),
       (''GET'', [Lit ''auth'', Lit ''me''], guarded A en (\<lambda>r. Accounts (me_handler tx sv r))),
       (''GET'', [Lit ''movies''], \<lambda>r. Reads (list_movies_handler tx (ap_catalog A) c)),
       (''GET'', [Lit ''movies'', Wild ''movieID'', Lit ''screenings''], \<lambda>r. Reads (list_screenings_handler tx (ap_catalog A) c r)),
       (''GET'', [Lit ''screenings'', Wild ''screeningID'', Lit ''seats''], \<lambda>r. UseCase (seat_map_handler tx r)),
       (''POST'', [Lit ''holds''], guarded A en (\<lambda>r. UseCase (hold_handler tx (ap_unicode A) (ap_holdTTL A) r))),
       (''POST'', [Lit ''holds'', Wild ''sessionID'', Lit ''confirm''], guarded A en (\<lambda>r. UseCase (confirm_handler tx r))),
       (''DELETE'', [Lit ''holds'', Wild ''sessionID''], guarded A en (\<lambda>r. UseCase (release_handler tx r))),
       (''POST'', [Lit ''holds'', Wild ''sessionID'', Lit ''payment-intent''], guarded A en (\<lambda>r. UseCase (payment_intent_handler r))),
       (''POST'', [Lit ''holds'', Wild ''sessionID'', Lit ''payment-intent'', Lit ''confirm''],
          guarded A en (\<lambda>r. UseCase (payment_confirm_handler r))),
       (''POST'', [Lit ''webhooks'', Lit ''payment''], \<lambda>r. UseCase (payment_webhook_handler r))])"

definition dispatch :: "('a, 'c) api \<Rightarrow> 'c \<Rightarrow> api_env \<Rightarrow> http_request \<Rightarrow> 'a call" where
  "dispatch A c en = serve_mux (api_routes A c en) (\<lambda>resp. Reads (Replied resp))"

text \<open>One request served alone, inside \<open>Recovery\<close> and \<open>RequestID\<close> (\<open>Logging\<close> adds nothing to the answer).\<close>

fun run_call :: "'w ports \<Rightarrow> 'a call \<Rightarrow> 'a \<times> 'w \<Rightarrow> reply \<times> 'a \<times> 'w" where
  "run_call P (Reads x) s = (x, s)"
| "run_call P (UseCase p) (a, w) = (case run P p w of (x, w) \<Rightarrow> (x, a, w))"
| "run_call P (Accounts f) (a, w) = (case f a of (x, a) \<Rightarrow> (x, a, w))"

definition handle :: "('a, 'c) api \<Rightarrow> 'w ports \<Rightarrow> 'c \<Rightarrow> api_env \<Rightarrow> 'a \<times> 'w \<Rightarrow> http_request \<Rightarrow> http_response \<times> 'a \<times> 'w" where
  "handle A P c en s =
     recovery (request_id_middleware (ae_random en) (\<lambda>r. run_call P (dispatch A c en r) s))"

section \<open>Starting\<close>

definition select_gateway :: "payment_config \<Rightarrow> fake_gateway res" where
  "select_gateway p =
     (if yc_Provider p = PaymentProviderFake then
        (case new_fake_gateway (yc_FakeWebhookSecret p) of
           Inl err \<Rightarrow> Inl (Errorf ''payment gateway: %w'' [] [err])
         | Inr g \<Rightarrow> Inr g)
      else if yc_Provider p = PaymentProviderStripe
      then Inl (Errorf ''payment provider %q is not implemented yet (ADR 0008); use PAYMENT_PROVIDER=fake'' [ArgS (yc_Provider p)] [])
      else Inl (Errorf ''payment provider %q is unknown to the composition root'' [ArgS (yc_Provider p)] []))"

text \<open>What the libraries answer while the process starts.\<close>

record startup =
  su_otel :: "(unit, unit, unit) otel"
  su_pgx :: pgx
  su_dummy :: "string res"
  su_salt :: "string res"
  su_goose :: goose
  su_seedSalt :: "string res"
  su_now :: time
  su_ids :: seed_ids

record libraries =
  lb_idkey :: idkey
  lb_jwt :: jwt_library
  lb_unicode :: unicode
  lb_uuid :: "string \<Rightarrow> string option"
  lb_texts :: texts

text \<open>The development branch of \<open>run\<close>: migrate, then seed. \<open>None\<close> is a panic of the hasher.\<close>

definition prepare_database ::
    "libraries \<Rightarrow> pg_env \<Rightarrow> config \<Rightarrow> startup \<Rightarrow> pg_users \<times> pg_catalog \<Rightarrow> (unit res \<times> pg_users \<times> pg_catalog) option" where
  "prepare_database L E cfg su db =
     (if cfg_Env cfg \<noteq> EnvDevelopment then Some (Inr (), db)
      else case migrate_up (su_goose su) (cfg_Postgres cfg) of
        Inl err \<Rightarrow> Some (Inl (Errorf ''auto-migrate: %w'' [] [err]), db)
      | Inr applied \<Rightarrow>
          (case seed_dev E (su_ids su) (su_now su) (argon2_hash (lb_idkey L) DefaultArgon2Params (su_seedSalt su)) db of
             None \<Rightarrow> None
           | Some (Inl err, db) \<Rightarrow> Some (Inl (Errorf ''dev seed: %w'' [] [err]), db)
           | Some (Inr _, db) \<Rightarrow> Some (Inr (), db)))"

record server_parts =
  sp_api :: "(pg_auth_db, pg_catalog) api"
  sp_holds :: redis_store
  sp_gateway :: fake_gateway
  sp_database :: "pg_users \<times> pg_catalog"
  sp_redis :: redis_options
  sp_log :: log_context
  sp_traces :: "(unit, unit) otel_globals"
  sp_shutdown :: "(unit \<times> unit) shutdown"

definition new_token_issuer :: "string \<Rightarrow> string \<Rightarrow> duration \<Rightarrow> token_issuer" where
  "new_token_issuer secret issuer accessTTL = \<lparr>ti_secret = secret, ti_issuer = issuer, ti_accessTTL = accessTTL\<rparr>"

definition telemetry_of :: "config \<Rightarrow> unit telemetry_options" where
  "telemetry_of cfg =
     \<lparr>to_Enabled = tc_Enabled (cfg_Telemetry cfg), to_ServiceName = cfg_ServiceName cfg, to_Environment = cfg_Env cfg, to_Writer = None\<rparr>"

text \<open>\<open>run\<close> up to the call of \<open>server.Run\<close>.\<close>

definition start_server ::
    "libraries \<Rightarrow> pg_env \<Rightarrow> startup \<Rightarrow> config res \<Rightarrow> pg_users \<times> pg_catalog \<Rightarrow> server_parts res option" where
  "start_server L E su loaded db =
     (case loaded of Inl err \<Rightarrow> Some (Inl err) | Inr cfg \<Rightarrow>
      case telemetry_setup (su_otel su) (telemetry_of cfg) no_telemetry of (traced, traces) \<Rightarrow>
      case traced of Inl err \<Rightarrow> Some (Inl (Errorf ''telemetry setup: %w'' [] [err])) | Inr shutdown \<Rightarrow>
      case new_pool (su_pgx su) (cfg_Postgres cfg) of Inl err \<Rightarrow> Some (Inl (Errorf ''postgres: %w'' [] [err])) | Inr _ \<Rightarrow>
      case new_auth_service (pg_auth_ports (lb_uuid L) E) (lb_idkey L) (lb_jwt L) (lb_unicode L) DefaultArgon2Params
          (new_token_issuer (ac_JWTSecret (cfg_Auth cfg)) (cfg_ServiceName cfg) (ac_AccessTokenTTL (cfg_Auth cfg)))
          (ac_AccessTokenTTL (cfg_Auth cfg)) (ac_RefreshTokenTTL (cfg_Auth cfg)) (su_dummy su) (su_salt su) of
        None \<Rightarrow> None
      | Some authService \<Rightarrow>
      case prepare_database L E cfg su db of
        None \<Rightarrow> None
      | Some (Inl err, _) \<Rightarrow> Some (Inl err)
      | Some (Inr _, db) \<Rightarrow>
      case select_gateway (cfg_Payment cfg) of
        Inl err \<Rightarrow> Some (Inl err)
      | Inr gateway \<Rightarrow>
          Some (Inr \<lparr>
            sp_api = \<lparr>ap_texts = lb_texts L, ap_unicode = lb_unicode L, ap_holdTTL = rc_HoldTTL (cfg_Redis cfg), ap_auth = authService,
              ap_refreshTTL = ac_RefreshTokenTTL (cfg_Auth cfg), ap_secure = is_production (cfg_Env cfg), ap_catalog = pg_catalog_ports E\<rparr>,
            sp_holds = new_redis_store (rc_HoldTTL (cfg_Redis cfg)) (cfg_MaxActiveHolds cfg),
            sp_gateway = gateway, sp_database = db, sp_redis = new_redis_client (cfg_Redis cfg),
            sp_log = with_context None (new_logger (cfg_Env cfg) (cfg_LogLevel cfg)), sp_traces = traces, sp_shutdown = shutdown\<rparr>))"

end
