(* ===== verification/ApiRequests.thy ===== *)
theory ApiRequests
  imports Api
begin

text \<open>
  From HTTP requests to use cases: which route a request takes, for whom it runs a use case of the booking and
  payment services, and what the guard in front of a protected route lets through.
\<close>

section \<open>From requests to use cases\<close>

lemma match_Lit: "match_segments (Lit l # ps) ss \<noteq> None \<longleftrightarrow> (\<exists>r. ss = l # r \<and> match_segments ps r \<noteq> None)"
  by (cases ss) auto

lemma match_Wild: "match_segments (Wild n # ps) ss \<noteq> None \<longleftrightarrow> (\<exists>s r. ss = s # r \<and> s \<noteq> [] \<and> match_segments ps r \<noteq> None)"
  by (cases ss) auto

lemma match_Nil: "match_segments [] ss \<noteq> None \<longleftrightarrow> ss = []"
  by (cases ss) auto

lemmas match_shape = match_Lit match_Wild match_Nil

lemma parse_int_range: "parse_int s = Some i \<Longrightarrow> int64_range i"
  by (auto simp: parse_int_def Let_def split: option.splits if_splits prod.splits)

lemma decode_members_range:
  "decode_members flds kvs acc = Some m \<Longrightarrow> \<forall>n i. acc n = Some (VInt i) \<longrightarrow> int64_range i \<Longrightarrow> m n = Some (VInt i) \<Longrightarrow> int64_range i"
proof (induction flds kvs acc rule: decode_members.induct)
  case (2 flds key v kvs acc)
  then show ?case
    by (fastforce simp: decode_field_def split: option.splits prod.splits field_kind.splits json.splits if_splits dest: parse_int_range)
qed simp

lemma decode_json_range: "decode_json flds r = Some m \<Longrightarrow> int64_range (get_int m n)"
  using decode_members_range [of flds _ Map.empty m n]
  by (fastforce simp: decode_json_def decode_struct_def get_int_def int64_range_def split: option.splits prod.splits json.splits field_value.splits if_splits)

text \<open>For whom a request of the server model is made.\<close>

fun request_caller :: "request \<Rightarrow> string option" where
  "request_caller (ReqHold uid scr seat) = Some uid"
| "request_caller (ReqConfirm uid sid) = Some uid"
| "request_caller (ReqRelease uid sid) = Some uid"
| "request_caller (ReqSeatMap scr) = None"
| "request_caller (ReqCreateIntent uid sid) = Some uid"
| "request_caller (ReqPay uid sid) = Some uid"
| "request_caller (ReqWebhook body sig) = None"

text \<open>A tree that answers at once, or runs one request of the server model for nobody but \<open>who\<close>.\<close>

definition runs_for :: "duration \<Rightarrow> string option \<Rightarrow> reply prog \<Rightarrow> bool" where
  "runs_for ttl who p \<longleftrightarrow> (\<exists>x. p = Ret x) \<or>
     (\<exists>f req. p = map_prog f (serve ttl req) \<and> request_ok req \<and> (request_caller req = None \<or> request_caller req = who))"

lemma runs_for_Ret [simp]: "runs_for ttl who (Ret x)" "runs_for ttl who (answer resp)"
  by (simp_all add: runs_for_def answer_def)

lemma runs_for_serve:
  "serve ttl req = map_prog out p \<Longrightarrow> request_ok req \<Longrightarrow> request_caller req = None \<or> request_caller req = who \<Longrightarrow>
   (\<And>x. g (out x) = f x) \<Longrightarrow> runs_for ttl who (map_prog f p)"
  unfolding runs_for_def by (rule disjI2, rule exI [of _ g], rule exI [of _ req]) (simp add: prog.map_comp o_def)

lemma handlers_run_for:
  "runs_for ttl (rq_UserID r) (hold_handler tx ut ttl r)"
  "runs_for ttl (rq_UserID r) (confirm_handler tx r)"
  "runs_for ttl (rq_UserID r) (release_handler tx r)"
  "runs_for ttl who (seat_map_handler tx r)"
  "runs_for ttl (rq_UserID r) (payment_intent_handler r)"
  "runs_for ttl (rq_UserID r) (payment_confirm_handler r)"
  "runs_for ttl who (payment_webhook_handler r)"
proof -
  have h: "runs_for ttl (Some uid) (map_prog f (booking_hold ttl uid scr seat))"
    if "seat_well_formed seat" "int64_range (s_Number seat)" for f uid scr seat
    by (rule runs_for_serve [of ttl "ReqHold uid scr seat" OutHold _ _ "\<lambda>x. case x of OutHold y \<Rightarrow> f y | _ \<Rightarrow> undefined"]) (simp_all add: that)
  show "runs_for ttl (rq_UserID r) (hold_handler tx ut ttl r)"
  proof (cases "rq_UserID r")
    case (Some uid)
    then show ?thesis
      by (auto simp: hold_handler_def new_seat_Inr intro!: h decode_json_range split: option.split sum.split)
  qed (simp add: hold_handler_def)
  have c: "runs_for ttl (Some uid) (map_prog f (booking_confirm uid sid))" for f uid sid
    by (rule runs_for_serve [of ttl "ReqConfirm uid sid" OutConfirm _ _ "\<lambda>x. case x of OutConfirm y \<Rightarrow> f y | _ \<Rightarrow> undefined"]) simp_all
  show "runs_for ttl (rq_UserID r) (confirm_handler tx r)"
    by (cases "rq_UserID r") (simp_all add: confirm_handler_def c)
  have l: "runs_for ttl (Some uid) (map_prog f (booking_release uid sid))" for f uid sid
    by (rule runs_for_serve [of ttl "ReqRelease uid sid" OutRelease _ _ "\<lambda>x. case x of OutRelease y \<Rightarrow> f y | _ \<Rightarrow> undefined"]) simp_all
  show "runs_for ttl (rq_UserID r) (release_handler tx r)"
    by (cases "rq_UserID r") (simp_all add: release_handler_def l)
  have m: "runs_for ttl who (map_prog f (booking_seat_map scr))" for f scr who
    by (rule runs_for_serve [of ttl "ReqSeatMap scr" OutSeatMap _ _ "\<lambda>x. case x of OutSeatMap y \<Rightarrow> f y | _ \<Rightarrow> undefined"]) simp_all
  show "runs_for ttl who (seat_map_handler tx r)" by (simp add: seat_map_handler_def m)
  have i: "runs_for ttl (Some uid) (map_prog f (payment_create_intent uid sid))" for f uid sid
    by (rule runs_for_serve [of ttl "ReqCreateIntent uid sid" OutIntent _ _ "\<lambda>x. case x of OutIntent y \<Rightarrow> f y | _ \<Rightarrow> undefined"]) simp_all
  show "runs_for ttl (rq_UserID r) (payment_intent_handler r)"
    by (cases "rq_UserID r") (simp_all add: payment_intent_handler_def i)
  have p: "runs_for ttl (Some uid) (map_prog f (payment_confirm_by_client uid sid))" for f uid sid
    by (rule runs_for_serve [of ttl "ReqPay uid sid" OutPay _ _ "\<lambda>x. case x of OutPay y \<Rightarrow> f y | _ \<Rightarrow> undefined"]) simp_all
  show "runs_for ttl (rq_UserID r) (payment_confirm_handler r)"
    by (cases "rq_UserID r") (simp_all add: payment_confirm_handler_def p)
  have w: "runs_for ttl who (map_prog f (payment_handle_webhook body sig))" for f body sig who
    by (rule runs_for_serve [of ttl "ReqWebhook body sig" OutWebhook _ _ "\<lambda>x. case x of OutWebhook y \<Rightarrow> f y | _ \<Rightarrow> undefined"]) simp_all
  show "runs_for ttl who (payment_webhook_handler r)"
    by (auto simp: payment_webhook_handler_def w split: option.split)
qed

section \<open>Guards\<close>

text \<open>The user the credentials of a request prove.\<close>

definition token_user :: "('a, 'c) api \<Rightarrow> api_env \<Rightarrow> http_request \<Rightarrow> string option" where
  "token_user A en r =
     (case bearer_token (rq_Header r ''Authorization'') of
        None \<Rightarrow> None
      | Some token \<Rightarrow> (case validate A en token of Inl err \<Rightarrow> None | Inr uid \<Rightarrow> Some uid))"

lemma guarded_user:
  "guarded A en h r = (case token_user A en r of None \<Rightarrow> Reads (Replied write_unauthorized) | Some uid \<Rightarrow> h (r\<lparr>rq_UserID := Some uid\<rparr>))"
  by (simp add: guarded_def auth_middleware_def token_user_def split: option.split sum.split)

lemma token_user_values [simp]: "token_user A en (r\<lparr>rq_PathValue := f\<rparr>) = token_user A en r"
  by (simp add: token_user_def)

definition protected_patterns :: "(string \<times> segment list) list" where
  "protected_patterns =
     [(''GET'', [Lit ''auth'', Lit ''me'']), (''POST'', [Lit ''holds'']), (''POST'', [Lit ''holds'', Wild ''sessionID'', Lit ''confirm'']),
      (''DELETE'', [Lit ''holds'', Wild ''sessionID'']), (''POST'', [Lit ''holds'', Wild ''sessionID'', Lit ''payment-intent'']),
      (''POST'', [Lit ''holds'', Wild ''sessionID'', Lit ''payment-intent'', Lit ''confirm''])]"

definition protected_request :: "http_request \<Rightarrow> bool" where
  "protected_request r \<longleftrightarrow>
     list_ex (\<lambda>(m, p). method_matches m (rq_Method r) \<and> match_segments p (rq_Segments r) \<noteq> None) protected_patterns"

lemma protected_rejected:
  assumes "protected_request r" "token_user A en r = None"
  shows "dispatch A c en r = Reads (Replied write_unauthorized)"
  using assms(1) unfolding protected_request_def protected_patterns_def
  by (auto simp: match_shape simp del: not_None_eq)
    (auto simp: dispatch_def serve_mux_def api_routes_def Let_def guarded_user assms(2) method_matches_def)

lemma dispatch_runs_for:
  assumes "dispatch A c en r = UseCase p"
  shows "runs_for (ap_holdTTL A) (token_user A en r) p"
proof -
  obtain m q h where f: "(m, q, h) \<in> set (api_routes A c en)"
    and d: "dispatch A c en r = h (r\<lparr>rq_PathValue := path_values (the (match_segments q (rq_Segments r)))\<rparr>)"
    using assms by (auto simp: dispatch_def serve_mux_def split: option.splits dest!: find_member)
  have u: "rq_UserID (r'\<lparr>rq_UserID := Some uid\<rparr>) = Some uid" for r' :: http_request and uid by simp
  show ?thesis
    using f d assms handlers_run_for(1-3,5,6) [where r = "_\<lparr>rq_UserID := Some _\<rparr>", unfolded u] handlers_run_for(4,7)
    by (auto simp: api_routes_def Let_def guarded_user split: option.splits)
qed

section \<open>Requests through the whole chain\<close>

lemma after_request_id [simp]:
  "token_user A en (r\<lparr>rq_RequestID := i\<rparr>) = token_user A en r"
  "protected_request (r\<lparr>rq_RequestID := i\<rparr>) = protected_request r"
  by (simp_all add: token_user_def protected_request_def)

lemma handle_reply:
  assumes "run_call P (dispatch A c en (r\<lparr>rq_RequestID := request_id (ae_random en) r\<rparr>)) s = (Replied resp, s')"
  shows "handle A P c en s r = (write_headers [(''X-Request-ID'', request_id (ae_random en) r)] resp, s')"
  using assms by (simp add: handle_def recovery_def request_id_middleware_def Let_def)

text \<open>The four requests that name a hold by its session.\<close>

definition hold_request :: "string \<Rightarrow> http_request \<Rightarrow> bool" where
  "hold_request sid r \<longleftrightarrow> sid \<noteq> [] \<and>
     (rq_Method r, rq_Segments r) \<in>
       {(''DELETE'', [''holds'', sid]), (''POST'', [''holds'', sid, ''confirm'']), (''POST'', [''holds'', sid, ''payment-intent'']),
        (''POST'', [''holds'', sid, ''payment-intent'', ''confirm''])}"

text \<open>What the chosen handler sees.\<close>

lemma hold_dispatch:
  assumes "hold_request sid r" "token_user A en r = Some uid"
  obtains q where "rq_UserID q = Some uid" "rq_PathValue q ''sessionID'' = sid"
    "dispatch A c en r \<in> {UseCase (release_handler (ap_texts A) q), UseCase (confirm_handler (ap_texts A) q),
       UseCase (payment_intent_handler q), UseCase (payment_confirm_handler q)}"
proof -
  let ?q = "\<lambda>vs. r\<lparr>rq_PathValue := path_values vs\<rparr>\<lparr>rq_UserID := Some uid\<rparr>"
  have sid: "sid \<noteq> []" and c: "rq_Method r = ''DELETE'' \<and> rq_Segments r = [''holds'', sid] \<or>
      rq_Method r = ''POST'' \<and> rq_Segments r = [''holds'', sid, ''confirm''] \<or>
      rq_Method r = ''POST'' \<and> rq_Segments r = [''holds'', sid, ''payment-intent''] \<or>
      rq_Method r = ''POST'' \<and> rq_Segments r = [''holds'', sid, ''payment-intent'', ''confirm'']"
    using assms(1) by (auto simp: hold_request_def)
  note simps = dispatch_def serve_mux_def api_routes_def Let_def guarded_user method_matches_def assms(2) sid
  from c have "dispatch A c en r \<in> {UseCase (release_handler (ap_texts A) (?q [(''sessionID'', sid)])),
      UseCase (confirm_handler (ap_texts A) (?q [(''sessionID'', sid)])),
      UseCase (payment_intent_handler (?q [(''sessionID'', sid)])), UseCase (payment_confirm_handler (?q [(''sessionID'', sid)]))}"
  proof (elim disjE conjE)
    assume "rq_Method r = ''DELETE''" "rq_Segments r = [''holds'', sid]"
    then have "dispatch A c en r = UseCase (release_handler (ap_texts A) (?q [(''sessionID'', sid)]))" by (simp add: simps)
    then show ?thesis by simp
  next
    assume "rq_Method r = ''POST''" "rq_Segments r = [''holds'', sid, ''confirm'']"
    then have "dispatch A c en r = UseCase (confirm_handler (ap_texts A) (?q [(''sessionID'', sid)]))" by (simp add: simps)
    then show ?thesis by simp
  next
    assume "rq_Method r = ''POST''" "rq_Segments r = [''holds'', sid, ''payment-intent'']"
    then have "dispatch A c en r = UseCase (payment_intent_handler (?q [(''sessionID'', sid)]))" by (simp add: simps)
    then show ?thesis by simp
  next
    assume "rq_Method r = ''POST''" "rq_Segments r = [''holds'', sid, ''payment-intent'', ''confirm'']"
    then have "dispatch A c en r = UseCase (payment_confirm_handler (?q [(''sessionID'', sid)]))" by (simp add: simps)
    then show ?thesis by simp
  qed
  then show thesis by (rule that [rotated 2]) (simp_all add: path_values_def)
qed

end
