(* ===== verification/ApiServer.thy ===== *)
theory ApiServer
  imports ApiRequests
begin

text \<open>
  The whole API under load: HTTP requests arrive at any moment, take their route, and run call by call over the
  shared stores, in any interleaving, with calls that fail before or after their effect and clocks that advance.
  The use cases of the accounts are single steps here; their statements interleave in \<open>AuthStore\<close>.
\<close>

section \<open>Runs of the API\<close>

text \<open>
  A configuration keeps the requests that have arrived, latest first, with what each of them read from its
  surroundings (a record for the statements, no code reads it).
\<close>

type_synonym arrival = "api_env \<times> http_request"

type_synonym ('a, 'h, 'b, 'p) api_config = "'a \<times> arrival list \<times> ('h, 'b, 'p) world \<times> hold set \<times> reply prog list"

text \<open>\<open>RequestID\<close> has run before the request takes its route.\<close>

definition admit :: "('a, 'c) api \<Rightarrow> 'c \<Rightarrow> api_env \<Rightarrow> http_request \<Rightarrow> 'a call" where
  "admit A c en r = dispatch A c en (r\<lparr>rq_RequestID := request_id (ae_random en) r\<rparr>)"

inductive api_step ::
    "('a, 'c) api \<Rightarrow> 'c \<Rightarrow> ('h, 'b, 'p) world ports \<Rightarrow> ('a, 'h, 'b, 'p) api_config \<Rightarrow> ('a, 'h, 'b, 'p) api_config \<Rightarrow> bool"
  for A :: "('a, 'c) api" and c :: 'c and P :: "('h, 'b, 'p) world ports" where
  reads: "ae_now en = w_now w \<Longrightarrow> admit A c en r = Reads x \<Longrightarrow>
    api_step A c P (a, L, w, H, ts) (a, (en, r) # L, w, H, ts @ [Ret x])"
| accounts: "ae_now en = w_now w \<Longrightarrow> admit A c en r = Accounts f \<Longrightarrow> f a = (x, a') \<Longrightarrow>
    api_step A c P (a, L, w, H, ts) (a', (en, r) # L, w, H, ts @ [Ret x])"
| use_case: "ae_now en = w_now w \<Longrightarrow> admit A c en r = UseCase p \<Longrightarrow>
    api_step A c P (a, L, w, H, ts) (a, (en, r) # L, w, H, ts @ [p])"
| call: "i < length ts \<Longrightarrow> step P (ts ! i) w = (p, w') \<Longrightarrow>
    api_step A c P (a, L, w, H, ts) (a, L, w', H \<union> readable P w', ts[i := p])"
| refuse: "i < length ts \<Longrightarrow>
    api_step A c P (a, L, w, H, ts) (a, L, w, H, ts[i := fault (Infra m) (ts ! i)])"
| lose_reply: "i < length ts \<Longrightarrow> step P (ts ! i) w = (p, w') \<Longrightarrow>
    api_step A c P (a, L, w, H, ts) (a, L, w', H \<union> readable P w', ts[i := fault (Infra m) (ts ! i)])"
| tick: "0 \<le> d \<Longrightarrow>
    api_step A c P (a, L, w, H, ts) (a, L, w\<lparr>w_now := w_now w + d\<rparr>, H, ts)"

definition api_run ::
    "('a, 'c) api \<Rightarrow> 'c \<Rightarrow> ('h, 'b, 'p) world ports \<Rightarrow> ('a, 'h, 'b, 'p) api_config \<Rightarrow> ('a, 'h, 'b, 'p) api_config \<Rightarrow> bool" where
  "api_run A c P = (api_step A c P)\<^sup>*\<^sup>*"

text \<open>Scheduled alone, a request that has arrived runs to its reply.\<close>

lemma api_alone:
  "\<exists>H'. api_run A c P (a, L, w, H, ts @ [p]) (a, L, snd (run P p w), H', ts @ [Ret (fst (run P p w))])"
proof -
  let ?R = "\<lambda>x y. api_step A c P (a, L, x) (a, L, y)"
  have "?R (w, H, ts @ [p]) (w', H \<union> readable P w', ts @ [p'])" if "step P p w = (p', w')" for w H p p' w'
    using api_step.call [of "length ts" "ts @ [p]" P w p' w' A c a L H] that by simp
  then obtain H' where "?R\<^sup>*\<^sup>* (w, H, ts @ [p]) (snd (run P p w), H', ts @ [Ret (fst (run P p w))])"
    using alone_steps [where R = ?R] by blast
  moreover have "?R\<^sup>*\<^sup>* x y \<Longrightarrow> api_run A c P (a, L, x) (a, L, y)" for x y
    unfolding api_run_def by (induction rule: rtranclp_induct) (auto intro: rtranclp.rtrancl_into_rtrancl)
  ultimately show ?thesis by blast
qed

section \<open>What a request may ask the stores for\<close>

text \<open>Every hold the tree asks for satisfies \<open>K\<close>, and every booking \<open>C\<close>; a hold it reads is of the session named.\<close>

primrec asks_only :: "(hold \<Rightarrow> bool) \<Rightarrow> (booking \<Rightarrow> bool) \<Rightarrow> 'a prog \<Rightarrow> bool" where
  "asks_only K C (Ret x) = True"
| "asks_only K C (Now k) = (\<forall>r. asks_only K C (k r))"
| "asks_only K C (NewID k) = (\<forall>r. asks_only K C (k r))"
| "asks_only K C (HoldsHold h k) = (K h \<and> (\<forall>r. asks_only K C (k r)))"
| "asks_only K C (HoldsGet sid k) = (\<forall>r. (\<forall>h. r = Inr h \<longrightarrow> h_SessionID h = sid) \<longrightarrow> asks_only K C (k r))"
| "asks_only K C (BookingsConfirm b k) = (C b \<and> (\<forall>r. asks_only K C (k r)))"
| "asks_only K C (HoldsRelease a b k) = (\<forall>r. asks_only K C (k r))"
| "asks_only K C (HoldsHeldSeats a k) = (\<forall>r. asks_only K C (k r))"
| "asks_only K C (BookingsGetBySession a k) = (\<forall>r. asks_only K C (k r))"
| "asks_only K C (BookingsSeatConfirmed a b k) = (\<forall>r. asks_only K C (k r))"
| "asks_only K C (BookingsConfirmedSeats a k) = (\<forall>r. asks_only K C (k r))"
| "asks_only K C (ScreeningsGet a k) = (\<forall>r. asks_only K C (k r))"
| "asks_only K C (PaymentsHasCaptured a k) = (\<forall>r. asks_only K C (k r))"
| "asks_only K C (PaymentsInsertIntent a k) = (\<forall>r. asks_only K C (k r))"
| "asks_only K C (PaymentsGetActive a k) = (\<forall>r. asks_only K C (k r))"
| "asks_only K C (PaymentsGetByIntent a k) = (\<forall>r. asks_only K C (k r))"
| "asks_only K C (PaymentsCapture a k) = (\<forall>r. asks_only K C (k r))"
| "asks_only K C (PaymentsMarkFailed a k) = (\<forall>r. asks_only K C (k r))"
| "asks_only K C (GatewayProvider k) = (\<forall>r. asks_only K C (k r))"
| "asks_only K C (GatewayCreateIntent a k) = (\<forall>r. asks_only K C (k r))"
| "asks_only K C (GatewayCaptureIntent a b k) = (\<forall>r. asks_only K C (k r))"
| "asks_only K C (GatewayVerifyWebhook a b k) = (\<forall>r. asks_only K C (k r))"

lemma asks_map: "asks_only K C p \<Longrightarrow> asks_only K C (map_prog f p)"
  by (induction p) simp_all

lemma asks_mono:
  "asks_only K C p \<Longrightarrow> (\<And>h. K h \<Longrightarrow> K' h) \<Longrightarrow> (\<And>b. C b \<Longrightarrow> C' b) \<Longrightarrow> asks_only K' C' p"
  by (induction p) simp_all

lemma asks_fault: "asks_only K C p \<Longrightarrow> asks_only K C (fault e p)"
  by (cases p) auto

text \<open>The services ask in the name of the caller, for the seat and the session the caller named.\<close>

lemma hold_asks: "asks_only (\<lambda>h. h_UserID h = uid \<and> h_ScreeningID h = scr \<and> h_Seat h = seat) C (booking_hold ttl uid scr seat)"
  by (simp add: booking_hold_def Let_def split: sum.split)

lemma confirm_asks: "asks_only K (\<lambda>b. b_UserID b = uid \<and> b_SessionID b = sid) (booking_confirm uid sid)"
  by (simp add: booking_confirm_def recover_conflict_def cleanup_hold_def split: sum.split)

lemma others_ask_nothing:
  "asks_only K C (booking_release uid sid)" "asks_only K C (booking_seat_map sid)"
  "asks_only K C (payment_create_intent uid sid)" "asks_only K C (payment_confirm_by_client uid sid)"
  "asks_only K C (payment_handle_webhook body sig)"
  by (simp_all add: booking_release_def booking_seat_map_def payment_create_intent_def payment_confirm_by_client_def
      payment_handle_webhook_def apply_captured_def hold_gate_def split: sum.split prod.split)

section \<open>What a route may ask for\<close>

text \<open>A hold that \<open>POST /holds\<close> asks for: the caller's own, for the seat in the body.\<close>

definition hold_asked :: "('a, 'c) api \<Rightarrow> api_env \<Rightarrow> http_request \<Rightarrow> hold \<Rightarrow> bool" where
  "hold_asked A en r h \<longleftrightarrow> rq_Method r = ''POST'' \<and> rq_Segments r = [''holds''] \<and> token_user A en r = Some (h_UserID h) \<and>
     (\<exists>req. decode_json hold_fields r = Some req \<and> h_ScreeningID h = get_string req ''screening_id'' \<and>
        new_seat (ap_unicode A) (get_string req ''row'') (get_int req ''number'') = Inr (h_Seat h))"

definition confirm_asked :: "('a, 'c) api \<Rightarrow> api_env \<Rightarrow> http_request \<Rightarrow> booking \<Rightarrow> bool" where
  "confirm_asked A en r b \<longleftrightarrow> rq_Method r = ''POST'' \<and> rq_Segments r = [''holds'', b_SessionID b, ''confirm''] \<and>
     token_user A en r = Some (b_UserID b)"

lemma asked_same_request [simp]:
  "hold_asked A en (r\<lparr>rq_RequestID := i\<rparr>) = hold_asked A en r"
  "confirm_asked A en (r\<lparr>rq_RequestID := i\<rparr>) = confirm_asked A en r"
  by (simp_all add: hold_asked_def confirm_asked_def decode_json_def fun_eq_iff)

lemma decode_same_body: "rq_Body q = rq_Body r \<Longrightarrow> decode_json flds q = decode_json flds r"
  by (simp add: decode_json_def)

lemma hold_handler_asks:
  assumes "rq_UserID q = Some uid" "rq_Body q = rq_Body r" "rq_Method r = ''POST''" "rq_Segments r = [''holds'']"
    "token_user A en r = Some uid"
  shows "asks_only (hold_asked A en r) C (hold_handler tx (ap_unicode A) ttl q)"
proof (cases "decode_json hold_fields r")
  case None
  with assms(1) decode_same_body [OF assms(2)] show ?thesis by (simp add: hold_handler_def answer_def)
next
  case (Some req)
  have "asks_only (hold_asked A en r) C (map_prog f (booking_hold ttl uid (get_string req ''screening_id'') seat))"
    if "new_seat (ap_unicode A) (get_string req ''row'') (get_int req ''number'') = Inr seat" for seat f
    by (rule asks_map, rule asks_mono [OF hold_asks]) (use assms(3-5) Some that in \<open>auto simp: hold_asked_def\<close>)
  with assms(1) Some decode_same_body [OF assms(2)] show ?thesis
    by (auto simp: hold_handler_def answer_def split: sum.split)
qed

lemma confirm_handler_asks:
  assumes "rq_UserID q = Some uid" "rq_Method r = ''POST''" "rq_Segments r = [''holds'', rq_PathValue q ''sessionID'', ''confirm'']"
    "token_user A en r = Some uid"
  shows "asks_only K (confirm_asked A en r) (confirm_handler tx q)"
proof -
  have "asks_only K (confirm_asked A en r) (map_prog f (booking_confirm uid (rq_PathValue q ''sessionID'')))" for f
    by (rule asks_map, rule asks_mono [OF confirm_asks]) (use assms(2-4) in \<open>auto simp: confirm_asked_def\<close>)
  with assms(1) show ?thesis by (simp add: confirm_handler_def)
qed

lemma other_handlers_ask_nothing:
  "asks_only K C (release_handler tx q)" "asks_only K C (seat_map_handler tx q)" "asks_only K C (payment_intent_handler q)"
  "asks_only K C (payment_confirm_handler q)" "asks_only K C (payment_webhook_handler q)"
  by (auto simp: release_handler_def seat_map_handler_def payment_intent_handler_def payment_confirm_handler_def
      payment_webhook_handler_def answer_def intro!: asks_map others_ask_nothing split: option.split)

lemma confirm_segments:
  "match_segments [Lit ''holds'', Wild n, Lit ''confirm''] ss = Some vs \<Longrightarrow> ss = [''holds'', path_values vs n, ''confirm'']"
proof -
  assume m: "match_segments [Lit ''holds'', Wild n, Lit ''confirm''] ss = Some vs"
  then have "match_segments [Lit ''holds'', Wild n, Lit ''confirm''] ss \<noteq> None" by simp
  then obtain s where "ss = [''holds'', s, ''confirm'']" unfolding match_shape by blast
  with m show ?thesis by (auto simp: path_values_def split: if_splits)
qed

lemma hold_segments: "match_segments [Lit ''holds''] ss = Some vs \<Longrightarrow> ss = [''holds'']"
  by (cases ss; cases "tl ss") (auto split: if_splits)

lemma find_SomeD: "find Q xs = Some x \<Longrightarrow> x \<in> set xs \<and> Q x"
  by (auto simp: find_Some_iff)

lemma dispatch_asks:
  assumes "dispatch A c en r = UseCase p"
  shows "asks_only (hold_asked A en r) (confirm_asked A en r) p"
proof -
  obtain m q h vs where f: "(m, q, h) \<in> set (api_routes A c en)" "method_matches m (rq_Method r)" "match_segments q (rq_Segments r) = Some vs"
    and d: "dispatch A c en r = h (r\<lparr>rq_PathValue := path_values vs\<rparr>)"
    using assms by (auto simp: dispatch_def serve_mux_def split: option.splits dest!: find_SomeD)
  let ?q = "\<lambda>uid. r\<lparr>rq_PathValue := path_values vs\<rparr>\<lparr>rq_UserID := Some uid\<rparr>"
  have h: "asks_only (hold_asked A en r) C (hold_handler tx (ap_unicode A) ttl (?q uid))"
    if "m = ''POST''" "q = [Lit ''holds'']" "token_user A en r = Some uid" for C tx ttl uid
    by (rule hold_handler_asks [where uid = uid]) (use that f(2) hold_segments [of "rq_Segments r" vs] f(3) in \<open>auto simp: method_matches_def\<close>)
  have cf: "asks_only K (confirm_asked A en r) (confirm_handler tx (?q uid))"
    if "m = ''POST''" "q = [Lit ''holds'', Wild ''sessionID'', Lit ''confirm'']" "token_user A en r = Some uid" for K tx uid
    by (rule confirm_handler_asks [where uid = uid]) (use that f(2) confirm_segments [of "''sessionID''" "rq_Segments r" vs] f(3) in \<open>auto simp: method_matches_def\<close>)
  show ?thesis
    using f(1) d assms h cf other_handlers_ask_nothing
    by (auto simp: api_routes_def Let_def guarded_user split: option.splits)
qed

section \<open>Every interleaving of HTTP requests\<close>

definition asked_in :: "(api_env \<Rightarrow> http_request \<Rightarrow> 'x \<Rightarrow> bool) \<Rightarrow> arrival list \<Rightarrow> 'x \<Rightarrow> bool" where
  "asked_in Q L x \<longleftrightarrow> (\<exists>(en, r) \<in> set L. Q en r x)"

lemma asked_later [intro]: "asked_in Q L x \<Longrightarrow> asked_in Q (y # L) x"
  by (auto simp: asked_in_def)

lemma asks_later: "asks_only (asked_in Q L) (asked_in Q' L) p \<Longrightarrow> asks_only (asked_in Q (y # L)) (asked_in Q' (y # L)) p"
  by (erule asks_mono) auto

lemma hold_asked_same:
  "same_seat h' h \<Longrightarrow> h_UserID h' = h_UserID h \<Longrightarrow> hold_asked A en r h' = hold_asked A en r h"
  by (simp add: hold_asked_def same_seat_def)

context server
begin

text \<open>Every booking was confirmed by a request of its buyer that names its session.\<close>

definition bought :: "(booking \<Rightarrow> bool) \<Rightarrow> ('h, 'b, 'p) world \<Rightarrow> bool" where
  "bought C w \<longleftrightarrow> (\<forall>b \<in> brows (w_bookings w). \<exists>b0. C b0 \<and> b_SessionID b = b_SessionID b0 \<and> b_UserID b = b_UserID (bspell b0))"

text \<open>One call of a request that asks only for what it may.\<close>

lemma call_hold_asked:
  assumes w: "world_inv w" and F: "covers w H F" "safe p F" and c: "step P p w = (p', w')"
    and K: "\<forall>h \<in> live_holds w. K h" "\<And>h. K (hstored h) = K h" and a: "asks_only K C p"
  shows "\<forall>h \<in> live_holds w'. K h"
proof -
  have keep: "K x" if "hlive (w_now w) (w_holds w) sid = Some x" for x sid
    using K(1) that by (auto simp: live_holds_def)
  show ?thesis
  proof (cases p)
    case (HoldsHold h k)
    obtain r s where rs: "st_hold S (w_now w) h (w_holds w) = (r, s)" by force
    have f: "fresh_hold (hused (w_holds w)) h" using F HoldsHold by (auto simp: fresh_hold_def hold_ids_def covers_def)
    have "K x" if "hlive (w_now w) s sid = Some x" for sid x
      using hs.hold_live_origin [OF _ f rs that] w K(2) keep a HoldsHold by (auto simp: world_inv_def)
    then show ?thesis using c rs HoldsHold by (auto simp: world_ports_fields live_holds_def)
  next
    case (HoldsRelease sid uid k)
    obtain r s where rs: "st_release S (w_now w) sid uid (w_holds w) = (r, s)" by force
    have "K x" if "hlive (w_now w) s i = Some x" for i x
      using hs.release_live_origin [OF _ rs that] w keep by (auto simp: world_inv_def)
    then show ?thesis using c rs HoldsRelease by (auto simp: world_ports_fields live_holds_def)
  qed (use c in \<open>auto simp: world_ports_fields live_holds_def intro: keep split: prod.splits\<close>)
qed

lemma call_bought:
  assumes w: "world_inv w" and F: "safe p F" and c: "step P p w = (p', w')"
    and C: "bought C w" and a: "asks_only K C p"
  shows "bought C w'"
proof (cases p)
  case (BookingsConfirm b k)
  obtain r s where rs: "st_confirm S (w_uuid w (w_next w)) (w_now w) b (w_bookings w) = (r, s)" by force
  have i: "binv (w_bookings w)" and b: "keyable (b_Seat b)" "C b" using w F a BookingsConfirm by (simp_all add: world_inv_def)
  have "\<exists>b0. C b0 \<and> b_SessionID x = b_SessionID b0 \<and> b_UserID x = b_UserID (bspell b0)" if "x \<in> brows s" for x
    using that C b bs.confirm_err [OF i, of _ _ b _ s] bs.confirm_row [OF i b(1), of _ _ _ s] rs
    by (cases r) (fastforce simp: bought_def)+
  then show ?thesis using c rs BookingsConfirm by (auto simp: world_ports_fields bought_def)
qed (use c C in \<open>auto simp: world_ports_fields bought_def split: prod.splits\<close>)

lemma call_asks:
  assumes "world_inv w" "step P p w = (p', w')" "asks_only K C p"
  shows "asks_only K C p'"
proof (cases p)
  case (HoldsGet sid k)
  then show ?thesis
    using assms get_live_hold [OF assms(1)] hs.live_session by (auto simp: world_ports_fields world_inv_def)
qed (use assms in \<open>auto simp: world_ports_fields split: prod.splits\<close>)

definition api_inv ::
    "(api_env \<Rightarrow> http_request \<Rightarrow> hold \<Rightarrow> bool) \<Rightarrow> (api_env \<Rightarrow> http_request \<Rightarrow> booking \<Rightarrow> bool) \<Rightarrow>
     ('a, 'h, 'b, 'p) api_config \<Rightarrow> bool" where
  "api_inv Q Q' x = (case x of (a, L, w, H, ts) \<Rightarrow>
     config_inv (w, H, ts) \<and> (\<forall>p \<in> set ts. asks_only (asked_in Q L) (asked_in Q' L) p) \<and>
     (\<forall>h \<in> H. asked_in Q L h) \<and> bought (asked_in Q' L) w)"

lemma bought_later: "bought (asked_in Q L) w \<Longrightarrow> bought (asked_in Q (y # L)) w"
  by (fastforce simp: bought_def)

lemma api_arrive:
  assumes "api_inv Q Q' (a, L, w, H, ts)" "\<And>F. safe p F" "asks_only (Q en r) (Q' en r) p"
  shows "api_inv Q Q' (a', (en, r) # L, w, H, ts @ [p])"
proof -
  have "asks_only (asked_in Q ((en, r) # L)) (asked_in Q' ((en, r) # L)) p"
    by (rule asks_mono [OF assms(3)]) (auto simp: asked_in_def)
  moreover have "threads_inv w H (ts @ [p])"
    using assms(1,2) by (intro threads_add) (auto simp: api_inv_def config_inv_def)
  ultimately show ?thesis
    using assms(1) by (auto simp: api_inv_def config_inv_def intro: asks_later bought_later)
qed

lemma api_call:
  assumes c: "api_inv Q Q' (a, L, w, H, ts)" and i: "i < length ts" and st: "step P (ts ! i) w = (p, w')"
    and same: "\<And>en r h. Q en r (hstored h) = Q en r h" and p': "p' = p \<or> p' = fault e (ts ! i)"
  shows "api_inv Q Q' (a, L, w', H \<union> readable P w', ts[i := p'])"
proof -
  let ?K = "asked_in Q L" and ?C = "asked_in Q' L"
  have cfg: "config_inv (w, H, ts)" and a: "asks_only ?K ?C (ts ! i)" and H: "\<forall>h \<in> H. ?K h" and b: "bought ?C w"
    using c i by (auto simp: api_inv_def)
  have w: "world_inv w" and L: "live_holds w \<subseteq> H" using cfg by (simp_all add: config_inv_def)
  obtain F where F: "covers w H F" "safe (ts ! i) F" using cfg i unfolding config_inv_def threads_inv_def by auto
  have cfg': "config_inv (w', H \<union> readable P w', ts[i := p'])" by (rule config_call [OF cfg i st p'])
  then have "readable P w' = live_holds w'" using readable_live by (simp add: config_inv_def)
  moreover have "\<forall>h \<in> live_holds w'. ?K h"
    by (rule call_hold_asked [OF w F st _ _ a]) (use H L same in \<open>auto simp: asked_in_def\<close>)
  moreover have "asks_only ?K ?C p'" using p' asks_fault [OF a] call_asks [OF w st a] by auto
  moreover have "bought ?C w'" by (rule call_bought [OF w F(2) st b a])
  ultimately show ?thesis
    using c cfg' H set_update_subset_insert [of ts i p'] unfolding api_inv_def by auto
qed

lemma api_step_inv:
  assumes "api_step A c P x x'" "api_inv (hold_asked A) (confirm_asked A) x"
  shows "api_inv (hold_asked A) (confirm_asked A) x'"
proof -
  have same: "hold_asked A en r (hstored h) = hold_asked A en r h" for en r h
    using hold_asked_same hs.stored_seat by blast
  show ?thesis
    using assms
  proof (induction rule: api_step.induct)
    case (use_case en w r p a L H ts)
    have d: "dispatch A c en (r\<lparr>rq_RequestID := request_id (ae_random en) r\<rparr>) = UseCase p"
      using use_case by (simp add: admit_def)
    have "safe p F" for F using dispatch_runs_for [OF d] by (auto simp: runs_for_def intro: safe_map safe_serve)
    moreover have "asks_only (hold_asked A en r) (confirm_asked A en r) p" using dispatch_asks [OF d] by simp
    ultimately show ?case by (rule api_arrive [OF use_case.prems])
  next
    case (reads en w r x a L H ts)
    then show ?case by (intro api_arrive) simp_all
  next
    case (accounts en w r f a x a' L H ts)
    then show ?case by (intro api_arrive) simp_all
  next
    case (call i ts w p w' a L H)
    then show ?case by (intro api_call same) auto
  next
    case (lose_reply i ts w p w' a L H m)
    then show ?case by (intro api_call same) auto
  next
    case (refuse i ts a L w H m)
    then show ?case
      using config_refuse [of w H ts i] asks_fault [of _ _ "ts ! i"] set_update_subset_insert [of ts i]
      by (fastforce simp: api_inv_def)
  next
    case (tick d a L w H ts)
    then show ?case using config_tick [of w H ts d] by (auto simp: api_inv_def bought_def)
  qed
qed

lemma api_run_inv:
  assumes "api_run A c P x x'" "api_inv (hold_asked A) (confirm_asked A) x"
  shows "api_inv (hold_asked A) (confirm_asked A) x'"
  using assms unfolding api_run_def by (induction rule: rtranclp_induct) (auto intro: api_step_inv)

lemma api_start: "world_inv w \<Longrightarrow> live_holds w = {} \<Longrightarrow> brows (w_bookings w) = {} \<Longrightarrow> api_inv Q Q' (a, [], w, {}, [])"
  using config_start [of w] by (simp add: api_inv_def bought_def)

text \<open>What every reachable configuration satisfies.\<close>

lemma api_sales:
  assumes "api_run A c P (a, [], w, {}, []) (a', L, w', H, ts)" "world_inv w" "live_holds w = {}" "brows (w_bookings w) = {}"
    and "b \<in> brows (w_bookings w')"
  shows "arbiter (brows (w_bookings w'))" "paid (prows (w_payments w')) (b_SessionID b)"
    "\<exists>h. asked_in (hold_asked A) L h \<and> sale_of h b"
    "\<exists>b0. asked_in (confirm_asked A) L b0 \<and> b_SessionID b = b_SessionID b0 \<and> b_UserID b = b_UserID (bspell b0)"
proof -
  have i: "api_inv (hold_asked A) (confirm_asked A) (a', L, w', H, ts)"
    by (rule api_run_inv [OF assms(1) api_start [OF assms(2-4)]])
  then obtain h where "h \<in> H" "sale_of h b" using assms(5) by (auto simp: api_inv_def config_inv_def backed_def)
  with i show "\<exists>h. asked_in (hold_asked A) L h \<and> sale_of h b" by (auto simp: api_inv_def)
  from i show "arbiter (brows (w_bookings w'))" "paid (prows (w_payments w')) (b_SessionID b)"
    "\<exists>b0. asked_in (confirm_asked A) L b0 \<and> b_SessionID b = b_SessionID b0 \<and> b_UserID b = b_UserID (bspell b0)"
    using assms(5) bs.rows_arbiter
    by (auto simp: api_inv_def config_inv_def world_inv_def backed_def paid_sessions_def bought_def)
qed

end

section \<open>Over Redis and PostgreSQL\<close>

context production
begin

lemma api_sold:
  assumes "entries s0 = Map.empty" "inj uuid"
    and "api_run A c (world_ports (production_stores R st ut E ev)) (a, [], production_start s0 scrs users now uuid scr gw, {}, []) (a', L, w, H, ts)"
    and "b \<in> pg_rows (w_bookings w)"
  shows "arbiter (pg_rows (w_bookings w))" "paid (pg_payment_rows (w_payments w)) (b_SessionID b)"
    "\<exists>en r uid req seat. (en, r) \<in> set L \<and> rq_Method r = ''POST'' \<and> rq_Segments r = [''holds''] \<and> token_user A en r = Some uid \<and>
       decode_json hold_fields r = Some req \<and> new_seat (ap_unicode A) (get_string req ''row'') (get_int req ''number'') = Inr seat \<and>
       b_UserID b = pg_spell E uid \<and> b_ScreeningID b = pg_spell E (get_string req ''screening_id'') \<and>
       s_Row (b_Seat b) = s_Row seat \<and> s_Number (b_Seat b) = int32 (s_Number seat)"
    "\<exists>en r uid. (en, r) \<in> set L \<and> rq_Method r = ''POST'' \<and> rq_Segments r = [''holds'', b_SessionID b, ''confirm''] \<and>
       token_user A en r = Some uid \<and> b_UserID b = pg_spell E uid"
proof -
  note start = start_inv [OF assms(1,2), of scrs users now scr gw]
  note sold = prod.api_sales [OF assms(3) start assms(4)]
  show "arbiter (pg_rows (w_bookings w))" "paid (pg_payment_rows (w_payments w)) (b_SessionID b)" by (rule sold)+
  obtain h where "asked_in (hold_asked A) L h" "prod.sale_of h b" using sold(3) by blast
  then show "\<exists>en r uid req seat. (en, r) \<in> set L \<and> rq_Method r = ''POST'' \<and> rq_Segments r = [''holds''] \<and> token_user A en r = Some uid \<and>
       decode_json hold_fields r = Some req \<and> new_seat (ap_unicode A) (get_string req ''row'') (get_int req ''number'') = Inr seat \<and>
       b_UserID b = pg_spell E uid \<and> b_ScreeningID b = pg_spell E (get_string req ''screening_id'') \<and>
       s_Row (b_Seat b) = s_Row seat \<and> s_Number (b_Seat b) = int32 (s_Number seat)"
    using sale_spelled [of h b] unfolding asked_in_def hold_asked_def by fastforce
  obtain b0 where "asked_in (confirm_asked A) L b0" "b_SessionID b = b_SessionID b0" "b_UserID b = b_UserID (pg_spelled E b0)"
    using sold(4) by blast
  then show "\<exists>en r uid. (en, r) \<in> set L \<and> rq_Method r = ''POST'' \<and> rq_Segments r = [''holds'', b_SessionID b, ''confirm''] \<and>
       token_user A en r = Some uid \<and> b_UserID b = pg_spell E uid"
    unfolding asked_in_def confirm_asked_def by (auto simp: pg_spelled_def)
qed

end

end
