(* ===== verification/ApiPurchase.thy ===== *)
theory ApiPurchase
  imports ApiServer HoldRefinement
begin

text \<open>
  A purchase over HTTP: a buyer with an access token holds a free seat, asks for an intent, pays and confirms.
\<close>

section \<open>Requests served one after the other\<close>

fun handle_all ::
    "('a, 'c) api \<Rightarrow> 'w ports \<Rightarrow> 'c \<Rightarrow> (api_env \<times> http_request) list \<Rightarrow> 'a \<times> 'w \<Rightarrow> http_response list \<times> 'a \<times> 'w" where
  "handle_all A P c [] s = ([], s)"
| "handle_all A P c ((en, r) # xs) s =
     (case handle A P c en s r of (resp, s') \<Rightarrow>
      case handle_all A P c xs s' of (resps, s'') \<Rightarrow> (resp # resps, s''))"

text \<open>Serving the requests one after the other is one of the interleavings.\<close>

lemma handle_state: "snd (handle A P c en (a, w) r) = snd (run_call P (admit A c en r) (a, w))"
  by (cases "run_call P (admit A c en r) (a, w)"; cases "fst (run_call P (admit A c en r) (a, w))")
    (simp_all add: handle_def recovery_def request_id_middleware_def admit_def Let_def)

lemma handle_reached:
  assumes "handle A P c en (a, w) r = (resp, a', w')" "ae_now en = w_now w"
  shows "\<exists>H' x. api_run A c P (a, L, w, H, ts) (a', (en, r) # L, w', H', ts @ [Ret x])"
proof (cases "admit A c en r")
  case (Reads x)
  then have "a' = a" "w' = w" using handle_state [of A P c en a w r] assms(1) by simp_all
  with api_step.reads [OF assms(2) Reads] show ?thesis unfolding api_run_def by blast
next
  case (UseCase p)
  then have s: "a' = a" "w' = snd (run P p w)" using handle_state [of A P c en a w r] assms(1) by (simp_all split: prod.splits)
  obtain H' where "api_run A c P (a, (en, r) # L, w, H, ts @ [p]) (a, (en, r) # L, w', H', ts @ [Ret (fst (run P p w))])"
    using api_alone [of A c P a "(en, r) # L" w H ts p] s(2) by blast
  then show ?thesis using api_step.use_case [OF assms(2) UseCase, of P a L H ts] s(1)
    unfolding api_run_def by (blast intro: converse_rtranclp_into_rtranclp)
next
  case (Accounts f)
  then obtain x where "f a = (x, a')" "w' = w" using handle_state [of A P c en a w r] assms(1) by (cases "f a") simp
  with api_step.accounts [OF assms(2) Accounts] show ?thesis unfolding api_run_def by blast
qed

lemma handle_now:
  assumes "handle A (world_ports S) c en (a, w) r = (resp, a', w')" shows "w_now w' = w_now w"
proof -
  have s: "(a', w') = snd (run_call (world_ports S) (admit A c en r) (a, w))"
    using handle_state [of A "world_ports S" c en a w r] assms by simp
  show ?thesis
  proof (cases "admit A c en r")
    case (UseCase p)
    then show ?thesis using s run_now [of S p w] by (cases "run (world_ports S) p w") simp
  next
    case (Accounts f)
    then show ?thesis using s by (cases "f a") simp
  qed (use s in simp)
qed

lemma handle_all_reached:
  assumes "handle_all A (world_ports S) c xs (a, w) = (resps, a', w')" "\<forall>(en, r) \<in> set xs. ae_now en = w_now w"
  shows "\<exists>H' ts'. api_run A c (world_ports S) (a, L, w, H, ts) (a', rev xs @ L, w', H', ts')"
  using assms
proof (induction xs arbitrary: a w L H ts resps)
  case Nil
  then show ?case by (auto simp: api_run_def)
next
  case (Cons x xs)
  obtain en r where x: "x = (en, r)" by force
  obtain resp a1 w1 where h: "handle A (world_ports S) c en (a, w) r = (resp, a1, w1)" by (metis prod_cases3)
  obtain resps' where t: "handle_all A (world_ports S) c xs (a1, w1) = (resps', a', w')"
    using Cons.prems(1) by (auto simp: x h split: prod.splits)
  have now: "ae_now en = w_now w" "\<forall>(en, r) \<in> set xs. ae_now en = w_now w1" using Cons.prems(2) handle_now [OF h] by (auto simp: x)
  obtain H1 y where "api_run A c (world_ports S) (a, L, w, H, ts) (a1, (en, r) # L, w1, H1, ts @ [Ret y])"
    using handle_reached [OF h now(1)] by blast
  moreover obtain H2 ts2 where "api_run A c (world_ports S) (a1, (en, r) # L, w1, H1, ts @ [Ret y]) (a', rev xs @ (en, r) # L, w', H2, ts2)"
    using Cons.IH [OF t now(2)] by blast
  ultimately show ?case unfolding api_run_def x by (auto intro: rtranclp_trans)
qed

section \<open>The four requests\<close>

definition posts :: "http_request \<Rightarrow> string list \<Rightarrow> bool" where
  "posts r segs \<longleftrightarrow> rq_Method r = ''POST'' \<and> rq_Segments r = segs"

lemma posts_id [simp]: "posts (r\<lparr>rq_RequestID := i\<rparr>) segs = posts r segs"
  by (simp add: posts_def)

text \<open>The handler behind a route, and the request it sees.\<close>

abbreviation seen_by :: "http_request \<Rightarrow> (string \<times> string) list \<Rightarrow> string \<Rightarrow> http_request" where
  "seen_by r vs uid \<equiv> r\<lparr>rq_PathValue := path_values vs\<rparr>\<lparr>rq_UserID := Some uid\<rparr>"

lemma post_routes:
  assumes "token_user A en r = Some uid"
  shows "posts r [''holds''] \<Longrightarrow>
      dispatch A c en r = UseCase (hold_handler (ap_texts A) (ap_unicode A) (ap_holdTTL A) (seen_by r [] uid))"
    and "sid \<noteq> [] \<Longrightarrow> posts r [''holds'', sid, ''payment-intent''] \<Longrightarrow>
      dispatch A c en r = UseCase (payment_intent_handler (seen_by r [(''sessionID'', sid)] uid))"
    and "sid \<noteq> [] \<Longrightarrow> posts r [''holds'', sid, ''payment-intent'', ''confirm''] \<Longrightarrow>
      dispatch A c en r = UseCase (payment_confirm_handler (seen_by r [(''sessionID'', sid)] uid))"
    and "sid \<noteq> [] \<Longrightarrow> posts r [''holds'', sid, ''confirm''] \<Longrightarrow>
      dispatch A c en r = UseCase (confirm_handler (ap_texts A) (seen_by r [(''sessionID'', sid)] uid))"
  by (simp_all add: dispatch_def serve_mux_def api_routes_def Let_def guarded_user method_matches_def assms posts_def)

lemma handle_use_case:
  assumes "dispatch A c en (r\<lparr>rq_RequestID := request_id (ae_random en) r\<rparr>) = UseCase p" "run P p w = (Replied resp, w')"
  shows "handle A P c en (a, w) r = (write_headers [(''X-Request-ID'', request_id (ae_random en) r)] resp, a, w')"
  by (rule handle_reply) (simp add: assms)

text \<open>What the four requests are answered when their use cases succeed.\<close>

definition answered :: "api_env \<Rightarrow> http_request \<Rightarrow> int \<Rightarrow> payload \<Rightarrow> http_response" where
  "answered en r status body = write_headers [(''X-Request-ID'', request_id (ae_random en) r)] (write_json status body)"

lemma hold_answered:
  assumes "posts r [''holds'']" "token_user A en r = Some uid" "decode_json hold_fields r = Some req"
    "trim_space (get_string req ''screening_id'') \<noteq> []" "new_seat (ap_unicode A) (get_string req ''row'') (get_int req ''number'') = Inr seat"
    "run P (booking_hold (ap_holdTTL A) uid (get_string req ''screening_id'') seat) w = (Inr h, w')"
  shows "handle A P c en (a, w) r = (answered en r 201 (hold_response h), a, w')"
proof -
  let ?r = "r\<lparr>rq_RequestID := request_id (ae_random en) r\<rparr>"
  have b: "decode_json hold_fields (seen_by ?r [] uid) = Some req" using assms(3) decode_same_body [of "seen_by ?r [] uid" r] by simp
  show ?thesis
    unfolding answered_def
    by (rule handle_use_case [OF post_routes(1) [where uid = uid]])
      (use assms b in \<open>simp_all add: hold_handler_def run_map_prog\<close>)
qed

lemma session_answered:
  assumes "token_user A en r = Some uid" "sid \<noteq> []"
  shows "posts r [''holds'', sid, ''payment-intent''] \<Longrightarrow> run P (payment_create_intent uid sid) w = (Inr x, w') \<Longrightarrow>
      handle A P c en (a, w) r = (answered en r (if in_Created x then 201 else 200) (payment_intent_dto x), a, w')"
    and "posts r [''holds'', sid, ''payment-intent'', ''confirm''] \<Longrightarrow> run P (payment_confirm_by_client uid sid) w = (Inr p, w') \<Longrightarrow>
      handle A P c en (a, w) r = (answered en r 200 (payment_dto p), a, w')"
    and "posts r [''holds'', sid, ''confirm''] \<Longrightarrow> run P (booking_confirm uid sid) w = (Inr y, w') \<Longrightarrow>
      handle A P c en (a, w) r = (answered en r (if cr_Created y then 201 else 200) (booking_dto (cr_Booking y)), a, w')"
proof -
  have v: "path_values [(''sessionID'', sid)] ''sessionID'' = sid" by (simp add: path_values_def)
  show "handle A P c en (a, w) r = (answered en r (if in_Created x then 201 else 200) (payment_intent_dto x), a, w')"
    if "posts r [''holds'', sid, ''payment-intent'']" "run P (payment_create_intent uid sid) w = (Inr x, w')"
    unfolding answered_def
    by (rule handle_use_case [OF post_routes(2) [where uid = uid and sid = sid]]) (use assms that v in \<open>simp_all add: payment_intent_handler_def run_map_prog\<close>)
  show "handle A P c en (a, w) r = (answered en r 200 (payment_dto p), a, w')"
    if "posts r [''holds'', sid, ''payment-intent'', ''confirm'']" "run P (payment_confirm_by_client uid sid) w = (Inr p, w')"
    unfolding answered_def
    by (rule handle_use_case [OF post_routes(3) [where uid = uid and sid = sid]]) (use assms that v in \<open>simp_all add: payment_confirm_handler_def run_map_prog\<close>)
  show "handle A P c en (a, w) r = (answered en r (if cr_Created y then 201 else 200) (booking_dto (cr_Booking y)), a, w')"
    if "posts r [''holds'', sid, ''confirm'']" "run P (booking_confirm uid sid) w = (Inr y, w')"
    unfolding answered_def
    by (rule handle_use_case [OF post_routes(4) [where uid = uid and sid = sid]]) (use assms that v in \<open>simp_all add: confirm_handler_def run_map_prog\<close>)
qed

text \<open>A request of a user: the path, the token and, for a hold, the body's screening and seat.\<close>

definition asks_as :: "('a, 'c) api \<Rightarrow> string \<Rightarrow> string list \<Rightarrow> api_env \<Rightarrow> http_request \<Rightarrow> bool" where
  "asks_as A uid segs en r \<longleftrightarrow> posts r segs \<and> token_user A en r = Some uid"

definition asks_hold :: "('a, 'c) api \<Rightarrow> string \<Rightarrow> string \<Rightarrow> seat \<Rightarrow> api_env \<Rightarrow> http_request \<Rightarrow> bool" where
  "asks_hold A uid scr seat en r \<longleftrightarrow> posts r [''holds''] \<and> token_user A en r = Some uid \<and> trim_space scr \<noteq> [] \<and>
     (case decode_json hold_fields r of
        None \<Rightarrow> False
      | Some req \<Rightarrow> get_string req ''screening_id'' = scr \<and>
          new_seat (ap_unicode A) (get_string req ''row'') (get_int req ''number'') = Inr seat)"

section \<open>A free seat in production\<close>

text \<open>
  The seat is in the screening's geometry, unsold and unheld; the buyer is below the hold limit; the identifiers drawn
  next are new to the database; the lifetime is at least a second, and the gateway is not told to fail.
\<close>

definition on_sale ::
    "('s \<Rightarrow> string \<Rightarrow> rentry option) \<Rightarrow> redis_store \<Rightarrow> unicode \<Rightarrow> pg_env \<Rightarrow> (string \<Rightarrow> string) \<Rightarrow> duration \<Rightarrow>
     ('s, pg_bookings, pg_payments) world \<Rightarrow> string \<Rightarrow> string \<Rightarrow> seat \<Rightarrow> screening \<Rightarrow> bool" where
  "on_sale entries st ut E ev ttl w uid scr seat sc \<longleftrightarrow>
     (let h = next_hold ttl w uid scr seat; sid = h_SessionID h in
      w_screenings w scr = Inr sc \<and> has_seat sc seat \<and> 0 < sc_PriceCents sc \<and> sc_PriceCents sc < 2 ^ 31 \<and> s_Number seat < 2 ^ 31 \<and>
      pg_uuid E scr = Some scr \<and> scr \<in> set (pb_screenings (w_bookings w)) \<and> pg_uuid E uid = Some uid \<and> uid \<in> set (pb_users (w_bookings w)) \<and>
      \<not> seat_taken (pg_rows (w_bookings w)) scr seat \<and> \<not> seat_held (rh_live ut (w_now w) (entries (w_holds w))) h \<and>
      \<not> redis_full st (w_now w) h (entries (w_holds w)) \<and> int64_range (rs_maxHolds st) \<and>
      hold_validate h (w_now w) = Inr () \<and> second \<le> ttl \<and> int64_range (to_unix (w_now w + ttl)) \<and>
      \<not> session_taken (pg_rows (w_bookings w)) sid \<and> (\<forall>p. \<not> active_row (pg_payment_rows (w_payments w)) sid p) \<and>
      pg_payment_rows (w_payments w) (fakeIntentPrefix @ w_uuid w (w_next w + 2)) = None \<and>
      pg_fresh E ev (w_bookings w) (w_uuid w (w_next w + 4)) \<and>
      fg_failCreate (w_gateway w) = None \<and> fg_failCapture (w_gateway w) = None)"

lemma next_hold_simps [simp]:
  "h_SessionID (next_hold ttl w uid scr seat) = w_uuid w (w_next w)" "h_UserID (next_hold ttl w uid scr seat) = uid"
  "h_ScreeningID (next_hold ttl w uid scr seat) = scr" "h_Seat (next_hold ttl w uid scr seat) = seat"
  "h_ExpiresAt (next_hold ttl w uid scr seat) = w_now w + ttl" "h_HoldToken (next_hold ttl w uid scr seat) = w_uuid w (Suc (w_next w))"
  by (simp_all add: next_hold_def)

lemma whole_seconds_later:
  assumes "second \<le> ttl" "int64_range (to_unix (now + ttl))"
  shows "now < unix (int64 (to_unix (now + ttl)))"
  using assms unix_to_unix_gt [of "now + ttl"] by (simp add: int64_id int64_range_def)

context production
begin

lemma sells_free_seat:
  assumes w: "production_ok entries E w" and seat: "seat_well_formed seat" "int64_range (s_Number seat)"
    and sale: "on_sale entries st ut E ev ttl w uid scr seat sc"
  obtains x q b w1 w2 w3 w4 where
    "run prod.P (booking_hold ttl uid scr seat) w = (Inr (next_hold ttl w uid scr seat), w1)"
    "run prod.P (payment_create_intent uid (w_uuid w (w_next w))) w1 = (Inr x, w2)" "in_Created x"
    "run prod.P (payment_confirm_by_client uid (w_uuid w (w_next w))) w2 = (Inr q, w3)"
    "run prod.P (booking_confirm uid (w_uuid w (w_next w))) w3 = (Inr \<lparr>cr_Booking = b, cr_Created = True\<rparr>, w4)"
    "p_AmountCents (in_Payment x) = sc_PriceCents sc" "p_AmountCents q = sc_PriceCents sc" "p_Status q = StatusCaptured"
    "booking_of (next_hold ttl w uid scr seat) b" "b_Status b = StatusConfirmed"
    "pg_rows (w_bookings w4) = insert b (pg_rows (w_bookings w))" "production_ok entries E w4"
proof -
  let ?h = "next_hold ttl w uid scr seat" and ?sid = "w_uuid w (w_next w)"
  note sale = sale [unfolded on_sale_def Let_def, simplified]
  have wi: "prod.world_inv w" using w by (simp add: world_inv_ok)
  have ok: "rh_ok (w_now w) (entries (w_holds w))" and used: "rh_used (entries (w_holds w)) \<subseteq> w_uuid w ` {..<w_next w}" "inj (w_uuid w)"
    using w by (simp_all add: production_ok_def)
  let ?b = "prod.row_of ?h"
  have bk: "pg_bookable E (w_bookings w) ?b" "b_ScreeningID ?b = scr" "b_Seat ?b = seat"
    using sale well_formed_keyable [OF seat] label_not_blank seat(1) by (auto simp: pg_bookable_def seat_well_formed_def)
  have new: "w_uuid w (w_next w) \<notin> w_uuid w ` {..<w_next w}" "w_uuid w (Suc (w_next w)) \<notin> w_uuid w ` {..<w_next w}"
    using used(2) by (auto dest: injD)
  then have f: "fresh_hold (rh_used (entries (w_holds w))) ?h" using used(1) seat by (auto simp: fresh_hold_def)
  have st: "fst (redis_hold R st (w_now w) (w_now w) ?h (w_holds w)) = Inr ()"
    using redis_hold_answer [OF ok f] sale by (simp add: spec_hold_def)
  obtain w1 where h: "run prod.P (booking_hold ttl uid scr seat) w = (Inr ?h, w1)"
    by (rule prod.hold_succeeds [OF wi bk, of sc ttl uid]) (use sale st in \<open>auto simp: production_stores_fields\<close>)
  note g = prod.hold_granted [OF wi seat bk h]
  have row: "prod.row_of (redis_stored ?h) = ?b" "booking_of (redis_stored ?h) = booking_of ?h"
    by (simp_all add: redis_stored_def fun_eq_iff booking_of_def prod.row_of_def)
  have n: "w_next w + 4 = Suc (Suc (Suc (Suc (w_next w))))" by simp
  have rd: "prod.ready_to_buy w1 uid ?sid (redis_stored ?h) sc"
    unfolding prod.ready_to_buy_def prod.gate_open_def prod.sale_free_def row
    using sale bk(1) g(4) [of ?sid] g(6,7,9-13) whole_seconds_later [of ttl "w_now w"]
    by (simp add: pg_insertable_def fg_provider_def redis_stored_def n)
  obtain r q b w2 w3 w4 where
    "run prod.P (payment_create_intent uid ?sid) w1 = (Inr \<lparr>in_Payment = r, in_HoldExpiresAt = h_ExpiresAt (redis_stored ?h), in_Created = True\<rparr>, w2)"
    "run prod.P (payment_confirm_by_client uid ?sid) w2 = (Inr q, w3)"
    "run prod.P (booking_confirm uid ?sid) w3 = (Inr \<lparr>cr_Booking = b, cr_Created = True\<rparr>, w4)"
    "p_AmountCents r = sc_PriceCents sc" "p_AmountCents q = sc_PriceCents sc" "p_Status q = StatusCaptured"
    "booking_of (redis_stored ?h) b" "b_Status b = StatusConfirmed" "pg_rows (w_bookings w4) = insert b (pg_rows (w_bookings w1))"
    "prod.world_inv w4"
    by (rule prod.purchase_runs [OF g(8) rd])
  then show thesis
    using that [OF h, of "\<lparr>in_Payment = r, in_HoldExpiresAt = h_ExpiresAt (redis_stored ?h), in_Created = True\<rparr>" w2 q w3 b w4] g(6) row(2)
    by (simp add: world_inv_ok)
qed

lemma sells_over_http:
  assumes w: "production_ok entries E w" and i: "sid = w_uuid w (w_next w)" and sale: "on_sale entries st ut E ev (ap_holdTTL A) w uid scr seat sc"
    and r1: "asks_hold A uid scr seat en1 r1" and r2: "asks_as A uid [''holds'', sid, ''payment-intent''] en2 r2"
    and r3: "asks_as A uid [''holds'', sid, ''payment-intent'', ''confirm''] en3 r3" and r4: "asks_as A uid [''holds'', sid, ''confirm''] en4 r4"
  obtains x q b w' where "handle_all A prod.P c [(en1, r1), (en2, r2), (en3, r3), (en4, r4)] (a, w) =
      ([answered en1 r1 201 (hold_response (next_hold (ap_holdTTL A) w uid scr seat)), answered en2 r2 201 (payment_intent_dto x),
        answered en3 r3 200 (payment_dto q), answered en4 r4 201 (booking_dto b)], a, w')"
    "p_AmountCents q = sc_PriceCents sc" "p_Status q = StatusCaptured" "booking_of (next_hold (ap_holdTTL A) w uid scr seat) b"
    "b_Status b = StatusConfirmed" "pg_rows (w_bookings w') = insert b (pg_rows (w_bookings w))" "production_ok entries E w'"
proof -
  let ?h = "next_hold (ap_holdTTL A) w uid scr seat"
  obtain req where req: "decode_json hold_fields r1 = Some req" "get_string req ''screening_id'' = scr"
      "new_seat (ap_unicode A) (get_string req ''row'') (get_int req ''number'') = Inr seat"
    using r1 by (auto simp: asks_hold_def split: option.splits)
  have seat: "seat_well_formed seat" "int64_range (s_Number seat)"
    using req(3) decode_json_range [OF req(1)] by (auto simp: new_seat_Inr)
  have sid: "sid \<noteq> []" using sale by (simp add: i on_sale_def Let_def hold_validate_ok hold_well_formed_def)
  obtain x q b w1 w2 w3 w4 where
    h: "run prod.P (booking_hold (ap_holdTTL A) uid scr seat) w = (Inr ?h, w1)"
    and x: "run prod.P (payment_create_intent uid sid) w1 = (Inr x, w2)" "in_Created x"
    and q: "run prod.P (payment_confirm_by_client uid sid) w2 = (Inr q, w3)"
    and b: "run prod.P (booking_confirm uid sid) w3 = (Inr \<lparr>cr_Booking = b, cr_Created = True\<rparr>, w4)"
    and facts: "p_AmountCents q = sc_PriceCents sc" "p_Status q = StatusCaptured" "booking_of ?h b"
      "b_Status b = StatusConfirmed" "pg_rows (w_bookings w4) = insert b (pg_rows (w_bookings w))" "production_ok entries E w4"
    unfolding i by (rule sells_free_seat [OF w seat sale])
  have u: "token_user A en2 r2 = Some uid" "token_user A en3 r3 = Some uid" "token_user A en4 r4 = Some uid"
    and p: "posts r2 [''holds'', sid, ''payment-intent'']" "posts r3 [''holds'', sid, ''payment-intent'', ''confirm'']"
      "posts r4 [''holds'', sid, ''confirm'']" using r2 r3 r4 by (simp_all add: asks_as_def)
  have "handle A prod.P c en1 (a, w) r1 = (answered en1 r1 201 (hold_response ?h), a, w1)"
    by (rule hold_answered [OF _ _ req(1)]) (use r1 req h in \<open>simp_all add: asks_hold_def\<close>)
  moreover have "handle A prod.P c en2 (a, w1) r2 = (answered en2 r2 201 (payment_intent_dto x), a, w2)"
    using session_answered(1) [OF u(1) sid p(1) x(1)] x(2) by simp
  moreover have "handle A prod.P c en3 (a, w2) r3 = (answered en3 r3 200 (payment_dto q), a, w3)"
    by (rule session_answered(2) [OF u(2) sid p(2) q])
  moreover have "handle A prod.P c en4 (a, w3) r4 = (answered en4 r4 201 (booking_dto b), a, w4)"
    using session_answered(3) [OF u(3) sid p(3) b] by simp
  ultimately show thesis by (intro that [OF _ facts]) simp
qed

end

end
