(* ===== verification/ApiProperties.thy ===== *)
theory ApiProperties
  imports ApiPurchase ProductionProperties AuthProperties
begin

text \<open>
  The properties of the HTTP front end: which requests reach a use case and for whom, what a prober learns,
  and which configurations serve.
\<close>

section \<open>Holds of others\<close>

context server
begin

text \<open>Without a live hold of the caller, each of the four use cases fails and changes nothing.\<close>

lemma no_hold_of_caller:
  assumes w: "world_inv w" and l: "\<forall>h. hlive (w_now w) (w_holds w) sid = Some h \<longrightarrow> h_UserID h \<noteq> uid"
  shows "\<exists>e \<in> {ErrHoldNotFound, ErrNotHoldOwner}.
     run P (booking_confirm uid sid) w = (Inl e, w) \<and> run P (booking_release uid sid) w = (Inl e, w) \<and>
     run P (payment_create_intent uid sid) w = (Inl e, w) \<and> run P (payment_confirm_by_client uid sid) w = (Inl e, w)"
proof (cases "hlive (w_now w) (w_holds w) sid")
  case None
  moreover from this have "run P (booking_release uid sid) w = (Inl ErrHoldNotFound, w)"
    using hs.release_unknown [of "w_now w" "w_holds w" sid uid] w
    by (simp add: booking_release_def world_ports_fields world_inv_def)
  ultimately show ?thesis using w
    by (intro bexI [of _ ErrHoldNotFound])
      (simp_all add: confirm_no_hold payment_create_intent_def payment_confirm_by_client_def hold_gate_def port_reads)
next
  case (Some h)
  with l have u: "h_UserID h \<noteq> uid" by simp
  moreover from this Some have "run P (booking_release uid sid) w = (Inl ErrNotHoldOwner, w)"
    using hs.release_foreign [of "w_now w" "w_holds w" sid h uid] w
    by (simp add: booking_release_def world_ports_fields world_inv_def)
  ultimately show ?thesis using w Some
    by (intro bexI [of _ ErrNotHoldOwner])
      (simp_all add: confirm_foreign payment_create_intent_def payment_confirm_by_client_def hold_gate_def port_reads)
qed

end

context production
begin

lemmas missing_hold = prod.no_hold_of_caller [unfolded world_inv_ok]

end

lemma no_such_hold_errors [simp]: "no_such_hold ErrHoldNotFound" "no_such_hold ErrNotHoldOwner"
  by (simp_all add: no_such_hold_def)

lemma no_hold_replies:
  assumes "e \<in> {ErrHoldNotFound, ErrNotHoldOwner}"
  shows "write_booking_error tx e = hold_not_found" "write_payment_error e = hold_not_found"
proof -
  have "e = ErrHoldNotFound \<or> e = ErrNotHoldOwner" using assms by simp
  then show "write_booking_error tx e = hold_not_found" by (elim disjE) (simp_all add: write_booking_error_def)
  from \<open>e = ErrHoldNotFound \<or> e = ErrNotHoldOwner\<close>
  show "write_payment_error e = hold_not_found" by (elim disjE) (simp_all add: write_payment_error_def)
qed

lemma hold_probe:
  assumes u: "rq_UserID q = Some uid" "rq_PathValue q ''sessionID'' = sid" and e: "e \<in> {ErrHoldNotFound, ErrNotHoldOwner}"
    and run: "run P (booking_confirm uid sid) w = (Inl e, w)" "run P (booking_release uid sid) w = (Inl e, w)"
      "run P (payment_create_intent uid sid) w = (Inl e, w)" "run P (payment_confirm_by_client uid sid) w = (Inl e, w)"
  shows "run P (release_handler tx q) w = (Replied hold_not_found, w)" "run P (confirm_handler tx q) w = (Replied hold_not_found, w)"
    "run P (payment_intent_handler q) w = (Replied hold_not_found, w)" "run P (payment_confirm_handler q) w = (Replied hold_not_found, w)"
proof -
  note replies = no_hold_replies [OF e]
  show "run P (release_handler tx q) w = (Replied hold_not_found, w)"
    unfolding release_handler_def by (simp add: u run run_map_prog replies)
  show "run P (confirm_handler tx q) w = (Replied hold_not_found, w)"
    unfolding confirm_handler_def by (simp add: u run run_map_prog replies)
  show "run P (payment_intent_handler q) w = (Replied hold_not_found, w)"
    unfolding payment_intent_handler_def by (simp add: u run run_map_prog replies)
  show "run P (payment_confirm_handler q) w = (Replied hold_not_found, w)"
    unfolding payment_confirm_handler_def by (simp add: u run run_map_prog replies)
qed

lemma probe_reply:
  assumes "hold_request sid r" "token_user A en r = Some uid" "e \<in> {ErrHoldNotFound, ErrNotHoldOwner}"
    and "run P (booking_confirm uid sid) w = (Inl e, w)" "run P (booking_release uid sid) w = (Inl e, w)"
      "run P (payment_create_intent uid sid) w = (Inl e, w)" "run P (payment_confirm_by_client uid sid) w = (Inl e, w)"
  shows "handle A P c en (a, w) r = (write_headers [(''X-Request-ID'', request_id (ae_random en) r)] hold_not_found, a, w)"
proof (rule handle_reply)
  let ?r = "r\<lparr>rq_RequestID := request_id (ae_random en) r\<rparr>"
  have "hold_request sid ?r" "token_user A en ?r = Some uid" using assms(1,2) by (simp_all add: hold_request_def)
  then obtain q where q: "rq_UserID q = Some uid" "rq_PathValue q ''sessionID'' = sid"
    "dispatch A c en ?r \<in> {UseCase (release_handler (ap_texts A) q), UseCase (confirm_handler (ap_texts A) q),
       UseCase (payment_intent_handler q), UseCase (payment_confirm_handler q)}" by (rule hold_dispatch)
  from q(3) hold_probe [OF q(1,2) assms(3-7)]
  show "run_call P (dispatch A c en ?r) (a, w) = (Replied hold_not_found, a, w)" by auto
qed

section \<open>Starting\<close>

lemma built_service:
  "new_auth_service P idkey lib ut params issuer accessTTL refreshTTL dummy salt = Some sv \<Longrightarrow>
   sv_issuer sv = issuer \<and> sv_accessTTL sv = accessTTL \<and> sv_refreshTTL sv = refreshTTL"
  by (auto simp: new_auth_service_def split: sum.splits option.splits)

lemma started:
  assumes "start_server L E su (Inr cfg) db = Some (Inr sp)"
  shows "sv_issuer (ap_auth (sp_api sp)) =
      new_token_issuer (ac_JWTSecret (cfg_Auth cfg)) (cfg_ServiceName cfg) (ac_AccessTokenTTL (cfg_Auth cfg))"
    and "select_gateway (cfg_Payment cfg) = Inr (sp_gateway sp)"
    and "sp_holds sp = new_redis_store (rc_HoldTTL (cfg_Redis cfg)) (cfg_MaxActiveHolds cfg)"
    and "ap_holdTTL (sp_api sp) = rc_HoldTTL (cfg_Redis cfg)" "ap_refreshTTL (sp_api sp) = ac_RefreshTokenTTL (cfg_Auth cfg)"
    and "ap_secure (sp_api sp) \<longleftrightarrow> is_production (cfg_Env cfg)"
    and "sp_redis sp = new_redis_client (cfg_Redis cfg)"
  using assms by (auto simp: start_server_def split: sum.splits option.splits prod.splits dest: built_service)

lemma started_logged:
  assumes "start_server L E su (Inr cfg) db = Some (Inr sp)"
  shows "from_context dflt (sp_log sp) = new_logger (cfg_Env cfg) (cfg_LogLevel cfg)"
    and "og_Provider (sp_traces sp) \<noteq> None \<longleftrightarrow> tc_Enabled (cfg_Telemetry cfg)"
proof -
  obtain stop where t: "telemetry_setup (su_otel su) (telemetry_of cfg) no_telemetry = (Inr stop, sp_traces sp)"
    and "sp_log sp = with_context None (new_logger (cfg_Env cfg) (cfg_LogLevel cfg))"
    using assms by (auto simp: start_server_def split: sum.splits option.splits prod.splits)
  then show "from_context dflt (sp_log sp) = new_logger (cfg_Env cfg) (cfg_LogLevel cfg)" by (simp add: logger_carried)
  show "og_Provider (sp_traces sp) \<noteq> None \<longleftrightarrow> tc_Enabled (cfg_Telemetry cfg)"
    using tracing_enabled [OF t] by (simp add: telemetry_of_def)
qed

lemma gateway_selected: "select_gateway p = Inr g \<Longrightarrow> yc_Provider p = PaymentProviderFake \<and> fg_secret g = yc_FakeWebhookSecret p \<and> fg_secret g \<noteq> []"
  by (auto simp: select_gateway_def new_fake_gateway_def split: if_splits)

section \<open>A concrete server\<close>

definition demo_texts :: texts where
  "demo_texts = \<lparr>tx_quote = (\<lambda>s. s), tx_other = (\<lambda>e. [])\<rparr>"

definition demo_api :: "(pg_auth_db, pg_catalog) api" where
  "demo_api = \<lparr>ap_texts = demo_texts, ap_unicode = demo_ut, ap_holdTTL = 900 * second, ap_auth = demo_service,
     ap_refreshTTL = 3600 * second, ap_secure = True, ap_catalog = pg_catalog_ports plain_pg\<rparr>"

definition demo_catalog :: pg_catalog where
  "demo_catalog = \<lparr>pg_movies = [], pg_screenings = []\<rparr>"

definition demo_surroundings :: api_env where
  "demo_surroundings = \<lparr>ae_auth = demo_env, ae_now = 0, ae_random = replicate 16 (chr 0), ae_checks = []\<rparr>"

definition demo_access :: string where
  "demo_access = (case issue_access_token plain_jwt demo_issuer 0 (user_from_row demo_user) of Inl e \<Rightarrow> [] | Inr t \<Rightarrow> t)"

definition demo_bearer :: string where
  "demo_bearer = ''Bearer '' @ demo_access"

text \<open>A request to give up the hold of a session, with or without credentials.\<close>

definition demo_request :: "string \<Rightarrow> string \<Rightarrow> http_request" where
  "demo_request sid credentials =
     \<lparr>rq_Method = ''DELETE'', rq_Segments = [''holds'', sid], rq_Header = (\<lambda>k. if k = ''Authorization'' then credentials else []),
      rq_Cookies = [], rq_Body = Some [], rq_PathValue = (\<lambda>_. []), rq_RequestID = [], rq_UserID = None\<rparr>"

lemma demo_issuer_used: "sv_issuer demo_service = demo_issuer" "sv_jwt demo_service = plain_jwt"
  using demo_as.sv_simps by simp_all

lemma demo_access_token: "bearer_token demo_bearer = Some demo_access"
proof -
  have "demo_access \<noteq> [] \<and> visible (hd demo_access) \<and> visible (last demo_access)" by code_simp
  then have "demo_access \<noteq> []" "trim_space demo_access = demo_access" by (simp_all add: trim_space_id)
  moreover have "map lower_byte ''Bearer '' = bearerPrefix" "length bearerPrefix = 7" by code_simp+
  ultimately show ?thesis by (simp add: bearer_token_def Let_def demo_bearer_def)
qed

lemma demo_token_user:
  "token_user demo_api demo_surroundings (demo_request sid demo_bearer) = Some ''u''"
  "token_user demo_api demo_surroundings (demo_request sid []) = None"
proof -
  have "validate_access_token plain_jwt demo_issuer 0 demo_access = Inr ''u''" by code_simp
  then show "token_user demo_api demo_surroundings (demo_request sid demo_bearer) = Some ''u''"
    using demo_access_token
    by (simp add: token_user_def demo_request_def validate_def demo_api_def demo_surroundings_def demo_issuer_used)
  show "token_user demo_api demo_surroundings (demo_request sid []) = None"
    by (simp add: token_user_def demo_request_def bearer_token_def bearerPrefix_def)
qed

lemma demo_ttl: "ap_holdTTL demo_api = 900 * second"
  by (simp add: demo_api_def)

lemma demo_request_shape: "sid \<noteq> [] \<Longrightarrow> hold_request sid (demo_request sid cr) \<and> protected_request (demo_request sid cr)"
  by (simp add: hold_request_def demo_request_def protected_request_def protected_patterns_def method_matches_def)

section \<open>Properties\<close>

text \<open>C5: without a valid access token a protected request is answered 401 and changes nothing; and every use case
  the server runs for an HTTP request, on any route, is a well-formed request of the server model, made for nobody
  but the user that the token proves.\<close>

theorem requests_are_authenticated:
  "(protected_request r \<and> token_user A en r = None \<longrightarrow>
      handle A P c en (a, w) r = (write_headers [(''X-Request-ID'', request_id (ae_random en) r)] write_unauthorized, a, w)) \<and>
   (dispatch A c en r = UseCase p \<longrightarrow> runs_for (ap_holdTTL A) (token_user A en r) p)"
  by (auto intro!: handle_reply dispatch_runs_for simp: protected_rejected)

theorem requests_are_authenticated_witness:
  "fst (handle demo_api mem_ports demo_catalog demo_surroundings (demo_db, demo_start) (demo_request ''x'' [])) =
     write_headers [(''X-Request-ID'', request_id (replicate 16 (chr 0)) (demo_request ''x'' []))] write_unauthorized \<and>
   (\<exists>p. dispatch demo_api demo_catalog demo_surroundings (demo_request ''x'' demo_bearer) = UseCase p \<and>
      runs_for (900 * second) (Some ''u'') p)"
proof
  have "protected_request (demo_request ''x'' [])" using demo_request_shape by simp
  with demo_token_user(2) show "fst (handle demo_api mem_ports demo_catalog demo_surroundings (demo_db, demo_start) (demo_request ''x'' [])) =
     write_headers [(''X-Request-ID'', request_id (replicate 16 (chr 0)) (demo_request ''x'' []))] write_unauthorized"
    using requests_are_authenticated [of "demo_request ''x'' []" demo_api demo_surroundings mem_ports demo_catalog demo_db demo_start]
    by (simp add: demo_surroundings_def)
  let ?r = "demo_request ''x'' demo_bearer"
  have "hold_request ''x'' ?r" using demo_request_shape by simp
  then obtain q where "rq_UserID q = Some ''u''" "rq_PathValue q ''sessionID'' = ''x''"
    "dispatch demo_api demo_catalog demo_surroundings ?r \<in> {UseCase (release_handler (ap_texts demo_api) q),
      UseCase (confirm_handler (ap_texts demo_api) q), UseCase (payment_intent_handler q), UseCase (payment_confirm_handler q)}"
    using demo_token_user(1) by (rule hold_dispatch)
  then obtain p where p: "dispatch demo_api demo_catalog demo_surroundings ?r = UseCase p" by blast
  with requests_are_authenticated [of "demo_request ''x'' demo_bearer" demo_api demo_surroundings mem_ports demo_catalog demo_db demo_start p]
  show "\<exists>p. dispatch demo_api demo_catalog demo_surroundings (demo_request ''x'' demo_bearer) = UseCase p \<and>
      runs_for (900 * second) (Some ''u'') p"
    by (simp add: demo_token_user(1) demo_ttl)
qed

text \<open>C39: a prober learns nothing about sessions: release, confirm, payment intent and payment confirm for a session
  that does not exist, is over, or is another user's are answered with one and the same 404, and change nothing.\<close>

theorem foreign_sessions_look_missing:
  assumes "redis R entries" "postgres E" "production_ok entries E w" "hold_request sid r" "token_user A en r = Some uid"
    and "\<forall>h. rh_live ut (w_now w) (entries (w_holds w)) sid = Some h \<longrightarrow> h_UserID h \<noteq> uid"
  shows "handle A (world_ports (production_stores R st ut E ev)) c en (a, w) r =
     (write_headers [(''X-Request-ID'', request_id (ae_random en) r)] hold_not_found, a, w)"
proof -
  from production.missing_hold [OF production_laws [OF assms(1,2)] assms(3,6), where st = st and ev = ev]
  obtain e where e: "e \<in> {ErrHoldNotFound, ErrNotHoldOwner}" and
    run: "run (world_ports (production_stores R st ut E ev)) (booking_confirm uid sid) w = (Inl e, w)"
      "run (world_ports (production_stores R st ut E ev)) (booking_release uid sid) w = (Inl e, w)"
      "run (world_ports (production_stores R st ut E ev)) (payment_create_intent uid sid) w = (Inl e, w)"
      "run (world_ports (production_stores R st ut E ev)) (payment_confirm_by_client uid sid) w = (Inl e, w)"
    by (elim bexE conjE)
  show ?thesis by (rule probe_reply [OF assms(4,5) e run])
qed

theorem foreign_sessions_look_missing_witness:
  "fst (handle demo_api (world_ports demo_stores) demo_catalog demo_surroundings (demo_db, demo_held) (demo_request ''x'' demo_bearer)) =
   fst (handle demo_api (world_ports demo_stores) demo_catalog demo_surroundings (demo_db, demo_prod_start) (demo_request ''x'' demo_bearer))"
proof -
  have e: "gm_get ([] :: keyspace) = Map.empty" by (simp add: gm_get_def fun_eq_iff)
  have ok: "production_ok gm_get plain_pg demo_held" "production_ok gm_get plain_pg demo_prod_start"
    using demo_held_facts(1) demo_srv.start_inv(1) [OF e demo_uuid_inj] by (simp_all add: demo_srv.world_inv_ok)
  have held: "\<forall>h. rh_live demo_ut (w_now demo_held) (gm_get (w_holds demo_held)) ''x'' = Some h \<longrightarrow> h_UserID h \<noteq> ''u''"
    using demo_held_facts(2,3) by (simp add: demo_hold_def)
  have none: "\<forall>h. rh_live demo_ut (w_now demo_prod_start) (gm_get (w_holds demo_prod_start)) ''x'' = Some h \<longrightarrow> h_UserID h \<noteq> ''u''"
    by (simp add: production_start_def e rh_live_def seen_def)
  have r: "hold_request ''x'' (demo_request ''x'' demo_bearer)" using demo_request_shape by simp
  note probe = foreign_sessions_look_missing [OF ks.redis_axioms plain.postgres_axioms _ r demo_token_user(1), where ut = demo_ut]
  from probe [OF ok(1) held] probe [OF ok(2) none] show ?thesis by simp
qed

section \<open>Sessions over HTTP\<close>

lemma bearer_token_of:
  assumes "tok \<noteq> []" "trim_space tok = tok" shows "bearer_token (''Bearer '' @ tok) = Some tok"
proof -
  have "map lower_byte ''Bearer '' = bearerPrefix" "length bearerPrefix = 7" by code_simp+
  then show ?thesis using assms by (simp add: bearer_token_def Let_def)
qed

text \<open>A request that carries the token in its header. A token has no blanks around it: it is base64 in three parts.\<close>

definition carries :: "string \<Rightarrow> http_request \<Rightarrow> bool" where
  "carries tok r \<longleftrightarrow> tok \<noteq> [] \<and> trim_space tok = tok \<and> rq_Header r ''Authorization'' = ''Bearer '' @ tok"

lemma carried_user:
  assumes "carries tok r"
  shows "token_user A en r = (case validate A en tok of Inl err \<Rightarrow> None | Inr uid \<Rightarrow> Some uid)"
  using assms bearer_token_of [of tok] unfolding carries_def token_user_def by (simp del: append.simps)

lemma login_route:
  "posts r [''auth'', ''login''] \<Longrightarrow> dispatch A c en r =
     Accounts (login_handler (ap_texts A) (ap_auth A) (ap_refreshTTL A) (ap_secure A) (ae_auth en) (r\<lparr>rq_PathValue := path_values []\<rparr>))"
  by (simp add: dispatch_def serve_mux_def api_routes_def Let_def method_matches_def posts_def)

context pg_auth_service
begin

lemmas logs_in = pfl.login_ok [unfolded sv_simps]

lemma issuer_kept: "sv_issuer sv = issuer"
  by (simp add: sv_simps)

end

text \<open>C36: over HTTP, who posts the e-mail address and the password of an account is answered 200 with a session of it
  in the body and its refresh token in the cookie, and whatever request carries its access token, at whatever time, is that user's until the token expires and nobody's
  after; the accounts are as they were.\<close>

theorem login_opens_the_api:
  assumes "pg_auth_service E gu idkey lib ut params issuer accessTTL refreshTTL dummy salt (ap_auth A)" "pg_auth_ok E a"
    and "env_is_fresh pg_sessions (pg_fresh_id E) (pg_family_id E) (ae_auth en) b a"
    and "posts r [''auth'', ''login'']" "decode_json login_fields r = Some req"
    and "validate_email ut (get_string req ''email'') = Inr e" "u \<in> pg_accounts a" "pg_lower E (u_Email u) = pg_lower E e"
    and "argon2_verify idkey (u_PasswordHash u) (get_string req ''password'') = Some (Inr True)"
  shows "\<exists>resp se a'. handle A P c en (a, w) r = (resp, a', w) \<and> rs_Status resp = 200 \<and> rs_Body resp = Some (session_response se) \<and>
     rs_Cookies resp = [refresh_cookie (se_RefreshToken se) (ap_refreshTTL A) (ap_secure A)] \<and> se_User se = u \<and> pg_auth_ok E a' \<and> pg_accounts a' = pg_accounts a \<and>
     (\<forall>en' r'. carries (se_AccessToken se) r' \<longrightarrow> token_user A en' r' =
        (if ae_now en' < unix (to_unix (en_issueAt (ae_auth en) + ti_accessTTL issuer)) then Some (u_ID u) else None))"
proof -
  let ?r = "r\<lparr>rq_RequestID := request_id (ae_random en) r\<rparr>\<lparr>rq_PathValue := path_values []\<rparr>"
  obtain se a' where l: "login (ap_auth A) (ae_auth en) (get_string req ''email'') (get_string req ''password'') a = (Some (Inr se), a')"
    and se: "session_of (ap_auth A) (ae_auth en) u se" and ok: "pg_auth_ok E a'" "pg_accounts a' = pg_accounts a"
    using pg_auth_service.logs_in [OF assms(1-3,6-9)] by blast
  have "decode_json login_fields ?r = Some req" using assms(5) decode_same_body [of ?r r] by simp
  then obtain resp where "handle A P c en (a, w) r = (resp, a', w)" "rs_Status resp = 200" "rs_Body resp = Some (session_response se)"
    "rs_Cookies resp = [refresh_cookie (se_RefreshToken se) (ap_refreshTTL A) (ap_secure A)]"
    using handle_reply [of P A c en r "(a, w)" "write_session 200 (ap_refreshTTL A) (ap_secure A) se" "(a', w)"] assms(4) l
    by (simp add: login_route login_handler_def write_headers_def write_session_def with_cookie_def write_json_def)
  moreover have "token_user A en' r' = (if ae_now en' < unix (to_unix (en_issueAt (ae_auth en) + ti_accessTTL issuer)) then Some (u_ID u) else None)"
    if "carries (se_AccessToken se) r'" for en' r'
    using se carried_user [OF that, of A en'] pg_auth_service.issuer_kept [OF assms(1)] by (simp add: session_of_def validate_def)
  moreover have "se_User se = u" using se by (simp add: session_of_def)
  ultimately show ?thesis using ok by blast
qed

section \<open>A purchase at the concrete server\<close>

definition demo_bob :: user where
  "demo_bob = \<lparr>u_ID = ''bob'', u_Email = [], u_PasswordHash = [], u_DisplayName = [], u_Role = RoleCustomer, u_CreatedAt = 0\<rparr>"

definition bob_access :: string where
  "bob_access = (case issue_access_token plain_jwt demo_issuer 0 demo_bob of Inl e \<Rightarrow> [] | Inr t \<Rightarrow> t)"

definition bob_bearer :: string where
  "bob_bearer = ''Bearer '' @ bob_access"

definition demo_post :: "string list \<Rightarrow> string \<Rightarrow> http_request" where
  "demo_post segs body =
     \<lparr>rq_Method = ''POST'', rq_Segments = segs, rq_Header = (\<lambda>k. if k = ''Authorization'' then bob_bearer else []),
      rq_Cookies = [], rq_Body = Some body, rq_PathValue = (\<lambda>_. []), rq_RequestID = [], rq_UserID = None\<rparr>"

definition demo_hold_body :: string where
  "demo_hold_body = ''{\"screening_id\":\"scr\",\"row\":\"A\",\"number\":1}''"

definition demo_members :: "(string \<times> json) list" where
  "demo_members = [(''screening_id'', JStr ''scr''), (''row'', JStr ''A''), (''number'', JNum ''1'')]"

definition demo_hold_fields :: "string \<rightharpoonup> field_value" where
  "demo_hold_fields = [''screening_id'' \<mapsto> VString ''scr'', ''row'' \<mapsto> VString ''A'', ''number'' \<mapsto> VInt 1]"

definition demo_purchase :: "(api_env \<times> http_request) list" where
  "demo_purchase =
     [(demo_surroundings, demo_post [''holds''] demo_hold_body),
      (demo_surroundings, demo_post [''holds'', ''x'', ''payment-intent''] []),
      (demo_surroundings, demo_post [''holds'', ''x'', ''payment-intent'', ''confirm''] []),
      (demo_surroundings, demo_post [''holds'', ''x'', ''confirm''] [])]"

lemma demo_post_user: "token_user demo_api demo_surroundings (demo_post segs body) = Some ''bob''"
proof -
  have "bob_access \<noteq> [] \<and> visible (hd bob_access) \<and> visible (last bob_access)" by code_simp
  then have "bearer_token bob_bearer = Some bob_access" using bearer_token_of trim_space_id by (simp add: bob_bearer_def del: append.simps)
  moreover have "validate_access_token plain_jwt demo_issuer 0 bob_access = Inr ''bob''" by code_simp
  ultimately show ?thesis
    by (simp add: token_user_def demo_post_def validate_def demo_api_def demo_surroundings_def demo_issuer_used)
qed

lemma demo_read: "read_value demo_hold_body = Some (JObj demo_members, [])"
  by code_simp

lemma demo_fields: "decode_members hold_fields demo_members Map.empty = Some demo_hold_fields"
proof -
  have "parse_int ''1'' = Some 1" by code_simp
  then show ?thesis
    by (simp add: demo_members_def demo_hold_fields_def hold_fields_def find_field_def decode_field_def)
qed

lemma demo_decoded: "decode_json hold_fields (demo_post segs demo_hold_body) = Some demo_hold_fields"
proof -
  have "length demo_hold_body \<le> maxBodyBytes" by (simp add: demo_hold_body_def maxBodyBytes_def)
  then show ?thesis by (simp add: decode_json_def demo_post_def demo_read decode_struct_def demo_fields json_more_def)
qed

lemma demo_values:
  "get_string demo_hold_fields ''screening_id'' = ''scr''" "get_string demo_hold_fields ''row'' = ''A''" "get_int demo_hold_fields ''number'' = 1"
  by (simp_all add: demo_hold_fields_def get_string_def get_int_def)

lemma demo_posted [simp]: "posts (demo_post segs body) segs"
  by (simp add: posts_def demo_post_def)

lemma demo_trimmed: "trim_space ''scr'' = ''scr''" "trim_space ''A'' = ''A''"
proof -
  have "visible (CHR ''s'')" "visible (CHR ''r'')" "visible (CHR ''A'')" by code_simp+
  then show "trim_space ''scr'' = ''scr''" "trim_space ''A'' = ''A''"
    by (simp_all add: trim_space_id)
qed

lemma demo_new_seat: "new_seat demo_ut ''A'' 1 = Inr demo_seat"
proof -
  have "chr 65 = CHR ''A''" by code_simp
  then have "to_upper demo_ut ''A'' = ''A''" by (simp add: to_upper_def runes_ascii ascii_def rune_upper_def byte_def encode_rune_ascii)
  then show ?thesis using demo_seat_ok by (simp add: new_seat_Inr demo_trimmed demo_seat_def)
qed

lemma demo_asks:
  "asks_hold demo_api ''bob'' ''scr'' demo_seat demo_surroundings (demo_post [''holds''] demo_hold_body)"
  "asks_as demo_api ''bob'' segs demo_surroundings (demo_post segs [])"
proof -
  have u: "ap_unicode demo_api = demo_ut" by (simp add: demo_api_def)
  show "asks_hold demo_api ''bob'' ''scr'' demo_seat demo_surroundings (demo_post [''holds''] demo_hold_body)"
    unfolding asks_hold_def demo_decoded option.case demo_values u demo_new_seat demo_trimmed
    by (simp only: demo_posted demo_post_user) simp
  show "asks_as demo_api ''bob'' segs demo_surroundings (demo_post segs [])"
    by (simp add: asks_as_def demo_post_user)
qed

lemma demo_on_sale:
  "on_sale gm_get demo_st demo_ut plain_pg id (900 * second) demo_prod_start ''bob'' ''scr'' demo_seat demo_screening"
proof -
  have n: "next_hold (900 * second) demo_prod_start ''bob'' ''scr'' demo_seat = demo_hold" by code_simp
  have k: "gm_get ([] :: keyspace) = Map.empty" by (simp add: gm_get_def fun_eq_iff)
  have v: "hold_validate demo_hold 0 = Inr ()" by code_simp
  have t: "second \<le> 900 * second" "int64_range (to_unix (900 * second))" by code_simp+
  have h: "h_SessionID demo_hold = ''x''" "h_UserID demo_hold = ''bob''" by (simp_all add: demo_hold_def)
  have g: "has_seat demo_screening demo_seat" by code_simp
  show ?thesis
    unfolding on_sale_def Let_def n
    using k v t h g [unfolded demo_screening_def demo_seat_def]
    by (simp add: production_start_def demo_screening_def demo_screenings_def demo_gateway_def pg_rows_def new_pg_bookings_def
      seat_held_def rh_live_def seen_def zset_of_def redis_full_def demo_st_def new_redis_store_def int64_range_def demo_seat_def
      session_taken_def seat_taken_def active_row_def pg_payment_rows_def pg_fresh_def plain_pg_def no_hyphens_def demo_uuid_def)
qed

lemma demo_ok: "production_ok gm_get plain_pg demo_prod_start"
proof -
  have "gm_get ([] :: keyspace) = Map.empty" by (simp add: gm_get_def fun_eq_iff)
  then show ?thesis using demo_srv.start_inv(1) [OF _ demo_uuid_inj] by (simp add: demo_srv.world_inv_ok)
qed

lemma demo_lifetime: "ap_holdTTL demo_api = 900 * second"
  by (simp add: demo_api_def)

lemma demo_http_sale:
  obtains a L w H ts b where
    "api_run demo_api demo_catalog (world_ports demo_stores) (demo_db, [], demo_prod_start, {}, []) (a, L, w, H, ts)"
    "b \<in> pg_rows (w_bookings w)"
proof -
  have sid: "''x'' = w_uuid demo_prod_start (w_next demo_prod_start)" by (simp add: production_start_def demo_uuid_def)
  obtain resps a w b where h: "handle_all demo_api (world_ports demo_stores) demo_catalog demo_purchase (demo_db, demo_prod_start) = (resps, a, w)"
    and b: "b \<in> pg_rows (w_bookings w)"
    unfolding demo_purchase_def
    by (rule production.sells_over_http [OF demo_production demo_ok sid demo_on_sale [folded demo_lifetime] demo_asks(1) demo_asks(2) demo_asks(2) demo_asks(2),
        where c = demo_catalog and a = demo_db]) auto
  have "\<forall>(en, r) \<in> set demo_purchase. ae_now en = w_now demo_prod_start"
    by (simp add: demo_purchase_def demo_surroundings_def production_start_def)
  with handle_all_reached [OF h, of "[]" "{}" "[]"] that b show thesis by blast
qed

section \<open>Sales\<close>

text \<open>C1: in every interleaving of HTTP requests, from whomever and with whatever credentials, every booking was paid
  for, was held by a hold request for its very seat with an access token of its buyer, was confirmed by a request for
  its very session with an access token of its buyer, and no other booking has its seat.\<close>

theorem api_sales_are_authenticated:
  assumes "redis R entries" "postgres E" "entries s0 = Map.empty" "inj uuid"
    and "api_run A c (world_ports (production_stores R st ut E ev))
      (a, [], production_start s0 scrs users now uuid screenings gw, {}, []) (a', L, w, H, ts)"
    and "b \<in> pg_rows (w_bookings w)"
  shows "paid (pg_payment_rows (w_payments w)) (b_SessionID b) \<and>
     (\<exists>en r uid req seat. (en, r) \<in> set L \<and> posts r [''holds''] \<and> token_user A en r = Some uid \<and>
       decode_json hold_fields r = Some req \<and> new_seat (ap_unicode A) (get_string req ''row'') (get_int req ''number'') = Inr seat \<and>
       b_UserID b = pg_spell E uid \<and> b_ScreeningID b = pg_spell E (get_string req ''screening_id'') \<and>
       s_Row (b_Seat b) = s_Row seat \<and> s_Number (b_Seat b) = int32 (s_Number seat)) \<and>
     (\<exists>en r uid. (en, r) \<in> set L \<and> posts r [''holds'', b_SessionID b, ''confirm''] \<and>
       token_user A en r = Some uid \<and> b_UserID b = pg_spell E uid) \<and>
     (\<forall>b' \<in> pg_rows (w_bookings w). b_Status b = StatusConfirmed \<and> b_Status b' = StatusConfirmed \<and>
       b_ScreeningID b' = b_ScreeningID b \<and> b_Seat b' = b_Seat b \<longrightarrow> b' = b)"
proof -
  note sold = production.api_sold [OF production_laws [OF assms(1,2)] assms(3-6)]
  show ?thesis
    using sold(2-4) sold(1) assms(6) unfolding posts_def arbiter_def same_booking_seat_def by (intro conjI) metis+
qed

theorem api_sales_are_authenticated_witness:
  "\<exists>a L w H ts b. api_run demo_api demo_catalog (world_ports demo_stores) (demo_db, [], demo_prod_start, {}, []) (a, L, w, H, ts) \<and>
     b \<in> pg_rows (w_bookings w) \<and>
     (\<exists>en r uid. (en, r) \<in> set L \<and> posts r [''holds'', b_SessionID b, ''confirm''] \<and> token_user demo_api en r = Some uid)"
proof -
  obtain a L w H ts b where r: "api_run demo_api demo_catalog (world_ports demo_stores) (demo_db, [], demo_prod_start, {}, []) (a, L, w, H, ts)"
    and b: "b \<in> pg_rows (w_bookings w)" by (rule demo_http_sale)
  have "gm_get [] = Map.empty" by (simp add: gm_get_def fun_eq_iff)
  from api_sales_are_authenticated [OF ks.redis_axioms plain.postgres_axioms this demo_uuid_inj r b] r b
  show ?thesis by blast
qed

text \<open>C2: over HTTP a free seat can be bought: a buyer with a valid token who posts a hold for it, an intent, the
  payment and the confirm is answered 201, 201, 200 and 201, has paid the price of the screening, and owns the seat.\<close>

theorem free_seat_is_sold_over_http:
  assumes "redis R entries" "postgres E" "production_ok entries E w"
    and "on_sale entries st ut E ev (ap_holdTTL A) w uid scr seat sc" "sid = w_uuid w (w_next w)"
    and "asks_hold A uid scr seat en1 r1" "asks_as A uid [''holds'', sid, ''payment-intent''] en2 r2"
      "asks_as A uid [''holds'', sid, ''payment-intent'', ''confirm''] en3 r3" "asks_as A uid [''holds'', sid, ''confirm''] en4 r4"
  shows "\<exists>x q b w'. handle_all A (world_ports (production_stores R st ut E ev)) c [(en1, r1), (en2, r2), (en3, r3), (en4, r4)] (a, w) =
      ([answered en1 r1 201 (hold_response (next_hold (ap_holdTTL A) w uid scr seat)), answered en2 r2 201 (payment_intent_dto x),
        answered en3 r3 200 (payment_dto q), answered en4 r4 201 (booking_dto b)], a, w') \<and>
     p_AmountCents q = sc_PriceCents sc \<and> p_Status q = StatusCaptured \<and> b_Status b = StatusConfirmed \<and>
     b_SessionID b = sid \<and> b_ScreeningID b = scr \<and> b_Seat b = seat \<and> b_UserID b = uid \<and>
     pg_rows (w_bookings w') = insert b (pg_rows (w_bookings w))"
proof -
  obtain x q b w' where "handle_all A (world_ports (production_stores R st ut E ev)) c [(en1, r1), (en2, r2), (en3, r3), (en4, r4)] (a, w) =
      ([answered en1 r1 201 (hold_response (next_hold (ap_holdTTL A) w uid scr seat)), answered en2 r2 201 (payment_intent_dto x),
        answered en3 r3 200 (payment_dto q), answered en4 r4 201 (booking_dto b)], a, w')"
    "p_AmountCents q = sc_PriceCents sc" "p_Status q = StatusCaptured" "booking_of (next_hold (ap_holdTTL A) w uid scr seat) b"
    "b_Status b = StatusConfirmed" "pg_rows (w_bookings w') = insert b (pg_rows (w_bookings w))"
    by (rule production.sells_over_http [OF production_laws [OF assms(1,2)] assms(3,5,4,6-9), where c = c and a = a])
  then show ?thesis by (intro exI [of _ x] exI [of _ q] exI [of _ b] exI [of _ w']) (simp add: booking_of_def assms(5))
qed

theorem free_seat_is_sold_over_http_witness:
  "\<exists>resps b w. handle_all demo_api (world_ports demo_stores) demo_catalog demo_purchase (demo_db, demo_prod_start) = (resps, demo_db, w) \<and>
     b \<in> pg_rows (w_bookings w) \<and> b_UserID b = ''bob'' \<and> b_Seat b = demo_seat"
proof -
  have i: "''x'' = w_uuid demo_prod_start (w_next demo_prod_start)" by (simp add: production_start_def demo_uuid_def)
  show ?thesis
    using free_seat_is_sold_over_http [OF ks.redis_axioms plain.postgres_axioms demo_ok demo_on_sale [folded demo_lifetime] i demo_asks(1)
        demo_asks(2) demo_asks(2) demo_asks(2), of demo_catalog demo_db]
    unfolding demo_purchase_def by blast
qed

text \<open>An account whose password hash is one of the hasher's, and a login to it.\<close>

definition login_db :: "string \<Rightarrow> pg_auth_db" where
  "login_db h = \<lparr>pa_users = [demo_user\<lparr>ur_Email := ''b@c.d'', ur_PasswordHash := h\<rparr>], pa_tokens = []\<rparr>"

definition demo_login_body :: string where
  "demo_login_body = ''{\"email\":\"b@c.d\",\"password\":\"0123456789\"}''"

definition demo_login_fields :: "string \<rightharpoonup> field_value" where
  "demo_login_fields = [''email'' \<mapsto> VString ''b@c.d'', ''password'' \<mapsto> VString ''0123456789'']"

lemma demo_login_read: "read_value demo_login_body = Some (JObj [(''email'', JStr ''b@c.d''), (''password'', JStr ''0123456789'')], [])"
  by code_simp

lemma demo_login_decoded: "decode_json login_fields (demo_post segs demo_login_body) = Some demo_login_fields"
proof -
  have "length demo_login_body \<le> maxBodyBytes" by (simp add: demo_login_body_def maxBodyBytes_def)
  then show ?thesis
    by (simp add: decode_json_def demo_post_def demo_login_read decode_struct_def json_more_def demo_login_fields_def
        login_fields_def find_field_def decode_field_def)
qed

theorem login_opens_the_api_witness:
  "\<exists>h resp a. handle demo_api (world_ports demo_stores) demo_catalog demo_surroundings (login_db h, demo_prod_start)
       (demo_post [''auth'', ''login''] demo_login_body) = (resp, a, demo_prod_start) \<and> rs_Status resp = 200"
proof -
  have v: "argon2_valid DefaultArgon2Params = Inr ()" by code_simp
  let ?key = "\<lambda>pw. plain_idkey pw ''pepper'' (ap_Time DefaultArgon2Params) (ap_MemoryKiB DefaultArgon2Params)
    (ap_Parallelism DefaultArgon2Params) (ap_KeyLen DefaultArgon2Params)"
  obtain h where "\<forall>pw. argon2_verify plain_idkey h pw = Some (Inr (?key pw = ?key ''0123456789''))"
    using plain_argon2.hash_ok [OF v, of "''pepper''" "''0123456789''"] by blast
  then have h: "argon2_verify plain_idkey h ''0123456789'' = Some (Inr True)" by simp
  let ?u = "user_from_row (demo_user\<lparr>ur_Email := ''b@c.d'', ur_PasswordHash := h\<rparr>)"
  have ok: "pg_auth_ok plain_pg (login_db h)"
    by (simp add: pg_auth_ok_def pg_users_ok_def pg_tokens_ok_def token_table_def login_db_def demo_user_def plain_pg_def no_hyphens_def)
  have fresh: "env_is_fresh pg_sessions (pg_fresh_id plain_pg) (pg_family_id plain_pg) (ae_auth demo_surroundings) zero_bytes (login_db h)"
    by (simp add: env_is_fresh_def pg_sessions_def pg_ledger_def pg_fresh_id_def pg_family_id_def login_db_def plain_pg_def no_hyphens_def
        demo_surroundings_def demo_env_def zero_bytes_def)
  have u: "?u \<in> pg_accounts (login_db h)" "pg_lower plain_pg (u_Email ?u) = pg_lower plain_pg ''b@c.d''"
    "argon2_verify plain_idkey (u_PasswordHash ?u) (get_string demo_login_fields ''password'') = Some (Inr True)"
    using h by (simp_all add: pg_accounts_def login_db_def demo_login_fields_def get_string_def user_from_row_def demo_user_def)
  have e: "validate_email plain_ut (get_string demo_login_fields ''email'') = Inr ''b@c.d''"
    using demo_email by (simp add: demo_login_fields_def get_string_def)
  have s: "ap_auth demo_api = demo_service" by (simp add: demo_api_def)
  show ?thesis
    using login_opens_the_api [OF demo_auth_service [folded s] ok fresh demo_posted demo_login_decoded e u,
      of "world_ports demo_stores" demo_catalog demo_prod_start] by blast
qed

text \<open>C40: a process serves only with a configuration in which every required setting is there and within its bounds;
  what it serves with carries them: lifetimes are positive, the hold limit is between 1 and 100, the Redis database
  between 0 and 15, spans are exported exactly when that is enabled, secrets are not empty (the one for tokens has at
  least 32 bytes in production), cookies are secure in production.\<close>

theorem started_configurations_are_sound:
  assumes "start_server L E su (load_config ut fprod url_ok env) db = Some (Inr sp)"
  shows "\<exists>cfg. load_config ut fprod url_ok env = Inr cfg \<and> config_ok cfg \<and> yc_Provider (cfg_Payment cfg) = PaymentProviderFake \<and>
     0 < ap_holdTTL (sp_api sp) \<and> rs_holdTTL (sp_holds sp) = ap_holdTTL (sp_api sp) \<and>
     1 \<le> rs_maxHolds (sp_holds sp) \<and> rs_maxHolds (sp_holds sp) \<le> 100 \<and> ro_DB (sp_redis sp) \<in> {0..15} \<and>
     (og_Provider (sp_traces sp) \<noteq> None \<longleftrightarrow> tc_Enabled (cfg_Telemetry cfg)) \<and>
     0 < ti_accessTTL (sv_issuer (ap_auth (sp_api sp))) \<and> 0 < ap_refreshTTL (sp_api sp) \<and>
     fg_secret (sp_gateway sp) \<noteq> [] \<and> ti_secret (sv_issuer (ap_auth (sp_api sp))) \<noteq> [] \<and>
     (cfg_Env cfg = EnvProduction \<longrightarrow> ap_secure (sp_api sp) \<and> 32 \<le> length (ti_secret (sv_issuer (ap_auth (sp_api sp)))))"
proof (cases "load_config ut fprod url_ok env")
  case (Inl e)
  then show ?thesis using assms by (simp add: start_server_def)
next
  case (Inr cfg)
  note st = started [OF assms [unfolded Inr]] and traced = started_logged(2) [OF assms [unfolded Inr], simplified]
  from load_config_ok [OF Inr] gateway_selected [OF st(2)] Inr show ?thesis
    by (intro exI [of _ cfg]) (auto simp: st(1,3-) traced config_ok_def new_redis_client_def redis_ok_def auth_ok_def new_redis_store_def new_token_issuer_def is_production_def)
qed

definition demo_settings :: getenv where
  "demo_settings k =
     (case map_of [(''ENV'', ''test''), (''HTTP_ADDR'', '':8080''), (''REDIS_ADDR'', ''r:6379''), (''POSTGRES_HOST'', ''h''),
        (''POSTGRES_USER'', ''u''), (''POSTGRES_PASSWORD'', ''p''), (''POSTGRES_DB'', ''d''), (''AUTH_JWT_SECRET'', ''s''),
        (''RABBITMQ_URL'', ''amqp://b''), (''PAYMENT_FAKE_WEBHOOK_SECRET'', ''w'')] k of None \<Rightarrow> [] | Some v \<Rightarrow> v)"

definition demo_startup :: startup where
  "demo_startup = \<lparr>su_otel = \<lparr>ot_exporter = (\<lambda>_. Inr ()), ot_resource = (\<lambda>_. Inr ())\<rparr>,
     su_pgx = \<lparr>px_parse = (\<lambda>_. Inr ()), px_create = Inr (), px_ping = Inr ()\<rparr>, su_dummy = Inr ''dummy'', su_salt = Inr ''salt'', su_goose = \<lparr>go_open = (\<lambda>_. Inr ()), go_provider = Inr (), go_up = Inr [], go_status = Inr []\<rparr>,
     su_seedSalt = Inr ''salt'', su_now = 0, su_ids = \<lparr>sd_user = ''u'', sd_movie = demo_uuid, sd_screening = demo_uuid\<rparr>\<rparr>"

definition demo_libraries :: libraries where
  "demo_libraries = \<lparr>lb_idkey = plain_idkey, lb_jwt = plain_jwt, lb_unicode = demo_ut, lb_uuid = Some, lb_texts = demo_texts\<rparr>"

lemma demo_setting:
  "demo_settings ''ENV'' = ''test''" "demo_settings ''SERVICE_NAME'' = []" "demo_settings ''HTTP_ADDR'' = '':8080''"
  "demo_settings ''HTTP_READ_TIMEOUT'' = []" "demo_settings ''HTTP_WRITE_TIMEOUT'' = []" "demo_settings ''HTTP_SHUTDOWN_TIMEOUT'' = []"
  "demo_settings ''LOG_LEVEL'' = []" "demo_settings ''REDIS_ADDR'' = ''r:6379''" "demo_settings ''REDIS_DB'' = []"
  "demo_settings ''REDIS_HOLD_TTL'' = []" "demo_settings ''REDIS_PASSWORD'' = []" "demo_settings ''MAX_ACTIVE_HOLDS'' = []"
  "demo_settings ''POSTGRES_HOST'' = ''h''" "demo_settings ''POSTGRES_PORT'' = []" "demo_settings ''POSTGRES_USER'' = ''u''"
  "demo_settings ''POSTGRES_PASSWORD'' = ''p''" "demo_settings ''POSTGRES_DB'' = ''d''" "demo_settings ''POSTGRES_SSLMODE'' = []"
  "demo_settings ''AUTH_JWT_SECRET'' = ''s''" "demo_settings ''AUTH_ACCESS_TOKEN_TTL'' = []" "demo_settings ''AUTH_REFRESH_TOKEN_TTL'' = []"
  "demo_settings ''RABBITMQ_URL'' = ''amqp://b''" "demo_settings ''PAYMENT_PROVIDER'' = []"
  "demo_settings ''PAYMENT_FAKE_WEBHOOK_SECRET'' = ''w''" "demo_settings ''OTEL_ENABLED'' = []"
  "demo_settings ''OTEL_EXPORTER_OTLP_ENDPOINT'' = []"
  by (simp_all add: demo_settings_def)

lemma demo_parts:
  "load_process demo_settings = ((EnvTest, ''booking-api''), [])"
  "snd (load_http fprod demo_settings) = []"
  "snd (load_redis fprod demo_settings) = []"
  "snd (int_in_range demo_settings ''MAX_ACTIVE_HOLDS'' 4 1 100) = []"
  "snd (load_postgres demo_settings) = []"
  "snd (load_auth fprod EnvTest demo_settings) = []"
  "snd (load_broker demo_settings) = []"
  "load_payment demo_settings =
     (\<lparr>yc_Provider = PaymentProviderFake, yc_FakeWebhookSecret = ''w'', yc_StripeSecretKey = [], yc_StripeWebhookSecret = []\<rparr>, [])"
  "snd (load_telemetry demo_ut (\<lambda>_. True) demo_settings) = []"
  by (simp_all add: load_process_def load_http_def load_redis_def load_postgres_def load_auth_def load_broker_def load_payment_def
      load_telemetry_def with_default_def read_duration_def int_in_range_def bool_var_def fail_if_def demo_setting Let_def
      EnvTest_def EnvDevelopment_def EnvProduction_def PaymentProviderFake_def PaymentProviderStripe_def is_production_def has_prefix_def)

lemma demo_log_level: "snd (log_level demo_ut demo_settings ''LOG_LEVEL'') = []"
proof -
  have "to_lower demo_ut ''info'' = ''info''" by (rule to_lower_plain) (simp_all add: byte_def is_upper_letter_def)
  then show ?thesis by (simp add: log_level_def with_default_def demo_setting Let_def)
qed

lemma demo_loaded: "\<exists>cfg. load_config demo_ut fprod (\<lambda>_. True) demo_settings = Inr cfg \<and> cfg_Env cfg = EnvTest \<and>
  cfg_Payment cfg = \<lparr>yc_Provider = PaymentProviderFake, yc_FakeWebhookSecret = ''w'', yc_StripeSecretKey = [], yc_StripeWebhookSecret = []\<rparr>"
  using demo_parts demo_log_level by (simp add: load_config_def case_prod_unfold)

theorem started_configurations_are_sound_witness:
  "\<exists>sp. start_server demo_libraries plain_pg demo_startup
       (load_config demo_ut (\<lambda>_ _ _. 0) (\<lambda>_. True) demo_settings) ([], demo_catalog) = Some (Inr sp) \<and>
     0 < ap_holdTTL (sp_api sp) \<and> rs_maxHolds (sp_holds sp) \<le> 100"
proof -
  obtain cfg where c: "load_config demo_ut (\<lambda>_ _ _. 0) (\<lambda>_. True) demo_settings = Inr cfg" "cfg_Env cfg = EnvTest"
    "cfg_Payment cfg = \<lparr>yc_Provider = PaymentProviderFake, yc_FakeWebhookSecret = ''w'', yc_StripeSecretKey = [], yc_StripeWebhookSecret = []\<rparr>"
    using demo_loaded by blast
  obtain sv where sv: "new_auth_service (pg_auth_ports Some plain_pg) plain_idkey plain_jwt demo_ut DefaultArgon2Params
      (new_token_issuer (ac_JWTSecret (cfg_Auth cfg)) (cfg_ServiceName cfg) (ac_AccessTokenTTL (cfg_Auth cfg)))
      (ac_AccessTokenTTL (cfg_Auth cfg)) (ac_RefreshTokenTTL (cfg_Auth cfg)) (Inr ''dummy'') (Inr ''salt'') = Some sv"
    using plain_service by blast
  have "EnvTest \<noteq> EnvDevelopment" by (simp add: EnvTest_def EnvDevelopment_def)
  then obtain sp where sp: "start_server demo_libraries plain_pg demo_startup (Inr cfg) ([], demo_catalog) = Some (Inr sp)"
    using c(2,3) sv
    by (cases "to_Enabled (telemetry_of cfg)")
      (auto simp: start_server_def demo_startup_def demo_libraries_def prepare_database_def select_gateway_def new_fake_gateway_def
        new_pool_def telemetry_setup_def Let_def)
  with started_configurations_are_sound [of demo_libraries plain_pg demo_startup demo_ut "\<lambda>_ _ _. 0" "\<lambda>_. True" demo_settings
      "([], demo_catalog)" sp] c(1)
  show ?thesis by auto
qed

end
