(* ===== verification/RequestLog.thy ===== *)
theory RequestLog
  imports HttpCore
begin

text \<open>
  \<open>internal/platform/middleware/logging.go\<close>: the recorder around a response writer and the line logged for a
  request. \<open>net/http\<close> sends the status of the first final \<open>WriteHeader\<close>, or 200 with the first \<open>Write\<close> or at the end.
\<close>

section \<open>The recorder\<close>

datatype write_op = WriteHeader int | Write string

record status_recorder =
  sr_code :: int
  sr_wroteHeader :: bool
  sr_userID :: string

definition new_recorder :: status_recorder where
  "new_recorder = \<lparr>sr_code = 0, sr_wroteHeader = False, sr_userID = []\<rparr>"

definition set_user_id :: "string \<Rightarrow> status_recorder \<Rightarrow> status_recorder" where
  "set_user_id i r = r\<lparr>sr_userID := i\<rparr>"

definition rec_write_header :: "int \<Rightarrow> status_recorder \<Rightarrow> status_recorder" where
  "rec_write_header code r = (if \<not> sr_wroteHeader r then r\<lparr>sr_code := code, sr_wroteHeader := True\<rparr> else r)"

definition rec_write :: "status_recorder \<Rightarrow> status_recorder" where
  "rec_write r = (if \<not> sr_wroteHeader r then r\<lparr>sr_code := 200, sr_wroteHeader := True\<rparr> else r)"

definition recorded_status :: "status_recorder \<Rightarrow> int" where
  "recorded_status r = (if \<not> sr_wroteHeader r then 200 else sr_code r)"

fun record_op :: "write_op \<Rightarrow> status_recorder \<Rightarrow> status_recorder" where
  "record_op (WriteHeader code) r = rec_write_header code r"
| "record_op (Write b) r = rec_write r"

text \<open>What goes out: informational codes come before the final one.\<close>

fun sent_status :: "write_op list \<Rightarrow> int" where
  "sent_status [] = 200"
| "sent_status (WriteHeader code # ops) = (if 100 \<le> code \<and> code < 200 \<and> code \<noteq> 101 then sent_status ops else code)"
| "sent_status (Write b # ops) = 200"

lemma recorded_kept: "sr_wroteHeader r \<Longrightarrow> fold record_op ops r = r"
proof (induction ops)
  case (Cons x ops)
  then show ?case by (cases x) (simp_all add: rec_write_header_def rec_write_def)
qed simp

text \<open>Without informational responses the status logged is the status sent.\<close>

lemma recorder_is_honest:
  assumes "\<forall>code. WriteHeader code \<in> set ops \<longrightarrow> 200 \<le> code"
  shows "recorded_status (fold record_op ops new_recorder) = sent_status ops"
proof (cases ops)
  case (Cons x r)
  then show ?thesis
    using assms by (cases x) (auto simp: rec_write_header_def rec_write_def new_recorder_def recorded_kept recorded_status_def)
qed (simp add: recorded_status_def new_recorder_def)

section \<open>The line\<close>

datatype log_level = LevelInfo | LevelError

datatype log_attr = AttrS string string | AttrI string int

record log_line =
  ln_level :: log_level
  ln_attrs :: "log_attr list"

definition skipLoggingPaths :: "string list" where
  "skipLoggingPaths = [''/healthz'', ''/readyz'']"

text \<open>The duration is in microseconds; the user is the recorder's, or the one of the context.\<close>

definition log_request :: "string \<Rightarrow> http_request \<Rightarrow> int \<Rightarrow> int \<Rightarrow> string \<Rightarrow> log_line" where
  "log_request path r status micros userID =
     (let u = (if userID = [] then (case rq_UserID r of None \<Rightarrow> [] | Some i \<Rightarrow> i) else userID)
      in \<lparr>ln_level = (if status \<ge> 500 then LevelError else LevelInfo),
          ln_attrs = [AttrS ''method'' (rq_Method r), AttrS ''path'' path, AttrI ''status'' status, AttrI ''duration_ms'' micros] @
            (if rq_RequestID r \<noteq> [] then [AttrS ''request_id'' (rq_RequestID r)] else []) @
            (if u \<noteq> [] then [AttrS ''user_id'' u] else [])\<rparr>)"

text \<open>\<open>None\<close> in the place of the writes is a panic of the handler, which goes on to \<open>Recovery\<close>.\<close>

definition logging :: "string \<Rightarrow> http_request \<Rightarrow> int \<Rightarrow> string \<Rightarrow> write_op list option \<Rightarrow> log_line option" where
  "logging path r micros userID writes =
     (if path \<in> set skipLoggingPaths then None
      else Some (case writes of
          None \<Rightarrow> log_request path r 500 micros userID
        | Some ops \<Rightarrow> log_request path r (recorded_status (fold record_op ops new_recorder)) micros userID))"

lemma panics_are_errors: "path \<notin> set skipLoggingPaths \<Longrightarrow> \<exists>l. logging path r micros u None = Some l \<and> ln_level l = LevelError"
  by (simp add: logging_def log_request_def Let_def)

end
