(* ===== verification/Lifecycle.thy ===== *)
theory Lifecycle
  imports Api RequestLog
begin

text \<open>
  The process around the API: \<open>internal/platform/server/server.go\<close>, the status of \<open>adapters/postgres/migrate.go\<close> and
  \<open>cmd/migrate/main.go\<close>. What goose and \<open>net/http\<close> answer is an argument.
\<close>

section \<open>Migrations\<close>

text \<open>\<open>%-8s\<close> pads on the right, counting runes.\<close>

definition pad_right :: "nat \<Rightarrow> string \<Rightarrow> string" where
  "pad_right n s = s @ replicate (n - rune_count s) (CHR '' '')"

definition status_line :: "migration_status \<Rightarrow> string" where
  "status_line s = pad_right 8 (ms_State s) @ [CHR 0x09] @ itoa (ms_Version s) @ [CHR 0x09] @ ms_Path s @ [CHR 0x0A]"

definition migrate_status :: "goose \<Rightarrow> postgres_config \<Rightarrow> string res" where
  "migrate_status g cfg =
     (case go_open g (postgres_dsn cfg) of
        Inl err \<Rightarrow> Inl (Errorf ''migrate: open db: %w'' [] [err])
      | Inr _ \<Rightarrow>
     (case go_provider g of
        Inl err \<Rightarrow> Inl (Errorf ''migrate: provider: %w'' [] [err])
      | Inr _ \<Rightarrow>
     (case go_status g of
        Inl err \<Rightarrow> Inl (Errorf ''migrate: status: %w'' [] [err])
      | Inr statuses \<Rightarrow> Inr (concat (map status_line statuses)))))"

text \<open>\<open>cmd/migrate\<close>: exit code, standard output and standard error.\<close>

definition fatal :: "texts \<Rightarrow> error \<Rightarrow> int \<times> string \<times> string" where
  "fatal tx err = (1, [], ''fatal: '' @ error_text tx err @ [CHR 0x0A])"

definition migrate_usage :: "int \<times> string \<times> string" where
  "migrate_usage = (2, [], ''usage: migrate <up|status>'' @ [CHR 0x0A])"

definition migrate_main :: "texts \<Rightarrow> goose \<Rightarrow> config res \<Rightarrow> string list \<Rightarrow> int \<times> string \<times> string" where
  "migrate_main tx g loaded args =
     (if length args \<noteq> 2 then migrate_usage
      else case loaded of
        Inl err \<Rightarrow> fatal tx err
      | Inr cfg \<Rightarrow>
          if args ! 1 = ''up'' then
            (case migrate_up g (cfg_Postgres cfg) of
               Inl err \<Rightarrow> fatal tx err
             | Inr applied \<Rightarrow> (0, ''migrations applied: '' @ itoa applied @ '' (database now up to date)'' @ [CHR 0x0A], []))
          else if args ! 1 = ''status'' then
            (case migrate_status g (cfg_Postgres cfg) of
               Inl err \<Rightarrow> fatal tx err
             | Inr out \<Rightarrow> (0, out, []))
          else migrate_usage)"

lemma migrate_exit_codes: "fst (migrate_main tx g loaded args) \<in> {0, 1, 2}"
  by (simp add: migrate_main_def migrate_usage_def fatal_def split: sum.split)

text \<open>The database is only touched by a known command under a valid configuration.\<close>

lemma migrate_succeeds:
  "fst (migrate_main tx g loaded args) = 0 \<Longrightarrow>
   \<exists>cfg prog. loaded = Inr cfg \<and> (args = [prog, ''up''] \<and> isl (go_up g) = False \<or> args = [prog, ''status''] \<and> isl (go_status g) = False)"
proof -
  assume z: "fst (migrate_main tx g loaded args) = 0"
  then have "length args = 2" by (auto simp: migrate_main_def migrate_usage_def split: if_splits)
  then obtain prog c where a: "args = [prog, c]" by (metis length_0_conv length_Suc_conv numeral_2_eq_2)
  then show ?thesis using z
    by (auto simp: migrate_main_def migrate_usage_def fatal_def migrate_up_def migrate_status_def split: sum.splits if_splits)
qed

section \<open>The server loop\<close>

text \<open>
  What \<open>Run\<close> waits for, in order: the listener gives up, or a signal cancels the context. Without either it goes on
  serving, which is \<open>None\<close>.
\<close>

datatype server_event = ListenReturned error | SignalReceived

definition ErrServerClosed :: error where
  "ErrServerClosed = Infra ''http: Server closed''"

fun server_run_loop :: "unit res \<Rightarrow> server_event list \<Rightarrow> unit res option" where
  "server_run_loop shutdown [] = None"
| "server_run_loop shutdown (ListenReturned err # es) =
     (if errors_is err ErrServerClosed then server_run_loop shutdown es else Some (Inl err))"
| "server_run_loop shutdown (SignalReceived # es) = Some shutdown"

text \<open>\<open>main\<close>: exit code 1 on any error of \<open>run\<close>; a panic while starting is \<open>None\<close> inside.\<close>

definition api_main ::
    "libraries \<Rightarrow> pg_env \<Rightarrow> startup \<Rightarrow> config res \<Rightarrow> pg_users \<times> pg_catalog \<Rightarrow> unit res \<Rightarrow> server_event list \<Rightarrow> int option option" where
  "api_main L E su loaded db shutdown events =
     (case start_server L E su loaded db of
        None \<Rightarrow> Some None
      | Some (Inl err) \<Rightarrow> Some (Some 1)
      | Some (Inr sp) \<Rightarrow>
          (case server_run_loop shutdown events of
             None \<Rightarrow> None
           | Some (Inl err) \<Rightarrow> Some (Some 1)
           | Some (Inr _) \<Rightarrow> Some (Some 0)))"

lemma signal_stops:
  assumes "SignalReceived \<in> set events" "\<forall>err. ListenReturned err \<in> set events \<longrightarrow> errors_is err ErrServerClosed"
  shows "server_run_loop shutdown events = Some shutdown"
  using assms
proof (induction events)
  case (Cons x es)
  then show ?case by (cases x) auto
qed simp

text \<open>A clean exit is a server that was started and drained.\<close>

lemma clean_exit:
  "api_main L E su loaded db shutdown events = Some (Some 0) \<Longrightarrow>
   (\<exists>sp. start_server L E su loaded db = Some (Inr sp)) \<and> shutdown = Inr () \<and> SignalReceived \<in> set events"
proof -
  assume z: "api_main L E su loaded db shutdown events = Some (Some 0)"
  have "server_run_loop shutdown es = Some (Inr ()) \<Longrightarrow> shutdown = Inr () \<and> SignalReceived \<in> set es" for es
  proof (induction es)
    case (Cons x es)
    then show ?case by (cases x) (auto split: if_splits)
  qed simp
  then show ?thesis using z by (auto simp: api_main_def split: option.splits sum.splits)
qed

section \<open>The clock of the in-memory stores\<close>

definition new_manual_clock :: "time \<Rightarrow> time" where
  "new_manual_clock start = start"

definition clock_advance :: "duration \<Rightarrow> time \<Rightarrow> time" where
  "clock_advance d now = now + d"

definition clock_set :: "time \<Rightarrow> time \<Rightarrow> time" where
  "clock_set t now = t"

end
