(* ===== verification/Spec2Isabelle.thy ===== *)
theory Spec2Isabelle
  imports PaymentProperties ProductionProperties AuthProperties ApiProperties Lifecycle
begin

text \<open>
  A verification development of bookingConcurrent, a cinema seat-booking API written in Go.

  \<^bold>\<open>The program.\<close> A buyer holds a seat of a screening for a limited time (a session), asks for a payment
  intent, pays through a gateway, and confirms; the confirmed booking is the sale. \<open>internal/domain\<close> holds the
  data and its pure rules; \<open>internal/application\<close> the use cases (auth, booking, payment, catalog), which touch
  state only through ports; \<open>internal/adapters\<close> the implementations of the ports (memory, Redis, PostgreSQL, the
  sandbox gateway) and the HTTP handlers; \<open>internal/platform\<close> configuration, middleware and the server loop;
  \<open>cmd/api\<close> puts them together and \<open>cmd/migrate\<close> runs the migrations. What makes it hard: many goroutines run
  use cases over shared stores, a use case is several calls on stores that commit separately, each call may fail
  with or without having taken effect, holds lapse while a request is under way, and webhooks repeat.

  \<^bold>\<open>Go in HOL.\<close> A string is a list of bytes, a fallible function returns \<open>'a res\<close> (\<open>Inl\<close> an \<open>error\<close> of
  \<open>Errors\<close>, where every sentinel is a constructor and \<open>errors_is\<close> follows what \<open>%w\<close> wraps), a struct is a record
  whose fields carry the Go name behind a prefix, an instant is nanoseconds since the Unix epoch. A panic is
  \<open>None\<close> where the code can have one. A method under one mutex, one SQL statement or transaction and one Lua
  script are one step each. Readings of the clock, generated identifiers and random bytes are arguments.

  \<^bold>\<open>Theories.\<close>

  \<^item> \<open>Prelude\<close>, \<open>GoStrings\<close>, \<open>Errors\<close>, \<open>GoDuration\<close>, \<open>Base64\<close>, \<open>Crypto\<close>, \<open>Json\<close>, \<open>ShaVectors\<close>: shared vocabulary, and what the
    code uses of \<open>strings\<close>, \<open>strconv\<close>, \<open>utf8\<close>, \<open>errors\<close>, \<open>time\<close>, \<open>base64\<close>, \<open>sha256\<close>, \<open>hmac\<close>, \<open>hex\<close> and
    \<open>encoding/json\<close>, written out, with SHA-256 evaluated on three messages.
  \<^item> \<open>DomainBooking\<close>, \<open>DomainMovie\<close>, \<open>DomainPayment\<close>, \<open>DomainUser\<close>: \<open>internal/domain\<close>.
  \<^item> \<open>HoldStore\<close>, \<open>BookingStore\<close>, \<open>PaymentStore\<close>, \<open>AuthStore\<close>: the contracts of the ports, as locales.
  \<^item> \<open>MemHoldStore\<close>, \<open>MemBookingStore\<close>, \<open>MemPaymentStore\<close>, \<open>MemAuthStore\<close>: \<open>adapters/memory\<close>.
  \<^item> \<open>Redis\<close>, \<open>RedisHoldStore\<close>: the commands of Redis as a parameter with laws, and \<open>adapters/redis/holdstore.go\<close> with
    its two Lua scripts. \<open>HoldRefinement\<close>, \<open>LedgerRefinement\<close>: the abstract hold, booking and payment stores that both
    implementations of each port refine. \<open>HoldHistory\<close>: a simulation between the two hold stores, kept by every call, and
    the count behind the hold limit, over whole histories of calls.
  \<^item> \<open>Postgres\<close>, \<open>PgBookingStore\<close>, \<open>PgPaymentStore\<close>, \<open>PgAuthStore\<close>: tables with the constraints of \<open>migrations\<close>,
    one definition per statement of \<open>adapters/postgres/sqlcgen\<close>, and the repositories \<open>repos_*.go\<close> over them.
  \<^item> \<open>Ports\<close>, \<open>BookingService\<close>, \<open>PaymentService\<close>: \<open>application/booking\<close> and \<open>application/payment\<close>. A use case is a tree
    whose nodes are port calls: run at once it is the sequential program, stepped by turns an interleaving.
  \<^item> \<open>FakeGateway\<close>: \<open>adapters/payment/fakegateway.go\<close>, with the signing and the verification of webhooks.
  \<^item> \<open>Server\<close>, \<open>ServerSafety\<close>, \<open>ServerBehaviour\<close>, \<open>ServerProgress\<close>: the requests of all goroutines over any stores. A
    step is one call of one request, a call that fails before or after its effect, the passing of time, or the
    arrival of a request; then the invariant of every interleaving, the outcome of a request run alone, and the
    way from a hold to its booking.
  \<^item> \<open>MemoryServer\<close>, \<open>ProductionServer\<close>: the server on the in-memory stores, and on Redis and PostgreSQL.
  \<^item> \<open>PasswordHasher\<close>, \<open>AccessToken\<close>, \<open>AuthPorts\<close>, \<open>AuthService\<close>, \<open>AuthFlows\<close>, \<open>AuthServers\<close>: \<open>application/auth\<close>
    (\<open>hasher.go\<close>, \<open>token.go\<close>, \<open>ports.go\<close>, \<open>service.go\<close>), its flows over any stores, and its two compositions.
    \<open>LogoutOverlap\<close>: the statement that revokes a family where it overlaps a refresh.
  \<^item> \<open>Catalog\<close>, \<open>Seed\<close>: \<open>application/catalog\<close> with both pairs of stores, and \<open>adapters/postgres/seed.go\<close>.
  \<^item> \<open>HttpCore\<close>, \<open>AuthHandlers\<close>, \<open>BookingHandlers\<close>: \<open>adapters/http\<close> and \<open>platform/middleware\<close>. A handler of the booking
    or payment services is the tree of the use case it reaches, with its reply as the result.
  \<^item> \<open>Config\<close>: \<open>platform/config\<close>. \<open>Platform\<close>: \<open>platform/logger\<close>, \<open>platform/telemetry\<close>, \<open>redis/client.go\<close>,
    \<open>postgres/pool.go\<close> and the migrations of \<open>postgres/migrate.go\<close>. \<open>Api\<close>: \<open>cmd/api/main.go\<close>, with the route table, the
    guards, the middleware chain and the start of the process. \<open>RequestLog\<close>: \<open>middleware/logging.go\<close>. \<open>Lifecycle\<close>:
    \<open>platform/server\<close>, \<open>cmd/migrate\<close> and the clock of \<open>adapters/memory/clock.go\<close>.
  \<^item> \<open>ApiRequests\<close>, \<open>ApiServer\<close>, \<open>ApiPurchase\<close>: what a request needs to get past the guards, every interleaving of HTTP
    requests as an interleaving of \<open>Server\<close> that remembers which requests came in, and a purchase by four requests.

  \<^bold>\<open>Interfaces.\<close> The locales \<open>hold_store\<close>, \<open>booking_store\<close> and \<open>payment_store\<close> state what the services rely on, over
  an abstract view of the state (live holds by session, the set of bookings, the map of payments). Each is
  interpreted on the in-memory store, and derived by \<open>sublocale\<close> from \<open>redis\<close> or \<open>postgres\<close>, which state documented
  behaviour of those servers and are themselves interpreted on a concrete keyspace and a concrete server. The
  locale \<open>server\<close> joins the three contracts and carries every property of the interleavings; it is interpreted in
  \<open>MemoryServer\<close> and for every Redis and PostgreSQL in \<open>ProductionServer\<close>. In the same way \<open>user_store\<close> and
  \<open>refresh_store\<close> give \<open>auth_stores\<close>, and this with \<open>argon2\<close> (the key derivation) and \<open>jwt\<close> (the token library)
  gives \<open>auth_flow\<close>, on the in-memory stores and on PostgreSQL. \<open>catalog_store\<close> has both implementations too.

  \<^bold>\<open>What the theorems show.\<close>

  \<^item> \<open>BookingProperties\<close>: in every interleaving no seat is sold twice, every sale is backed by a captured payment
    and a hold, and payments move along their status machine; what hold, confirm and the seat map do on each branch;
    the hold limit.
  \<^item> \<open>PaymentProperties\<close>: intents freeze the price and are idempotent, captures and webhooks count once and only for
    the frozen amount, a webhook is accepted exactly when it is authentic, fresh and well formed, and what is signed verifies.
  \<^item> \<open>ProductionProperties\<close>: the safety theorems over Redis and PostgreSQL, the refinement of the hold store, the
    equivalence of the two implementations of the hold port on every history and of the booking and payment ports on
    every call, the way from a live hold to a booking, buyers locked out by holds that lapsed, and two divergences.
  \<^item> \<open>AuthProperties\<close>: at most one usable refresh token per family, replay and logout kill the family for good,
    a logout that overlaps a refresh does not, password and e-mail round trips and shapes, registration, and logins that fail alike.
  \<^item> \<open>ApiProperties\<close>: a use case only runs for the user of a valid access token, every sale goes back to requests with
    its buyer's token, a login gives a token that opens the API, a free seat is sold to who asks for it, foreign sessions cannot be told from missing ones, and a
    process that serves has a sound configuration.
  \<^item> Component lemmas stand beside the definitions: decoding after encoding (\<open>Base64\<close>, \<open>Json\<close>, \<open>GoStrings\<close>), the
    constraints kept by every statement, the recorder that logs the status sent (\<open>RequestLog\<close>), exit codes and
    the clean exit (\<open>Lifecycle\<close>), a seed that stays half done (\<open>Seed\<close>), an empty geometry accepted (\<open>Catalog\<close>).

  \<^bold>\<open>Bounds and fuel.\<close> The trees are finite, and \<open>calls_le\<close> bounds the calls on their longest branch: eight is enough for
  every request of the booking and payment services. \<open>time.ParseDuration\<close> runs as many rounds as the text has bytes; a round consumes at least one.
  The JSON and UTF-8 scanners recurse on the text they consume. Durations, counters and the price are compared
  within the 32 and 64 bits of the code (\<open>GoDuration\<close>, \<open>Config\<close>, the \<open>int32\<close> columns of PostgreSQL); instants are
  unbounded, and the age of the refresh cookie is its whole seconds, as the code computes it up to 97 days.

  \<^bold>\<open>Not modelled.\<close>

  \<^item> Code that is not in the repository is a parameter with its documented laws: \<open>argon2.IDKey\<close>, the JWT library,
    the Redis commands, what PostgreSQL decides by itself (reading a UUID, the collation, which violated
    constraint it names), pgx and goose, \<open>uuid.Parse\<close>, the Unicode tables, \<open>url.Parse\<close>, the texts of library errors
    and the float product of a fractional duration.
  \<^item> A transaction of PostgreSQL is one step, also where READ COMMITTED lets two overlap. For bookings and payments the
    unique indexes and the guarded updates decide at the row, whatever the snapshot. For refresh tokens the difference
    shows: the revocation of a family can miss a successor that a \<open>Rotate\<close> in flight is about to commit. The properties of
    logout and replay are about calls that come one after the other; \<open>LogoutOverlap\<close> models the overlap of a logout.
  \<^item> Redis and the process share one clock. Text sent to PostgreSQL is valid UTF-8 without a NUL byte, and a
    generated identifier never repeats itself, so that primary keys do not clash.
  \<^item> The JSON text of the outbox payload is kept as a record, a response as the value given to the encoder.
  \<^item> \<open>net/http\<close>: paths reach the routes clean, the body of an answer to \<open>HEAD\<close> is not dropped; connections, timeouts
    and signals appear as the events \<open>Lifecycle\<close> waits for.
  \<^item> The generated wrapper \<open>sqlcgen/db.go\<close> and \<open>migrations/embed.go\<close> only hand a handle and files on; log lines of
    handlers and services have no effect on an answer or a state, and what slog and OpenTelemetry write is theirs.
\<close>

end
